(* ===== verification/Prelude.thy ===== *)
theory Prelude
  imports Complex_Main "HOL-Library.Sublist"
begin

text \<open>
  Shared vocabulary of the development: Python strings as lists of code points, the string
  operations the sources use, dictionaries as ordered association lists, exceptions as values,
  and the rewrite collections the component proofs share.

  A Python \<open>str\<close> is the list of its code points (\<open>str\<close> below), so lengths, slices and
  indices count what Python counts. A literal of the source is written \<open>lit ''...''\<close>.
\<close>

named_theorems dict_simps \<open>lookups and updates of ordered association lists\<close>
named_theorems text_defs \<open>definitions of the string operations, for evaluation\<close>

section \<open>Strings\<close>

type_synonym str = "nat list"

definition lit :: "string \<Rightarrow> str" where
  "lit s = map of_char s"

lemma lit_inject [simp]: "lit s = lit t \<longleftrightarrow> s = t"
proof -
  have "inj (of_char :: char \<Rightarrow> nat)"
    by (rule injI) simp
  then show ?thesis by (simp add: lit_def inj_map_eq_map)
qed

lemma lit_Nil [simp]: "lit [] = []" and lit_eq_Nil [simp]: "lit s = [] \<longleftrightarrow> s = []"
  and Nil_eq_lit [simp]: "[] = lit s \<longleftrightarrow> s = []"
  by (simp_all add: lit_def)

lemma length_lit [simp]: "length (lit s) = length s"
  by (simp add: lit_def)

declare lit_def [text_defs]

text \<open>The characters \<open>\d\<close> matches in a \<open>str\<close> pattern: the Unicode category Nd
  (Unicode 15, as in Python 3.12), which is a union of blocks of ten.\<close>

definition nd_starts :: "nat list" where
  "nd_starts =
    [48, 1632, 1776, 1984, 2406, 2534, 2662, 2790, 2918, 3046, 3174, 3302, 3430, 3558, 3664,
     3792, 3872, 4160, 4240, 6112, 6160, 6470, 6608, 6784, 6800, 6992, 7088, 7232, 7248, 42528,
     43216, 43264, 43472, 43504, 43600, 44016, 65296, 66720, 68912, 69734, 69872, 69942, 70096,
     70384, 70736, 70864, 71248, 71360, 71472, 71904, 72016, 72784, 73040, 73120, 73552, 92768,
     92864, 93008, 120782, 120792, 120802, 120812, 120822, 123200, 123632, 124144, 125264, 130032]"

definition is_digit :: "nat \<Rightarrow> bool" where
  "is_digit c \<longleftrightarrow> list_ex (\<lambda>s. s \<le> c \<and> c < s + 10) nd_starts"

text \<open>The characters \<open>\s\<close> matches, which are the ones \<open>str.strip\<close> removes.\<close>

definition is_space :: "nat \<Rightarrow> bool" where
  "is_space c \<longleftrightarrow> c \<in> set [9, 10, 11, 12, 13, 28, 29, 30, 31, 32, 133, 160, 5760, 8192, 8193, 8194,
     8195, 8196, 8197, 8198, 8199, 8200, 8201, 8202, 8232, 8233, 8239, 8287, 12288]"

definition strip_by :: "(nat \<Rightarrow> bool) \<Rightarrow> str \<Rightarrow> str" where
  "strip_by p s = rev (dropWhile p (rev (dropWhile p s)))"

definition strip :: "str \<Rightarrow> str" where
  "strip s = strip_by is_space s"

definition rstrip_by :: "(nat \<Rightarrow> bool) \<Rightarrow> str \<Rightarrow> str" where
  "rstrip_by p s = rev (dropWhile p (rev s))"

definition startswith :: "str \<Rightarrow> str \<Rightarrow> bool" where
  "startswith s p \<longleftrightarrow> take (length p) s = p"

definition endswith :: "str \<Rightarrow> str \<Rightarrow> bool" where
  "endswith s p \<longleftrightarrow> length p \<le> length s \<and> drop (length s - length p) s = p"

definition removeprefix :: "str \<Rightarrow> str \<Rightarrow> str" where
  "removeprefix s p = (if startswith s p then drop (length p) s else s)"

text \<open>\<open>str.lower\<close> on Latin-1 text: header names, header values and schemes reach the program
  decoded as Latin-1 by the ASGI server. (Lower-casing of arbitrary text is a parameter of the
  keyword scanner.)\<close>

definition lower1 :: "nat \<Rightarrow> nat" where
  "lower1 c = (if 65 \<le> c \<and> c \<le> 90 \<or> 192 \<le> c \<and> c \<le> 222 \<and> c \<noteq> 215 then c + 32 else c)"

definition lower :: "str \<Rightarrow> str" where
  "lower s = map lower1 s"

declare is_digit_def [text_defs] is_space_def [text_defs] strip_by_def [text_defs]
  strip_def [text_defs] rstrip_by_def [text_defs] startswith_def [text_defs]
  endswith_def [text_defs] removeprefix_def [text_defs] lower1_def [text_defs] lower_def [text_defs]
  nd_starts_def [text_defs]

text \<open>The same functions with the ASCII range decided first, for evaluation.\<close>

lemma is_digit_code [code]:
  "is_digit c = (if c < 128 then 48 \<le> c \<and> c < 58 else list_ex (\<lambda>s. s \<le> c \<and> c < s + 10) nd_starts)"
proof (cases "c < 128")
  case True
  then show ?thesis by (auto simp: is_digit_def nd_starts_def)
qed (simp add: is_digit_def)

lemma is_space_code [code]:
  "is_space c = (if c < 128 then 9 \<le> c \<and> c < 14 \<or> 28 \<le> c \<and> c < 33
     else c \<in> set [133, 160, 5760, 8192, 8193, 8194, 8195, 8196, 8197, 8198, 8199, 8200, 8201, 8202,
       8232, 8233, 8239, 8287, 12288])"
proof (cases "c < 128")
  case True
  have "9 \<le> c \<and> c < 14 \<longleftrightarrow> c = 9 \<or> c = 10 \<or> c = 11 \<or> c = 12 \<or> c = 13"
    "28 \<le> c \<and> c < 33 \<longleftrightarrow> c = 28 \<or> c = 29 \<or> c = 30 \<or> c = 31 \<or> c = 32" by arith+
  with True show ?thesis by (simp add: is_space_def)
qed (auto simp: is_space_def)

lemma startswith_iff: "startswith s p \<longleftrightarrow> (\<exists>t. s = p @ t)"
  unfolding startswith_def by (metis append_eq_conv_conj)

lemma startswith_append [simp]: "startswith (p @ t) p"
  by (simp add: startswith_def)

lemma removeprefix_append [simp]: "removeprefix (p @ t) p = t"
  by (simp add: removeprefix_def)

lemma lower1_idem [simp]: "lower1 (lower1 c) = lower1 c"
  by (simp add: lower1_def)

lemma lower_idem [simp]: "lower (lower s) = lower s"
  by (simp add: lower_def)

lemma length_lower [simp]: "length (lower s) = length s"
  by (simp add: lower_def)

lemma strip_by_fix:
  assumes "s = [] \<or> \<not> p (hd s) \<and> \<not> p (last s)"
  shows "strip_by p s = s"
proof -
  from assms have "dropWhile p s = s" and "dropWhile p (rev s) = rev s"
    unfolding dropWhile_eq_self_iff by (auto simp: hd_rev)
  then show ?thesis by (simp add: strip_by_def)
qed

lemma rev_dropWhile_hd:
  "xs \<noteq> [] \<Longrightarrow> \<not> p (hd xs) \<Longrightarrow> rev (dropWhile p (rev xs)) \<noteq> [] \<and> hd (rev (dropWhile p (rev xs))) = hd xs"
proof (induction xs rule: rev_induct)
  case Nil
  then show ?case by simp
next
  case (snoc x xs)
  then show ?case by (cases "xs = []") (auto simp: hd_append)
qed

lemma strip_by_ends: "strip_by p s = [] \<or> \<not> p (hd (strip_by p s)) \<and> \<not> p (last (strip_by p s))"
proof (cases "dropWhile p s = []")
  case True
  then have "strip_by p s = []" by (simp only: strip_by_def) simp
  then show ?thesis ..
next
  case False
  then have h: "\<not> p (hd (dropWhile p s))" by (rule hd_dropWhile)
  from rev_dropWhile_hd [where p = p, OF False h] have ne: "dropWhile p (rev (dropWhile p s)) \<noteq> []"
    and hd: "hd (strip_by p s) = hd (dropWhile p s)"
    by (auto simp: strip_by_def)
  from hd_dropWhile [OF ne] ne have "\<not> p (last (strip_by p s))"
    by (simp add: strip_by_def last_rev)
  with h hd show ?thesis by simp
qed

lemma strip_by_idem [simp]: "strip_by p (strip_by p s) = strip_by p s"
  by (rule strip_by_fix) (rule strip_by_ends)

lemma strip_idem [simp]: "strip (strip s) = strip s"
  by (simp add: strip_def)

lemma strip_by_Nil [simp]: "strip_by p [] = []"
  by (simp add: strip_by_def)

lemma strip_Nil [simp]: "strip [] = []"
  by (simp add: strip_def)

text \<open>\<open>str.partition(c)\<close> and \<open>str.find\<close>, \<open>str.rfind\<close> (as \<open>None\<close> for the source's -1).\<close>

definition partition_at :: "nat \<Rightarrow> str \<Rightarrow> str \<times> bool \<times> str" where
  "partition_at c s = (if c \<in> set s
     then (takeWhile (\<lambda>x. x \<noteq> c) s, True, tl (dropWhile (\<lambda>x. x \<noteq> c) s)) else (s, False, []))"

fun find_str :: "str \<Rightarrow> str \<Rightarrow> nat option" where
  "find_str [] k = (if k = [] then Some 0 else None)"
| "find_str (c # s) k =
     (if startswith (c # s) k then Some 0 else map_option Suc (find_str s k))"

fun rfind_str :: "str \<Rightarrow> str \<Rightarrow> nat option" where
  "rfind_str [] k = (if k = [] then Some 0 else None)"
| "rfind_str (c # s) k =
     (case rfind_str s k of Some i \<Rightarrow> Some (Suc i)
      | None \<Rightarrow> if startswith (c # s) k then Some 0 else None)"

text \<open>An occurrence of \<open>k\<close> at index \<open>i\<close> of \<open>s\<close>; \<open>rfind\<close> returns the last one.\<close>

definition occurs_at :: "str \<Rightarrow> str \<Rightarrow> nat \<Rightarrow> bool" where
  "occurs_at k s i \<longleftrightarrow> i \<le> length s \<and> startswith (drop i s) k"

lemma occurs_at_Cons_Suc [simp]: "occurs_at k (c # s) (Suc i) \<longleftrightarrow> occurs_at k s i"
  by (simp add: occurs_at_def)

lemma occurs_at_0: "occurs_at k s 0 \<longleftrightarrow> startswith s k"
  by (simp add: occurs_at_def)

lemma occurs_at_Nil: "occurs_at k [] i \<longleftrightarrow> i = 0 \<and> k = []"
  by (auto simp: occurs_at_def startswith_def)

lemma occurs_at_bound: "occurs_at k s i \<Longrightarrow> i + length k \<le> length s"
  by (auto simp: occurs_at_def startswith_iff) (metis add_leE length_append length_drop le_add1 ordered_cancel_comm_monoid_diff_class.le_diff_conv2 add.commute)

lemma rfind_str_None: "rfind_str s k = None \<longleftrightarrow> (\<forall>i. \<not> occurs_at k s i)"
proof (induction s)
  case Nil
  then show ?case by (auto simp: occurs_at_Nil)
next
  case (Cons c s)
  have "(\<forall>i. \<not> occurs_at k (c # s) i) \<longleftrightarrow> \<not> startswith (c # s) k \<and> (\<forall>i. \<not> occurs_at k s i)"
    by (metis occurs_at_0 occurs_at_Cons_Suc not0_implies_Suc)
  with Cons show ?case by (auto split: option.splits)
qed

lemma rfind_str_Some:
  "rfind_str s k = Some i \<longleftrightarrow> occurs_at k s i \<and> (\<forall>j>i. \<not> occurs_at k s j)"
proof (induction s arbitrary: i)
  case Nil
  then show ?case by (auto simp: occurs_at_Nil)
next
  case (Cons c s)
  show ?case
  proof (cases i)
    case 0
    have "(\<forall>j>0. \<not> occurs_at k (c # s) j) \<longleftrightarrow> (\<forall>j. \<not> occurs_at k s j)"
      by (metis gr0_implies_Suc occurs_at_Cons_Suc zero_less_Suc)
    then show ?thesis
      using 0 by (auto simp: rfind_str_None [symmetric] occurs_at_0 split: option.splits)
  next
    case (Suc i')
    have "(\<forall>j>Suc i'. \<not> occurs_at k (c # s) j) \<longleftrightarrow> (\<forall>j>i'. \<not> occurs_at k s j)"
      by (metis Suc_lessE Suc_less_eq occurs_at_Cons_Suc)
    with Suc Cons.IH [of i'] show ?thesis by (auto split: option.splits if_splits)
  qed
qed

text \<open>\<open>k in s\<close>.\<close>

definition contains :: "str \<Rightarrow> str \<Rightarrow> bool" where
  "contains s k \<longleftrightarrow> rfind_str s k \<noteq> None"

lemma contains_iff: "contains s k \<longleftrightarrow> (\<exists>i. occurs_at k s i)"
  using rfind_str_None [of s k] by (auto simp: contains_def)

text \<open>\<open>sep.join(parts)\<close>.\<close>

fun join :: "str \<Rightarrow> str list \<Rightarrow> str" where
  "join sep [] = []"
| "join sep [p] = p"
| "join sep (p # q # ps) = p @ sep @ join sep (q # ps)"

lemma join_Cons: "join sep (p # ps) = (if ps = [] then p else p @ sep @ join sep ps)"
  by (cases ps) auto

section \<open>Dictionaries\<close>

text \<open>A Python \<open>dict\<close> keeps insertion order: it is an association list with distinct keys;
  an assignment replaces the value in place or appends a new entry.\<close>

type_synonym ('k, 'v) dict = "('k \<times> 'v) list"

fun dict_set :: "('k, 'v) dict \<Rightarrow> 'k \<Rightarrow> 'v \<Rightarrow> ('k, 'v) dict" where
  "dict_set [] k v = [(k, v)]"
| "dict_set ((k', v') # d) k v = (if k' = k then (k, v) # d else (k', v') # dict_set d k v)"

abbreviation dict_get :: "('k, 'v) dict \<Rightarrow> 'k \<Rightarrow> 'v option" where
  "dict_get d k \<equiv> map_of d k"

definition get_or :: "('k, 'v) dict \<Rightarrow> 'k \<Rightarrow> 'v \<Rightarrow> 'v" where
  "get_or d k v = (case dict_get d k of Some x \<Rightarrow> x | None \<Rightarrow> v)"

definition dict_keys :: "('k, 'v) dict \<Rightarrow> 'k set" where
  "dict_keys d = fst ` set d"

lemma dict_get_set [simp, dict_simps]:
  "dict_get (dict_set d k v) k' = (if k' = k then Some v else dict_get d k')"
  by (induction d) auto

lemma fst_set_dict_set: "fst ` set (dict_set d k v) = insert k (fst ` set d)"
  by (induction d k v rule: dict_set.induct) auto

lemma dict_keys_set [simp, dict_simps]: "dict_keys (dict_set d k v) = insert k (dict_keys d)"
  by (simp add: dict_keys_def fst_set_dict_set)

lemma distinct_dict_set: "distinct (map fst d) \<Longrightarrow> distinct (map fst (dict_set d k v))"
  by (induction d k v rule: dict_set.induct) (auto simp: fst_set_dict_set)

lemma set_dict_set_subset: "set (dict_set d k v) \<subseteq> insert (k, v) (set d)"
  by (induction d) (auto split: if_splits)

lemma dict_set_in: "(k, v) \<in> set (dict_set d k v)"
  by (induction d) auto

section \<open>Exceptions and results\<close>

text \<open>The exceptions the modelled code raises or propagates. \<open>Http_Error\<close> is FastAPI's
  \<open>HTTPException\<close>; \<open>Other_Error\<close> is any exception of code that is a parameter.\<close>

datatype exn =
    Type_Error
  | Attribute_Error
  | Value_Error str
  | Unbound_Local str
  | Runtime_Error str
  | Http_Error nat str
  | Scanner_Unavailable str
  | Key_Provider_Error str
  | Other_Error str

type_synonym 'a res = "exn + 'a"

definition rbind :: "'a res \<Rightarrow> ('a \<Rightarrow> 'b res) \<Rightarrow> 'b res" where
  "rbind x f = (case x of Inl e \<Rightarrow> Inl e | Inr a \<Rightarrow> f a)"

lemma rbind_simps [simp]: "rbind (Inl e) f = Inl e" "rbind (Inr a) f = f a"
  by (simp_all add: rbind_def)

lemma rbind_eq_Inr: "rbind x f = Inr b \<longleftrightarrow> (\<exists>a. x = Inr a \<and> f a = Inr b)"
  by (cases x) auto

lemma rbind_eq_Inl: "rbind x f = Inl e \<longleftrightarrow> x = Inl e \<or> (\<exists>a. x = Inr a \<and> f a = Inl e)"
  by (cases x) auto

text \<open>\<open>[f(x) for x in xs]\<close> where \<open>f\<close> may raise: the first exception ends the loop.\<close>

fun rmap :: "('a \<Rightarrow> 'b res) \<Rightarrow> 'a list \<Rightarrow> 'b list res" where
  "rmap f [] = Inr []"
| "rmap f (x # xs) = rbind (f x) (\<lambda>y. rbind (rmap f xs) (\<lambda>ys. Inr (y # ys)))"

lemma rmap_Inr_iff: "rmap f xs = Inr ys \<longleftrightarrow> list_all2 (\<lambda>x y. f x = Inr y) xs ys"
proof (induction xs arbitrary: ys)
  case Nil
  then show ?case by auto
next
  case (Cons x xs)
  then show ?case by (cases ys) (auto simp: rbind_eq_Inr)
qed

lemma rmap_total: "(\<And>x. x \<in> set xs \<Longrightarrow> f x = Inr (g x)) \<Longrightarrow> rmap f xs = Inr (map g xs)"
  by (induction xs) auto

section \<open>Bounded pages\<close>

text \<open>\<open>min(max(limit, 1), cap)\<close> and \<open>max(offset, 0)\<close>, the guards every listing applies, and
  the SQL \<open>LIMIT n OFFSET m\<close>.\<close>

definition safe_limit :: "int \<Rightarrow> int \<Rightarrow> int" where
  "safe_limit cap n = min (max n 1) cap"

definition page :: "int \<Rightarrow> int \<Rightarrow> 'a list \<Rightarrow> 'a list" where
  "page limit offset xs = take (nat limit) (drop (nat offset) xs)"

lemma safe_limit_bounds: "1 \<le> cap \<Longrightarrow> 1 \<le> safe_limit cap n \<and> safe_limit cap n \<le> cap"
  by (auto simp: safe_limit_def)

lemma length_page_le: "length (page n m xs) \<le> nat n"
  by (simp add: page_def)

lemma set_page_subset: "set (page n m xs) \<subseteq> set xs"
  unfolding page_def by (meson order_trans set_drop_subset set_take_subset)

end
