(* ===== verification/Json.thy ===== *)
theory Json
  imports Prelude
begin

text \<open>
  The Python values that \<open>json.loads\<close> returns, which every component of the proxy passes
  around: \<open>None\<close>, \<open>bool\<close>, \<open>int\<close>, \<open>float\<close>, \<open>str\<close>, \<open>list\<close> and \<open>dict\<close> (with its insertion
  order). A float is the rational it denotes; \<open>NaN\<close> and the infinities are left out. Also
  Python's truth value, deep equality \<open>==\<close> and \<open>x in {...}\<close> on these values.
\<close>

datatype json =
    JNull
  | JBool bool
  | JInt int
  | JFloat rat
  | JStr str
  | JList "json list"
  | JDict "(str \<times> json) list"

fun truthy :: "json \<Rightarrow> bool" where
  "truthy JNull = False"
| "truthy (JBool b) = b"
| "truthy (JInt n) = (n \<noteq> 0)"
| "truthy (JFloat x) = (x \<noteq> 0)"
| "truthy (JStr s) = (s \<noteq> [])"
| "truthy (JList xs) = (xs \<noteq> [])"
| "truthy (JDict d) = (d \<noteq> [])"

fun is_dict :: "json \<Rightarrow> bool" where
  "is_dict (JDict d) = True"
| "is_dict _ = False"

text \<open>\<open>body.get(key, default)\<close> on a value known to be a \<open>dict\<close>.\<close>

fun json_get :: "json \<Rightarrow> str \<Rightarrow> json \<Rightarrow> json" where
  "json_get (JDict d) k v = get_or d k v"
| "json_get _ k v = v"

text \<open>\<open>x in {'a', 'b'}\<close> hashes \<open>x\<close>: a list or a dict raises \<open>TypeError\<close>.\<close>

fun in_str_set :: "json \<Rightarrow> str list \<Rightarrow> bool res" where
  "in_str_set (JList xs) S = Inl Type_Error"
| "in_str_set (JDict d) S = Inl Type_Error"
| "in_str_set (JStr s) S = Inr (s \<in> set S)"
| "in_str_set _ S = Inr False"

text \<open>\<open>==\<close>: a number equals a number of the same value whatever its type (\<open>True == 1 == 1.0\<close>),
  lists compare element by element, dictionaries ignore the order of their keys.\<close>

fun num_of :: "json \<Rightarrow> rat option" where
  "num_of (JBool b) = Some (if b then 1 else 0)"
| "num_of (JInt n) = Some (of_int n)"
| "num_of (JFloat x) = Some x"
| "num_of _ = None"

fun py_eq :: "json \<Rightarrow> json \<Rightarrow> bool"
  and py_eq_list :: "json list \<Rightarrow> json list \<Rightarrow> bool"
  and py_eq_items :: "(str \<times> json) list \<Rightarrow> (str \<times> json) list \<Rightarrow> bool" where
  "py_eq (JStr s) y = (case y of JStr t \<Rightarrow> s = t | _ \<Rightarrow> False)"
| "py_eq (JList xs) y = (case y of JList ys \<Rightarrow> py_eq_list xs ys | _ \<Rightarrow> False)"
| "py_eq (JDict d) y = (case y of JDict e \<Rightarrow> length d = length e \<and> py_eq_items d e | _ \<Rightarrow> False)"
| "py_eq JNull y = (y = JNull)"
| "py_eq x y = (num_of x = num_of y)"
| "py_eq_list [] ys = (ys = [])"
| "py_eq_list (x # xs) ys = (case ys of [] \<Rightarrow> False | y # ys' \<Rightarrow> py_eq x y \<and> py_eq_list xs ys')"
| "py_eq_items [] e = True"
| "py_eq_items ((k, v) # d) e =
     ((case dict_get e k of None \<Rightarrow> False | Some w \<Rightarrow> py_eq v w) \<and> py_eq_items d e)"

lemma py_eq_list_iff: "py_eq_list xs ys \<longleftrightarrow> list_all2 py_eq xs ys"
proof (induction xs arbitrary: ys)
  case Nil
  then show ?case by simp
next
  case (Cons x xs)
  then show ?case by (cases ys) auto
qed

text \<open>Every dictionary inside a value has distinct keys: what the JSON parser returns.\<close>

fun wf_json :: "json \<Rightarrow> bool" where
  "wf_json (JList xs) = list_all wf_json xs"
| "wf_json (JDict d) = (distinct (map fst d) \<and> list_all (\<lambda>(k, v). wf_json v) d)"
| "wf_json _ = True"

lemma py_eq_items_refl:
  assumes "distinct (map fst e)" "set d \<subseteq> set e" "\<And>k v. (k, v) \<in> set d \<Longrightarrow> py_eq v v"
  shows "py_eq_items d e"
  using assms
proof (induction d)
  case Nil
  then show ?case by simp
next
  case (Cons p d)
  obtain k v where p: "p = (k, v)" by (cases p)
  with Cons.prems(1,2) have "dict_get e k = Some v" by simp
  moreover have "py_eq v v" by (rule Cons.prems(3) [of k]) (simp add: p)
  moreover have "py_eq_items d e" using Cons.prems by (intro Cons.IH) auto
  ultimately show ?case by (simp add: p)
qed

lemma py_eq_refl: "wf_json x \<Longrightarrow> py_eq x x"
proof (induction x)
  case (JList xs)
  then show ?case
    by (simp add: py_eq_list_iff list_all2_same list_all_iff)
next
  case (JDict d)
  have "py_eq_items d d"
  proof (rule py_eq_items_refl)
    show "distinct (map fst d)" using JDict.prems by simp
    fix k v assume kv: "(k, v) \<in> set d"
    with JDict.prems have "wf_json v" by (auto simp: list_all_iff)
    with kv JDict.IH show "py_eq v v" by (force simp: snds.simps)
  qed simp
  then show ?case by simp
qed auto

lemma json_get_size: "json_get j k v = x \<Longrightarrow> x = v \<or> size x < size j"
proof -
  have "dict_get d k = Some y \<Longrightarrow> size y < size (JDict d)" for d y
  proof (induction d)
    case (Cons p d)
    then show ?case by (cases p) (auto split: if_splits)
  qed simp
  then show "json_get j k v = x \<Longrightarrow> x = v \<or> size x < size j"
    by (cases j) (auto simp: get_or_def split: option.splits)
qed

end
