(* ===== verification/Regex.thy ===== *)
theory Regex
  imports Prelude
begin

text \<open>
  The part of Python's \<open>re\<close> module the sources use: a backtracking matcher with Perl priorities
  (greedy repetition, ordered alternatives, one-character look-around), \<open>finditer\<close> and \<open>sub\<close>.
  Compiling a pattern string is a parameter of the components that do it; the two patterns
  written in the sources are given here as syntax trees.
\<close>

section \<open>Patterns and matching\<close>

datatype re =
    Cls "nat \<Rightarrow> bool"
  | Seq re re
  | Alt re re
  | Rep re nat nat
  | NotBehind "nat \<Rightarrow> bool"
  | NotAhead "nat \<Rightarrow> bool"

text \<open>A position in the subject is the text before it (reversed) and the text after it. A match
  from a position is a list of end positions in the order backtracking tries them.\<close>

type_synonym pos = "str \<times> str"

fun rep :: "(pos \<Rightarrow> pos list) \<Rightarrow> nat \<Rightarrow> nat \<Rightarrow> pos \<Rightarrow> pos list" where
  "rep f m 0 x = (if m = 0 then [x] else [])"
| "rep f m (Suc n) x = concat (map (rep f (m - 1) n) (f x)) @ (if m = 0 then [x] else [])"

fun rmatch :: "re \<Rightarrow> pos \<Rightarrow> pos list" where
  "rmatch (Cls p) (b, a) = (case a of c # a' \<Rightarrow> if p c then [(c # b, a')] else [] | [] \<Rightarrow> [])"
| "rmatch (Seq r s) x = concat (map (rmatch s) (rmatch r x))"
| "rmatch (Alt r s) x = rmatch r x @ rmatch s x"
| "rmatch (Rep r m n) x = rep (rmatch r) m n x"
| "rmatch (NotBehind p) (b, a) = (case b of c # _ \<Rightarrow> if p c then [] else [(b, a)] | [] \<Rightarrow> [(b, a)])"
| "rmatch (NotAhead p) (b, a) = (case a of c # _ \<Rightarrow> if p c then [] else [(b, a)] | [] \<Rightarrow> [(b, a)])"

text \<open>A position reached by matching: some text \<open>w\<close> moved from after to before.\<close>

definition moves :: "pos \<Rightarrow> str \<Rightarrow> pos \<Rightarrow> bool" where
  "moves x w y \<longleftrightarrow> snd x = w @ snd y \<and> fst y = rev w @ fst x"

lemma moves_refl: "moves x [] x"
  by (simp add: moves_def)

lemma moves_trans: "moves x v y \<Longrightarrow> moves y w z \<Longrightarrow> moves x (v @ w) z"
  by (auto simp: moves_def)

lemma moves_length: "moves x w y \<Longrightarrow> length (snd y) \<le> length (snd x)"
  by (auto simp: moves_def)

text \<open>\<open>advances f k g\<close>: every end position of \<open>f\<close> is reached by moving a text with at least
  \<open>k\<close> characters satisfying \<open>g\<close>.\<close>

definition advances :: "(pos \<Rightarrow> pos list) \<Rightarrow> nat \<Rightarrow> (nat \<Rightarrow> bool) \<Rightarrow> bool" where
  "advances f k g \<longleftrightarrow> (\<forall>x y. y \<in> set (f x) \<longrightarrow> (\<exists>w. moves x w y \<and> k \<le> length (filter g w)))"

lemma advancesD: "advances f k g \<Longrightarrow> y \<in> set (f x) \<Longrightarrow> \<exists>w. moves x w y \<and> k \<le> length (filter g w)"
  unfolding advances_def by blast

lemma advances_Cls: "(\<And>c. p c \<Longrightarrow> g c) \<Longrightarrow> advances (rmatch (Cls p)) 1 g"
  unfolding advances_def
proof (intro allI impI)
  fix x y assume g: "\<And>c. p c \<Longrightarrow> g c" and y: "y \<in> set (rmatch (Cls p) x)"
  obtain b a where x: "x = (b, a)" by (cases x)
  with y obtain c a' where "a = c # a'" "p c" "y = (c # b, a')"
    by (auto split: list.splits if_splits)
  with g x show "\<exists>w. moves x w y \<and> 1 \<le> length (filter g w)"
    by (intro exI [of _ "[c]"]) (simp add: moves_def)
qed

lemma advances_Cls0: "advances (rmatch (Cls p)) 0 g"
  unfolding advances_def
proof (intro allI impI)
  fix x y assume y: "y \<in> set (rmatch (Cls p) x)"
  obtain b a where x: "x = (b, a)" by (cases x)
  with y obtain c a' where "a = c # a'" "y = (c # b, a')"
    by (auto split: list.splits if_splits)
  with x show "\<exists>w. moves x w y \<and> 0 \<le> length (filter g w)"
    by (intro exI [of _ "[c]"]) (simp add: moves_def)
qed

lemma advances_Seq:
  assumes "advances (rmatch r) j g" and "advances (rmatch s) k g"
  shows "advances (rmatch (Seq r s)) (j + k) g"
  unfolding advances_def
proof (intro allI impI)
  fix x z assume "z \<in> set (rmatch (Seq r s) x)"
  then obtain y where y: "y \<in> set (rmatch r x)" "z \<in> set (rmatch s y)" by auto
  obtain v w where v: "moves x v y" "j \<le> length (filter g v)"
    and w: "moves y w z" "k \<le> length (filter g w)"
    using assms y by (meson advancesD)
  from moves_trans [OF v(1) w(1)] v(2) w(2)
  show "\<exists>w. moves x w z \<and> j + k \<le> length (filter g w)"
    by (intro exI [of _ "v @ w"]) simp
qed

lemma advances_Alt:
  "advances (rmatch r) k g \<Longrightarrow> advances (rmatch s) k g \<Longrightarrow> advances (rmatch (Alt r s)) k g"
  unfolding advances_def by auto

lemma advances_rep:
  assumes f: "advances f k g"
  shows "y \<in> set (rep f m n x) \<Longrightarrow> \<exists>w. moves x w y \<and> m * k \<le> length (filter g w)"
proof (induction n arbitrary: m x)
  case 0
  then show ?case by (auto split: if_splits intro: exI [of _ "[]"] simp: moves_refl)
next
  case (Suc n)
  from Suc.prems consider "m = 0" "y = x" | z where "z \<in> set (f x)" "y \<in> set (rep f (m - 1) n z)"
    by (auto split: if_splits)
  then show ?case
  proof cases
    case 1
    then show ?thesis by (auto intro: exI [of _ "[]"] simp: moves_refl)
  next
    case 2
    obtain v where v: "moves x v z" "k \<le> length (filter g v)"
      using advancesD [OF f 2(1)] by blast
    obtain w where w: "moves z w y" "(m - 1) * k \<le> length (filter g w)"
      using Suc.IH [OF 2(2)] by blast
    have "m * k \<le> k + (m - 1) * k" by (cases m) auto
    with moves_trans [OF v(1) w(1)] v(2) w(2) show ?thesis
      by (intro exI [of _ "v @ w"]) simp
  qed
qed

lemma advances_Rep: "advances (rmatch r) k g \<Longrightarrow> advances (rmatch (Rep r m n)) (m * k) g"
  unfolding advances_def [of "rmatch (Rep r m n)"] by (auto dest: advances_rep)

lemma advances_look:
  "advances (rmatch (NotBehind p)) 0 g" "advances (rmatch (NotAhead p)) 0 g"
  unfolding advances_def by (auto split: list.splits if_splits intro: exI [of _ "[]"] simp: moves_refl)

lemma advances_mono: "advances f k g \<Longrightarrow> j \<le> k \<Longrightarrow> advances f j g"
  unfolding advances_def by (meson order_trans)

lemma advances_0: "advances (rmatch r) 0 g"
proof (induction r)
  case (Cls p)
  then show ?case by (rule advances_Cls0)
next
  case (Seq r s)
  from advances_Seq [OF Seq] show ?case by (simp only: add_0)
next
  case (Rep r m n)
  from advances_Rep [OF Rep] show ?case by (simp only: mult_0_right)
qed (rule advances_Alt advances_look, assumption?, assumption?)+

lemmas advances_intros = advances_Cls advances_Seq advances_Alt advances_Rep advances_look

lemma rmatch_moves: "y \<in> set (rmatch r x) \<Longrightarrow> \<exists>w. moves x w y"
  using advancesD [OF advances_0] by blast

lemma rmatch_shorter: "y \<in> set (rmatch r x) \<Longrightarrow> length (snd y) \<le> length (snd x)"
  using rmatch_moves moves_length by blast

section \<open>Scanning a subject\<close>

text \<open>\<open>first_match r adv x\<close>: the end of the match at position \<open>x\<close>. After an empty match the
  scanner must advance (\<open>adv\<close>), so an empty match at the same position is refused and
  backtracking goes on to the next candidate.\<close>

definition first_match :: "re \<Rightarrow> bool \<Rightarrow> pos \<Rightarrow> pos option" where
  "first_match r adv x =
     (case filter (\<lambda>y. adv \<longrightarrow> length (snd y) < length (snd x)) (rmatch r x) of
        y # _ \<Rightarrow> Some y | [] \<Rightarrow> None)"

lemma first_match_in: "first_match r adv x = Some y \<Longrightarrow> y \<in> set (rmatch r x)"
  unfolding first_match_def by (auto split: list.splits dest: filter_eq_ConsD)

lemma first_match_adv: "first_match r True x = Some y \<Longrightarrow> length (snd y) < length (snd x)"
  unfolding first_match_def by (auto split: list.splits dest: filter_eq_ConsD)

lemma first_match_None: "first_match r False x = None \<longleftrightarrow> rmatch r x = []"
  unfolding first_match_def by (auto split: list.splits)

lemma first_match_shorter: "first_match r adv x = Some y \<Longrightarrow> length (snd y) \<le> length (snd x)"
  by (blast intro: rmatch_shorter dest: first_match_in)

text \<open>The scan: a non-empty match is consumed, an empty one sets \<open>adv\<close>, no match moves on by one
  character. A match is its two end positions; \<open>sub\<close> replaces each match by its image.\<close>

definition scan_measure :: "re \<times> bool \<times> pos \<Rightarrow> nat" where
  "scan_measure = (\<lambda>(r, adv, x). 2 * length (snd x) + (if adv then 0 else 1))"

function finditer_from :: "re \<Rightarrow> bool \<Rightarrow> pos \<Rightarrow> (pos \<times> pos) list" where
  "finditer_from r adv x =
     (case first_match r adv x of
        Some y \<Rightarrow> (x, y) # finditer_from r (snd y = snd x) y
      | None \<Rightarrow> (case snd x of [] \<Rightarrow> []
                 | c # a \<Rightarrow> finditer_from r False (c # fst x, a)))"
  by pat_completeness auto
termination
proof (relation "measure scan_measure")
  fix r adv x y assume y: "first_match r adv x = Some y"
  show "((r, snd y = snd x, y), r, adv, x) \<in> measure scan_measure"
  proof (cases "snd y = snd x")
    case True
    with y first_match_adv [of r x y] have "\<not> adv" by (cases adv) auto
    with True show ?thesis by (simp add: scan_measure_def)
  next
    case False
    with rmatch_moves [OF first_match_in [OF y]] have "length (snd y) < length (snd x)"
      by (auto simp: moves_def)
    with False show ?thesis by (simp add: scan_measure_def)
  qed
qed (auto simp: scan_measure_def)

text \<open>The text between two positions of one subject.\<close>

definition group :: "pos \<Rightarrow> pos \<Rightarrow> str" where
  "group x y = take (length (snd x) - length (snd y)) (snd x)"

lemma group_moves: "moves x w y \<Longrightarrow> group x y = w"
  by (simp add: group_def moves_def)

function sub_from :: "re \<Rightarrow> (str \<Rightarrow> str) \<Rightarrow> bool \<Rightarrow> pos \<Rightarrow> str" where
  "sub_from r f adv x =
     (case first_match r adv x of
        Some y \<Rightarrow> f (group x y) @ sub_from r f (snd y = snd x) y
      | None \<Rightarrow> (case snd x of [] \<Rightarrow> []
                 | c # a \<Rightarrow> c # sub_from r f False (c # fst x, a)))"
  by pat_completeness auto
termination
proof (relation "measure (\<lambda>(r, f, adv, x). scan_measure (r, adv, x))")
  fix r :: re and f :: "str \<Rightarrow> str" and adv x y assume y: "first_match r adv x = Some y"
  show "((r, f, snd y = snd x, y), r, f, adv, x) \<in> measure (\<lambda>(r, f, adv, x). scan_measure (r, adv, x))"
  proof (cases "snd y = snd x")
    case True
    with y first_match_adv [of r x y] have "\<not> adv" by (cases adv) auto
    with True show ?thesis by (simp add: scan_measure_def)
  next
    case False
    with rmatch_moves [OF first_match_in [OF y]] have "length (snd y) < length (snd x)"
      by (auto simp: moves_def)
    with False show ?thesis by (simp add: scan_measure_def)
  qed
qed (auto simp: scan_measure_def)

declare finditer_from.simps [simp del] sub_from.simps [simp del]

definition finditer :: "re \<Rightarrow> str \<Rightarrow> (pos \<times> pos) list" where
  "finditer r s = finditer_from r False ([], s)"

definition re_sub :: "re \<Rightarrow> (str \<Rightarrow> str) \<Rightarrow> str \<Rightarrow> str" where
  "re_sub r f s = sub_from r f False ([], s)"

text \<open>\<open>match.span()\<close>.\<close>

definition span :: "pos \<times> pos \<Rightarrow> nat \<times> nat" where
  "span m = (length (fst (fst m)), length (fst (snd m)))"

text \<open>A position of the subject \<open>s\<close>.\<close>

definition pos_of :: "str \<Rightarrow> pos \<Rightarrow> bool" where
  "pos_of s x \<longleftrightarrow> rev (fst x) @ snd x = s"

lemma pos_of_moves: "pos_of s x \<Longrightarrow> moves x w y \<Longrightarrow> pos_of s y"
  by (auto simp: pos_of_def moves_def)

lemma finditer_from_sound:
  "pos_of s x \<Longrightarrow> m \<in> set (finditer_from r adv x) \<Longrightarrow>
   pos_of s (fst m) \<and> (\<exists>w. moves (fst m) w (snd m)) \<and> snd m \<in> set (rmatch r (fst m))"
proof (induction r adv x rule: finditer_from.induct)
  case (1 r adv x)
  show ?case
  proof (cases "first_match r adv x")
    case None
    then obtain c a where a: "snd x = c # a" "m \<in> set (finditer_from r False (c # fst x, a))"
      using "1.prems" by (cases "snd x") (auto simp: finditer_from.simps [of r adv x])
    moreover have "pos_of s (c # fst x, a)" using "1.prems"(1) a(1) by (simp add: pos_of_def)
    ultimately show ?thesis using "1.IH"(1) [OF None a(1)] a(2) by blast
  next
    case (Some y)
    obtain w where w: "moves x w y" using rmatch_moves first_match_in Some by blast
    have "m = (x, y) \<or> m \<in> set (finditer_from r (snd y = snd x) y)"
      using "1.prems"(2) Some by (auto simp: finditer_from.simps [of r adv x])
    then show ?thesis
      using "1.IH"(2) [OF Some pos_of_moves [OF "1.prems"(1) w]] w "1.prems"(1) first_match_in [OF Some]
      by auto
  qed
qed

lemma finditer_sound:
  "m \<in> set (finditer r s) \<Longrightarrow>
   pos_of s (fst m) \<and> (\<exists>w. moves (fst m) w (snd m)) \<and> snd m \<in> set (rmatch r (fst m))"
  unfolding finditer_def by (rule finditer_from_sound) (auto simp: pos_of_def)

lemma span_bounds:
  assumes "m \<in> set (finditer r s)"
  shows "fst (span m) \<le> snd (span m)" and "snd (span m) \<le> length s"
    and "group (fst m) (snd m) = take (snd (span m) - fst (span m)) (drop (fst (span m)) s)"
proof -
  from finditer_sound [OF assms] obtain w where p: "pos_of s (fst m)" and w: "moves (fst m) w (snd m)"
    by blast
  from p w have s: "s = rev (fst (fst m)) @ w @ snd (snd m)" by (auto simp: pos_of_def moves_def)
  from w have e: "length (fst (snd m)) = length w + length (fst (fst m))" by (simp add: moves_def)
  from e show "fst (span m) \<le> snd (span m)" by (simp add: span_def)
  from s e show "snd (span m) \<le> length s" by (simp add: span_def)
  from w s e show "group (fst m) (snd m) = take (snd (span m) - fst (span m)) (drop (fst (span m)) s)"
    by (simp add: group_moves span_def)
qed

text \<open>No match means the subject has none at any position, and then \<open>sub\<close> changes nothing.\<close>

lemma finditer_from_Nil:
  "finditer_from r False (b, a) = [] \<longleftrightarrow>
   (\<forall>u v. a = u @ v \<longrightarrow> rmatch r (rev u @ b, v) = [])"
proof (induction a arbitrary: b)
  case Nil
  then show ?case
    by (auto simp: finditer_from.simps [of r False "(b, [])"] first_match_None [symmetric]
        split: option.splits)
next
  case (Cons c a)
  have "(\<forall>u v. c # a = u @ v \<longrightarrow> rmatch r (rev u @ b, v) = []) \<longleftrightarrow>
    rmatch r (b, c # a) = [] \<and> (\<forall>u v. a = u @ v \<longrightarrow> rmatch r (rev u @ c # b, v) = [])"
    (is "?L \<longleftrightarrow> ?R")
  proof
    assume L: ?L
    have "rmatch r (rev (c # u) @ b, v) = []" if "a = u @ v" for u v
      using L that by (metis append_Cons)
    with L show ?R by (auto simp: Cons_eq_append_conv)
  next
    assume ?R
    then show ?L by (auto simp: Cons_eq_append_conv)
  qed
  then show ?case
    using Cons.IH [of "c # b"]
    by (auto simp: finditer_from.simps [of r False "(b, c # a)"] first_match_None [symmetric]
        split: option.splits)
qed

lemma sub_from_no_match:
  "finditer_from r False (b, a) = [] \<Longrightarrow> sub_from r f False (b, a) = a"
proof (induction a arbitrary: b)
  case Nil
  then show ?case
    by (auto simp: sub_from.simps [of r f False "(b, [])"] finditer_from.simps [of r False "(b, [])"]
        split: option.splits)
next
  case (Cons c a)
  then show ?case
    by (auto simp: sub_from.simps [of r f False "(b, c # a)"] finditer_from.simps [of r False "(b, c # a)"]
        split: option.splits)
qed

lemma re_sub_no_match: "finditer r s = [] \<Longrightarrow> re_sub r f s = s"
  by (simp add: finditer_def re_sub_def sub_from_no_match)

end
