(* ===== verification/Engine.thy ===== *)
theory Engine
  imports Json Regex
begin

text \<open>
  The detection engine (\<open>engine/\<close>): scan results and their aggregation (\<open>models.py\<close>), the text
  normaliser, the keyword and the regular-expression scanner and the orchestrator that runs
  them in order. A rule is the dictionary the YAML file holds, so a rule of the wrong shape
  raises where the code does. Parameters: \<open>low\<close> (\<open>str.lower\<close>), \<open>compile\<close> (\<open>re.compile\<close>,
  \<open>None\<close> for \<open>re.error\<close>), the standard library's \<open>unquote\<close>, \<open>html.unescape\<close> and NFKC
  normalisation, and the outcome of reading the rules file.
\<close>

section \<open>Results (models.py)\<close>

record scanner_result =
  hit :: bool
  rule_id :: json
  rule_name :: json
  level :: json
  matched_text :: str
  position :: "nat \<times> nat"
  scanner_type :: str
  description :: json

definition no_hit :: scanner_result where
  "no_hit = \<lparr>hit = False, rule_id = JStr [], rule_name = JStr [], level = JStr (lit ''pass''),
     matched_text = [], position = (0, 0), scanner_type = [], description = JStr []\<rparr>"

definition blocked1 :: "scanner_result \<Rightarrow> bool" where
  "blocked1 r \<longleftrightarrow> hit r \<and> level r = JStr (lit ''block'')"

definition warned1 :: "scanner_result \<Rightarrow> bool" where
  "warned1 r \<longleftrightarrow> hit r \<and> level r = JStr (lit ''warn'')"

definition desensitized1 :: "scanner_result \<Rightarrow> bool" where
  "desensitized1 r \<longleftrightarrow> hit r \<and> level r = JStr (lit ''desensitize'')"

definition passed1 :: "scanner_result \<Rightarrow> bool" where
  "passed1 r \<longleftrightarrow> \<not> hit r \<or> level r = JStr (lit ''pass'')"

record aggregated =
  results :: "scanner_result list"
  normalized_text :: str

definition agg_hit :: "aggregated \<Rightarrow> bool" where
  "agg_hit a \<longleftrightarrow> list_ex hit (results a)"

definition agg_blocked :: "aggregated \<Rightarrow> bool" where
  "agg_blocked a \<longleftrightarrow> list_ex blocked1 (results a)"

definition agg_warned :: "aggregated \<Rightarrow> bool" where
  "agg_warned a \<longleftrightarrow> list_ex warned1 (results a)"

definition agg_desensitized :: "aggregated \<Rightarrow> bool" where
  "agg_desensitized a \<longleftrightarrow> list_ex desensitized1 (results a)"

definition block_result :: "aggregated \<Rightarrow> scanner_result option" where
  "block_result a = find blocked1 (results a)"

definition desensitize_results :: "aggregated \<Rightarrow> scanner_result list" where
  "desensitize_results a = filter desensitized1 (results a)"

definition warn_results :: "aggregated \<Rightarrow> scanner_result list" where
  "warn_results a = filter warned1 (results a)"

datatype action = Blocked | Desensitized | Warned | Passed

definition action_of :: "aggregated \<Rightarrow> action" where
  "action_of a =
     (if agg_blocked a then Blocked
      else if agg_desensitized a then Desensitized
      else if agg_warned a then Warned
      else Passed)"

section \<open>The normaliser (normalizer.py)\<close>

definition ZERO_WIDTH_CHARS :: "nat list" where
  "ZERO_WIDTH_CHARS = [8203, 8204, 8205, 65279, 8288]"

definition control_char :: "nat \<Rightarrow> bool" where
  "control_char c \<longleftrightarrow> c \<le> 8 \<or> c = 11 \<or> c = 12 \<or> 14 \<le> c \<and> c \<le> 31 \<or> c = 127"

definition remove_zero_width_chars :: "str \<Rightarrow> str" where
  "remove_zero_width_chars s = filter (\<lambda>c. c \<notin> set ZERO_WIDTH_CHARS) s"

lemma remove_zero_width_chars_code [code]:
  "remove_zero_width_chars s = filter (\<lambda>c. c < 8203 \<or> c \<notin> set ZERO_WIDTH_CHARS) s"
  unfolding remove_zero_width_chars_def ZERO_WIDTH_CHARS_def by (rule filter_cong) auto

text \<open>\<open>for _ in range(2)\<close>, ending early at a fixed point.\<close>

definition decode_repeatedly :: "(str \<Rightarrow> str) \<Rightarrow> str \<Rightarrow> str" where
  "decode_repeatedly unquote s =
     (let s1 = unquote s in if s1 = s then s else (let s2 = unquote s1 in if s2 = s1 then s1 else s2))"

text \<open>\<open>WHITESPACE_PATTERN.sub(" ", s)\<close>: each maximal run of white space becomes one blank.\<close>

fun collapse_space :: "bool \<Rightarrow> str \<Rightarrow> str" where
  "collapse_space prev [] = []"
| "collapse_space prev (c # s) =
     (if is_space c then (if prev then collapse_space True s else 32 # collapse_space True s)
      else c # collapse_space False s)"

definition normalize :: "(str \<Rightarrow> str) \<Rightarrow> (str \<Rightarrow> str) \<Rightarrow> (str \<Rightarrow> str) \<Rightarrow> str \<Rightarrow> str" where
  "normalize unquote unescape nfkc text =
     (if text = [] then []
      else strip (collapse_space False (filter (\<lambda>c. \<not> control_char c)
             (remove_zero_width_chars (nfkc (unescape (decode_repeatedly unquote text)))))))"

section \<open>The keyword scanner (rules\_keyword.py)\<close>

text \<open>Reading the rules file: it does not exist, reading or parsing raises, or it holds a value.\<close>

datatype rules_file = Missing | Unreadable exn | Parsed json

type_synonym rule = json

fun rule_get :: "rule \<Rightarrow> str \<Rightarrow> json \<Rightarrow> json res" where
  "rule_get (JDict d) k v = Inr (get_or d k v)"
| "rule_get _ k v = Inl Attribute_Error"

fun iter_json :: "json \<Rightarrow> json list res" where
  "iter_json (JList xs) = Inr xs"
| "iter_json (JStr s) = Inr (map (\<lambda>c. JStr [c]) s)"
| "iter_json (JDict d) = Inr (map (\<lambda>p. JStr (fst p)) d)"
| "iter_json _ = Inl Type_Error"

text \<open>\<open>data = yaml.safe_load(file) or {}; data.get(key, []) or []\<close>. A number or \<open>True\<close> in place of the rules
  is refused here, at the load. The source raises where it iterates over it: at the load as well for the
  regex rules, at each scan for the keyword rules.\<close>

definition rules_of :: "str \<Rightarrow> json \<Rightarrow> json list res" where
  "rules_of key data =
     rbind (rule_get (if truthy data then data else JDict []) key (JList []))
       (\<lambda>v. iter_json (if truthy v then v else JList []))"

definition keyword_load_rules :: "rules_file \<Rightarrow> json list \<Rightarrow> json list \<times> unit res" where
  "keyword_load_rules file rules =
     (case file of
        Missing \<Rightarrow> ([], Inr ())
      | Unreadable e \<Rightarrow> (rules, Inl e)
      | Parsed data \<Rightarrow> (case rules_of (lit ''keyword_rules'') data of
                         Inl e \<Rightarrow> (rules, Inl e)
                       | Inr rs \<Rightarrow> (rs, Inr ())))"

definition star :: nat where
  "star = 42"

definition keyword_mask_text :: "str \<Rightarrow> str" where
  "keyword_mask_text t =
     (case t of
        [] \<Rightarrow> []
      | [c] \<Rightarrow> [star]
      | [c, d] \<Rightarrow> [c, star]
      | c # _ \<Rightarrow> c # replicate (length t - 2) star @ [last t])"

definition match_position :: "str \<Rightarrow> json \<Rightarrow> json \<Rightarrow> (nat \<times> nat) option res" where
  "match_position text keyword match_mode =
     (if \<not> truthy keyword then Inr None
      else if match_mode = JStr (lit ''exact'')
        then Inr (if keyword = JStr text then Some (0, length text) else None)
      else (case keyword of
          JStr k \<Rightarrow>
            if match_mode = JStr (lit ''prefix'')
              then Inr (if startswith text k then Some (0, length k) else None)
            else Inr (case rfind_str text k of None \<Rightarrow> None | Some i \<Rightarrow> Some (i, i + length k))
        | _ \<Rightarrow> Inl Type_Error))"

definition build_result :: "str \<Rightarrow> (str \<Rightarrow> str) \<Rightarrow> rule \<Rightarrow> str \<Rightarrow> nat \<times> nat \<Rightarrow> scanner_result res" where
  "build_result name msk rule text pos =
     rbind (rule_get rule (lit ''id'') (JStr [])) (\<lambda>i.
     rbind (rule_get rule (lit ''name'') (JStr [])) (\<lambda>n.
     rbind (rule_get rule (lit ''level'') (JStr (lit ''block''))) (\<lambda>l.
     rbind (rule_get rule (lit ''description'') (JStr [])) (\<lambda>d.
     Inr \<lparr>hit = True, rule_id = i, rule_name = n, level = l, matched_text = msk text,
          position = pos, scanner_type = name, description = d\<rparr>))))"

fun lower_keyword :: "(str \<Rightarrow> str) \<Rightarrow> json \<Rightarrow> json res" where
  "lower_keyword low (JStr s) = Inr (JStr (low s))"
| "lower_keyword low _ = Inl Attribute_Error"

fun keyword_str :: "json \<Rightarrow> str" where
  "keyword_str (JStr s) = s"
| "keyword_str _ = []"

text \<open>The loop of \<open>_scan_rule\<close> over the keywords, \<open>break\<close> included. A position is found for a
  string keyword only, so \<open>keyword_str\<close> is applied to a string.\<close>

fun scan_keywords :: "(str \<Rightarrow> str) \<Rightarrow> rule \<Rightarrow> bool \<Rightarrow> json \<Rightarrow> str \<Rightarrow> json list \<Rightarrow> scanner_result list res" where
  "scan_keywords low rule case_sensitive mode search_text [] = Inr []"
| "scan_keywords low rule case_sensitive mode search_text (keyword # ks) =
     rbind (if case_sensitive then Inr keyword else lower_keyword low keyword) (\<lambda>search_keyword.
     rbind (match_position search_text search_keyword mode) (\<lambda>position.
     (case position of
        None \<Rightarrow> scan_keywords low rule case_sensitive mode search_text ks
      | Some p \<Rightarrow>
          rbind (build_result (lit ''keyword'') keyword_mask_text rule (keyword_str keyword) p) (\<lambda>r.
          rbind (rule_get rule (lit ''stop_on_first'') (JBool True)) (\<lambda>stop.
          if truthy stop then Inr [r]
          else rbind (scan_keywords low rule case_sensitive mode search_text ks) (\<lambda>rs. Inr (r # rs)))))))"

definition scan_rule :: "(str \<Rightarrow> str) \<Rightarrow> str \<Rightarrow> rule \<Rightarrow> scanner_result list res" where
  "scan_rule low text rule =
     rbind (rule_get rule (lit ''case_sensitive'') (JBool False)) (\<lambda>cs.
     rbind (rule_get rule (lit ''match_mode'') (JStr (lit ''contains''))) (\<lambda>mode.
     rbind (rule_get rule (lit ''keywords'') (JList [])) (\<lambda>kws.
     rbind (iter_json kws) (\<lambda>ks.
     scan_keywords low rule (truthy cs) mode (if truthy cs then text else low text) ks))))"

fun enabled_rules :: "json list \<Rightarrow> json list res" where
  "enabled_rules [] = Inr []"
| "enabled_rules (rule # rs) =
     rbind (rule_get rule (lit ''enabled'') (JBool True)) (\<lambda>e.
     rbind (enabled_rules rs) (\<lambda>es. Inr (if truthy e then rule # es else es)))"

definition keyword_scan :: "(str \<Rightarrow> str) \<Rightarrow> json list \<Rightarrow> str \<Rightarrow> scanner_result list res" where
  "keyword_scan low rules text =
     rbind (enabled_rules rules) (\<lambda>es. rbind (rmap (scan_rule low text) es) (\<lambda>rss. Inr (concat rss)))"

section \<open>The regular-expression scanner (rules\_regex.py)\<close>

record regex_scanner =
  rx_rules :: "json list"
  rx_compiled :: "(re \<times> rule) list"

text \<open>\<open>compile pattern ignore_case\<close> is \<open>re.compile\<close>; a missing pattern and \<open>re.error\<close> skip the rule,
  a pattern that is not a string raises \<open>TypeError\<close>, which nothing catches.\<close>

fun compile_rules :: "(str \<Rightarrow> bool \<Rightarrow> re option) \<Rightarrow> json list \<Rightarrow> (re \<times> rule) list res" where
  "compile_rules compile [] = Inr []"
| "compile_rules compile (rule # rs) =
     rbind (rule_get rule (lit ''enabled'') (JBool True)) (\<lambda>e.
     if \<not> truthy e then compile_rules compile rs
     else rbind (rule_get rule (lit ''ignore_case'') (JBool False)) (\<lambda>ic.
       (case rule of
          JDict d \<Rightarrow> (case dict_get d (lit ''pattern'') of
              None \<Rightarrow> compile_rules compile rs
            | Some (JStr p) \<Rightarrow> (case compile p (truthy ic) of
                None \<Rightarrow> compile_rules compile rs
              | Some r \<Rightarrow> rbind (compile_rules compile rs) (\<lambda>cs. Inr ((r, rule) # cs)))
            | Some _ \<Rightarrow> Inl Type_Error)
        | _ \<Rightarrow> Inl Attribute_Error)))"

definition regex_load_rules ::
    "(str \<Rightarrow> bool \<Rightarrow> re option) \<Rightarrow> rules_file \<Rightarrow> regex_scanner \<Rightarrow> regex_scanner \<times> unit res" where
  "regex_load_rules compile file sc =
     (case file of
        Missing \<Rightarrow> (sc\<lparr>rx_rules := [], rx_compiled := []\<rparr>, Inr ())
      | Unreadable e \<Rightarrow> (sc, Inl e)
      | Parsed data \<Rightarrow> (case rules_of (lit ''regex_rules'') data of
          Inl e \<Rightarrow> (sc, Inl e)
        | Inr rs \<Rightarrow> (case compile_rules compile rs of
            Inl e \<Rightarrow> (sc\<lparr>rx_rules := rs\<rparr>, Inl e)
          | Inr cs \<Rightarrow> (sc\<lparr>rx_rules := rs, rx_compiled := cs\<rparr>, Inr ()))))"

definition regex_mask_text :: "str \<Rightarrow> str" where
  "regex_mask_text t =
     (if t = [] then []
      else if length t \<le> 4 then hd t # replicate (length t - 1) star
      else take 2 t @ replicate (length t - 4) star @ drop (length t - 2) t)"

definition last_match :: "re \<Rightarrow> str \<Rightarrow> (pos \<times> pos) option" where
  "last_match r text = (case finditer r text of [] \<Rightarrow> None | ms \<Rightarrow> Some (last ms))"

fun regex_scan_loop :: "str \<Rightarrow> (re \<times> rule) list \<Rightarrow> scanner_result list res" where
  "regex_scan_loop text [] = Inr []"
| "regex_scan_loop text ((r, rule) # cs) =
     (case last_match r text of
        None \<Rightarrow> regex_scan_loop text cs
      | Some m \<Rightarrow>
          rbind (build_result (lit ''regex'') regex_mask_text rule (group (fst m) (snd m)) (span m)) (\<lambda>res.
          rbind (regex_scan_loop text cs) (\<lambda>rs. Inr (res # rs))))"

definition regex_scan :: "regex_scanner \<Rightarrow> str \<Rightarrow> scanner_result list res" where
  "regex_scan sc text = regex_scan_loop text (rx_compiled sc)"

definition is_desensitize_rule :: "rule \<Rightarrow> bool" where
  "is_desensitize_rule rule \<longleftrightarrow> rule_get rule (lit ''level'') JNull = Inr (JStr (lit ''desensitize''))"

definition desensitize_patterns :: "regex_scanner \<Rightarrow> (re \<times> rule) list" where
  "desensitize_patterns sc = filter (\<lambda>(r, rule). is_desensitize_rule rule) (rx_compiled sc)"

section \<open>The orchestrator (scanner.py)\<close>

text \<open>A registered scanner is its name and its \<open>scan\<close> method.\<close>

type_synonym scanner = "str \<times> (str \<Rightarrow> scanner_result list res)"

record orchestrator =
  scanners :: "scanner list"
  fail_open :: bool

definition register :: "scanner \<Rightarrow> orchestrator \<Rightarrow> orchestrator" where
  "register s orch = orch\<lparr>scanners := scanners orch @ [s]\<rparr>"

fun scan_loop :: "bool \<Rightarrow> str \<Rightarrow> scanner_result list \<Rightarrow> scanner list \<Rightarrow> aggregated res" where
  "scan_loop fail_op text acc [] = Inr \<lparr>results = acc, normalized_text = text\<rparr>"
| "scan_loop fail_op text acc ((name, scan) # ss) =
     (case scan text of
        Inl e \<Rightarrow>
          if fail_op then scan_loop fail_op text acc ss
          else Inl (Scanner_Unavailable (lit ''scanner '' @ name @ lit '' failed''))
      | Inr rs \<Rightarrow>
          if list_ex blocked1 rs then Inr \<lparr>results = acc @ rs, normalized_text = text\<rparr>
          else scan_loop fail_op text (acc @ rs) ss)"

definition orch_scan :: "(str \<Rightarrow> str) \<Rightarrow> orchestrator \<Rightarrow> str \<Rightarrow> aggregated res" where
  "orch_scan nz orch text = scan_loop (fail_open orch) (nz text) [] (scanners orch)"

section \<open>Properties of the results\<close>

lemmas agg_defs = agg_hit_def agg_blocked_def agg_warned_def agg_desensitized_def
lemmas result_defs = blocked1_def warned1_def desensitized1_def passed1_def

lemma block_result_iff: "block_result a \<noteq> None \<longleftrightarrow> agg_blocked a"
  by (auto simp: block_result_def agg_blocked_def find_None_iff list_ex_iff)

lemma block_result_Some: "block_result a = Some r \<Longrightarrow> r \<in> set (results a) \<and> blocked1 r"
  by (auto simp: block_result_def find_Some_iff)

lemma agg_blocked_hit: "agg_blocked a \<Longrightarrow> agg_hit a"
  by (auto simp: agg_defs blocked1_def list_ex_iff)

lemma action_of_Blocked [simp]: "action_of a = Blocked \<longleftrightarrow> agg_blocked a"
  by (simp add: action_of_def)

section \<open>Properties of the normaliser\<close>

lemma set_collapse_space: "set (collapse_space prev s) \<subseteq> insert 32 (set s)"
  by (induction prev s rule: collapse_space.induct) auto

lemma collapse_space_blank: "c \<in> set (collapse_space prev s) \<Longrightarrow> is_space c \<Longrightarrow> c = 32"
  by (induction prev s rule: collapse_space.induct) (auto split: if_splits)

text \<open>No two neighbouring characters of the result are white space.\<close>

definition no_double_space :: "str \<Rightarrow> bool" where
  "no_double_space s \<longleftrightarrow> successively (\<lambda>c d. \<not> (is_space c \<and> is_space d)) s"

lemma is_space_32 [simp]: "is_space 32"
  by (simp add: is_space_def)

lemma collapse_space_True_hd:
  "collapse_space True s = [] \<or> \<not> is_space (hd (collapse_space True s))"
  by (induction s) auto

lemma no_double_collapse: "no_double_space (collapse_space prev s)"
proof (induction prev s rule: collapse_space.induct)
  case (1 prev)
  then show ?case by (simp add: no_double_space_def)
next
  case (2 prev c s)
  then show ?case
    using collapse_space_True_hd [of s] by (auto simp: no_double_space_def successively_Cons)
qed

lemma no_double_dropWhile: "no_double_space s \<Longrightarrow> no_double_space (dropWhile p s)"
  by (induction s) (auto simp: no_double_space_def successively_Cons)

lemma no_double_rev: "no_double_space (rev s) = no_double_space s"
proof -
  have "(\<lambda>x y. \<not> (is_space y \<and> is_space x)) = (\<lambda>c d. \<not> (is_space c \<and> is_space d))"
    by auto
  then show ?thesis by (simp only: no_double_space_def successively_rev)
qed

lemma no_double_strip: "no_double_space s \<Longrightarrow> no_double_space (strip s)"
  unfolding strip_def strip_by_def
  by (metis no_double_dropWhile no_double_rev)

lemma set_strip: "set (strip s) \<subseteq> set s"
  unfolding strip_def strip_by_def by (auto dest!: set_dropWhileD)

lemma strip_ends: "strip s = [] \<or> \<not> is_space (hd (strip s)) \<and> \<not> is_space (last (strip s))"
  unfolding strip_def by (rule strip_by_ends)

lemma normalize_set:
  "c \<in> set (normalize unquote unescape nfkc t) \<Longrightarrow>
   \<not> control_char c \<and> c \<notin> set ZERO_WIDTH_CHARS \<and> (is_space c \<longrightarrow> c = 32)"
proof -
  assume c: "c \<in> set (normalize unquote unescape nfkc t)"
  let ?u = "filter (\<lambda>c. \<not> control_char c)
    (remove_zero_width_chars (nfkc (unescape (decode_repeatedly unquote t))))"
  from c have c1: "c \<in> set (collapse_space False ?u)"
    using set_strip by (auto simp: normalize_def split: if_splits)
  then have "c = 32 \<or> c \<in> set ?u" using set_collapse_space by blast
  then show ?thesis
    using collapse_space_blank [OF c1]
    by (auto simp: remove_zero_width_chars_def control_char_def ZERO_WIDTH_CHARS_def)
qed

lemma normalize_no_double: "no_double_space (normalize unquote unescape nfkc t)"
  by (auto simp: normalize_def no_double_collapse no_double_strip)
    (simp add: no_double_space_def)

lemma normalize_strip: "strip (normalize unquote unescape nfkc t) = normalize unquote unescape nfkc t"
  by (simp add: normalize_def)

lemma normalize_ends:
  "normalize unquote unescape nfkc t = [] \<or>
   \<not> is_space (hd (normalize unquote unescape nfkc t)) \<and>
   \<not> is_space (last (normalize unquote unescape nfkc t))"
  by (simp add: normalize_def strip_ends)

section \<open>Properties of the masks\<close>

lemma keyword_mask_long:
  assumes "3 \<le> length t"
  shows "keyword_mask_text t = hd t # replicate (length t - 2) star @ [last t]"
proof -
  from assms obtain a b c u where "t = a # b # c # u"
    by (metis One_nat_def Suc_le_length_iff numeral_3_eq_3)
  then show ?thesis by (simp add: keyword_mask_text_def)
qed

lemma length_keyword_mask [simp]: "length (keyword_mask_text t) = length t"
  by (auto simp: keyword_mask_text_def split: list.splits)

lemma length_regex_mask [simp]: "length (regex_mask_text t) = length t"
  by (auto simp: regex_mask_text_def)

text \<open>The contract of the two masks: same length, and everything but the first and the last two
  characters is a star.\<close>

locale text_mask =
  fixes msk :: "str \<Rightarrow> str"
  assumes mask_length: "length (msk t) = length t"
    and mask_hides: "4 < length t \<Longrightarrow> 2 \<le> i \<Longrightarrow> i + 2 < length t \<Longrightarrow> msk t ! i = star"
begin

lemma mask_empty: "msk t = [] \<longleftrightarrow> t = []"
  using mask_length [of t] by (metis length_0_conv)

lemma mask_window: "4 < length t \<Longrightarrow> take (length t - 4) (drop 2 (msk t)) = replicate (length t - 4) star"
  by (rule nth_equalityI) (auto simp: mask_length mask_hides)

text \<open>Two texts with the same length and the same two characters at each end look the same.\<close>

lemma mask_uninformative:
  assumes "length s = length t" and "4 < length t"
    and "take 2 (msk s) = take 2 (msk t)"
    and "drop (length t - 2) (msk s) = drop (length t - 2) (msk t)"
  shows "msk s = msk t"
proof (rule nth_equalityI)
  show len: "length (msk s) = length (msk t)" using assms(1) by (simp add: mask_length)
  fix i assume i: "i < length (msk s)"
  have i': "i < length t" using i assms(1) by (simp add: mask_length)
  consider "i < 2" | "2 \<le> i" "i + 2 < length t" | "length t - 2 \<le> i" using i' by linarith
  then show "msk s ! i = msk t ! i"
  proof cases
    case 1
    then show ?thesis using assms(3) by (metis nth_take)
  next
    case 2
    then show ?thesis using assms(1,2) by (simp add: mask_hides)
  next
    case 3
    then obtain j where "i = length t - 2 + j" using le_Suc_ex by blast
    then show ?thesis using assms(4) i' assms(1) mask_length
      by (metis diff_le_self len nth_drop)
  qed
qed

end

interpretation keyword_mask: text_mask keyword_mask_text
proof
  fix t :: str and i assume "4 < length t" "2 \<le> i" "i + 2 < length t"
  then show "keyword_mask_text t ! i = star"
    by (cases i) (auto simp: keyword_mask_long nth_append)
qed simp

interpretation regex_mask: text_mask regex_mask_text
proof
  fix t :: str and i assume "4 < length t" "2 \<le> i" "i + 2 < length t"
  then show "regex_mask_text t ! i = star"
    by (auto simp: regex_mask_text_def nth_append)
qed simp

section \<open>Properties of the scanners\<close>

lemma build_result_Inr:
  "build_result name msk rule t p = Inr r \<Longrightarrow>
   hit r \<and> scanner_type r = name \<and> matched_text r = msk t \<and> position r = p \<and>
   rule_get rule (lit ''id'') (JStr []) = Inr (rule_id r) \<and>
   rule_get rule (lit ''level'') (JStr (lit ''block'')) = Inr (level r)"
  by (auto simp: build_result_def rbind_eq_Inr)

lemma build_result_dict: "\<exists>r. build_result name msk (JDict d) t p = Inr r"
  by (simp add: build_result_def)

text \<open>A match position always lies inside the searched text.\<close>

lemma match_position_bounds:
  "match_position t k mode = Inr (Some (i, j)) \<Longrightarrow> i \<le> j \<and> j \<le> length t"
  by (auto simp: match_position_def startswith_iff rfind_str_Some dest: occurs_at_bound
      split: if_splits json.splits option.splits)

text \<open>In the default mode the reported position is the last occurrence of the keyword.\<close>

definition contains_mode :: "json \<Rightarrow> bool" where
  "contains_mode mode \<longleftrightarrow> mode \<noteq> JStr (lit ''exact'') \<and> mode \<noteq> JStr (lit ''prefix'')"

lemma match_position_contains:
  assumes "contains_mode mode" and "k \<noteq> []"
  shows "match_position t (JStr k) mode = Inr (Some (i, j)) \<longleftrightarrow>
         j = i + length k \<and> occurs_at k t i \<and> (\<forall>i'>i. \<not> occurs_at k t i')"
    and "match_position t (JStr k) mode = Inr None \<longleftrightarrow> \<not> contains t k"
proof -
  have e: "match_position t (JStr k) mode =
      Inr (case rfind_str t k of None \<Rightarrow> None | Some i \<Rightarrow> Some (i, i + length k))"
    using assms by (simp add: match_position_def contains_mode_def)
  show "match_position t (JStr k) mode = Inr None \<longleftrightarrow> \<not> contains t k"
    by (simp add: e contains_def split: option.splits)
  show "match_position t (JStr k) mode = Inr (Some (i, j)) \<longleftrightarrow>
         j = i + length k \<and> occurs_at k t i \<and> (\<forall>i'>i. \<not> occurs_at k t i')"
    unfolding e rfind_str_Some [symmetric] by (auto split: option.splits)
qed

lemma scan_keywords_sound:
  "scan_keywords low rule cs mode st ks = Inr rs \<Longrightarrow> r \<in> set rs \<Longrightarrow>
   hit r \<and> scanner_type r = lit ''keyword'' \<and> fst (position r) \<le> snd (position r) \<and>
   snd (position r) \<le> length st \<and> (\<exists>k \<in> set ks. matched_text r = keyword_mask_text (keyword_str k))"
proof (induction ks arbitrary: rs)
  case Nil
  then show ?case by simp
next
  case (Cons k ks)
  from Cons.prems(1) obtain sk p where
    sk: "(if cs then Inr k else lower_keyword low k) = Inr sk" and
    p: "match_position st sk mode = Inr p"
    by (auto simp: rbind_eq_Inr)
  show ?case
  proof (cases p)
    case None
    with Cons.prems(1) sk p have "scan_keywords low rule cs mode st ks = Inr rs"
      by (simp only: scan_keywords.simps sk p rbind_simps option.case)
    with Cons.IH Cons.prems(2) show ?thesis by auto
  next
    case (Some q)
    obtain r0 where
      b: "build_result (lit ''keyword'') keyword_mask_text rule (keyword_str k) q = Inr r0" and
      rs: "rs = [r0] \<or> (\<exists>rs'. scan_keywords low rule cs mode st ks = Inr rs' \<and> rs = r0 # rs')"
      using Cons.prems(1)
      by (simp only: scan_keywords.simps sk p Some rbind_simps option.case)
        (auto simp: rbind_eq_Inr split: if_splits)
    have "fst q \<le> snd q \<and> snd q \<le> length st"
      using match_position_bounds [of st sk mode "fst q" "snd q"] p Some by simp
    with build_result_Inr [OF b] rs Cons.IH Cons.prems(2) show ?thesis by auto
  qed
qed

text \<open>For string keywords and a default-mode rule the scan never raises, and it reports something
  exactly when some keyword occurs in the text (both lower-cased unless the rule is case
  sensitive).\<close>

lemma scan_keywords_complete:
  assumes mode: "contains_mode mode"
  shows "\<exists>rs. scan_keywords low (JDict d) cs mode st (map JStr ks) = Inr rs \<and>
    (rs \<noteq> [] \<longleftrightarrow> (\<exists>k \<in> set ks. (if cs then k else low k) \<noteq> [] \<and>
                            contains st (if cs then k else low k)))"
proof (induction ks)
  case Nil
  then show ?case by simp
next
  case (Cons k ks)
  define kk where "kk = (if cs then k else low k)"
  have lk: "(if cs then Inr (JStr k) else lower_keyword low (JStr k)) = Inr (JStr kk)"
    by (simp add: kk_def)
  obtain rs where rs: "scan_keywords low (JDict d) cs mode st (map JStr ks) = Inr rs"
    and iff: "rs \<noteq> [] \<longleftrightarrow> (\<exists>k \<in> set ks. (if cs then k else low k) \<noteq> [] \<and>
                            contains st (if cs then k else low k))"
    using Cons.IH by blast
  show ?case
  proof (cases "kk \<noteq> [] \<and> contains st kk")
    case False
    then have "match_position st (JStr kk) mode = Inr None"
      using match_position_contains(2) [OF mode, of kk st]
      by (cases "kk = []") (auto simp: match_position_def)
    then have "scan_keywords low (JDict d) cs mode st (map JStr (k # ks)) = Inr rs"
      by (simp only: list.map scan_keywords.simps lk rbind_simps option.case rs)
    with iff False show ?thesis by (auto simp: kk_def)
  next
    case True
    then obtain p where p: "match_position st (JStr kk) mode = Inr (Some p)"
      using mode by (auto simp: match_position_def contains_mode_def contains_def split: option.splits)
    obtain r where r: "build_result (lit ''keyword'') keyword_mask_text (JDict d) k p = Inr r"
      using build_result_dict by blast
    have "\<exists>rs'. scan_keywords low (JDict d) cs mode st (map JStr (k # ks)) = Inr (r # rs')"
      by (simp only: list.map scan_keywords.simps lk p rbind_simps option.case keyword_str.simps r rs)
        simp
    with True show ?thesis by (auto simp: kk_def)
  qed
qed

lemma scan_keywords_level:
  "scan_keywords low (JDict d) cs mode st ks = Inr rs \<Longrightarrow> r \<in> set rs \<Longrightarrow>
   hit r \<and> level r = get_or d (lit ''level'') (JStr (lit ''block''))"
proof (induction ks arbitrary: rs)
  case (Cons k ks)
  from Cons.prems(1) obtain sk p where
    sk: "(if cs then Inr k else lower_keyword low k) = Inr sk" and p: "match_position st sk mode = Inr p"
    by (auto simp: rbind_eq_Inr)
  show ?case
  proof (cases p)
    case None
    with Cons.prems(1) sk p have "scan_keywords low (JDict d) cs mode st ks = Inr rs"
      by (simp only: scan_keywords.simps sk p rbind_simps option.case)
    with Cons.IH Cons.prems(2) show ?thesis by blast
  next
    case (Some q)
    obtain r0 where
      b: "build_result (lit ''keyword'') keyword_mask_text (JDict d) (keyword_str k) q = Inr r0" and
      rs: "rs = [r0] \<or> (\<exists>rs'. scan_keywords low (JDict d) cs mode st ks = Inr rs' \<and> rs = r0 # rs')"
      using Cons.prems(1)
      by (simp only: scan_keywords.simps sk p Some rbind_simps option.case)
        (auto simp: rbind_eq_Inr split: if_splits)
    with build_result_Inr [OF b] Cons.IH Cons.prems(2) show ?thesis by auto
  qed
qed simp

lemma enabled_rules_mem:
  "enabled_rules rules = Inr es \<Longrightarrow> JDict d \<in> set rules \<Longrightarrow>
   truthy (get_or d (lit ''enabled'') (JBool True)) \<Longrightarrow> JDict d \<in> set es"
  by (induction rules arbitrary: es) (auto simp: rbind_eq_Inr)

text \<open>A rule that blocks: enabled, of level \<open>block\<close>, in the default match mode, with a keyword that
  occurs in the text (both lower-cased unless the rule is case sensitive).\<close>

definition blocking_rule :: "(str \<Rightarrow> str) \<Rightarrow> str \<Rightarrow> (str \<times> json) list \<Rightarrow> bool" where
  "blocking_rule low t d \<longleftrightarrow>
     truthy (get_or d (lit ''enabled'') (JBool True)) \<and>
     get_or d (lit ''level'') (JStr (lit ''block'')) = JStr (lit ''block'') \<and>
     contains_mode (get_or d (lit ''match_mode'') (JStr (lit ''contains''))) \<and>
     (\<exists>ks. get_or d (lit ''keywords'') (JList []) = JList (map JStr ks) \<and>
        (let cs = truthy (get_or d (lit ''case_sensitive'') (JBool False)) in
         \<exists>k\<in>set ks. (if cs then k else low k) \<noteq> [] \<and>
           contains (if cs then t else low t) (if cs then k else low k)))"

lemma blocking_rule_scan:
  assumes "blocking_rule low t d"
  shows "\<exists>rs. scan_rule low t (JDict d) = Inr rs \<and> list_ex blocked1 rs"
proof -
  define cs where "cs = truthy (get_or d (lit ''case_sensitive'') (JBool False))"
  define mode where "mode = get_or d (lit ''match_mode'') (JStr (lit ''contains''))"
  from assms obtain ks k where ks: "get_or d (lit ''keywords'') (JList []) = JList (map JStr ks)"
    and k: "k \<in> set ks" "(if cs then k else low k) \<noteq> []"
      "contains (if cs then t else low t) (if cs then k else low k)"
    and mode: "contains_mode mode" and lev: "get_or d (lit ''level'') (JStr (lit ''block'')) = JStr (lit ''block'')"
    by (auto simp: blocking_rule_def cs_def mode_def Let_def)
  from scan_keywords_complete [OF mode, of low d cs "if cs then t else low t" ks] k
  obtain rs where rs: "scan_keywords low (JDict d) cs mode (if cs then t else low t) (map JStr ks) = Inr rs" "rs \<noteq> []"
    by blast
  from rs(2) obtain r where "r \<in> set rs" by (cases rs) auto
  with scan_keywords_level [OF rs(1)] lev have "list_ex blocked1 rs"
    by (auto simp: list_ex_iff blocked1_def)
  moreover have "scan_rule low t (JDict d) = Inr rs"
    using rs(1) by (simp add: scan_rule_def ks cs_def [symmetric] mode_def [symmetric])
  ultimately show ?thesis by blast
qed

lemma keyword_scan_blocks:
  assumes "keyword_scan low rules t = Inr rs" "JDict d \<in> set rules" "blocking_rule low t d"
  shows "list_ex blocked1 rs"
proof -
  from assms(1) obtain es rss where es: "enabled_rules rules = Inr es" "rmap (scan_rule low t) es = Inr rss"
    "rs = concat rss"
    by (auto simp: keyword_scan_def rbind_eq_Inr)
  from assms(3) have "truthy (get_or d (lit ''enabled'') (JBool True))" by (simp add: blocking_rule_def)
  with enabled_rules_mem [OF es(1) assms(2)] have "JDict d \<in> set es" by simp
  then obtain i where i: "i < length es" "es ! i = JDict d" by (auto simp: in_set_conv_nth)
  with es(2) have "scan_rule low t (JDict d) = Inr (rss ! i)" "i < length rss"
    by (auto simp: rmap_Inr_iff list_all2_conv_all_nth)
  with blocking_rule_scan [OF assms(3)] es(3) show ?thesis
    by (auto simp: list_ex_iff in_set_conv_nth) (metis nth_mem)
qed

lemma keyword_scan_sound:
  assumes "keyword_scan low rules text = Inr rs" and "r \<in> set rs"
  shows "hit r \<and> scanner_type r = lit ''keyword'' \<and> fst (position r) \<le> snd (position r)"
proof -
  from assms obtain es rss where es: "rmap (scan_rule low text) es = Inr rss" "r \<in> set (concat rss)"
    by (auto simp: keyword_scan_def rbind_eq_Inr)
  then obtain rule rs' where rs': "scan_rule low text rule = Inr rs'" "r \<in> set rs'"
    unfolding rmap_Inr_iff by (auto simp: list_all2_conv_all_nth in_set_conv_nth) (metis nth_mem)
  from rs'(1) obtain cs mode ks where
    "scan_keywords low rule (truthy cs) mode (if truthy cs then text else low text) ks = Inr rs'"
    by (auto simp: scan_rule_def rbind_eq_Inr)
  from scan_keywords_sound [OF this rs'(2)] show ?thesis by blast
qed

lemma last_match_in: "last_match x t = Some m \<Longrightarrow> m \<in> set (finditer x t)"
  unfolding last_match_def by (cases "finditer x t") (auto split: if_splits)

lemma regex_scan_loop_sound:
  "regex_scan_loop t cs = Inr rs \<Longrightarrow> r \<in> set rs \<Longrightarrow>
   hit r \<and> scanner_type r = lit ''regex'' \<and> fst (position r) \<le> snd (position r) \<and>
   snd (position r) \<le> length t \<and>
   matched_text r = regex_mask_text (take (snd (position r) - fst (position r)) (drop (fst (position r)) t))"
proof (induction t cs arbitrary: rs rule: regex_scan_loop.induct)
  case (1 t)
  then show ?case by simp
next
  case (2 t x rule cs)
  show ?case
  proof (cases "last_match x t")
    case None
    with 2 show ?thesis by simp
  next
    case (Some m)
    then have m: "m \<in> set (finditer x t)" by (rule last_match_in)
    from 2 Some obtain res rs' where
      res: "build_result (lit ''regex'') regex_mask_text rule (group (fst m) (snd m)) (span m) = Inr res"
      and rs': "regex_scan_loop t cs = Inr rs'" "rs = res # rs'"
      by (auto simp: rbind_eq_Inr)
    from span_bounds [OF m] build_result_Inr [OF res] have
      "hit res \<and> scanner_type res = lit ''regex'' \<and> fst (position res) \<le> snd (position res) \<and>
       snd (position res) \<le> length t \<and> matched_text res =
       regex_mask_text (take (snd (position res) - fst (position res)) (drop (fst (position res)) t))"
      by simp
    moreover from "2.prems"(2) rs'(2) consider "r = res" | "r \<in> set rs'" by auto
    ultimately show ?thesis using "2.IH"(2) [OF Some rs'(1)] by cases auto
  qed
qed

lemma compile_rules_dict:
  "compile_rules compile rs = Inr cs \<Longrightarrow> (r, rule) \<in> set cs \<Longrightarrow>
   \<exists>d p. rule = JDict d \<and> truthy (get_or d (lit ''enabled'') (JBool True)) \<and>
     dict_get d (lit ''pattern'') = Some (JStr p) \<and>
     compile p (truthy (get_or d (lit ''ignore_case'') (JBool False))) = Some r"
proof (induction compile rs arbitrary: cs rule: compile_rules.induct)
  case (1 compile)
  then show ?case by simp
next
  case (2 compile x rs)
  then obtain d where x: "x = JDict d"
    by (cases x) auto
  show ?case
  proof (cases "truthy (get_or d (lit ''enabled'') (JBool True))")
    case False
    with 2 x show ?thesis by simp
  next
    case True
    with 2 x show ?thesis
      by (auto simp: rbind_eq_Inr split: option.splits json.splits)
  qed
qed

lemma regex_scan_loop_total:
  "\<forall>p \<in> set cs. \<exists>d. snd p = JDict d \<Longrightarrow>
   \<exists>rs. regex_scan_loop t cs = Inr rs \<and>
        (rs \<noteq> [] \<longleftrightarrow> (\<exists>p \<in> set cs. finditer (fst p) t \<noteq> []))"
proof (induction t cs rule: regex_scan_loop.induct)
  case (1 t)
  then show ?case by simp
next
  case (2 t r rule cs)
  from "2.prems" obtain d where d: "rule = JDict d" by auto
  from "2.prems" have prems: "\<forall>p \<in> set cs. \<exists>d. snd p = JDict d" by simp
  show ?case
  proof (cases "last_match r t")
    case None
    then have "finditer r t = []" by (auto simp: last_match_def split: list.splits)
    with "2.IH"(1) [OF None prems] None show ?thesis by auto
  next
    case (Some m)
    then have "finditer r t \<noteq> []" by (auto simp: last_match_def)
    moreover obtain res where
      "build_result (lit ''regex'') regex_mask_text rule (group (fst m) (snd m)) (span m) = Inr res"
      unfolding d using build_result_dict by blast
    moreover obtain rs where "regex_scan_loop t cs = Inr rs" using "2.IH"(2) [OF Some prems] by blast
    ultimately show ?thesis using Some by auto
  qed
qed

section \<open>Properties of the orchestrator\<close>

lemma scan_loop_fail_closed_Inl:
  "scan_loop False t acc ss = Inl e \<Longrightarrow>
   \<exists>name scan x. (name, scan) \<in> set ss \<and> scan t = Inl x \<and>
     e = Scanner_Unavailable (lit ''scanner '' @ name @ lit '' failed'')"
proof (induction ss arbitrary: acc)
  case Nil
  then show ?case by simp
next
  case (Cons s ss)
  obtain name scan where "s = (name, scan)" by (cases s)
  with Cons show ?case by (auto split: sum.splits if_splits) blast+
qed

lemma scan_loop_fail_closed:
  "scan_loop False t acc ss = Inr a \<Longrightarrow> \<not> list_ex blocked1 acc \<Longrightarrow>
   (agg_blocked a \<longleftrightarrow> (\<exists>(name, scan) \<in> set ss. \<exists>rs. scan t = Inr rs \<and> list_ex blocked1 rs)) \<and>
   (\<not> agg_blocked a \<longrightarrow> (\<forall>(name, scan) \<in> set ss. \<exists>rs. scan t = Inr rs \<and> set rs \<subseteq> set (results a)))"
proof (induction ss arbitrary: acc)
  case Nil
  then show ?case by (auto simp: agg_blocked_def)
next
  case (Cons s ss)
  obtain name scan where s: "s = (name, scan)" by (cases s)
  from Cons.prems(1) s obtain rs where rs: "scan t = Inr rs" by (auto split: sum.splits)
  show ?case
  proof (cases "list_ex blocked1 rs")
    case True
    with Cons.prems s rs show ?thesis by (auto simp: agg_blocked_def)
  next
    case False
    with Cons.prems s rs have next_step: "scan_loop False t (acc @ rs) ss = Inr a"
      and "\<not> list_ex blocked1 (acc @ rs)" by auto
    note IH = Cons.IH [OF this]
    have "set (acc @ rs) \<subseteq> set (results a)"
      using next_step by (induction ss arbitrary: acc rs) (auto split: sum.splits if_splits, fastforce+)
    with IH s rs False show ?thesis by auto
  qed
qed

lemma scan_loop_fail_open: "\<exists>a. scan_loop True t acc ss = Inr a"
  by (induction ss arbitrary: acc) (auto split: sum.splits)

lemma scan_loop_results:
  "scan_loop f t acc ss = Inr a \<Longrightarrow> r \<in> set (results a) \<Longrightarrow>
   r \<in> set acc \<or> (\<exists>(name, scan) \<in> set ss. \<exists>rs. scan t = Inr rs \<and> r \<in> set rs)"
proof (induction ss arbitrary: acc)
  case Nil
  then show ?case by auto
next
  case (Cons s ss)
  obtain name scan where s: "s = (name, scan)" by (cases s)
  show ?case
  proof (cases "scan t")
    case (Inl e)
    with Cons s show ?thesis by (fastforce split: if_splits)
  next
    case (Inr rs)
    with Cons.prems s Cons.IH [of "acc @ rs"] show ?thesis by (auto split: if_splits)
  qed
qed

text \<open>The contract of \<open>BaseScanner\<close>: what a registered scanner returns are hits carrying its own
  name. The orchestrator's aggregate then speaks of hits of registered scanners only.\<close>

locale scanner_suite =
  fixes suite :: "scanner list"
  assumes suite_sound:
    "(name, scan) \<in> set suite \<Longrightarrow> scan t = Inr rs \<Longrightarrow> r \<in> set rs \<Longrightarrow> hit r \<and> scanner_type r = name"
begin

lemma suite_results:
  assumes "orch_scan nz \<lparr>scanners = suite, fail_open = f\<rparr> t = Inr a" and "r \<in> set (results a)"
  shows "hit r \<and> scanner_type r \<in> fst ` set suite"
proof -
  from assms have "scan_loop f (nz t) [] suite = Inr a" by (simp add: orch_scan_def)
  from scan_loop_results [OF this assms(2)] obtain name scan rs where
    "(name, scan) \<in> set suite" "scan (nz t) = Inr rs" "r \<in> set rs" by auto
  with suite_sound [OF this] show ?thesis by force
qed

lemma suite_hit_iff:
  assumes "orch_scan nz \<lparr>scanners = suite, fail_open = f\<rparr> t = Inr a"
  shows "agg_hit a \<longleftrightarrow> results a \<noteq> []"
  using suite_results [OF assms] by (cases "results a") (auto simp: agg_hit_def)

text \<open>With a block-level hit the action is \<open>blocked\<close>, whatever else was found.\<close>

lemma suite_action_Passed:
  assumes "orch_scan nz \<lparr>scanners = suite, fail_open = f\<rparr> t = Inr a"
  shows "action_of a = Passed \<longleftrightarrow>
    (\<forall>r \<in> set (results a). level r \<notin> {JStr (lit ''block''), JStr (lit ''desensitize''), JStr (lit ''warn'')})"
  using suite_results [OF assms]
  by (auto simp: action_of_def agg_defs result_defs list_ex_iff)

end

section \<open>The running engine (main.py)\<close>

text \<open>The two scanners the application registers, with the state each keeps.\<close>

record engine =
  eng_rules :: "json list"
  eng_regex :: regex_scanner
  eng_fail_open :: bool

definition main_suite :: "(str \<Rightarrow> str) \<Rightarrow> engine \<Rightarrow> scanner list" where
  "main_suite low e =
     [(lit ''keyword'', keyword_scan low (eng_rules e)), (lit ''regex'', regex_scan (eng_regex e))]"

definition engine_orchestrator :: "(str \<Rightarrow> str) \<Rightarrow> engine \<Rightarrow> orchestrator" where
  "engine_orchestrator low e =
     register (lit ''regex'', regex_scan (eng_regex e))
       (register (lit ''keyword'', keyword_scan low (eng_rules e))
         \<lparr>scanners = [], fail_open = eng_fail_open e\<rparr>)"

definition engine_scan :: "(str \<Rightarrow> str) \<Rightarrow> (str \<Rightarrow> str) \<Rightarrow> engine \<Rightarrow> str \<Rightarrow> aggregated res" where
  "engine_scan nz low e t = orch_scan nz (engine_orchestrator low e) t"

lemma engine_orchestrator_eq:
  "engine_orchestrator low e = \<lparr>scanners = main_suite low e, fail_open = eng_fail_open e\<rparr>"
  by (simp add: engine_orchestrator_def register_def main_suite_def)

interpretation main: scanner_suite "main_suite low e" for low e
proof
  fix name scan t rs r
  assume "(name, scan) \<in> set (main_suite low e)" "scan t = Inr rs" "r \<in> set rs"
  then show "hit r \<and> scanner_type r = name"
    by (auto simp: main_suite_def regex_scan_def dest: keyword_scan_sound regex_scan_loop_sound)
qed

text \<open>\<open>reload_all\<close>: each scanner reads the file again, in order; an exception ends the reload.
  \<open>periodic_rules_reload\<close> suppresses it and keeps the state reached.\<close>

definition reload_all ::
    "(str \<Rightarrow> bool \<Rightarrow> re option) \<Rightarrow> rules_file \<Rightarrow> rules_file \<Rightarrow> engine \<Rightarrow> engine \<times> unit res" where
  "reload_all compile file1 file2 e =
     (case keyword_load_rules file1 (eng_rules e) of
        (rs, Inl x) \<Rightarrow> (e\<lparr>eng_rules := rs\<rparr>, Inl x)
      | (rs, Inr u) \<Rightarrow>
          (case regex_load_rules compile file2 (eng_regex e) of
             (sc, r) \<Rightarrow> (e\<lparr>eng_rules := rs, eng_regex := sc\<rparr>, r)))"

definition periodic_rules_reload ::
    "(str \<Rightarrow> bool \<Rightarrow> re option) \<Rightarrow> rules_file \<Rightarrow> rules_file \<Rightarrow> engine \<Rightarrow> engine" where
  "periodic_rules_reload compile file1 file2 e = fst (reload_all compile file1 file2 e)"

lemma reload_failure_keeps:
  "reload_all compile f1 f2 e = (e', Inl x) \<Longrightarrow>
   rx_compiled (eng_regex e') = rx_compiled (eng_regex e) \<and>
   (eng_rules e' = eng_rules e \<or> keyword_load_rules f1 (eng_rules e) = (eng_rules e', Inr ()))"
  by (auto simp: reload_all_def keyword_load_rules_def regex_load_rules_def
      split: rules_file.splits sum.splits prod.splits)

text \<open>With fail-closed scanners, a matching blocking rule blocks, whatever else is configured; and
  an exception of a scanner is the outcome of the scan.\<close>

lemma engine_scan_blocks:
  assumes "\<not> eng_fail_open e" "engine_scan nz low e t = Inr a"
    and "JDict d \<in> set (eng_rules e)" "blocking_rule low (nz t) d"
  shows "agg_blocked a"
proof (rule ccontr)
  assume n: "\<not> agg_blocked a"
  from assms(1,2) have "scan_loop False (nz t) [] (main_suite low e) = Inr a"
    by (simp add: engine_scan_def engine_orchestrator_eq orch_scan_def)
  from scan_loop_fail_closed [OF this] n obtain rs where
    "keyword_scan low (eng_rules e) (nz t) = Inr rs" "\<not> list_ex blocked1 rs"
    by (auto simp: main_suite_def)
  with keyword_scan_blocks assms(3,4) show False by blast
qed

lemma engine_scan_closed:
  assumes "\<not> eng_fail_open e" "keyword_scan low (eng_rules e) (nz t) = Inl x"
  shows "engine_scan nz low e t = Inl (Scanner_Unavailable (lit ''scanner keyword failed''))"
proof -
  have "lit ''scanner '' @ lit ''keyword'' @ lit '' failed'' = lit ''scanner keyword failed''"
    by (simp add: lit_def)
  with assms show ?thesis
    by (simp add: engine_scan_def engine_orchestrator_eq orch_scan_def main_suite_def)
qed

text \<open>A rules file that is gone at a reload switches every rule off: afterwards the regex
  scanner reports nothing on any text, and nor does the keyword scanner.\<close>

lemma missing_rules_file_disables:
  "regex_scan (eng_regex (periodic_rules_reload compile Missing Missing e)) t = Inr [] \<and>
   keyword_scan low (eng_rules (periodic_rules_reload compile Missing Missing e)) t = Inr []"
  by (simp add: periodic_rules_reload_def reload_all_def keyword_load_rules_def regex_load_rules_def
      regex_scan_def keyword_scan_def)

end
