(* ===== verification/Table.thy ===== *)
theory Table
  imports Prelude "HOL-Library.Multiset"
begin

text \<open>
  Database tables. A table is the list of its rows in insertion order; the sources reach it
  through an ORM session (\<open>session.get\<close>, \<open>session.add\<close>, attribute assignment followed by a
  commit, \<open>delete ... where\<close>). The locale states what the services rely on; its instance is the
  list model below, one interpretation per table.
\<close>

definition tbl_get :: "('r \<Rightarrow> 'k) \<Rightarrow> 'k \<Rightarrow> 'r list \<Rightarrow> 'r option" where
  "tbl_get key k t = find (\<lambda>r. key r = k) t"

definition tbl_add :: "'r \<Rightarrow> 'r list \<Rightarrow> 'r list" where
  "tbl_add r t = t @ [r]"

definition tbl_update :: "('r \<Rightarrow> 'k) \<Rightarrow> 'k \<Rightarrow> ('r \<Rightarrow> 'r) \<Rightarrow> 'r list \<Rightarrow> 'r list" where
  "tbl_update key k f t = map (\<lambda>r. if key r = k then f r else r) t"

definition tbl_delete :: "('r \<Rightarrow> bool) \<Rightarrow> 'r list \<Rightarrow> 'r list" where
  "tbl_delete p t = filter (\<lambda>r. \<not> p r) t"

text \<open>A \<open>datetime\<close> is its number of microseconds; \<open>timedelta(days=1)\<close>.\<close>

definition day :: int where
  "day = 86400000000"

text \<open>Listings: newest first (\<open>ORDER BY created_at DESC\<close>), one page of them.\<close>

definition newest_first :: "('r \<Rightarrow> int) \<Rightarrow> 'r list \<Rightarrow> 'r list" where
  "newest_first created t = sort_key (\<lambda>r. - created r) t"

lemma set_newest_first [simp]: "set (newest_first f t) = set t"
  by (simp add: newest_first_def)

lemma sorted_newest_first: "sorted (map (\<lambda>r. - f r) (newest_first f t))"
  by (simp add: newest_first_def)

text \<open>\<open>ORDER BY created_at DESC, id DESC\<close>: the order of the rows' keys, latest first.\<close>

datatype row_key = Row_Key (rk_created: int) (rk_id: int)

instantiation row_key :: linorder
begin

fun less_eq_row_key :: "row_key \<Rightarrow> row_key \<Rightarrow> bool" where
  "less_eq_row_key (Row_Key a i) (Row_Key b j) = (a > b \<or> a = b \<and> i \<ge> j)"

fun less_row_key :: "row_key \<Rightarrow> row_key \<Rightarrow> bool" where
  "less_row_key (Row_Key a i) (Row_Key b j) = (a > b \<or> a = b \<and> i > j)"

instance
proof
  fix x y z :: row_key
  show "x < y \<longleftrightarrow> x \<le> y \<and> \<not> y \<le> x" by (cases x; cases y) auto
  show "x \<le> x" by (cases x) simp
  show "x \<le> y \<Longrightarrow> y \<le> z \<Longrightarrow> x \<le> z" by (cases x; cases y; cases z) auto
  show "x \<le> y \<Longrightarrow> y \<le> x \<Longrightarrow> x = y" by (cases x; cases y) auto
  show "x \<le> y \<or> y \<le> x" by (cases x; cases y) auto
qed

end

definition latest_first :: "('r \<Rightarrow> int) \<Rightarrow> ('r \<Rightarrow> int) \<Rightarrow> 'r list \<Rightarrow> 'r list" where
  "latest_first created rid t = sort_key (\<lambda>r. Row_Key (created r) (rid r)) t"

lemma set_latest_first [simp]: "set (latest_first f g t) = set t"
  by (simp add: latest_first_def)

lemma mset_latest_first [simp]: "mset (latest_first f g t) = mset t"
  by (simp add: latest_first_def)

lemma length_latest_first [simp]: "length (latest_first f g t) = length t"
  by (simp add: latest_first_def)

lemma sorted_latest_first: "sorted (map (\<lambda>r. Row_Key (f r) (g r)) (latest_first f g t))"
  by (simp add: latest_first_def)

lemma sorted_page: "sorted (map f t) \<Longrightarrow> sorted (map f (page n m t))"
  by (simp add: page_def take_map [symmetric] drop_map [symmetric] sorted_wrt_take sorted_wrt_drop)

locale keyed_table =
  fixes key :: "'r \<Rightarrow> 'k"
    and get :: "'k \<Rightarrow> 'r list \<Rightarrow> 'r option"
    and add :: "'r \<Rightarrow> 'r list \<Rightarrow> 'r list"
    and upd :: "'k \<Rightarrow> ('r \<Rightarrow> 'r) \<Rightarrow> 'r list \<Rightarrow> 'r list"
    and del :: "('r \<Rightarrow> bool) \<Rightarrow> 'r list \<Rightarrow> 'r list"
  assumes get_Some: "get k t = Some r \<Longrightarrow> r \<in> set t \<and> key r = k"
    and get_None: "get k t = None \<longleftrightarrow> k \<notin> key ` set t"
    and get_add: "k \<notin> key ` set t \<Longrightarrow> get k (add r t) = (if key r = k then Some r else None)"
    and get_upd: "(\<And>r. key (f r) = key r) \<Longrightarrow>
      get k' (upd k f t) = (if k' = k then map_option f (get k' t) else get k' t)"
    and upd_eq: "upd k f t = map (\<lambda>r. if key r = k then f r else r) t"
    and add_eq: "add r t = t @ [r]"
    and del_eq: "del p t = filter (\<lambda>r. \<not> p r) t"
begin

lemma set_add: "set (add r t) = insert r (set t)"
  by (simp add: add_eq)

lemma set_del: "set (del p t) = {r \<in> set t. \<not> p r}"
  by (auto simp: del_eq)

lemma distinct_del: "distinct (map g t) \<Longrightarrow> distinct (map g (del p t))"
  by (simp add: del_eq distinct_map_filter)

lemma set_upd: "set (upd k f t) = (\<lambda>r. if key r = k then f r else r) ` set t"
  by (simp add: upd_eq)

lemma map_upd: "(\<And>r. g (f r) = g r) \<Longrightarrow> map g (upd k f t) = map g t"
  by (simp add: upd_eq)

lemma get_del: "(\<And>r. p r \<longleftrightarrow> key r = k) \<Longrightarrow> get k (del p t) = None"
  by (auto simp: get_None set_del)

lemma distinct_add: "distinct (map g t) \<Longrightarrow> g r \<notin> g ` set t \<Longrightarrow> distinct (map g (add r t))"
  by (simp add: add_eq)

text \<open>A property of rows that a change of one row keeps.\<close>

lemma upd_all: "(\<And>r. r \<in> set t \<Longrightarrow> P r) \<Longrightarrow> (\<And>r. P r \<Longrightarrow> key r = k \<Longrightarrow> P (f r)) \<Longrightarrow>
  r \<in> set (upd k f t) \<Longrightarrow> P r"
  by (auto simp: set_upd split: if_splits)

lemma get_unique: "distinct (map key t) \<Longrightarrow> r \<in> set t \<Longrightarrow> get (key r) t = Some r"
proof -
  assume d: "distinct (map key t)" and r: "r \<in> set t"
  then obtain r' where r': "get (key r) t = Some r'"
    using get_None [of "key r" t] by auto
  with get_Some [OF r'] d r have "r' = r"
    by (auto simp: distinct_map inj_on_def)
  with r' show "get (key r) t = Some r" by simp
qed

end

lemma keyed_table_list:
  "keyed_table key (tbl_get key) tbl_add (tbl_update key) tbl_delete"
proof
  show "tbl_get key k t = Some r \<Longrightarrow> r \<in> set t \<and> key r = k" for k t r
    by (auto simp: tbl_get_def find_Some_iff)
  show "tbl_get key k t = None \<longleftrightarrow> k \<notin> key ` set t" for k t
    by (auto simp: tbl_get_def find_None_iff)
  show "k \<notin> key ` set t \<Longrightarrow> tbl_get key k (tbl_add r t) = (if key r = k then Some r else None)" for k t r
    by (induction t) (auto simp: tbl_get_def tbl_add_def)
  show "tbl_get key k' (tbl_update key k f t) =
      (if k' = k then map_option f (tbl_get key k' t) else tbl_get key k' t)"
    if "\<And>r. key (f r) = key r" for f k k' t
    using that by (induction t) (auto simp: tbl_get_def tbl_update_def)
qed (auto simp: tbl_update_def tbl_add_def tbl_delete_def)

section \<open>Autoincremented ids\<close>

text \<open>\<open>add_all\<close> and \<open>commit\<close> on a table with an autoincremented key: the new rows are numbered
  after the largest id there is.\<close>

fun number_from :: "(int \<Rightarrow> 'r \<Rightarrow> 'r) \<Rightarrow> int \<Rightarrow> 'r list \<Rightarrow> 'r list" where
  "number_from set_id n [] = []"
| "number_from set_id n (r # rs) = set_id n r # number_from set_id (n + 1) rs"

definition next_id :: "('r \<Rightarrow> int) \<Rightarrow> 'r list \<Rightarrow> int" where
  "next_id key t = fold max (map key t) 0 + 1"

definition tbl_insert_all :: "('r \<Rightarrow> int) \<Rightarrow> (int \<Rightarrow> 'r \<Rightarrow> 'r) \<Rightarrow> 'r list \<Rightarrow> 'r list \<Rightarrow> 'r list" where
  "tbl_insert_all key set_id rows t = t @ number_from set_id (next_id key t) rows"

lemma length_number_from [simp]: "length (number_from set_id n rs) = length rs"
  by (induction rs arbitrary: n) auto

lemma number_from_keys:
  "(\<And>n r. key (set_id n r) = n) \<Longrightarrow>
   distinct (map key (number_from set_id n rs)) \<and> (\<forall>r\<in>set (number_from set_id n rs). n \<le> key r)"
proof (induction rs arbitrary: n)
  case (Cons r rs)
  from Cons.IH [of "n + 1"] Cons.prems
  have ih: "distinct (map key (number_from set_id (n + 1) rs))"
    "\<forall>r\<in>set (number_from set_id (n + 1) rs). n + 1 \<le> key r" by auto
  from ih(2) have "n \<notin> key ` set (number_from set_id (n + 1) rs)" by fastforce
  with ih Cons.prems show ?case by fastforce
qed simp

lemma number_from_field:
  "(\<And>n r. g (set_id n r) = g r) \<Longrightarrow> map g (number_from set_id n rs) = map g rs"
  by (induction rs arbitrary: n) auto

lemma fold_max_ge_start: "(a::int) \<le> fold max xs a"
proof (induction xs arbitrary: a)
  case (Cons y xs)
  show ?case using Cons [of "max y a"] by simp
qed simp

lemma fold_max_ge: "x \<in> set xs \<Longrightarrow> x \<le> fold max xs (a::int)"
proof (induction xs arbitrary: a)
  case (Cons y xs)
  show ?case
  proof (cases "x = y")
    case True
    then show ?thesis using fold_max_ge_start [of "max y a" xs] by simp
  next
    case False
    with Cons show ?thesis by simp
  qed
qed simp

lemma next_id_gt: "r \<in> set t \<Longrightarrow> key r < next_id key t"
  using fold_max_ge [of "key r" "map key t" 0] by (simp add: next_id_def)

text \<open>Writing keeps the ids distinct, so every row stays addressable.\<close>

lemma insert_all_distinct:
  assumes "distinct (map key t)" "\<And>n r. key (set_id n r) = n"
  shows "distinct (map key (tbl_insert_all key set_id rows t))"
proof -
  from number_from_keys [where key = key and set_id = set_id, OF assms(2)]
  have new: "distinct (map key (number_from set_id (next_id key t) rows))"
    "\<forall>r\<in>set (number_from set_id (next_id key t) rows). next_id key t \<le> key r" by auto
  with next_id_gt [of _ t key] have "key ` set t \<inter> key ` set (number_from set_id (next_id key t) rows) = {}"
    by fastforce
  with new assms(1) show ?thesis by (simp add: tbl_insert_all_def)
qed

end
