(* ===== verification/Audit_Log.thy ===== *)
theory Audit_Log
  imports Engine Table
begin

text \<open>
  Audit logs (\<open>storage/audit.py\<close>): the rows written for a scan result, with the snippet of text
  around each match, and the reader's pages and counts. Parameters: \<open>sha\<close> (the hexadecimal
  SHA-256 digest) and the clock.
\<close>

section \<open>Data\<close>

datatype scan_source = Aggregated aggregated | Single scanner_result

record audit_payload =
  ap_request_id :: str
  ap_scan_result :: scan_source
  ap_action_taken :: str
  ap_user_id :: str
  ap_scanned_text :: str
  ap_desensitized_text :: str

record audit_log =
  al_id :: int
  al_request_id :: str
  al_user_id :: str
  al_rule_id :: json
  al_rule_name :: json
  al_rule_level :: json
  al_scanner_type :: str
  al_matched_snippet :: str
  al_context_snippet :: str
  al_desensitized_snippet :: str
  al_full_text_hash :: str
  al_action_taken :: str
  al_created_at :: int

record audit_query =
  aq_limit :: int
  aq_offset :: int
  aq_user_id :: "str option"
  aq_rule_id :: "str option"
  aq_rule_level :: "str option"
  aq_scanner_type :: "str option"
  aq_action_taken :: "str option"
  aq_start_time :: "int option"
  aq_end_time :: "int option"

record audit_page =
  au_items :: "audit_log list"
  au_total :: nat
  au_limit :: int
  au_offset :: int

section \<open>Snippets\<close>

definition AUDIT_CONTEXT_CHARS :: nat where
  "AUDIT_CONTEXT_CHARS = 80"

text \<open>Positions come from the scanners and are natural numbers, so \<open>start < 0\<close> never holds.\<close>

definition bounded_position :: "str \<Rightarrow> nat \<times> nat \<Rightarrow> nat \<times> nat" where
  "bounded_position text where_at =
     (case where_at of (start, stop) \<Rightarrow>
        if stop \<le> start \<or> start \<ge> length text then (0, 0) else (start, min stop (length text)))"

definition window :: "str \<Rightarrow> nat \<Rightarrow> nat \<Rightarrow> str \<Rightarrow> str" where
  "window text start stop replacement =
     (let window_start = start - AUDIT_CONTEXT_CHARS;
          window_end = min (length text) (stop + AUDIT_CONTEXT_CHARS);
          snippet = take (window_end - window_start) (drop window_start text)
      in if replacement = [] then snippet
         else take (start - window_start) snippet @ replacement @ drop (stop - window_start) snippet)"

definition context_snippet :: "str \<Rightarrow> scanner_result \<Rightarrow> bool \<Rightarrow> str" where
  "context_snippet text result replace_match =
     (if text = [] then []
      else (let (start, stop) = bounded_position text (position result);
                replacement = (if replace_match then matched_text result else []) in
            if start < stop then window text start stop replacement
            else (case (if matched_text result \<noteq> [] then find_str text (matched_text result) else None) of
                    Some index \<Rightarrow> window text index (index + length (matched_text result)) []
                  | None \<Rightarrow> take (AUDIT_CONTEXT_CHARS * 2) text)))"

section \<open>Rows\<close>

definition extract_results :: "scan_source \<Rightarrow> scanner_result list" where
  "extract_results s = (case s of Single r \<Rightarrow> [r] | Aggregated a \<Rightarrow> results a)"

definition normalized_text_of :: "scan_source \<Rightarrow> str" where
  "normalized_text_of s = (case s of Aggregated a \<Rightarrow> normalized_text a | Single r \<Rightarrow> [])"

definition hash_text :: "(str \<Rightarrow> str) \<Rightarrow> str \<Rightarrow> str" where
  "hash_text sha t = (if t \<noteq> [] then sha t else [])"

text \<open>The database numbers the rows when they are written, so the model's \<open>al_id\<close> is 0 here.\<close>

definition log_of :: "(str \<Rightarrow> str) \<Rightarrow> int \<Rightarrow> audit_payload \<Rightarrow> scanner_result \<Rightarrow> audit_log" where
  "log_of sha now p r =
     (let nt = normalized_text_of (ap_scan_result p) in
      \<lparr>al_id = 0,
       al_request_id = ap_request_id p,
       al_user_id = ap_user_id p,
       al_rule_id = rule_id r,
       al_rule_name = rule_name r,
       al_rule_level = level r,
       al_scanner_type = scanner_type r,
       al_matched_snippet = matched_text r,
       al_context_snippet =
         context_snippet (if nt \<noteq> [] then nt else ap_scanned_text p) r False,
       al_desensitized_snippet =
         (if ap_desensitized_text p \<noteq> [] then context_snippet (ap_desensitized_text p) r False else []),
       al_full_text_hash = hash_text sha (if ap_scanned_text p \<noteq> [] then ap_scanned_text p else nt),
       al_action_taken = ap_action_taken p,
       al_created_at = now\<rparr>)"

definition logs_from_payload :: "(str \<Rightarrow> str) \<Rightarrow> int \<Rightarrow> audit_payload \<Rightarrow> audit_log list" where
  "logs_from_payload sha now p =
     (if extract_results (ap_scan_result p) = [] then []
      else map (log_of sha now p) (filter hit (extract_results (ap_scan_result p))))"

text \<open>\<open>commit\<close> is whether the transaction succeeds.\<close>

definition write_logs :: "bool \<Rightarrow> audit_log list \<Rightarrow> audit_log list \<Rightarrow> audit_log list res" where
  "write_logs commit logs t =
     (if logs = [] then Inr t
      else if commit then Inr (tbl_insert_all al_id (\<lambda>n l. l\<lparr>al_id := n\<rparr>) logs t)
      else Inl (Other_Error (lit ''OperationalError'')))"

definition write_scan_result ::
    "(str \<Rightarrow> str) \<Rightarrow> int \<Rightarrow> bool \<Rightarrow> audit_payload \<Rightarrow> audit_log list \<Rightarrow> audit_log list res" where
  "write_scan_result sha now commit p t = write_logs commit (logs_from_payload sha now p) t"

definition audit_write_many ::
    "(str \<Rightarrow> str) \<Rightarrow> int \<Rightarrow> bool \<Rightarrow> audit_payload list \<Rightarrow> audit_log list \<Rightarrow> audit_log list res" where
  "audit_write_many sha now commit payloads t =
     write_logs commit (concat (map (logs_from_payload sha now) payloads)) t"

section \<open>The reader\<close>

text \<open>A filter applies when its query field is neither \<open>None\<close> nor empty (times are never falsy).\<close>

definition str_filter :: "str option \<Rightarrow> ('r \<Rightarrow> str) \<Rightarrow> 'r \<Rightarrow> bool" where
  "str_filter q col r = (case q of Some s \<Rightarrow> s = [] \<or> col r = s | None \<Rightarrow> True)"

definition json_filter :: "str option \<Rightarrow> ('r \<Rightarrow> json) \<Rightarrow> 'r \<Rightarrow> bool" where
  "json_filter q col r = (case q of Some s \<Rightarrow> s = [] \<or> col r = JStr s | None \<Rightarrow> True)"

definition audit_filters :: "audit_query \<Rightarrow> audit_log \<Rightarrow> bool" where
  "audit_filters q r \<longleftrightarrow>
     str_filter (aq_user_id q) al_user_id r \<and>
     json_filter (aq_rule_id q) al_rule_id r \<and>
     json_filter (aq_rule_level q) al_rule_level r \<and>
     str_filter (aq_scanner_type q) al_scanner_type r \<and>
     str_filter (aq_action_taken q) al_action_taken r \<and>
     (case aq_start_time q of Some t \<Rightarrow> al_created_at r \<ge> t | None \<Rightarrow> True) \<and>
     (case aq_end_time q of Some t \<Rightarrow> al_created_at r \<le> t | None \<Rightarrow> True)"

definition audit_list :: "audit_query \<Rightarrow> audit_log list \<Rightarrow> audit_page" where
  "audit_list q t =
     (let lim = safe_limit 100 (aq_limit q);
          off = max (aq_offset q) 0;
          rows = filter (audit_filters q) t
      in \<lparr>au_items = page lim off (latest_first al_created_at al_id rows), au_total = length rows,
          au_limit = lim, au_offset = off\<rparr>)"

definition audit_get :: "int \<Rightarrow> audit_log list \<Rightarrow> audit_log option" where
  "audit_get i t = tbl_get al_id i t"

definition count_between :: "int \<Rightarrow> int \<Rightarrow> str option \<Rightarrow> audit_log list \<Rightarrow> nat" where
  "count_between start_time end_time rule_level t =
     length (filter (\<lambda>r. al_created_at r \<ge> start_time \<and> al_created_at r < end_time \<and>
       json_filter rule_level al_rule_level r) t)"

section \<open>Facts\<close>

interpretation audits: keyed_table al_id "tbl_get al_id" tbl_add "tbl_update al_id" tbl_delete
  by (rule keyed_table_list)

lemma window_plain:
  assumes "start < stop" "stop \<le> length text"
  shows "\<exists>a b. window text start stop [] = a @ take (stop - start) (drop start text) @ b \<and>
    length a \<le> AUDIT_CONTEXT_CHARS \<and> length b \<le> AUDIT_CONTEXT_CHARS"
proof -
  define w e where "w = start - AUDIT_CONTEXT_CHARS"
    and "e = min (length text) (stop + AUDIT_CONTEXT_CHARS)"
  define a m b where "a = take (start - w) (drop w text)"
    and "m = take (stop - start) (drop start text)" and "b = drop stop text"
  have w: "w \<le> start" "start - w \<le> AUDIT_CONTEXT_CHARS" by (auto simp: w_def)
  have e: "stop \<le> e" "e - stop \<le> AUDIT_CONTEXT_CHARS" using assms by (auto simp: e_def)
  have "drop w text = a @ drop start text"
    unfolding a_def using w(1) by (metis append_take_drop_id drop_drop le_add_diff_inverse2)
  moreover have "drop start text = m @ b"
    unfolding m_def b_def using assms by (metis append_take_drop_id drop_drop le_add_diff_inverse2 less_imp_le)
  ultimately have tx: "drop w text = a @ m @ b" by simp
  have len: "length a = start - w" "length m = stop - start"
    using assms by (auto simp: a_def m_def)
  have "take (e - w) (drop w text) = a @ m @ take (e - w - length a - length m) b"
    using assms w e by (simp add: tx len take_append)
  then have "window text start stop [] = a @ m @ take (e - w - length a - length m) b"
    by (simp add: window_def Let_def w_def e_def)
  moreover have "e - w - length a - length m \<le> AUDIT_CONTEXT_CHARS"
    using assms w e by (simp add: len)
  moreover have "length a \<le> AUDIT_CONTEXT_CHARS" using w len by simp
  ultimately show ?thesis unfolding m_def
    by (metis length_take min.cobounded2 order_trans)
qed

lemma write_logs_distinct:
  assumes "distinct (map al_id t)" "write_logs commit logs t = Inr t'"
  shows "distinct (map al_id t') \<and> length t' = length t + length logs \<and> take (length t) t' = t"
  using assms insert_all_distinct [of al_id t "\<lambda>n l. l\<lparr>al_id := n\<rparr>" logs]
  by (auto simp: write_logs_def tbl_insert_all_def split: if_splits)

lemma logs_of_agg_hit:
  "logs_from_payload sha now p \<noteq> [] \<longleftrightarrow> list_ex hit (extract_results (ap_scan_result p))"
  by (auto simp: logs_from_payload_def filter_empty_conv list_ex_iff)

lemma logs_from_payload_fields:
  "map al_rule_id (logs_from_payload sha now p) = map rule_id (filter hit (extract_results (ap_scan_result p)))"
  "\<forall>l\<in>set (logs_from_payload sha now p). al_request_id l = ap_request_id p \<and>
     al_action_taken l = ap_action_taken p \<and> al_created_at l = now"
  by (auto simp: logs_from_payload_def log_of_def Let_def)

text \<open>The rows added are the logs, numbered.\<close>

lemma write_logs_rows:
  assumes "write_logs commit logs t = Inr t'"
  shows "map al_rule_id (drop (length t) t') = map al_rule_id logs"
    and "(\<forall>l\<in>set logs. P (al_request_id l) (al_action_taken l) (al_created_at l)) \<longrightarrow>
      (\<forall>r\<in>set (drop (length t) t'). P (al_request_id r) (al_action_taken r) (al_created_at r))"
proof -
  have new: "drop (length t) t' = number_from (\<lambda>n l. l\<lparr>al_id := n\<rparr>) (next_id al_id t) logs \<or> drop (length t) t' = [] \<and> logs = []"
    using assms by (auto simp: write_logs_def tbl_insert_all_def split: if_splits)
  then show "map al_rule_id (drop (length t) t') = map al_rule_id logs"
    by (auto simp: number_from_field)
  have "map (\<lambda>l. P (al_request_id l) (al_action_taken l) (al_created_at l)) (number_from (\<lambda>n l. l\<lparr>al_id := n\<rparr>) k logs) =
      map (\<lambda>l. P (al_request_id l) (al_action_taken l) (al_created_at l)) logs" for k
    by (rule number_from_field) simp
  then show "(\<forall>l\<in>set logs. P (al_request_id l) (al_action_taken l) (al_created_at l)) \<longrightarrow>
      (\<forall>r\<in>set (drop (length t) t'). P (al_request_id r) (al_action_taken r) (al_created_at r))"
    using new by (metis (no_types, lifting) list.map_cong0 list.set_map image_iff map_eq_conv)
qed

end
