(* ===== verification/Stream.thy ===== *)
theory Stream
  imports Engine "HOL-Library.Word"
begin

text \<open>
  Streaming: the bounded collector of a streamed response and the reading of its server-sent
  events (\<open>StreamArchiveCollector\<close>, \<open>_extract_sse_message_content\<close> in \<open>proxy/relay.py\<close>), the
  streaming proxy with its error events (\<open>proxy/stream.py\<close>), and the answer returned instead of
  a blocked request (\<open>proxy/fake_response.py\<close>). Parameters: \<open>decode\<close> (UTF-8 decoding with
  replacement), \<open>loads\<close> (\<open>json.loads\<close>, \<open>None\<close> for a \<open>JSONDecodeError\<close>), \<open>dumps\<close>
  (\<open>json.dumps\<close>), \<open>render\<close> (the body bytes of a \<open>JSONResponse\<close>) and the HTTP client.
\<close>

type_synonym bytes = "8 word list"

section \<open>The bounded collector\<close>

record collector =
  max_bytes :: nat
  chunks :: "bytes list"
  archived_bytes :: nat
  original_bytes :: nat

definition new_collector :: "int \<Rightarrow> collector" where
  "new_collector n =
     \<lparr>max_bytes = nat (max 1 n), chunks = [], archived_bytes = 0, original_bytes = 0\<rparr>"

definition collector_add :: "bytes \<Rightarrow> collector \<Rightarrow> collector" where
  "collector_add chunk c0 =
     (let c = c0\<lparr>original_bytes := original_bytes c0 + length chunk\<rparr>;
          remaining = int (max_bytes c) - int (archived_bytes c)
      in if remaining \<le> 0 then c
         else let archived_chunk = take (nat remaining) chunk
              in c\<lparr>chunks := chunks c @ [archived_chunk],
                   archived_bytes := archived_bytes c + length archived_chunk\<rparr>)"

definition collect_all :: "int \<Rightarrow> bytes list \<Rightarrow> collector" where
  "collect_all n cs = foldl (\<lambda>c chunk. collector_add chunk c) (new_collector n) cs"

text \<open>What the collector promises: the longest prefix of the stream that fits, and whether
  anything was cut off.\<close>

definition collector_of :: "nat \<Rightarrow> bytes \<Rightarrow> collector \<Rightarrow> bool" where
  "collector_of m stream c \<longleftrightarrow>
     max_bytes c = m \<and> concat (chunks c) = take m stream \<and>
     archived_bytes c = min m (length stream) \<and> original_bytes c = length stream"

lemma collector_of_add:
  "collector_of m stream c \<Longrightarrow> collector_of m (stream @ chunk) (collector_add chunk c)"
  unfolding collector_of_def collector_add_def Let_def
  by (auto simp: min_def nat_diff_distrib' split: if_splits)

lemma collector_of_fold:
  "collector_of m s c \<Longrightarrow> collector_of m (s @ concat cs) (foldl (\<lambda>c chunk. collector_add chunk c) c cs)"
proof (induction cs arbitrary: s c)
  case Nil
  then show ?case by simp
next
  case (Cons chunk cs)
  from Cons.IH [OF collector_of_add [OF Cons.prems]] show ?case by simp
qed

lemma collector_of_collect_all: "collector_of (nat (max 1 n)) (concat cs) (collect_all n cs)"
  using collector_of_fold [of "nat (max 1 n)" "[]" "new_collector n" cs]
  by (simp add: collect_all_def collector_of_def new_collector_def)

section \<open>Reading server-sent events\<close>

text \<open>The characters at which \<open>str.splitlines\<close> breaks a line (a carriage return before a line feed
  counts once, but the text has none left when it is split).\<close>

definition line_break :: "nat \<Rightarrow> bool" where
  "line_break c \<longleftrightarrow> c \<in> set [10, 11, 12, 13, 28, 29, 30, 133, 8232, 8233]"

fun replace_crlf :: "str \<Rightarrow> str" where
  "replace_crlf [] = []"
| "replace_crlf [c] = [c]"
| "replace_crlf (c # d # s) =
     (if c = 13 \<and> d = 10 then 10 # replace_crlf s else c # replace_crlf (d # s))"

definition replace_cr :: "str \<Rightarrow> str" where
  "replace_cr s = map (\<lambda>c. if c = 13 then 10 else c) s"

fun splitlines :: "str \<Rightarrow> str list" where
  "splitlines [] = []"
| "splitlines (c # s) =
     (if line_break c then [] # splitlines s
      else (case splitlines s of [] \<Rightarrow> [[c]] | l # ls \<Rightarrow> (c # l) # ls))"

text \<open>The strings handed to \<open>json.loads\<close>: the stripped payloads of the data lines.\<close>

definition sse_payloads :: "str \<Rightarrow> str list" where
  "sse_payloads raw_content =
     filter (\<lambda>p. p \<noteq> [] \<and> p \<noteq> lit ''[DONE]'')
       (map (\<lambda>line. strip (removeprefix line (lit ''data:'')))
         (filter (\<lambda>line. startswith line (lit ''data:''))
           (splitlines (replace_cr (replace_crlf raw_content)))))"

fun str_field :: "json \<Rightarrow> str \<Rightarrow> str list" where
  "str_field (JDict d) k = (case dict_get d k of Some (JStr s) \<Rightarrow> [s] | _ \<Rightarrow> [])"
| "str_field _ k = []"

fun choice_parts :: "json \<Rightarrow> str list" where
  "choice_parts (JDict choice) =
     str_field (get_or choice (lit ''delta'') JNull) (lit ''content'') @
     str_field (get_or choice (lit ''message'') JNull) (lit ''content'')"
| "choice_parts _ = []"

definition payload_parts :: "(str \<Rightarrow> json option) \<Rightarrow> str \<Rightarrow> str list" where
  "payload_parts loads payload =
     (case loads payload of
        Some (JDict data) \<Rightarrow>
          (case get_or data (lit ''choices'') JNull of
             JList choices \<Rightarrow> concat (map choice_parts choices)
           | _ \<Rightarrow> [])
      | _ \<Rightarrow> [])"

definition extract_sse_message_content :: "(str \<Rightarrow> json option) \<Rightarrow> str \<Rightarrow> str" where
  "extract_sse_message_content loads raw_content =
     concat (concat (map (payload_parts loads) (sse_payloads raw_content)))"

definition collector_payload :: "(bytes \<Rightarrow> str) \<Rightarrow> (str \<Rightarrow> json option) \<Rightarrow> collector \<Rightarrow> json" where
  "collector_payload decode loads c =
     (let raw_content = decode (concat (chunks c)) in
      JDict [(lit ''stream'', JBool True),
             (lit ''media_type'', JStr (lit ''text/event-stream'')),
             (lit ''content'', JStr raw_content),
             (lit ''message_content'', JStr (extract_sse_message_content loads raw_content)),
             (lit ''truncated'', JBool (original_bytes c > max_bytes c)),
             (lit ''archived_bytes'', JInt (int (archived_bytes c))),
             (lit ''original_bytes'', JInt (int (original_bytes c)))])"

definition stream_archive_body :: "int \<Rightarrow> (bytes \<Rightarrow> str) \<Rightarrow> (str \<Rightarrow> json option) \<Rightarrow> bytes list \<Rightarrow> json" where
  "stream_archive_body stream_archive_max_bytes decode loads cs =
     collector_payload decode loads (collect_all stream_archive_max_bytes cs)"

section \<open>The streaming proxy\<close>

text \<open>The exceptions of the HTTP client, by class; any other exception is not its own.\<close>

datatype client_error =
    Pool_Timeout
  | Connect_Timeout
  | Read_Timeout
  | Write_Timeout
  | Transport_Error str
  | Foreign_Error str

fun class_name :: "client_error \<Rightarrow> str" where
  "class_name Pool_Timeout = lit ''PoolTimeout''"
| "class_name Connect_Timeout = lit ''ConnectTimeout''"
| "class_name Read_Timeout = lit ''ReadTimeout''"
| "class_name Write_Timeout = lit ''WriteTimeout''"
| "class_name (Transport_Error n) = n"
| "class_name (Foreign_Error n) = n"

text \<open>The \<open>except\<close> clauses, in order: status and detail; \<open>None\<close> lets the exception through.\<close>

fun error_status :: "client_error \<Rightarrow> (nat \<times> str) option" where
  "error_status Pool_Timeout = Some (429, lit ''upstream connection pool exhausted'')"
| "error_status Connect_Timeout = Some (504, lit ''upstream request timed out'')"
| "error_status Read_Timeout = Some (504, lit ''upstream request timed out'')"
| "error_status Write_Timeout = Some (504, lit ''upstream request timed out'')"
| "error_status (Transport_Error n) = Some (502, lit ''upstream transport error'')"
| "error_status (Foreign_Error n) = None"

definition error_content :: "client_error \<Rightarrow> str \<Rightarrow> json" where
  "error_content e detail =
     JDict [(lit ''detail'', JStr detail), (lit ''error_type'', JStr (class_name e))]"

definition ascii :: "string \<Rightarrow> bytes" where
  "ascii s = map of_char s"

definition build_error_event ::
    "(json \<Rightarrow> bytes) \<Rightarrow> (bytes \<Rightarrow> str) \<Rightarrow> nat \<Rightarrow> bytes \<Rightarrow> str option \<Rightarrow> bytes" where
  "build_error_event render decode status_code content content_type =
     ascii ''event: error'' @ [10] @ ascii ''data: '' @
     render (JDict [(lit ''error'', JDict
       [(lit ''status_code'', JInt (int status_code)),
        (lit ''content_type'', JStr (case content_type of
            None \<Rightarrow> lit ''application/octet-stream''
          | Some t \<Rightarrow> if t = [] then lit ''application/octet-stream'' else t)),
        (lit ''body'', JStr (decode content))])]) @ [10, 10]"

text \<open>How opening and reading the upstream stream goes: it fails before the response, or there is
  a status, a content type, the chunks received and possibly an error after them.\<close>

datatype upstream_stream =
    Open_Failed client_error
  | Opened nat "str option" "bytes list" "client_error option"

definition client_error_event ::
    "(json \<Rightarrow> bytes) \<Rightarrow> (bytes \<Rightarrow> str) \<Rightarrow> client_error \<Rightarrow> bytes list \<times> exn option" where
  "client_error_event render decode e =
     (case error_status e of
        Some (code, detail) \<Rightarrow>
          ([build_error_event render decode code (render (error_content e detail))
              (Some (lit ''application/json''))], None)
      | None \<Rightarrow> ([], Some (Other_Error (class_name e))))"

text \<open>The chunks the generator yields, and the exception it ends with, if any.\<close>

definition proxy_stream ::
    "(json \<Rightarrow> bytes) \<Rightarrow> (bytes \<Rightarrow> str) \<Rightarrow> upstream_stream \<Rightarrow> bytes list \<times> exn option" where
  "proxy_stream render decode up =
     (case up of
        Open_Failed e \<Rightarrow> client_error_event render decode e
      | Opened status ctype cs err \<Rightarrow>
          if status \<ge> 400 then
            (case err of
               Some e \<Rightarrow> client_error_event render decode e
             | None \<Rightarrow> ([build_error_event render decode status (concat cs) ctype], None))
          else
            (case err of
               None \<Rightarrow> (filter (\<lambda>c. c \<noteq> []) cs, None)
             | Some e \<Rightarrow> (case client_error_event render decode e of
                 (ev, x) \<Rightarrow> (filter (\<lambda>c. c \<noteq> []) cs @ ev, x))))"

section \<open>The answer to a blocked request\<close>

definition TEMPLATE_BLOCK :: str where
  "TEMPLATE_BLOCK =
    [25265, 27465, 65292, 25105, 26080, 27861, 22788, 29702, 24744, 30340, 35831, 27714,
     12290, 24744, 36755, 20837, 30340, 20869, 23481, 21487, 33021, 21253, 21547, 25935,
     24863, 20449, 24687, 65292, 35831, 26816, 26597, 21518, 37325, 35797, 12290, 22914,
     38656, 24110, 21161, 65292, 35831, 32852, 31995, 20449, 24687, 23433, 20840, 22242,
     38431, 12290]"

definition TEMPLATE_WARN :: str where
  "TEMPLATE_WARN =
    [35831, 27880, 24847, 65292, 24744, 36755, 20837, 30340, 20869, 23481, 21487, 33021,
     21253, 21547, 25935, 24863, 20449, 24687, 65292, 35831, 26816, 26597, 21518, 37325,
     35797, 12290]"

text \<open>\<open>TEMPLATES.get(result.level, TEMPLATES["block"])\<close>; a level that cannot be hashed raises.\<close>

fun template_for :: "json \<Rightarrow> str res" where
  "template_for (JList xs) = Inl Type_Error"
| "template_for (JDict d) = Inl Type_Error"
| "template_for l = Inr (if l = JStr (lit ''warn'') then TEMPLATE_WARN else TEMPLATE_BLOCK)"

definition select_result :: "aggregated \<Rightarrow> scanner_result" where
  "select_result a =
     (case block_result a of
        Some r \<Rightarrow> r
      | None \<Rightarrow> (case results a of r # _ \<Rightarrow> r | [] \<Rightarrow> no_hit))"

definition build_non_stream_response :: "str \<Rightarrow> int \<Rightarrow> str \<Rightarrow> json \<Rightarrow> json" where
  "build_non_stream_response hex8 now content model =
     JDict [(lit ''id'', JStr (lit ''chatcmpl-safetyhub-'' @ hex8)),
            (lit ''object'', JStr (lit ''chat.completion'')),
            (lit ''created'', JInt now),
            (lit ''model'', model),
            (lit ''choices'', JList [JDict
               [(lit ''index'', JInt 0),
                (lit ''message'', JDict [(lit ''role'', JStr (lit ''assistant'')), (lit ''content'', JStr content)]),
                (lit ''finish_reason'', JStr (lit ''stop''))]]),
            (lit ''usage'', JDict [(lit ''prompt_tokens'', JInt 0), (lit ''completion_tokens'', JInt 0),
                                   (lit ''total_tokens'', JInt 0)])]"

fun deltas :: "str \<Rightarrow> str list" where
  "deltas [] = []"
| "deltas [c] = [[c]]"
| "deltas (c # d # s) = [c, d] # deltas s"

definition chunk_payload :: "str \<Rightarrow> int \<Rightarrow> json \<Rightarrow> json \<Rightarrow> json \<Rightarrow> json" where
  "chunk_payload response_id created model delta finish_reason =
     JDict [(lit ''id'', JStr response_id),
            (lit ''object'', JStr (lit ''chat.completion.chunk'')),
            (lit ''created'', JInt created),
            (lit ''model'', model),
            (lit ''choices'', JList [JDict
               [(lit ''index'', JInt 0), (lit ''delta'', delta), (lit ''finish_reason'', finish_reason)]])]"

definition fake_payloads :: "str \<Rightarrow> int \<Rightarrow> str \<Rightarrow> json \<Rightarrow> json list" where
  "fake_payloads hex8 now content model =
     (let response_id = lit ''chatcmpl-safetyhub-'' @ hex8 in
      map (\<lambda>delta. chunk_payload response_id now model (JDict [(lit ''content'', JStr delta)]) JNull)
        (deltas content) @
      [chunk_payload response_id now model (JDict []) (JStr (lit ''stop''))])"

definition sse_event :: "str \<Rightarrow> str" where
  "sse_event payload = lit ''data: '' @ payload @ [10, 10]"

definition stream_fake_chunks :: "(json \<Rightarrow> str) \<Rightarrow> str \<Rightarrow> int \<Rightarrow> str \<Rightarrow> json \<Rightarrow> str list" where
  "stream_fake_chunks dumps hex8 now content model =
     map (\<lambda>p. sse_event (dumps p)) (fake_payloads hex8 now content model) @
     [sse_event (lit ''[DONE]'')]"

datatype fake_response = Fake_Json json | Fake_Stream "str list"

definition generate_fake_response ::
    "(json \<Rightarrow> str) \<Rightarrow> str \<Rightarrow> int \<Rightarrow> (str \<times> json) list \<Rightarrow> aggregated \<Rightarrow> bool \<Rightarrow> fake_response res" where
  "generate_fake_response dumps hex8 now request_body scan_result is_stream =
     rbind (template_for (level (select_result scan_result))) (\<lambda>template.
     let model = get_or request_body (lit ''model'') (JStr (lit ''gpt-3.5-turbo'')) in
     Inr (if is_stream then Fake_Stream (stream_fake_chunks dumps hex8 now template model)
          else Fake_Json (build_non_stream_response hex8 now template model)))"

section \<open>Properties of the event reader\<close>

lemma splitlines_clean: "\<forall>l \<in> set (splitlines s). \<forall>c \<in> set l. \<not> line_break c"
  by (induction s) (auto split: list.splits)

lemma splitlines_no_break: "l \<in> set (splitlines s) \<Longrightarrow> c \<in> set l \<Longrightarrow> \<not> line_break c"
  using splitlines_clean by blast

lemma set_removeprefix: "set (removeprefix s p) \<subseteq> set s"
  by (simp add: removeprefix_def set_drop_subset)

lemma sse_payloads_no_break: "p \<in> set (sse_payloads raw) \<Longrightarrow> c \<in> set p \<Longrightarrow> \<not> line_break c"
  unfolding sse_payloads_def
  using set_strip set_removeprefix splitlines_no_break by fastforce

lemma splitlines_line:
  "\<forall>c \<in> set l. \<not> line_break c \<Longrightarrow> splitlines (l @ 10 # s) = l # splitlines s"
  by (induction l) (auto simp: line_break_def)

lemma replace_crlf_id: "13 \<notin> set s \<Longrightarrow> replace_crlf s = s"
  by (induction s rule: replace_crlf.induct) auto

lemma replace_cr_id: "13 \<notin> set s \<Longrightarrow> replace_cr s = s"
  unfolding replace_cr_def by (rule map_idI) auto

lemma strip_Cons_space [simp]: "strip (32 # s) = strip s"
  by (simp add: strip_def strip_by_def)

lemma lit_data: "lit ''data: '' = lit ''data:'' @ [32]"
  by (simp add: lit_def)

definition clean_line :: "str \<Rightarrow> bool" where
  "clean_line p \<longleftrightarrow> (\<forall>c \<in> set p. \<not> line_break c)"

lemma splitlines_events:
  "(\<forall>t \<in> set ts. clean_line t) \<Longrightarrow>
   splitlines (concat (map sse_event ts)) = concat (map (\<lambda>t. [lit ''data: '' @ t, []]) ts)"
proof (induction ts)
  case Nil
  then show ?case by simp
next
  case (Cons t ts)
  have d: "\<forall>c \<in> set (lit ''data: '' @ t). \<not> line_break c"
    using Cons.prems by (auto simp: clean_line_def lit_def line_break_def)
  let ?S = "concat (map sse_event ts)"
  have eq: "concat (map sse_event (t # ts)) = (lit ''data: '' @ t) @ 10 # 10 # ?S"
    by (simp add: sse_event_def)
  have "splitlines (10 # ?S) = [] # splitlines ?S" by (simp add: line_break_def)
  then have "splitlines (concat (map sse_event (t # ts))) = (lit ''data: '' @ t) # [] # splitlines ?S"
    unfolding eq splitlines_line [OF d] by (simp only:)
  with Cons show ?case by simp
qed

text \<open>A stream of events over clean payloads is read back payload by payload.\<close>

lemma sse_payloads_events:
  assumes clean: "\<forall>t \<in> set ts. clean_line t"
  shows "sse_payloads (concat (map sse_event ts)) =
         filter (\<lambda>p. p \<noteq> [] \<and> p \<noteq> lit ''[DONE]'') (map strip ts)"
proof -
  have n13: "13 \<notin> set (concat (map sse_event ts))"
    using clean by (auto simp: sse_event_def clean_line_def lit_def line_break_def)
  have data: "startswith (lit ''data: '' @ t) (lit ''data:'')"
    and rest: "removeprefix (lit ''data: '' @ t) (lit ''data:'') = 32 # t" for t
    by (simp_all add: lit_data)
  have nil: "\<not> startswith [] (lit ''data:'')" by (simp add: startswith_def)
  have "map (\<lambda>line. strip (removeprefix line (lit ''data:'')))
      (filter (\<lambda>line. startswith line (lit ''data:'')) (concat (map (\<lambda>t. [lit ''data: '' @ t, []]) ts)))
      = map strip ts"
    by (induction ts) (simp_all add: data rest nil)
  then show ?thesis
    by (simp only: sse_payloads_def replace_crlf_id [OF n13] replace_cr_id [OF n13] splitlines_events [OF clean])
qed

lemma concat_deltas [simp]: "concat (deltas s) = s"
  by (induction s rule: deltas.induct) auto

lemma deltas_length: "d \<in> set (deltas s) \<Longrightarrow> d \<noteq> [] \<and> length d \<le> 2"
  by (induction s rule: deltas.induct) auto

text \<open>A renderer of JSON that the event reader can read back: one line, no outer blanks, not the end
  marker, and parsed to the same value (\<open>json.dumps\<close>, unless a text holds a line separator that JSON
  does not escape).\<close>

definition event_codec :: "(str \<Rightarrow> json option) \<Rightarrow> (json \<Rightarrow> str) \<Rightarrow> json \<Rightarrow> bool" where
  "event_codec loads dumps p \<longleftrightarrow>
     loads (dumps p) = Some p \<and> clean_line (dumps p) \<and> strip (dumps p) = dumps p \<and>
     dumps p \<noteq> [] \<and> dumps p \<noteq> lit ''[DONE]''"

lemma payload_parts_delta:
  "event_codec loads dumps (chunk_payload i now model (JDict [(lit ''content'', JStr d)]) JNull) \<Longrightarrow>
   concat (payload_parts loads (dumps (chunk_payload i now model (JDict [(lit ''content'', JStr d)]) JNull))) = d"
  by (simp add: event_codec_def payload_parts_def chunk_payload_def get_or_def)

lemma payload_parts_stop:
  "event_codec loads dumps (chunk_payload i now model (JDict []) (JStr (lit ''stop''))) \<Longrightarrow>
   payload_parts loads (dumps (chunk_payload i now model (JDict []) (JStr (lit ''stop'')))) = []"
  by (simp add: event_codec_def payload_parts_def chunk_payload_def get_or_def)

lemma done_line: "clean_line (lit ''[DONE]'')" "strip (lit ''[DONE]'') = lit ''[DONE]''"
  by (simp_all add: clean_line_def lit_def line_break_def strip_def strip_by_def is_space_def)

lemma fake_stream_read_back:
  assumes "\<forall>p\<in>set (fake_payloads hex8 now content model). event_codec loads dumps p"
  shows "extract_sse_message_content loads (concat (stream_fake_chunks dumps hex8 now content model)) = content"
proof -
  let ?ps = "fake_payloads hex8 now content model"
  let ?ts = "map dumps ?ps @ [lit ''[DONE]'']"
  have "\<forall>t\<in>set ?ts. clean_line t" using assms done_line by (auto simp: event_codec_def)
  from sse_payloads_events [OF this]
  have "sse_payloads (concat (map sse_event ?ts)) = filter (\<lambda>p. p \<noteq> [] \<and> p \<noteq> lit ''[DONE]'') (map strip ?ts)" .
  also have "map strip ?ts = ?ts" using assms done_line by (auto simp: event_codec_def)
  also have "filter (\<lambda>p. p \<noteq> [] \<and> p \<noteq> lit ''[DONE]'') ?ts = map dumps ?ps"
    using assms by (auto simp: event_codec_def filter_id_conv)
  finally have read: "sse_payloads (concat (stream_fake_chunks dumps hex8 now content model)) = map dumps ?ps"
    by (simp add: stream_fake_chunks_def comp_def)
  let ?id = "lit ''chatcmpl-safetyhub-'' @ hex8"
  let ?p = "\<lambda>d. chunk_payload ?id now model (JDict [(lit ''content'', JStr d)]) JNull"
  let ?stop = "chunk_payload ?id now model (JDict []) (JStr (lit ''stop''))"
  have ps: "?ps = map ?p (deltas content) @ [?stop]" by (simp add: fake_payloads_def Let_def)
  have "concat (concat (map (\<lambda>d. payload_parts loads (dumps (?p d))) ds)) = concat ds"
    if "\<forall>d\<in>set ds. event_codec loads dumps (?p d)" for ds
    using that by (induction ds) (simp_all add: payload_parts_delta)
  moreover have "\<forall>d\<in>set (deltas content). event_codec loads dumps (?p d)" using assms ps by auto
  moreover have "payload_parts loads (dumps ?stop) = []"
    by (rule payload_parts_stop) (use assms ps in auto)
  ultimately show ?thesis
    by (simp add: extract_sse_message_content_def read ps comp_def)
qed

end
