(* ===== verification/Training.thy ===== *)
theory Training
  imports Stream Table "HOL-Library.List_Lexorder"
begin

text \<open>
  Training conversations (\<open>storage/training.py\<close>, with the archive payload of
  \<open>storage/archive.py\<close>): which relayed conversations are kept, how they are normalised, and the
  reader's pages, statistics and cleanup. Parameters: \<open>loads\<close> and \<open>dumps\<close> (JSON), \<open>utf8_len\<close>
  (the length of the UTF-8 encoding), \<open>sha\<close>, \<open>py_str\<close> (\<open>str(x)\<close> of a value that is no string),
  the SQL \<open>LIKE\<close>, UUIDs and the clock.
\<close>

section \<open>Data\<close>

record archive_payload =
  ar_request_id :: str
  ar_model :: json
  ar_capability :: str
  ar_prompt_original :: json
  ar_prompt_desensitized :: json
  ar_response :: json
  ar_is_stream :: bool
  ar_is_blocked :: bool
  ar_is_desensitized :: bool
  ar_action_taken :: str
  ar_blocked_rule_id :: json
  ar_matched_rule_ids :: "json list"
  ar_user_id :: str
  ar_api_key_id :: str
  ar_latency_ms :: int

record conversation =
  tc_id :: int
  tc_conversation_id :: str
  tc_request_id :: str
  tc_user_id :: str
  tc_api_key_id :: str
  tc_model :: json
  tc_capability :: str
  tc_messages :: str
  tc_assistant_response :: str
  tc_trajectory :: str
  tc_trajectory_hash :: str
  tc_covered_by :: str
  tc_analysis_status :: str
  tc_analyzed_at :: "int option"
  tc_prompt_bytes :: nat
  tc_response_bytes :: nat
  tc_is_desensitized :: bool
  tc_expires_at :: "int option"
  tc_created_at :: int

type_synonym training_table = "conversation list"

text \<open>The library functions of this component.\<close>

record codec =
  cd_loads :: "str \<Rightarrow> json option"
  cd_dumps :: "json \<Rightarrow> str"
  cd_py_str :: "json \<Rightarrow> str"
  cd_utf8_len :: "str \<Rightarrow> nat"
  cd_sha :: "str \<Rightarrow> str"

section \<open>Normalisation\<close>

definition normalize_text :: "str \<Rightarrow> str" where
  "normalize_text v = strip (replace_cr (replace_crlf v))"

fun normalize_content :: "json \<Rightarrow> json" where
  "normalize_content (JStr s) = JStr (normalize_text s)"
| "normalize_content (JList xs) = JList (map normalize_content xs)"
| "normalize_content (JDict d) =
     JDict (sort_key fst (map (\<lambda>p. (fst p, normalize_content (snd p))) d))"
| "normalize_content content = content"

fun to_str :: "codec \<Rightarrow> json \<Rightarrow> str" where
  "to_str cd (JStr s) = s"
| "to_str cd v = cd_py_str cd v"

text \<open>\<open>str(value or "")\<close>.\<close>

definition to_str_or_empty :: "codec \<Rightarrow> json \<Rightarrow> str" where
  "to_str_or_empty cd v = (if truthy v then to_str cd v else [])"

definition loads_json :: "codec \<Rightarrow> json \<Rightarrow> json" where
  "loads_json cd v =
     (case v of
        JStr s \<Rightarrow> if s = [] then v else (case cd_loads cd s of Some x \<Rightarrow> x | None \<Rightarrow> v)
      | _ \<Rightarrow> v)"

fun normalize_message :: "codec \<Rightarrow> json \<Rightarrow> json list" where
  "normalize_message cd (JDict m) =
     (let role = strip (to_str cd (get_or m (lit ''role'') (JStr [])));
          content = normalize_content (get_or m (lit ''content'') JNull)
      in if role \<noteq> [] then [JDict [(lit ''role'', JStr role), (lit ''content'', content)]] else [])"
| "normalize_message cd _ = []"

definition normalize_messages :: "codec \<Rightarrow> json \<Rightarrow> json list" where
  "normalize_messages cd v =
     (case (case v of JList xs \<Rightarrow> v | _ \<Rightarrow> loads_json cd v) of
        JList ms \<Rightarrow> concat (map (normalize_message cd) ms)
      | _ \<Rightarrow> [])"

definition append_assistant_message :: "json list \<Rightarrow> str \<Rightarrow> json list" where
  "append_assistant_message messages response_text =
     messages @ [JDict [(lit ''role'', JStr (lit ''assistant'')), (lit ''content'', JStr response_text)]]"

section \<open>From a payload to a row\<close>

definition is_training_candidate :: "archive_payload \<Rightarrow> bool" where
  "is_training_candidate p \<longleftrightarrow>
     ar_capability p = lit ''chat'' \<and>
     ar_action_taken p \<in> set [lit ''passed'', lit ''desensitized''] \<and> \<not> ar_is_blocked p"

fun message_of_choices :: "json \<Rightarrow> json option" where
  "message_of_choices (JList (JDict c # cs)) = Some (get_or c (lit ''message'') JNull)"
| "message_of_choices _ = None"

definition extract_assistant_response :: "codec \<Rightarrow> json \<Rightarrow> str" where
  "extract_assistant_response cd response =
     (case loads_json cd response of
        JDict r \<Rightarrow>
          if truthy (get_or r (lit ''truncated'') JNull) then []
          else if truthy (get_or r (lit ''message_content'') JNull)
            then normalize_text (to_str_or_empty cd (get_or r (lit ''message_content'') JNull))
          else (case loads_json cd (get_or r (lit ''content'') JNull) of
                  JDict c \<Rightarrow>
                    (case message_of_choices (get_or c (lit ''choices'') JNull) of
                       Some (JDict m) \<Rightarrow>
                         normalize_text (to_str_or_empty cd (get_or m (lit ''content'') JNull))
                     | _ \<Rightarrow> [])
                | _ \<Rightarrow> [])
      | _ \<Rightarrow> [])"

text \<open>What the answer of an archived response is, written down apart from the code: the text read from
  the stream, or the content of the first choice of the JSON that was answered.\<close>

inductive answer_in :: "codec \<Rightarrow> (str \<times> json) list \<Rightarrow> str \<Rightarrow> bool" for cd r where
  Answer_Read: "dict_get r (lit ''message_content'') = Some v \<Longrightarrow> truthy v \<Longrightarrow>
     answer_in cd r (normalize_text (to_str cd v))"
| Answer_Choice: "\<not> truthy (get_or r (lit ''message_content'') JNull) \<Longrightarrow>
     loads_json cd (get_or r (lit ''content'') JNull) = JDict d \<Longrightarrow>
     dict_get d (lit ''choices'') = Some (JList (JDict choice # choices)) \<Longrightarrow>
     dict_get choice (lit ''message'') = Some (JDict m) \<Longrightarrow>
     dict_get m (lit ''content'') = Some v \<Longrightarrow> truthy v \<Longrightarrow>
     answer_in cd r (normalize_text (to_str cd v))"

lemma normalize_text_Nil [simp]: "normalize_text [] = []"
  by (simp add: normalize_text_def replace_cr_def)

lemma truthy_present: "truthy (get_or d k JNull) \<longleftrightarrow> (\<exists>v. dict_get d k = Some v \<and> truthy v)"
  by (auto simp: get_or_def split: option.splits)

lemma message_of_choices_Some:
  "message_of_choices v = Some m \<longleftrightarrow>
   (\<exists>choice choices. v = JList (JDict choice # choices) \<and> m = get_or choice (lit ''message'') JNull)"
  by (induction v rule: message_of_choices.induct) auto

lemma extract_assistant_answer:
  assumes "extract_assistant_response cd response \<noteq> []"
  shows "\<exists>r. loads_json cd response = JDict r \<and> \<not> truthy (get_or r (lit ''truncated'') JNull) \<and>
    answer_in cd r (extract_assistant_response cd response)"
proof -
  from assms obtain r where r: "loads_json cd response = JDict r"
    by (auto simp: extract_assistant_response_def split: json.splits)
  with assms have t: "\<not> truthy (get_or r (lit ''truncated'') JNull)"
    by (auto simp: extract_assistant_response_def)
  have "answer_in cd r (extract_assistant_response cd response)"
  proof (cases "truthy (get_or r (lit ''message_content'') JNull)")
    case True
    then obtain v where "dict_get r (lit ''message_content'') = Some v" "truthy v"
      by (auto simp: truthy_present)
    with Answer_Read [of r v cd] r t show ?thesis
      by (simp add: extract_assistant_response_def get_or_def to_str_or_empty_def)
  next
    case False
    with assms r t obtain d where d: "loads_json cd (get_or r (lit ''content'') JNull) = JDict d"
      by (auto simp: extract_assistant_response_def split: json.splits)
    with False assms r t obtain m where m: "message_of_choices (get_or d (lit ''choices'') JNull) = Some (JDict m)"
      by (auto simp: extract_assistant_response_def split: option.splits json.splits)
    with False d r t have e: "extract_assistant_response cd response =
        normalize_text (to_str_or_empty cd (get_or m (lit ''content'') JNull))"
      by (simp add: extract_assistant_response_def)
    with assms obtain v where v: "dict_get m (lit ''content'') = Some v" "truthy v"
      by (auto simp: to_str_or_empty_def truthy_present split: if_splits)
    from m obtain choice choices where "dict_get d (lit ''choices'') = Some (JList (JDict choice # choices))"
      "dict_get choice (lit ''message'') = Some (JDict m)"
      by (auto simp: message_of_choices_Some get_or_def split: option.splits)
    from Answer_Choice [OF False d this v] e v show ?thesis
      by (simp add: get_or_def to_str_or_empty_def)
  qed
  with r t show ?thesis by blast
qed

text \<open>For an archived stream: a row needs every byte the client received, and the answer is the text
  of its events.\<close>

lemma extract_stream_answer:
  assumes "extract_assistant_response cd (collector_payload decode loads (collect_all n sent)) \<noteq> []"
  shows "length (concat sent) \<le> nat (max 1 n)"
    and "extract_sse_message_content loads (decode (concat sent)) \<noteq> [] \<Longrightarrow>
      extract_assistant_response cd (collector_payload decode loads (collect_all n sent)) =
      normalize_text (extract_sse_message_content loads (decode (concat sent)))"
proof -
  show "length (concat sent) \<le> nat (max 1 n)"
    using assms collector_of_collect_all [of n sent]
    by (auto simp: extract_assistant_response_def collector_payload_def Let_def loads_json_def get_or_def
        collector_of_def split: if_splits)
  then show "extract_sse_message_content loads (decode (concat sent)) \<noteq> [] \<Longrightarrow>
      extract_assistant_response cd (collector_payload decode loads (collect_all n sent)) =
      normalize_text (extract_sse_message_content loads (decode (concat sent)))"
    using collector_of_collect_all [of n sent]
    by (simp add: extract_assistant_response_def collector_payload_def Let_def loads_json_def get_or_def
        collector_of_def to_str_or_empty_def)
qed

definition training_hash_text :: "codec \<Rightarrow> str \<Rightarrow> str" where
  "training_hash_text cd v = (if v \<noteq> [] then cd_sha cd v else [])"

definition conversation_from_payload ::
    "codec \<Rightarrow> int \<Rightarrow> int \<Rightarrow> str \<Rightarrow> archive_payload \<Rightarrow> conversation option" where
  "conversation_from_payload cd retention_days now uuid p =
     (if \<not> is_training_candidate p then None
      else (let messages = normalize_messages cd
                  (if ar_prompt_desensitized p \<noteq> JNull then ar_prompt_desensitized p
                   else ar_prompt_original p);
                assistant_response = extract_assistant_response cd (ar_response p) in
            if messages = [] \<or> assistant_response = [] then None
            else (let trajectory = append_assistant_message messages assistant_response;
                      serialized_messages = cd_dumps cd (JList messages);
                      serialized_trajectory = cd_dumps cd (JList trajectory) in
              Some \<lparr>tc_id = 0,
                    tc_conversation_id = uuid,
                    tc_request_id = ar_request_id p,
                    tc_user_id = ar_user_id p,
                    tc_api_key_id = ar_api_key_id p,
                    tc_model = ar_model p,
                    tc_capability = ar_capability p,
                    tc_messages = serialized_messages,
                    tc_assistant_response = assistant_response,
                    tc_trajectory = serialized_trajectory,
                    tc_trajectory_hash = training_hash_text cd serialized_trajectory,
                    tc_covered_by = [],
                    tc_analysis_status = lit ''pending'',
                    tc_analyzed_at = None,
                    tc_prompt_bytes = cd_utf8_len cd serialized_messages,
                    tc_response_bytes = cd_utf8_len cd assistant_response,
                    tc_is_desensitized = ar_is_desensitized p,
                    tc_expires_at =
                      (if retention_days > 0 then Some (now + retention_days * day) else None),
                    tc_created_at = now\<rparr>)))"

text \<open>The writer. Each payload comes with the UUID drawn for it; \<open>commit\<close> is whether the
  transaction succeeds.\<close>

definition training_write_many ::
    "codec \<Rightarrow> int \<Rightarrow> int \<Rightarrow> bool \<Rightarrow> (str \<times> archive_payload) list \<Rightarrow> training_table
     \<Rightarrow> training_table res" where
  "training_write_many cd retention_days now commit payloads t =
     (let conversations = List.map_filter
            (\<lambda>(uuid, p). conversation_from_payload cd retention_days now uuid p) payloads in
      if conversations = [] then Inr t
      else if commit then Inr (tbl_insert_all tc_id (\<lambda>n c. c\<lparr>tc_id := n\<rparr>) conversations t)
      else Inl (Other_Error (lit ''OperationalError'')))"

definition write_from_archive_payload ::
    "codec \<Rightarrow> int \<Rightarrow> int \<Rightarrow> bool \<Rightarrow> str \<Rightarrow> archive_payload \<Rightarrow> training_table \<Rightarrow> training_table res" where
  "write_from_archive_payload cd retention_days now commit uuid p t =
     training_write_many cd retention_days now commit [(uuid, p)] t"

section \<open>The reader\<close>

record training_query =
  tq_limit :: int
  tq_offset :: int
  tq_user_id :: "str option"
  tq_model :: "str option"
  tq_action_taken :: "str option"
  tq_is_blocked :: "bool option"
  tq_keyword :: "str option"
  tq_start_time :: "int option"
  tq_end_time :: "int option"

record training_page =
  tp_items :: "conversation list"
  tp_total :: nat
  tp_limit :: int
  tp_offset :: int

abbreviation given :: "str option \<Rightarrow> bool" where
  "given q \<equiv> (case q of Some s \<Rightarrow> s \<noteq> [] | None \<Rightarrow> False)"

definition conversation_filters :: "(str \<Rightarrow> str \<Rightarrow> bool) \<Rightarrow> training_query \<Rightarrow> conversation \<Rightarrow> bool" where
  "conversation_filters like q c \<longleftrightarrow>
     (given (tq_user_id q) \<longrightarrow> tc_user_id c = the (tq_user_id q)) \<and>
     (given (tq_model q) \<longrightarrow> tc_model c = JStr (the (tq_model q))) \<and>
     (given (tq_action_taken q) \<and> the (tq_action_taken q) \<noteq> lit ''passed'' \<longrightarrow> tc_id c = -1) \<and>
     (tq_is_blocked q = Some True \<longrightarrow> tc_id c = -1) \<and>
     (given (tq_keyword q) \<longrightarrow>
        (let pat = lit ''%'' @ the (tq_keyword q) @ lit ''%'' in
         like pat (tc_messages c) \<or> like pat (tc_assistant_response c) \<or> like pat (tc_trajectory c))) \<and>
     (case tq_start_time q of Some s \<Rightarrow> tc_created_at c \<ge> s | None \<Rightarrow> True) \<and>
     (case tq_end_time q of Some s \<Rightarrow> tc_created_at c \<le> s | None \<Rightarrow> True)"

definition training_recent :: "int \<Rightarrow> training_table \<Rightarrow> conversation list" where
  "training_recent limit t =
     page (safe_limit 50 limit) 0 (latest_first tc_created_at tc_id (filter (\<lambda>c. tc_covered_by c = []) t))"

definition training_list :: "(str \<Rightarrow> str \<Rightarrow> bool) \<Rightarrow> training_query \<Rightarrow> training_table \<Rightarrow> training_page" where
  "training_list like q t =
     (let lim = safe_limit 100 (tq_limit q);
          off = max (tq_offset q) 0;
          rows = filter (conversation_filters like q) t
      in \<lparr>tp_items = page lim off (latest_first tc_created_at tc_id rows), tp_total = length rows,
          tp_limit = lim, tp_offset = off\<rparr>)"

definition training_get :: "int \<Rightarrow> training_table \<Rightarrow> conversation option" where
  "training_get i t = tbl_get tc_id i t"

record training_stats =
  ts_total :: nat
  ts_blocked :: nat
  ts_desensitized :: nat
  ts_passed :: nat
  ts_by_action :: "(str \<times> nat) list"
  ts_by_model :: "(json \<times> nat) list"

text \<open>\<open>GROUP BY model\<close>, the groups in order of first appearance, and the dictionary built from
  them: the empty model is renamed, and a second entry of a name replaces the first.\<close>

definition count_by :: "('r \<Rightarrow> 'k) \<Rightarrow> 'r list \<Rightarrow> ('k \<times> nat) list" where
  "count_by key rs =
     map (\<lambda>k. (k, length (filter (\<lambda>r. key r = k) rs))) (rev (remdups (rev (map key rs))))"

definition by_model :: "conversation list \<Rightarrow> (json \<times> nat) list" where
  "by_model rows =
     foldl (\<lambda>d (k, n). dict_set d (if truthy k then k else JStr (lit ''unknown'')) n) []
       (count_by tc_model rows)"

definition training_stats_of :: "(str \<Rightarrow> str \<Rightarrow> bool) \<Rightarrow> training_query \<Rightarrow> training_table \<Rightarrow> training_stats" where
  "training_stats_of like q t =
     (let rows = filter (conversation_filters like q) t; total = length rows in
      \<lparr>ts_total = total, ts_blocked = 0,
       ts_desensitized = length (filter tc_is_desensitized rows),
       ts_passed = total,
       ts_by_action = (if total \<noteq> 0 then [(lit ''passed'', total)] else []),
       ts_by_model = by_model rows\<rparr>)"

record training_summary =
  tm_total :: nat
  tm_covered :: nat
  tm_pending :: nat
  tm_active :: nat
  tm_expired :: nat

definition is_expired :: "int \<Rightarrow> conversation \<Rightarrow> bool" where
  "is_expired now c \<longleftrightarrow> (case tc_expires_at c of Some e \<Rightarrow> e \<le> now | None \<Rightarrow> False)"

definition training_summary_of :: "int \<Rightarrow> training_table \<Rightarrow> training_summary" where
  "training_summary_of now t =
     (let total = length t; covered = length (filter (\<lambda>c. tc_covered_by c \<noteq> []) t) in
      \<lparr>tm_total = total, tm_covered = covered,
       tm_pending = length (filter (\<lambda>c. tc_analysis_status c = lit ''pending'') t),
       tm_active = total - covered,
       tm_expired = length (filter (is_expired now) t)\<rparr>)"

section \<open>Cleanup\<close>

definition covered_ids :: "int \<Rightarrow> training_table \<Rightarrow> int list" where
  "covered_ids limit t =
     map tc_id (take (nat limit) (sort_key tc_created_at (filter (\<lambda>c. tc_covered_by c \<noteq> []) t)))"

definition expired_ids :: "int \<Rightarrow> int \<Rightarrow> training_table \<Rightarrow> int list" where
  "expired_ids limit now t =
     map tc_id (take (nat limit) (sort_key (\<lambda>c. the (tc_expires_at c)) (filter (is_expired now) t)))"

definition training_preview_cleanup ::
    "int \<Rightarrow> bool \<Rightarrow> bool \<Rightarrow> int \<Rightarrow> training_table \<Rightarrow> nat \<times> nat" where
  "training_preview_cleanup now include_covered include_expired limit t =
     (let lim = safe_limit 10000 limit in
      (length (if include_covered then covered_ids lim t else []),
       length (if include_expired then expired_ids lim now t else [])))"

text \<open>The result counts what each list selected; both are selected before anything is deleted.\<close>

definition training_cleanup ::
    "int \<Rightarrow> bool \<Rightarrow> bool \<Rightarrow> int \<Rightarrow> training_table \<Rightarrow> training_table \<times> nat \<times> nat" where
  "training_cleanup now include_covered include_expired limit t =
     (let lim = safe_limit 10000 limit;
          cov = (if include_covered then covered_ids lim t else []);
          expd = (if include_expired then expired_ids lim now t else []);
          t1 = (if cov \<noteq> [] then tbl_delete (\<lambda>c. tc_id c \<in> set cov) t else t);
          t2 = (if expd \<noteq> [] then tbl_delete (\<lambda>c. tc_id c \<in> set expd) t1 else t1)
      in (t2, length cov, length expd))"

section \<open>Facts\<close>

interpretation convs: keyed_table tc_id "tbl_get tc_id" tbl_add "tbl_update tc_id" tbl_delete
  by (rule keyed_table_list)

lemma replace_crlf_no_lf_cr: "13 \<notin> set (replace_cr s)"
  by (auto simp: replace_cr_def)

lemma normalize_text_no_cr: "13 \<notin> set (normalize_text v)"
  using replace_crlf_no_lf_cr [of "replace_crlf v"] set_strip [of "replace_cr (replace_crlf v)"]
  by (auto simp: normalize_text_def)

lemma normalize_text_idem [simp]: "normalize_text (normalize_text v) = normalize_text v"
  using normalize_text_no_cr [of v]
  by (simp add: normalize_text_def [of "normalize_text v"] replace_crlf_id replace_cr_id)
    (simp add: normalize_text_def)

lemma map_sort_fst: "map (\<lambda>p. (fst p, f (snd p))) (sort_key fst d) = sort_key fst (map (\<lambda>p. (fst p, f (snd p))) d)"
  (is "map ?g _ = _")
proof -
  have ins: "map ?g (insort_key fst x xs) = insort_key fst (?g x) (map ?g xs)" for x xs
    by (induction xs) auto
  have "map ?g (foldr (insort_key fst) d []) = foldr (insort_key fst) (map ?g d) []"
    by (induction d) (simp_all only: foldr.simps list.map comp_apply id_apply ins)
  then show ?thesis by (simp add: sort_key_def)
qed

lemma normalize_content_idem: "normalize_content (normalize_content c) = normalize_content c"
proof (induction c)
  case (JDict d)
  have "map (\<lambda>p. (fst p, normalize_content (snd p))) (map (\<lambda>p. (fst p, normalize_content (snd p))) d) =
      map (\<lambda>p. (fst p, normalize_content (snd p))) d"
    using JDict by (fastforce simp: snds.simps)
  then show ?case
    by (simp add: map_sort_fst sort_key_id_if_sorted del: map_map)
qed auto

lemma training_cleanup_keeps:
  assumes "c \<in> set t" "tc_covered_by c = []" "\<not> is_expired now c" "distinct (map tc_id t)"
  shows "c \<in> set (fst (training_cleanup now ic ie limit t))"
proof -
  have key: "c' = c" if "c' \<in> set t" "tc_id c' = tc_id c" for c'
    using assms(1,4) that by (auto simp: distinct_map inj_on_def)
  have "tc_id c \<notin> set (covered_ids l t)" for l
    using key assms(2) by (auto simp: covered_ids_def dest!: in_set_takeD)
  moreover have "tc_id c \<notin> set (expired_ids l now t)" for l
    using key assms(3) by (auto simp: expired_ids_def dest!: in_set_takeD)
  ultimately show ?thesis
    using assms(1) by (simp add: training_cleanup_def Let_def convs.set_del)
qed

text \<open>What a cleanup deletes was selected by a list that was asked for.\<close>

lemma training_cleanup_deletes:
  assumes "training_cleanup now ic ie limit t = (t', n, m)" "distinct (map tc_id t)"
  shows "set t' \<subseteq> set t"
    and "\<forall>c\<in>set t - set t'. ic \<and> tc_covered_by c \<noteq> [] \<or> ie \<and> is_expired now c"
proof -
  have t': "set t' = {c \<in> set t. \<not> (ic \<and> tc_id c \<in> set (covered_ids (safe_limit 10000 limit) t)) \<and>
      \<not> (ie \<and> tc_id c \<in> set (expired_ids (safe_limit 10000 limit) now t))}"
    using assms(1) by (auto simp: training_cleanup_def Let_def convs.set_del split: if_splits)
  have key: "c' = c" if "c \<in> set t" "c' \<in> set t" "tc_id c' = tc_id c" for c c'
    using assms(2) that by (auto simp: distinct_map inj_on_def)
  show "set t' \<subseteq> set t" using t' by auto
  show "\<forall>c\<in>set t - set t'. ic \<and> tc_covered_by c \<noteq> [] \<or> ie \<and> is_expired now c"
    using key by (fastforce simp: t' covered_ids_def expired_ids_def dest!: in_set_takeD)
qed

text \<open>A row that is both covered and expired is counted twice: a cleanup of both kinds reports
  two deletions for a table of one row.\<close>

lemma covered_expired_counted_twice:
  assumes "tc_covered_by c \<noteq> []" "is_expired now c"
  shows "training_cleanup now True True limit [c] = ([], 1, 1)"
  using assms
  by (simp add: training_cleanup_def covered_ids_def expired_ids_def tbl_delete_def safe_limit_def Let_def)

end
