(* ===== verification/Archive_Queue.thy ===== *)
theory Archive_Queue
  imports Audit_Log Training
begin

text \<open>
  The archive queue (\<open>runtime/archive_queue.py\<close>): a bounded queue between the relay and a worker
  task that writes archives and audits in batches. The worker and the relay interleave at every
  \<open>await\<close>; the step relation at the end has one rule per atomic piece of the code. The storage
  behind the writers is the training table and the audit table.
\<close>

section \<open>The bounded queue\<close>

text \<open>What the code relies on of \<open>asyncio.Queue\<close>: \<open>put_nowait\<close> refuses exactly when the queue
  is full, \<open>get\<close> returns the oldest item.\<close>

locale bounded_fifo =
  fixes put :: "'a \<Rightarrow> 'q \<Rightarrow> 'q option"
    and take_first :: "'q \<Rightarrow> ('a \<times> 'q) option"
    and contents :: "'q \<Rightarrow> 'a list"
    and capacity :: "'q \<Rightarrow> nat"
  assumes put_None: "put x q = None \<longleftrightarrow> capacity q \<le> length (contents q)"
    and put_Some: "put x q = Some q' \<Longrightarrow> contents q' = contents q @ [x] \<and> capacity q' = capacity q"
    and take_None: "take_first q = None \<longleftrightarrow> contents q = []"
    and take_Some: "take_first q = Some (x, q') \<Longrightarrow> contents q = x # contents q' \<and> capacity q' = capacity q"
begin

text \<open>Offering a list of items: the items accepted, in order, and the queue left.\<close>

fun offer_all :: "'a list \<Rightarrow> 'q \<Rightarrow> 'a list \<times> 'q" where
  "offer_all [] q = ([], q)"
| "offer_all (x # xs) q =
     (case put x q of
        None \<Rightarrow> offer_all xs q
      | Some q' \<Rightarrow> (case offer_all xs q' of (acc, q2) \<Rightarrow> (x # acc, q2)))"

lemma put_bound: "length (contents q) \<le> capacity q \<Longrightarrow> put x q = Some q' \<Longrightarrow>
  length (contents q') \<le> capacity q'"
  using put_None [of x q] put_Some [of x q q'] by auto

lemma offer_all_prefix:
  "offer_all xs q = (acc, q') \<Longrightarrow> length (contents q) \<le> capacity q \<Longrightarrow>
   acc = take (capacity q - length (contents q)) xs \<and> contents q' = contents q @ acc"
proof (induction xs arbitrary: q acc q')
  case (Cons x xs)
  show ?case
  proof (cases "put x q")
    case None
    with Cons.prems Cons.IH [of q acc q'] put_None [of x q] show ?thesis by simp
  next
    case (Some q1)
    then obtain acc1 where eq: "offer_all xs q1 = (acc1, q')" "acc = x # acc1"
      using Cons.prems(1) by (auto split: prod.splits)
    from put_Some [OF Some] put_bound [OF Cons.prems(2) Some] Cons.IH [OF eq(1)] eq(2)
    have "acc1 = take (capacity q - Suc (length (contents q))) xs" "contents q' = contents q @ acc"
      by auto
    moreover from Some put_None [of x q] have "length (contents q) < capacity q" by (cases "put x q") auto
    ultimately show ?thesis using eq(2) by (simp add: take_Cons')
  qed
qed simp

end

record 'a fifo =
  ff_items :: "'a list"
  ff_max :: nat

definition put_nowait :: "'a \<Rightarrow> 'a fifo \<Rightarrow> 'a fifo option" where
  "put_nowait x q = (if length (ff_items q) < ff_max q then Some (q\<lparr>ff_items := ff_items q @ [x]\<rparr>) else None)"

definition get_first :: "'a fifo \<Rightarrow> ('a \<times> 'a fifo) option" where
  "get_first q = (case ff_items q of [] \<Rightarrow> None | x # xs \<Rightarrow> Some (x, q\<lparr>ff_items := xs\<rparr>))"

interpretation fifo: bounded_fifo put_nowait get_first ff_items ff_max
  by unfold_locales (auto simp: put_nowait_def get_first_def split: if_splits list.splits)

section \<open>The archive queue\<close>

datatype queue_item = Archive_Item archive_payload | Audit_Item audit_payload

fun archives_of :: "queue_item list \<Rightarrow> archive_payload list" where
  "archives_of [] = []"
| "archives_of (Archive_Item p # xs) = p # archives_of xs"
| "archives_of (Audit_Item p # xs) = archives_of xs"

fun audits_of :: "queue_item list \<Rightarrow> audit_payload list" where
  "audits_of [] = []"
| "audits_of (Archive_Item p # xs) = audits_of xs"
| "audits_of (Audit_Item p # xs) = p # audits_of xs"

text \<open>Where the worker task is: none was created yet, it was created and did not run yet, it is inside
  the loop (fetching a batch or writing it), or it is done (returned or cancelled).\<close>

datatype worker_task = No_Task | Created | In_Loop | Task_Done

text \<open>\<open>qu_unfinished\<close> is the count \<open>Queue.join\<close> waits for; \<open>qu_batch\<close> is the worker's local
  \<open>batch\<close>, empty while it waits for its first item.\<close>

record archive_queue =
  qu_queue :: "queue_item fifo"
  qu_batch_size :: nat
  qu_dropped :: nat
  qu_processed :: nat
  qu_running :: bool
  qu_unfinished :: nat
  qu_batch :: "queue_item list"
  qu_task :: worker_task

definition int_or :: "int option \<Rightarrow> int \<Rightarrow> int" where
  "int_or v d = (case v of Some n \<Rightarrow> if n \<noteq> 0 then n else d | None \<Rightarrow> d)"

definition new_archive_queue :: "int option \<Rightarrow> int option \<Rightarrow> int \<Rightarrow> int \<Rightarrow> archive_queue" where
  "new_archive_queue max_size batch_size archive_queue_max_size archive_batch_size =
     \<lparr>qu_queue = \<lparr>ff_items = [], ff_max = nat (max 1 (int_or max_size archive_queue_max_size))\<rparr>,
      qu_batch_size = nat (max 1 (int_or batch_size archive_batch_size)),
      qu_dropped = 0, qu_processed = 0, qu_running = False, qu_unfinished = 0, qu_batch = [], qu_task = No_Task\<rparr>"

definition enqueue :: "queue_item \<Rightarrow> archive_queue \<Rightarrow> archive_queue \<times> bool" where
  "enqueue item q =
     (case put_nowait item (qu_queue q) of
        Some f \<Rightarrow> (q\<lparr>qu_queue := f, qu_unfinished := qu_unfinished q + 1\<rparr>, True)
      | None \<Rightarrow> (q\<lparr>qu_dropped := qu_dropped q + 1\<rparr>, False))"

definition enqueue_archive :: "archive_payload \<Rightarrow> archive_queue \<Rightarrow> archive_queue \<times> bool" where
  "enqueue_archive p q = enqueue (Archive_Item p) q"

definition enqueue_audit :: "audit_payload \<Rightarrow> archive_queue \<Rightarrow> archive_queue \<times> bool" where
  "enqueue_audit p q = enqueue (Audit_Item p) q"

definition queue_snapshot :: "archive_queue \<Rightarrow> (str \<times> nat) list" where
  "queue_snapshot q =
     [(lit ''queue_size'', length (ff_items (qu_queue q))), (lit ''max_size'', ff_max (qu_queue q)),
      (lit ''dropped'', qu_dropped q), (lit ''processed'', qu_processed q)]"

text \<open>The storage, and what a write draws from outside: whether each transaction commits, the
  clock, a UUID per conversation.\<close>

record store =
  st_training :: training_table
  st_audit :: "audit_log list"

record write_env =
  we_codec :: codec
  we_retention_days :: int
  we_now :: int
  we_uuid :: "nat \<Rightarrow> str"
  we_training_commits :: bool
  we_audit_commits :: bool

definition with_uuids :: "write_env \<Rightarrow> archive_payload list \<Rightarrow> (str \<times> archive_payload) list" where
  "with_uuids w ps = zip (map (we_uuid w) [0..<length ps]) ps"

text \<open>The \<open>try\<close> block of the worker on one batch: an exception of the first write skips the
  second.\<close>

definition write_archives ::
    "write_env \<Rightarrow> bool \<Rightarrow> archive_payload list \<Rightarrow> store \<times> nat \<Rightarrow> (store \<times> nat) res" where
  "write_archives w capture_enabled archive_payloads sn =
     (if archive_payloads \<noteq> [] \<and> capture_enabled then
        rbind (training_write_many (we_codec w) (we_retention_days w) (we_now w)
                 (we_training_commits w) (with_uuids w archive_payloads) (st_training (fst sn))) (\<lambda>t.
        Inr ((fst sn)\<lparr>st_training := t\<rparr>, snd sn + length archive_payloads))
      else Inr sn)"

definition write_audits ::
    "write_env \<Rightarrow> audit_payload list \<Rightarrow> store \<times> nat \<Rightarrow> (store \<times> nat) res" where
  "write_audits w audit_payloads sn =
     (if audit_payloads \<noteq> [] then
        rbind (audit_write_many (cd_sha (we_codec w)) (we_now w) (we_audit_commits w)
                 audit_payloads (st_audit (fst sn))) (\<lambda>t.
        Inr ((fst sn)\<lparr>st_audit := t\<rparr>, snd sn + length audit_payloads))
      else Inr sn)"

definition process_batch ::
    "write_env \<Rightarrow> bool \<Rightarrow> queue_item list \<Rightarrow> store \<times> nat \<Rightarrow> store \<times> nat" where
  "process_batch w capture_enabled batch sn =
     (case write_archives w capture_enabled (archives_of batch) sn of
        Inl e \<Rightarrow> sn
      | Inr sn1 \<Rightarrow> (case write_audits w (audits_of batch) sn1 of Inl e \<Rightarrow> sn1 | Inr sn2 \<Rightarrow> sn2))"

text \<open>\<open>start\<close> does nothing while a task is alive.\<close>

definition worker_alive :: "archive_queue \<Rightarrow> bool" where
  "worker_alive q \<longleftrightarrow> qu_task q = Created \<or> qu_task q = In_Loop"

definition queue_start :: "archive_queue \<Rightarrow> archive_queue" where
  "queue_start q = (if worker_alive q then q else q\<lparr>qu_running := True, qu_task := Created\<rparr>)"

text \<open>\<open>stop\<close> is two steps: it clears the flag at once, and if there is a task it waits for \<open>join\<close> and
  then cancels it. The cancellation is possible when the count is zero; it ends a worker that waits
  for an item, and leaves one that has returned as it is. The return of \<open>join\<close> and the cancellation are one
  step: nothing is offered between them, as the server has stopped taking requests by then.\<close>

definition stop_request :: "archive_queue \<Rightarrow> archive_queue" where
  "stop_request q = q\<lparr>qu_running := False\<rparr>"

definition stop_finish :: "archive_queue \<Rightarrow> archive_queue option" where
  "stop_finish q =
     (if qu_task q = No_Task then Some q
      else if qu_unfinished q = 0 then Some (q\<lparr>qu_task := Task_Done\<rparr>)
      else None)"

text \<open>The test of the worker's loop, \<open>while self._running or not self._queue.empty()\<close>: another round
  or the end of the task.\<close>

definition loop_test :: "archive_queue \<Rightarrow> archive_queue" where
  "loop_test q =
     (if qu_running q \<or> ff_items (qu_queue q) \<noteq> [] then q\<lparr>qu_task := In_Loop\<rparr>
      else q\<lparr>qu_task := Task_Done\<rparr>)"

text \<open>The worker's pieces: the first \<open>get\<close> of a batch, a further one, and the rest of the round.\<close>

definition worker_get :: "archive_queue \<Rightarrow> archive_queue option" where
  "worker_get q =
     (case get_first (qu_queue q) of
        None \<Rightarrow> None
      | Some (x, f) \<Rightarrow> Some (q\<lparr>qu_queue := f, qu_batch := qu_batch q @ [x]\<rparr>))"

definition worker_write :: "write_env \<Rightarrow> bool \<Rightarrow> archive_queue \<Rightarrow> store \<Rightarrow> archive_queue \<times> store" where
  "worker_write w capture_enabled q s =
     (case process_batch w capture_enabled (qu_batch q) (s, qu_processed q) of
        (s', n) \<Rightarrow> (q\<lparr>qu_processed := n, qu_unfinished := qu_unfinished q - length (qu_batch q),
                       qu_batch := []\<rparr>, s'))"

section \<open>The queue as a transition system\<close>

text \<open>The items of a batch that are not written: all of them when the write of the archives fails,
  else the archives while captures are off and the audits when their write fails. This is written
  down apart from the code, to say what \<open>processed\<close> counts.\<close>

definition archives_refused :: "write_env \<Rightarrow> bool \<Rightarrow> store \<Rightarrow> queue_item list \<Rightarrow> bool" where
  "archives_refused w capture_enabled s b \<longleftrightarrow>
     capture_enabled \<and> archives_of b \<noteq> [] \<and>
     isl (training_write_many (we_codec w) (we_retention_days w) (we_now w) (we_training_commits w)
            (with_uuids w (archives_of b)) (st_training s))"

definition audits_refused :: "write_env \<Rightarrow> store \<Rightarrow> queue_item list \<Rightarrow> bool" where
  "audits_refused w s b \<longleftrightarrow>
     isl (audit_write_many (cd_sha (we_codec w)) (we_now w) (we_audit_commits w) (audits_of b) (st_audit s))"

fun is_audit :: "queue_item \<Rightarrow> bool" where
  "is_audit (Archive_Item p) = False"
| "is_audit (Audit_Item p) = True"

definition not_written :: "write_env \<Rightarrow> bool \<Rightarrow> store \<Rightarrow> queue_item list \<Rightarrow> queue_item list" where
  "not_written w capture_enabled s b =
     (if archives_refused w capture_enabled s b then b
      else filter (\<lambda>i. if is_audit i then audits_refused w s b else \<not> capture_enabled) b)"

text \<open>The history of a run: what was accepted, in order, what the worker is done with, what of that
  it did not write, and how many offers there were.\<close>

record run =
  rn_queue :: archive_queue
  rn_store :: store
  rn_accepted :: "queue_item list"
  rn_done :: "queue_item list"
  rn_skipped :: "queue_item list"
  rn_offered :: nat

text \<open>The worker task: its first run tests the loop, a batch is fetched item by item, and its end
  (the batch is full or the flush interval is over) writes it and tests the loop again.\<close>

inductive worker_step :: "run \<Rightarrow> run \<Rightarrow> bool" where
  W_begin: "qu_task (rn_queue r) = Created \<Longrightarrow>
     worker_step r (r\<lparr>rn_queue := loop_test (rn_queue r)\<rparr>)"
| W_get: "qu_task (rn_queue r) = In_Loop \<Longrightarrow>
     qu_batch (rn_queue r) = [] \<or> length (qu_batch (rn_queue r)) < qu_batch_size (rn_queue r) \<Longrightarrow>
     worker_get (rn_queue r) = Some q' \<Longrightarrow> worker_step r (r\<lparr>rn_queue := q'\<rparr>)"
| W_write: "qu_task (rn_queue r) = In_Loop \<Longrightarrow> qu_batch (rn_queue r) \<noteq> [] \<Longrightarrow>
     worker_write w capture (rn_queue r) (rn_store r) = (q', s') \<Longrightarrow>
     worker_step r (r\<lparr>rn_queue := loop_test q', rn_store := s', rn_done := rn_done r @ qu_batch (rn_queue r),
       rn_skipped := rn_skipped r @ not_written w capture (rn_store r) (qu_batch (rn_queue r))\<rparr>)"

text \<open>The worker, the relay that offers items, and the application's start and shutdown interleave.\<close>

inductive queue_step :: "run \<Rightarrow> run \<Rightarrow> bool" where
  Q_worker: "worker_step r r' \<Longrightarrow> queue_step r r'"
| Q_enqueue: "enqueue item (rn_queue r) = (q', ok) \<Longrightarrow>
     queue_step r (r\<lparr>rn_queue := q', rn_accepted := rn_accepted r @ (if ok then [item] else []),
                     rn_offered := rn_offered r + 1\<rparr>)"
| Q_start: "queue_step r (r\<lparr>rn_queue := queue_start (rn_queue r)\<rparr>)"
| Q_stop: "queue_step r (r\<lparr>rn_queue := stop_request (rn_queue r)\<rparr>)"
| Q_stopped: "stop_finish (rn_queue r) = Some q' \<Longrightarrow> queue_step r (r\<lparr>rn_queue := q'\<rparr>)"

definition initial_run :: "archive_queue \<Rightarrow> store \<Rightarrow> run" where
  "initial_run q s =
     \<lparr>rn_queue = q, rn_store = s, rn_accepted = [], rn_done = [], rn_skipped = [], rn_offered = 0\<rparr>"

inductive queue_reachable :: "run \<Rightarrow> bool" where
  QR_init: "queue_reachable (initial_run (new_archive_queue a b c d) s)"
| QR_step: "queue_reachable r \<Longrightarrow> queue_step r r' \<Longrightarrow> queue_reachable r'"

inductive_cases worker_stepE: "worker_step r r'"
inductive_cases queue_stepE: "queue_step r r'"

text \<open>A worker that is not in its loop holds no batch.\<close>

definition queue_inv :: "run \<Rightarrow> bool" where
  "queue_inv r \<longleftrightarrow>
     (let q = rn_queue r in
      length (ff_items (qu_queue q)) \<le> ff_max (qu_queue q) \<and> 1 \<le> ff_max (qu_queue q) \<and>
      1 \<le> qu_batch_size q \<and> length (qu_batch q) \<le> qu_batch_size q \<and>
      rn_accepted r = rn_done r @ qu_batch q @ ff_items (qu_queue q) \<and>
      qu_unfinished q = length (qu_batch q) + length (ff_items (qu_queue q)) \<and>
      qu_processed q + length (rn_skipped r) = length (rn_done r) \<and>
      rn_offered r = length (rn_accepted r) + qu_dropped q \<and>
      (qu_task q \<noteq> In_Loop \<longrightarrow> qu_batch q = []))"

lemma length_archives_audits: "length (archives_of b) + length (audits_of b) = length b"
  by (induction b rule: archives_of.induct) auto

lemma length_filter_kinds:
  "length (filter (\<lambda>i. if is_audit i then P else Q) b) =
   (if P then length (audits_of b) else 0) + (if Q then length (archives_of b) else 0)"
  by (induction b rule: archives_of.induct) auto

text \<open>Every item of a batch is counted as processed, or is one that was not written.\<close>

lemma process_batch_count:
  "process_batch w cap b (s, n) = (s', n') \<Longrightarrow> n' + length (not_written w cap s b) = n + length b"
  using length_archives_audits [of b]
  by (auto simp: process_batch_def write_archives_def write_audits_def rbind_def not_written_def
      archives_refused_def audits_refused_def length_filter_kinds isl_def
      split: sum.splits if_splits)

lemma enqueue_inv:
  assumes "queue_inv r" "enqueue item (rn_queue r) = (q', ok)"
  shows "queue_inv (r\<lparr>rn_queue := q', rn_accepted := rn_accepted r @ (if ok then [item] else []),
                     rn_offered := rn_offered r + 1\<rparr>)"
  using assms by (auto simp: queue_inv_def Let_def enqueue_def put_nowait_def split: if_splits)

lemma loop_test_simps [simp]:
  "qu_queue (loop_test q) = qu_queue q" "qu_batch (loop_test q) = qu_batch q"
  "qu_batch_size (loop_test q) = qu_batch_size q" "qu_unfinished (loop_test q) = qu_unfinished q"
  "qu_processed (loop_test q) = qu_processed q" "qu_dropped (loop_test q) = qu_dropped q"
  "qu_running (loop_test q) = qu_running q"
  by (simp_all add: loop_test_def)

lemma worker_write_fields:
  assumes "worker_write w cap q s = (q', s')"
  shows "qu_queue q' = qu_queue q" "qu_batch q' = []" "qu_batch_size q' = qu_batch_size q"
    "qu_unfinished q' = qu_unfinished q - length (qu_batch q)" "qu_dropped q' = qu_dropped q"
    "qu_running q' = qu_running q" "qu_task q' = qu_task q"
    "qu_processed q' + length (not_written w cap s (qu_batch q)) = qu_processed q + length (qu_batch q)"
  using assms by (auto simp: worker_write_def process_batch_count split: prod.splits)

lemma worker_get_fields:
  assumes "worker_get q = Some q'"
  shows "qu_batch q @ ff_items (qu_queue q) = qu_batch q' @ ff_items (qu_queue q')"
    "length (qu_batch q') = Suc (length (qu_batch q))" "ff_max (qu_queue q') = ff_max (qu_queue q)"
    "length (ff_items (qu_queue q)) = Suc (length (ff_items (qu_queue q')))"
    "qu_batch_size q' = qu_batch_size q" "qu_unfinished q' = qu_unfinished q"
    "qu_dropped q' = qu_dropped q" "qu_running q' = qu_running q" "qu_task q' = qu_task q"
    "qu_processed q' = qu_processed q"
  using assms by (auto simp: worker_get_def get_first_def split: list.splits)

lemma worker_step_inv:
  assumes "worker_step r r'" "queue_inv r"
  shows "queue_inv r'"
  using assms(1)
proof cases
  case W_begin
  then show ?thesis using assms(2) by (simp add: queue_inv_def Let_def)
next
  case (W_get q')
  then show ?thesis using worker_get_fields [OF W_get(4)] assms(2)
    by (auto simp: queue_inv_def Let_def)
next
  case (W_write w cap q' s')
  then show ?thesis using worker_write_fields [OF W_write(4)] assms(2)
    by (simp add: queue_inv_def Let_def)
qed

lemma stop_finish_fields:
  assumes "stop_finish q = Some q'"
  shows "q' = q \<or> qu_unfinished q = 0 \<and> q' = q\<lparr>qu_task := Task_Done\<rparr>"
  using assms by (auto simp: stop_finish_def split: if_splits)

lemma queue_step_inv:
  assumes "queue_step r r'" "queue_inv r"
  shows "queue_inv r'"
  using assms(1)
proof cases
  case Q_worker
  then show ?thesis using worker_step_inv assms(2) by blast
next
  case (Q_enqueue item q' ok)
  then show ?thesis using enqueue_inv [OF assms(2)] by blast
next
  case (Q_stopped q')
  then show ?thesis using stop_finish_fields [OF Q_stopped(2)] assms(2)
    by (auto simp: queue_inv_def Let_def)
qed (use assms(2) in \<open>simp_all add: queue_inv_def Let_def queue_start_def stop_request_def worker_alive_def\<close>)

lemma one_le_nat_max: "Suc 0 \<le> nat (max 1 n)"
  by simp

lemma queue_reachable_inv: "queue_reachable r \<Longrightarrow> queue_inv r"
proof (induction rule: queue_reachable.induct)
  case (QR_init a b c d s)
  show ?case
    using one_le_nat_max [of "int_or a c"] one_le_nat_max [of "int_or b d"]
    by (simp add: queue_inv_def initial_run_def new_archive_queue_def Let_def)
next
  case (QR_step r r')
  then show ?case using queue_step_inv by blast
qed

section \<open>Draining\<close>

text \<open>How many steps the worker can still take: two per queued item, one for the batch in hand, and
  one for a task that did not run yet.\<close>

definition worker_measure :: "archive_queue \<Rightarrow> nat" where
  "worker_measure q = 2 * length (ff_items (qu_queue q)) + (if qu_batch q = [] then 0 else 1) +
     (if qu_task q = Created then 1 else 0)"

lemma worker_step_measure:
  assumes "worker_step r r'"
  shows "worker_measure (rn_queue r') < worker_measure (rn_queue r)"
  using assms
proof cases
  case W_begin
  then show ?thesis by (simp add: worker_measure_def loop_test_def)
next
  case (W_get q')
  with worker_get_fields [OF W_get(4)] show ?thesis by (auto simp: worker_measure_def)
next
  case (W_write w cap q' s')
  with worker_write_fields [OF W_write(4)] show ?thesis
    by (auto simp: worker_measure_def loop_test_def)
qed

lemma worker_steps_bounded:
  "(worker_step ^^ n) r r' \<Longrightarrow> n + worker_measure (rn_queue r') \<le> worker_measure (rn_queue r)"
proof (induction n arbitrary: r')
  case (Suc n)
  then obtain r1 where "(worker_step ^^ n) r r1" "worker_step r1 r'" by auto
  with Suc.IH [of r1] worker_step_measure [of r1 r'] show ?case by simp
qed simp

text \<open>A worker that ends by itself leaves no item behind: that is what the second half of its loop
  test is for.\<close>

definition drains :: "run \<Rightarrow> bool" where
  "drains r \<longleftrightarrow> worker_alive (rn_queue r) \<or> qu_unfinished (rn_queue r) = 0"

lemma loop_test_drains: "worker_alive (loop_test q) \<or> ff_items (qu_queue q) = []"
  by (simp add: loop_test_def worker_alive_def)

lemma worker_step_drains:
  assumes "worker_step r r'" "queue_inv r"
  shows "drains r'"
  using assms(1)
proof cases
  case W_begin
  with assms(2) loop_test_drains [of "rn_queue r"] show ?thesis
    by (auto simp: drains_def queue_inv_def Let_def)
next
  case (W_get q')
  with worker_get_fields [OF W_get(4)] show ?thesis by (simp add: drains_def worker_alive_def)
next
  case (W_write w cap q' s')
  with worker_write_fields [OF W_write(4)] assms(2) loop_test_drains [of q'] show ?thesis
    by (auto simp: drains_def queue_inv_def Let_def)
qed

lemma worker_steps_kept:
  assumes "worker_step\<^sup>*\<^sup>* r r'" "queue_inv r" "drains r"
  shows "queue_inv r' \<and> drains r' \<and> rn_accepted r' = rn_accepted r"
  using assms(1)
proof (induction rule: rtranclp_induct)
  case base
  with assms(2,3) show ?case by simp
next
  case (step r1 r2)
  from step.hyps(2) have "rn_accepted r2 = rn_accepted r1" by cases simp_all
  with step worker_step_inv [OF step.hyps(2)] worker_step_drains [OF step.hyps(2)] show ?case by simp
qed

text \<open>A live worker with an item in its batch or queue can take a step.\<close>

lemma worker_can_step:
  assumes "worker_alive (rn_queue r)" "qu_unfinished (rn_queue r) \<noteq> 0" "queue_inv r"
  shows "\<exists>r'. worker_step r r'"
proof (cases "qu_task (rn_queue r) = Created")
  case True
  then show ?thesis using W_begin by blast
next
  case False
  with assms(1) have t: "qu_task (rn_queue r) = In_Loop" by (simp add: worker_alive_def)
  show ?thesis
  proof (cases "qu_batch (rn_queue r) = []")
    case True
    with assms(2,3) obtain x xs where "ff_items (qu_queue (rn_queue r)) = x # xs"
      by (cases "ff_items (qu_queue (rn_queue r))") (auto simp: queue_inv_def Let_def)
    then obtain q' where "worker_get (rn_queue r) = Some q'"
      by (simp add: worker_get_def get_first_def)
    with W_get [OF t] True show ?thesis by blast
  next
    case False
    obtain q' s' where "worker_write undefined True (rn_queue r) (rn_store r) = (q', s')"
      by (cases "worker_write undefined True (rn_queue r) (rn_store r)")
    with W_write [OF t False] show ?thesis by blast
  qed
qed

lemma stuck_worker_is_done:
  assumes "worker_step\<^sup>*\<^sup>* r r'" "\<nexists>r''. worker_step r' r''" "queue_inv r" "drains r"
  shows "qu_unfinished (rn_queue r') = 0 \<and> rn_done r' = rn_accepted r \<and>
    (\<exists>q'. stop_finish (rn_queue r') = Some q' \<and> \<not> worker_alive q')"
proof -
  from worker_steps_kept [OF assms(1,3,4)] have k: "queue_inv r'" "drains r'" "rn_accepted r' = rn_accepted r"
    by simp_all
  with worker_can_step [of r'] assms(2) have "qu_unfinished (rn_queue r') = 0" by (auto simp: drains_def)
  with k show ?thesis by (auto simp: queue_inv_def Let_def stop_finish_def worker_alive_def)
qed

text \<open>The queue accepts items without a worker. What is offered after the worker returned is never
  written, and a second \<open>stop\<close> would wait for it forever.\<close>

lemma no_step_without_task: "\<not> worker_alive (rn_queue r) \<Longrightarrow> \<not> worker_step r r'"
  by (auto simp: worker_alive_def elim!: worker_stepE)

lemma offer_after_end_waits:
  assumes "qu_task q = Task_Done" "enqueue item q = (q', True)" "rn_queue r = q'"
  shows "stop_finish q' = None" "\<not> worker_step r r'"
proof -
  from assms(1,2) have t: "qu_task q' = Task_Done" "qu_unfinished q' \<noteq> 0"
    by (auto simp: enqueue_def split: option.splits)
  then show "stop_finish q' = None" by (simp add: stop_finish_def)
  from t assms(3) show "\<not> worker_step r r'"
    by (intro no_step_without_task) (simp add: worker_alive_def)
qed

text \<open>When the training write of a batch fails, the audits of that batch are lost: nothing is
  stored, nothing is counted as processed or dropped, and the batch is done.\<close>

lemma failed_archive_loses_audits:
  assumes "write_archives w True (archives_of (qu_batch q)) (s, qu_processed q) = Inl e"
  shows "worker_write w True q s =
    (q\<lparr>qu_unfinished := qu_unfinished q - length (qu_batch q), qu_batch := []\<rparr>, s)"
  using assms by (simp add: worker_write_def process_batch_def)

end
