(* ===== verification/Desensitize.thy ===== *)
theory Desensitize
  imports Engine
begin

text \<open>
  Request-side privacy in \<open>proxy/relay.py\<close>: the telephone patterns, the masking of one match,
  the recursion over message contents, the choice of the patterns from the running scanner, and
  the extraction of the text the scanner sees. A role that is a list or an object makes
  \<open>in ROLES\<close> raise, so the functions over messages return a result.
\<close>

section \<open>Masking telephone numbers\<close>

definition digit_between :: "nat \<Rightarrow> nat \<Rightarrow> nat \<Rightarrow> bool" where
  "digit_between lo hi c \<longleftrightarrow> lo \<le> c \<and> c \<le> hi"

definition phone_sep :: "nat \<Rightarrow> bool" where
  "phone_sep c \<longleftrightarrow> c = 32 \<or> c = 45"

text \<open>\<open>(?<!\d)1[3-9]\d{9}(?!\d)\<close> and
  \<open>(?<!\d)(?:\+|00)[1-9]\d{0,2}[ -]?(?:\d[ -]?){7,12}\d(?!\d)\<close>.\<close>

definition phone_cn :: re where
  "phone_cn =
     Seq (NotBehind is_digit)
    (Seq (Cls (\<lambda>c. c = 49))
    (Seq (Cls (digit_between 51 57))
    (Seq (Rep (Cls is_digit) 9 9)
         (NotAhead is_digit))))"

definition phone_intl :: re where
  "phone_intl =
     Seq (NotBehind is_digit)
    (Seq (Alt (Cls (\<lambda>c. c = 43)) (Seq (Cls (\<lambda>c. c = 48)) (Cls (\<lambda>c. c = 48))))
    (Seq (Cls (digit_between 49 57))
    (Seq (Rep (Cls is_digit) 0 2)
    (Seq (Rep (Cls phone_sep) 0 1)
    (Seq (Rep (Seq (Cls is_digit) (Rep (Cls phone_sep) 0 1)) 7 12)
    (Seq (Cls is_digit)
         (NotAhead is_digit)))))))"

definition PHONE_PATTERNS :: "re list" where
  "PHONE_PATTERNS = [phone_cn, phone_intl]"

definition mask_phone_match :: "str \<Rightarrow> str" where
  "mask_phone_match value =
     (let digits = filter is_digit value
      in if length digits \<le> 7 then replicate (length value) star
         else take 3 digits @ lit ''****'' @ drop (length digits - 4) digits)"

definition desensitize_text :: "re list \<Rightarrow> str \<Rightarrow> str" where
  "desensitize_text patterns t = foldl (\<lambda>s p. re_sub p mask_phone_match s) t patterns"

section \<open>Message contents\<close>

lemma size_dict_get: "dict_get d k = Some v \<Longrightarrow> size v < Suc (size_list (size_prod (\<lambda>x. 0) size) d)"
  by (induction d) (auto split: if_splits)

function desensitize_content :: "re list \<Rightarrow> json \<Rightarrow> json"
  and desensitize_part :: "re list \<Rightarrow> json \<Rightarrow> json" where
  "desensitize_content patterns content =
     (case content of
        JStr s \<Rightarrow> JStr (desensitize_text patterns s)
      | JList items \<Rightarrow> JList (map (desensitize_part patterns) items)
      | _ \<Rightarrow> content)"
| "desensitize_part patterns item =
     (case item of
        JStr s \<Rightarrow> JStr (desensitize_text patterns s)
      | JDict d \<Rightarrow>
          (let d1 = (case dict_get d (lit ''text'') of
                       Some (JStr s) \<Rightarrow> dict_set d (lit ''text'') (JStr (desensitize_text patterns s))
                     | _ \<Rightarrow> d)
           in JDict (case dict_get d (lit ''content'') of
                       Some c \<Rightarrow> dict_set d1 (lit ''content'') (desensitize_content patterns c)
                     | None \<Rightarrow> d1))
      | _ \<Rightarrow> item)"
  by pat_completeness auto
termination
  by (relation "measure (\<lambda>x. case x of Inl (p, c) \<Rightarrow> size c | Inr (p, i) \<Rightarrow> size i)")
    (auto simp: less_Suc_eq_le dest!: size_dict_get split: json.splits
      dest: size_list_estimation' [OF _ order_refl])

declare desensitize_content.simps [simp del] desensitize_part.simps [simp del]

lemma desensitize_content_simps [simp]:
  "desensitize_content ps (JStr s) = JStr (desensitize_text ps s)"
  "desensitize_content ps (JList xs) = JList (map (desensitize_part ps) xs)"
  "desensitize_content ps JNull = JNull"
  "desensitize_content ps (JBool b) = JBool b"
  "desensitize_content ps (JInt n) = JInt n"
  "desensitize_content ps (JFloat x) = JFloat x"
  "desensitize_content ps (JDict d) = JDict d"
  "desensitize_part ps (JStr s) = JStr (desensitize_text ps s)"
  "desensitize_part ps (JList xs) = JList xs"
  "desensitize_part ps JNull = JNull"
  "desensitize_part ps (JBool b) = JBool b"
  "desensitize_part ps (JInt n) = JInt n"
  "desensitize_part ps (JFloat x) = JFloat x"
  by (simp_all add: desensitize_content.simps desensitize_part.simps)

text \<open>\<open>_resolve_desensitize_patterns\<close>: the scanner argument is no orchestrator (\<open>None\<close>), or its
  registered scanners, each with its \<open>desensitize_patterns()\<close> if it has that method. The first
  one that has it decides, even with an empty list.\<close>

fun first_desensitize :: "(re \<times> rule) list option list \<Rightarrow> re list" where
  "first_desensitize [] = PHONE_PATTERNS"
| "first_desensitize (None # ss) = first_desensitize ss"
| "first_desensitize (Some compiled # ss) = map fst compiled"

definition resolve_desensitize_patterns :: "(re \<times> rule) list option list option \<Rightarrow> re list" where
  "resolve_desensitize_patterns scanner =
     (case scanner of None \<Rightarrow> PHONE_PATTERNS | Some ss \<Rightarrow> first_desensitize ss)"

text \<open>Its value for the application's orchestrator: only the regex scanner has the method.\<close>

definition engine_desensitizers :: "engine \<Rightarrow> (re \<times> rule) list option list" where
  "engine_desensitizers e = [None, Some (desensitize_patterns (eng_regex e))]"

definition BLOCK_SCAN_ROLES :: "str list" where
  "BLOCK_SCAN_ROLES = [lit ''user'', lit ''tool'', lit ''function'']"

definition DESENSITIZE_ROLES :: "str list" where
  "DESENSITIZE_ROLES = [lit ''user'', lit ''tool'', lit ''function'']"

fun desensitize_message :: "re list \<Rightarrow> json \<Rightarrow> json res" where
  "desensitize_message patterns (JDict m) =
     rbind (in_str_set (get_or m (lit ''role'') JNull) DESENSITIZE_ROLES) (\<lambda>allowed.
     Inr (if allowed
          then JDict (dict_set m (lit ''content'')
                 (desensitize_content patterns (get_or m (lit ''content'') JNull)))
          else JDict m))"
| "desensitize_message patterns message = Inr message"

definition desensitize_chat_request_body ::
    "(re \<times> rule) list option list option \<Rightarrow> (str \<times> json) list \<Rightarrow> (str \<times> json) list res" where
  "desensitize_chat_request_body scanner body =
     (let patterns = resolve_desensitize_patterns scanner in
      if patterns = [] then Inr body
      else (case dict_get body (lit ''messages'') of
              Some (JList messages) \<Rightarrow>
                rbind (rmap (desensitize_message patterns) messages) (\<lambda>ms.
                Inr (dict_set body (lit ''messages'') (JList ms)))
            | _ \<Rightarrow> Inr body))"

section \<open>The text the scanner sees\<close>

function extract_content_parts :: "json \<Rightarrow> str list"
  and extract_item_parts :: "json \<Rightarrow> str list" where
  "extract_content_parts content =
     (case content of
        JStr s \<Rightarrow> [s]
      | JList items \<Rightarrow> concat (map extract_item_parts items)
      | _ \<Rightarrow> [])"
| "extract_item_parts item =
     (case item of
        JStr s \<Rightarrow> [s]
      | JDict d \<Rightarrow>
          (case dict_get d (lit ''text'') of
             Some (JStr t) \<Rightarrow> [t]
           | _ \<Rightarrow> (case dict_get d (lit ''content'') of
                     Some c \<Rightarrow> extract_content_parts c
                   | None \<Rightarrow> []))
      | _ \<Rightarrow> [])"
  by pat_completeness auto
termination
  by (relation "measure (\<lambda>x. case x of Inl c \<Rightarrow> size c | Inr i \<Rightarrow> size i)")
    (auto simp: less_Suc_eq_le dest!: size_dict_get split: json.splits
      dest: size_list_estimation' [OF _ order_refl])

declare extract_content_parts.simps [simp del] extract_item_parts.simps [simp del]

lemma extract_parts_simps [simp]:
  "extract_content_parts (JStr s) = [s]"
  "extract_content_parts (JList xs) = concat (map extract_item_parts xs)"
  "extract_content_parts JNull = []"
  "extract_content_parts (JBool b) = []"
  "extract_content_parts (JInt n) = []"
  "extract_content_parts (JFloat x) = []"
  "extract_content_parts (JDict d) = []"
  "extract_item_parts (JStr s) = [s]"
  "extract_item_parts (JList xs) = []"
  "extract_item_parts JNull = []"
  "extract_item_parts (JBool b) = []"
  "extract_item_parts (JInt n) = []"
  "extract_item_parts (JFloat x) = []"
  by (simp_all add: extract_content_parts.simps extract_item_parts.simps)

lemma extract_item_dict:
  "extract_item_parts (JDict d) =
     (case dict_get d (lit ''text'') of
        Some (JStr t) \<Rightarrow> [t]
      | _ \<Rightarrow> (case dict_get d (lit ''content'') of Some c \<Rightarrow> extract_content_parts c | None \<Rightarrow> []))"
  by (simp add: extract_item_parts.simps)

text \<open>\<open>"\n".join(part for part in parts if part)\<close>.\<close>

definition join_parts :: "str list \<Rightarrow> str" where
  "join_parts ps = join [10] (filter (\<lambda>p. p \<noteq> []) ps)"

fun extract_latest_from :: "json list \<Rightarrow> str res" where
  "extract_latest_from [] = Inr []"
| "extract_latest_from (JDict m # ms) =
     rbind (in_str_set (get_or m (lit ''role'') JNull) BLOCK_SCAN_ROLES) (\<lambda>allowed.
     let t = join_parts (extract_content_parts (get_or m (lit ''content'') JNull)) in
     if allowed \<and> t \<noteq> [] then Inr t else extract_latest_from ms)"
| "extract_latest_from (_ # ms) = extract_latest_from ms"

definition extract_latest_text_from_messages :: "json \<Rightarrow> str res" where
  "extract_latest_text_from_messages messages =
     (case messages of JList ms \<Rightarrow> extract_latest_from (rev ms) | _ \<Rightarrow> Inr [])"

fun message_parts :: "json \<Rightarrow> str list" where
  "message_parts (JDict m) = extract_content_parts (get_or m (lit ''content'') JNull)"
| "message_parts _ = []"

definition extract_text_from_messages :: "json \<Rightarrow> str" where
  "extract_text_from_messages messages =
     (case messages of JList ms \<Rightarrow> join_parts (concat (map message_parts ms)) | _ \<Rightarrow> [])"

fun collect_text :: "json \<Rightarrow> str list" where
  "collect_text (JStr s) = [s]"
| "collect_text (JList xs) = concat (map collect_text xs)"
| "collect_text (JDict d) = concat (map (\<lambda>p. collect_text (snd p)) d)"
| "collect_text _ = []"

definition extract_text_from_value :: "json \<Rightarrow> str" where
  "extract_text_from_value v = join_parts (collect_text v)"

definition CHAT_COMPLETIONS_PATH :: str where
  "CHAT_COMPLETIONS_PATH = lit ''/v1/chat/completions''"

definition extract_text_from_request :: "str \<Rightarrow> json \<Rightarrow> str" where
  "extract_text_from_request path body =
     (case body of
        JDict b \<Rightarrow>
          if path = CHAT_COMPLETIONS_PATH
            then extract_text_from_messages (get_or b (lit ''messages'') (JList []))
          else if path = lit ''/v1/embeddings''
            then extract_text_from_value (get_or b (lit ''input'') JNull)
          else if path = lit ''/v1/completions''
            then extract_text_from_value (get_or b (lit ''prompt'') JNull)
          else if path = lit ''/v1/responses''
            then join_parts [extract_text_from_value (get_or b (lit ''input'') JNull),
                             extract_text_from_messages (get_or b (lit ''messages'') (JList []))]
          else if startswith path (lit ''/v1/images/'')
            then extract_text_from_value (get_or b (lit ''prompt'') JNull)
          else extract_text_from_value body
      | _ \<Rightarrow> [])"

definition extract_latest_text_from_request :: "str \<Rightarrow> json \<Rightarrow> str res" where
  "extract_latest_text_from_request path body =
     (case body of
        JDict b \<Rightarrow>
          if path = CHAT_COMPLETIONS_PATH
            then extract_latest_text_from_messages (get_or b (lit ''messages'') (JList []))
          else Inr (extract_text_from_request path body)
      | _ \<Rightarrow> Inr [])"

end
