(* ===== verification/Headers.thy ===== *)
theory Headers
  imports Prelude
begin

text \<open>
  The header policy of the proxy (\<open>proxy/header_policy.py\<close>, and the header helpers of
  \<open>proxy/relay.py\<close>): which client headers reach the upstream, which upstream headers reach the
  client, and the overrides for streamed requests. Headers are lists of name-value pairs in the
  order of arrival; the results are Python dictionaries.
\<close>

type_synonym headers = "(str \<times> str) list"

definition HOP_BY_HOP_HEADERS :: "str list" where
  "HOP_BY_HOP_HEADERS =
     [lit ''connection'', lit ''keep-alive'', lit ''proxy-authenticate'', lit ''proxy-authorization'',
      lit ''te'', lit ''trailer'', lit ''transfer-encoding'', lit ''upgrade'']"

definition BLOCKED_HEADERS :: "str list" where
  "BLOCKED_HEADERS =
     [lit ''host'', lit ''cookie'', lit ''content-length'', lit ''x-forwarded-for'',
      lit ''x-forwarded-host'', lit ''x-forwarded-proto'', lit ''x-real-ip'']"

definition INTERNAL_HEADER_PREFIXES :: "str list" where
  "INTERNAL_HEADER_PREFIXES = [lit ''x-safetyhub-'', lit ''x-admin-'', lit ''x-internal-'']"

definition RESPONSE_HEADER_BLOCKLIST :: "str list" where
  "RESPONSE_HEADER_BLOCKLIST =
     [lit ''connection'', lit ''keep-alive'', lit ''proxy-authenticate'', lit ''proxy-authorization'',
      lit ''te'', lit ''trailer'', lit ''transfer-encoding'', lit ''upgrade'',
      lit ''content-length'', lit ''content-encoding'']"

definition should_strip :: "str list \<Rightarrow> str \<Rightarrow> bool" where
  "should_strip extra_blocked normalized_name \<longleftrightarrow>
     (if normalized_name \<in> set HOP_BY_HOP_HEADERS then True
      else if normalized_name \<in> set BLOCKED_HEADERS then True
      else if normalized_name \<in> set extra_blocked then True
      else list_ex (startswith normalized_name) INTERNAL_HEADER_PREFIXES)"

fun copy_headers :: "str list \<Rightarrow> str option \<Rightarrow> headers \<Rightarrow> headers \<Rightarrow> headers" where
  "copy_headers extra_blocked upstream_api_key [] acc = acc"
| "copy_headers extra_blocked upstream_api_key ((name, value) # hs) acc =
     (let normalized_name = lower name in
      if should_strip extra_blocked normalized_name
        then copy_headers extra_blocked upstream_api_key hs acc
      else if upstream_api_key \<noteq> None \<and> normalized_name = lit ''authorization''
        then copy_headers extra_blocked upstream_api_key hs acc
      else copy_headers extra_blocked upstream_api_key hs (dict_set acc name value))"

definition policy_build_upstream_headers ::
    "str list \<Rightarrow> headers \<Rightarrow> str option \<Rightarrow> str option \<Rightarrow> headers" where
  "policy_build_upstream_headers extra_blocked headers request_id upstream_api_key =
     (let h1 = copy_headers (map lower extra_blocked) upstream_api_key headers [];
          h2 = (case upstream_api_key of
                  Some k \<Rightarrow> dict_set h1 (lit ''Authorization'') (lit ''Bearer '' @ k) | None \<Rightarrow> h1)
      in (case request_id of
            Some r \<Rightarrow> if r \<noteq> [] then dict_set h2 (lit ''X-Request-ID'') r else h2
          | None \<Rightarrow> h2))"

definition build_upstream_headers :: "headers \<Rightarrow> str option \<Rightarrow> str option \<Rightarrow> headers" where
  "build_upstream_headers headers request_id upstream_api_key =
     policy_build_upstream_headers [] headers request_id upstream_api_key"

fun response_headers_from :: "headers \<Rightarrow> headers \<Rightarrow> headers" where
  "response_headers_from [] acc = acc"
| "response_headers_from ((name, value) # hs) acc =
     response_headers_from hs
       (if lower name \<notin> set RESPONSE_HEADER_BLOCKLIST then dict_set acc name value else acc)"

definition filter_response_headers :: "headers \<Rightarrow> headers" where
  "filter_response_headers headers = response_headers_from headers []"

definition override_header_case_insensitive :: "headers \<Rightarrow> str \<Rightarrow> str \<Rightarrow> headers" where
  "override_header_case_insensitive headers name value =
     dict_set (filter (\<lambda>(key, v). lower key \<noteq> lower name) headers) name value"

definition with_stream_headers :: "headers \<Rightarrow> headers" where
  "with_stream_headers headers =
     (let h1 = override_header_case_insensitive headers (lit ''Accept'') (lit ''text/event-stream'');
          h2 = override_header_case_insensitive h1 (lit ''Accept-Encoding'') (lit ''identity'')
      in override_header_case_insensitive h2 (lit ''Cache-Control'') (lit ''no-cache''))"

section \<open>What passes\<close>

lemma copy_headers_keys:
  "n \<in> dict_keys (copy_headers xs k hs acc) \<Longrightarrow>
   n \<in> dict_keys acc \<or>
   (n \<in> fst ` set hs \<and> \<not> should_strip xs (lower n) \<and> (k \<noteq> None \<longrightarrow> lower n \<noteq> lit ''authorization''))"
  by (induction xs k hs acc rule: copy_headers.induct) (auto simp: Let_def split: if_splits)

lemma copy_headers_value:
  "dict_get (copy_headers xs k hs acc) n = Some v \<Longrightarrow>
   dict_get acc n = Some v \<or> (n, v) \<in> set hs"
  by (induction xs k hs acc rule: copy_headers.induct) (auto simp: Let_def split: if_splits)

lemma copy_headers_mono: "n \<in> dict_keys acc \<Longrightarrow> n \<in> dict_keys (copy_headers xs k hs acc)"
  by (induction xs k hs acc rule: copy_headers.induct) (auto simp: Let_def)

lemma copy_headers_kept:
  "(n, v) \<in> set hs \<Longrightarrow> \<not> should_strip xs (lower n) \<Longrightarrow> (k \<noteq> None \<longrightarrow> lower n \<noteq> lit ''authorization'') \<Longrightarrow>
   n \<in> dict_keys (copy_headers xs k hs acc)"
proof (induction hs arbitrary: acc)
  case Nil
  then show ?case by simp
next
  case (Cons h hs)
  obtain name val where h: "h = (name, val)" by (cases h)
  show ?case
  proof (cases "(n, v) = h")
    case True
    then have "copy_headers xs k (h # hs) acc = copy_headers xs k hs (dict_set acc n v)"
      using Cons.prems(2,3) by (auto simp: Let_def)
    then show ?thesis by (simp add: copy_headers_mono)
  next
    case False
    with Cons.prems(1) have "(n, v) \<in> set hs" by simp
    then show ?thesis using Cons.IH Cons.prems(2,3) by (simp add: h Let_def)
  qed
qed

lemma response_headers_keys:
  "n \<in> dict_keys (response_headers_from hs acc) \<longleftrightarrow>
   n \<in> dict_keys acc \<or> (n \<in> fst ` set hs \<and> lower n \<notin> set RESPONSE_HEADER_BLOCKLIST)"
  by (induction hs acc rule: response_headers_from.induct) auto

lemma dict_get_keys: "n \<in> dict_keys d \<longleftrightarrow> dict_get d n \<noteq> None"
  by (simp add: dict_keys_def map_of_eq_None_iff)

lemma override_unique:
  "n \<in> dict_keys (override_header_case_insensitive hs name v) \<Longrightarrow> lower n = lower name \<Longrightarrow> n = name"
  by (auto simp: override_header_case_insensitive_def) (auto simp: dict_keys_def)

lemma override_get: "dict_get (override_header_case_insensitive hs name v) name = Some v"
  by (simp add: override_header_case_insensitive_def)

lemma dict_get_filter:
  "(\<And>v. p (n, v)) \<Longrightarrow> dict_get (filter p d) n = dict_get d n"
  by (induction d) auto

lemma override_other:
  "lower n \<noteq> lower name \<Longrightarrow>
   dict_get (override_header_case_insensitive hs name v) n = dict_get hs n"
  by (auto simp: override_header_case_insensitive_def dict_get_filter)

lemma override_keys:
  "n \<in> dict_keys (override_header_case_insensitive hs name v) \<Longrightarrow> n = name \<or> n \<in> dict_keys hs"
  by (auto simp: override_header_case_insensitive_def) (auto simp: dict_keys_def)

end
