(* ===== verification/Api_Keys.thy ===== *)
theory Api_Keys
  imports Table Json
begin

text \<open>
  The API-key service (\<open>governance/api_keys.py\<close>, the interface of \<open>governance/key_provider.py\<close>)
  over the table \<open>api_keys\<close>. Parameters: \<open>sha\<close> (the hexadecimal SHA-256 digest), the Fernet
  cipher (\<open>enc\<close>, \<open>dec\<close> with \<open>None\<close> for an invalid token), the clock, the random tokens and
  UUIDs drawn, and the provider of upstream keys.
\<close>

section \<open>Data\<close>

record api_key =
  ak_id :: str
  ak_key_hash :: str
  ak_key_prefix :: str
  ak_key_suffix :: str
  ak_name :: str
  ak_owner_user_id :: str
  ak_owner_department :: "str option"
  ak_cost_center :: "str option"
  ak_status :: str
  ak_provider_name :: str
  ak_upstream_key_id :: "str option"
  ak_upstream_key_prefix :: "str option"
  ak_upstream_key_encrypted :: "str option"
  ak_safetyhub_key_encrypted :: "str option"
  ak_is_decoupled :: bool
  ak_created_at :: int
  ak_expires_at :: "int option"
  ak_revoked_at :: "int option"

type_synonym key_table = "api_key list"

record api_key_create =
  ac_name :: str
  ac_owner_user_id :: str
  ac_upstream_key :: str
  ac_reuse_upstream_key :: bool
  ac_expires_at :: "int option"
  ac_provider_name :: str
  ac_owner_department :: "str option"
  ac_cost_center :: "str option"
  ac_create_mode :: str
  ac_metadata :: "(str \<times> json) list"

record crypto =
  sha :: "str \<Rightarrow> str"
  enc :: "str \<Rightarrow> str"
  dec :: "str \<Rightarrow> str option"

record key_create_params =
  kp_name :: str
  kp_owner_user_id :: str
  kp_expires_at :: "int option"
  kp_metadata :: "(str \<times> json) list"

record upstream_key_info =
  ki_key_id :: str
  ki_key_prefix :: str
  ki_key_suffix :: str
  ki_key_secret :: "str option"
  ki_metadata :: "(str \<times> json) list"

text \<open>A provider: its name and the answers of its two remote operations. The calls the service
  makes are logged.\<close>

record key_provider =
  pv_name :: str
  pv_create :: "key_create_params \<Rightarrow> upstream_key_info res"
  pv_revoke :: "str \<Rightarrow> bool res"

datatype provider_call = Call_Create key_create_params | Call_Revoke str

section \<open>Helpers\<close>

definition encrypt :: "crypto \<Rightarrow> str \<Rightarrow> str" where
  "encrypt c v = lit ''v2:'' @ enc c v"

definition decrypt :: "crypto \<Rightarrow> str \<Rightarrow> str res" where
  "decrypt c v =
     (if \<not> startswith v (lit ''v2:'') then Inl (Value_Error (lit ''unsupported encrypted value version''))
      else (case dec c (removeprefix v (lit ''v2:'')) of
              Some s \<Rightarrow> Inr s
            | None \<Rightarrow> Inl (Value_Error (lit ''invalid encrypted value''))))"

definition hash_api_key :: "crypto \<Rightarrow> str \<Rightarrow> str" where
  "hash_api_key c raw_key = sha c (strip raw_key)"

definition key_prefix :: "str \<Rightarrow> str" where
  "key_prefix raw_key = take 12 (strip raw_key)"

definition key_suffix :: "str \<Rightarrow> str" where
  "key_suffix raw_key = (let s = strip raw_key in drop (length s - 6) s)"

definition is_record_active :: "api_key \<Rightarrow> int \<Rightarrow> bool" where
  "is_record_active record active_now =
     (if ak_status record \<noteq> lit ''active'' then False
      else (case ak_expires_at record of
              Some t \<Rightarrow> if t \<le> active_now then False else True
            | None \<Rightarrow> True))"

definition validate_key :: "str \<Rightarrow> unit res" where
  "validate_key raw_key =
     (if length raw_key < 8 then Inl (Value_Error (lit ''api key is too short'')) else Inr ())"

definition build_api_key_record ::
    "crypto \<Rightarrow> str \<Rightarrow> int \<Rightarrow> api_key_create \<Rightarrow> str \<Rightarrow> str \<Rightarrow> str option \<Rightarrow> api_key" where
  "build_api_key_record c uuid_hex now payload upstream_key safetyhub_key upstream_key_id =
     \<lparr>ak_id = lit ''ak_'' @ uuid_hex,
      ak_key_hash = hash_api_key c safetyhub_key,
      ak_key_prefix = key_prefix safetyhub_key,
      ak_key_suffix = key_suffix safetyhub_key,
      ak_name = strip (ac_name payload),
      ak_owner_user_id = strip (ac_owner_user_id payload),
      ak_owner_department = ac_owner_department payload,
      ak_cost_center = ac_cost_center payload,
      ak_status = lit ''active'',
      ak_provider_name = (if strip (ac_provider_name payload) = [] then lit ''passthrough''
                          else strip (ac_provider_name payload)),
      ak_upstream_key_id = upstream_key_id,
      ak_upstream_key_prefix = Some (key_prefix upstream_key),
      ak_upstream_key_encrypted = Some (encrypt c upstream_key),
      ak_safetyhub_key_encrypted = Some (encrypt c safetyhub_key),
      ak_is_decoupled = (safetyhub_key \<noteq> upstream_key),
      ak_created_at = now,
      ak_expires_at = ac_expires_at payload,
      ak_revoked_at = None\<rparr>"

definition find_by_hash :: "str \<Rightarrow> key_table \<Rightarrow> api_key option" where
  "find_by_hash h t = find (\<lambda>r. ak_key_hash r = h) t"

definition get_key :: "key_table \<Rightarrow> str \<Rightarrow> api_key option" where
  "get_key t api_key_id = tbl_get ak_id api_key_id t"

text \<open>\<open>session.add\<close> and \<open>commit\<close>: the table's primary key \<open>id\<close> is checked by the database.\<close>

definition insert_row :: "api_key \<Rightarrow> key_table \<Rightarrow> key_table \<times> unit res" where
  "insert_row r t = (if get_key t (ak_id r) \<noteq> None then (t, Inl (Other_Error (lit ''IntegrityError'')))
     else (tbl_add r t, Inr ()))"

section \<open>Operations\<close>

text \<open>\<open>for _ in range(10)\<close> over the random tokens drawn (token \<open>n\<close> when \<open>n\<close> more tries are left).\<close>

fun generate_unique_safetyhub_key :: "crypto \<Rightarrow> key_table \<Rightarrow> (nat \<Rightarrow> str) \<Rightarrow> nat \<Rightarrow> str res" where
  "generate_unique_safetyhub_key c t token (Suc n) =
     (let safetyhub_key = lit ''sk-sh-'' @ token n in
      if find_by_hash (hash_api_key c safetyhub_key) t = None then Inr safetyhub_key
      else generate_unique_safetyhub_key c t token n)"
| "generate_unique_safetyhub_key c t token 0 =
     Inl (Value_Error (lit ''failed to generate unique safetyhub api key''))"

text \<open>What a call draws from outside: a UUID, the time, random tokens.\<close>

record draws =
  dr_uuid_hex :: str
  dr_now :: int
  dr_tokens :: "nat \<Rightarrow> str"

definition create_record ::
    "crypto \<Rightarrow> draws \<Rightarrow> key_table \<Rightarrow> api_key_create \<Rightarrow> str \<Rightarrow> str option \<Rightarrow> str option \<Rightarrow> bool option
     \<Rightarrow> key_table \<times> (api_key \<times> str option) res" where
  "create_record c dr t payload upstream_key safetyhub_key upstream_key_id reveal =
     (case (case safetyhub_key of
              Some k \<Rightarrow> if k \<noteq> [] then Inr k else generate_unique_safetyhub_key c t (dr_tokens dr) 10
            | None \<Rightarrow> generate_unique_safetyhub_key c t (dr_tokens dr) 10) of
        Inl e \<Rightarrow> (t, Inl e)
      | Inr actual_key \<Rightarrow>
          (let record = build_api_key_record c (dr_uuid_hex dr) (dr_now dr) payload upstream_key
                          actual_key upstream_key_id in
           if find_by_hash (ak_key_hash record) t \<noteq> None
             then (t, Inl (Value_Error (lit ''safetyhub api key already exists'')))
           else (case insert_row record t of
                   (t', Inl e) \<Rightarrow> (t', Inl e)
                 | (t', Inr _) \<Rightarrow>
                     (t', Inr (record,
                        if (case reveal of Some b \<Rightarrow> b | None \<Rightarrow> \<not> ac_reuse_upstream_key payload)
                          then Some actual_key else None)))))"

text \<open>The \<open>try\<close> block: a key the provider issued and that could not be recorded is revoked, and
  the error goes on (or the one of the revocation).\<close>

definition record_provider_key ::
    "crypto \<Rightarrow> draws \<Rightarrow> key_provider \<Rightarrow> key_table \<Rightarrow> api_key_create \<Rightarrow> upstream_key_info \<Rightarrow> str
     \<Rightarrow> key_table \<times> provider_call list \<times> (api_key \<times> str option) res" where
  "record_provider_key c dr p t payload info secret =
     (case create_record c dr t
             (payload\<lparr>ac_upstream_key := secret, ac_provider_name := pv_name p,
                      ac_create_mode := lit ''manual''\<rparr>)
             secret (if ac_reuse_upstream_key payload then Some secret else None)
             (Some (ki_key_id info)) (Some True) of
        (t', Inr r) \<Rightarrow> (t', [], Inr r)
      | (t', Inl e) \<Rightarrow>
          if ki_key_id info \<noteq> []
            then (t', [Call_Revoke (ki_key_id info)],
                  (case pv_revoke p (ki_key_id info) of Inl e' \<Rightarrow> Inl e' | Inr _ \<Rightarrow> Inl e))
          else (t', [], Inl e))"

definition create_from_provider ::
    "crypto \<Rightarrow> draws \<Rightarrow> key_provider option \<Rightarrow> key_table \<Rightarrow> api_key_create
     \<Rightarrow> key_table \<times> provider_call list \<times> (api_key \<times> str option) res" where
  "create_from_provider c dr provider t payload =
     (case provider of
        None \<Rightarrow> (t, [], Inl (Value_Error (lit ''key provider is not configured'')))
      | Some p \<Rightarrow>
          (let params = \<lparr>kp_name = strip (ac_name payload),
                         kp_owner_user_id = strip (ac_owner_user_id payload),
                         kp_expires_at = ac_expires_at payload, kp_metadata = ac_metadata payload\<rparr> in
           (case pv_create p params of
              Inl e \<Rightarrow> (t, [Call_Create params], Inl e)
            | Inr info \<Rightarrow>
                (let secret = (case ki_key_secret info of Some s \<Rightarrow> s | None \<Rightarrow> []) in
                 if secret = [] then (t, [Call_Create params],
                   Inl (Value_Error (lit ''key provider did not return upstream key secret'')))
                 else (case validate_key secret of
                     Inl e \<Rightarrow> (t, [Call_Create params], Inl e)
                   | Inr _ \<Rightarrow>
                       (case record_provider_key c dr p t payload info secret of
                          (t', calls, r) \<Rightarrow> (t', Call_Create params # calls, r)))))))"

definition create_key ::
    "crypto \<Rightarrow> draws \<Rightarrow> key_provider option \<Rightarrow> key_table \<Rightarrow> api_key_create
     \<Rightarrow> key_table \<times> provider_call list \<times> (api_key \<times> str option) res" where
  "create_key c dr provider t payload =
     (if ac_create_mode payload = lit ''provider'' then create_from_provider c dr provider t payload
      else
        (let upstream_key = strip (ac_upstream_key payload) in
         (case validate_key upstream_key of
            Inl e \<Rightarrow> (t, [], Inl e)
          | Inr _ \<Rightarrow>
              (case create_record c dr t payload upstream_key
                      (if ac_reuse_upstream_key payload then Some upstream_key else None) None
                      (if ac_reuse_upstream_key payload then None else Some True) of
                 (t', r) \<Rightarrow> (t', [], r)))))"

text \<open>The listing: status and substring filters (\<open>ilike\<close> is the database's), newest first.\<close>

definition list_searched :: "(str \<Rightarrow> str \<Rightarrow> bool) \<Rightarrow> str \<Rightarrow> api_key \<Rightarrow> bool" where
  "list_searched ilike search_text r \<longleftrightarrow>
     list_ex (\<lambda>col. ilike (lit ''%'' @ search_text @ lit ''%'') col)
       ([ak_id r, ak_name r, ak_owner_user_id r] @
        (case ak_owner_department r of Some s \<Rightarrow> [s] | None \<Rightarrow> []) @
        (case ak_cost_center r of Some s \<Rightarrow> [s] | None \<Rightarrow> []) @
        [ak_provider_name r, ak_status r, ak_key_prefix r, ak_key_suffix r] @
        (case ak_upstream_key_prefix r of Some s \<Rightarrow> [s] | None \<Rightarrow> []) @
        (case ak_upstream_key_id r of Some s \<Rightarrow> [s] | None \<Rightarrow> []))"

record api_key_page =
  pg_items :: "api_key list"
  pg_total :: nat
  pg_limit :: int
  pg_offset :: int

definition list_keys ::
    "(str \<Rightarrow> str \<Rightarrow> bool) \<Rightarrow> key_table \<Rightarrow> int \<Rightarrow> int \<Rightarrow> str option \<Rightarrow> str option \<Rightarrow> api_key_page" where
  "list_keys ilike t limit offset status search =
     (let lim = safe_limit 100 limit;
          off = max offset 0;
          search_text = strip (case search of Some s \<Rightarrow> s | None \<Rightarrow> []);
          rows1 = (case status of Some s \<Rightarrow> if s \<noteq> [] then filter (\<lambda>r. ak_status r = s) t else t
                   | None \<Rightarrow> t);
          rows2 = (if search_text \<noteq> [] then filter (list_searched ilike search_text) rows1 else rows1)
      in \<lparr>pg_items = page lim off (newest_first ak_created_at rows2), pg_total = length rows2,
          pg_limit = lim, pg_offset = off\<rparr>)"

definition count_keys :: "key_table \<Rightarrow> nat" where
  "count_keys t = length t"

definition find_by_raw_key :: "crypto \<Rightarrow> key_table \<Rightarrow> str \<Rightarrow> api_key option" where
  "find_by_raw_key c t raw_key = find_by_hash (hash_api_key c raw_key) t"

definition should_revoke_upstream :: "key_provider option \<Rightarrow> api_key \<Rightarrow> bool" where
  "should_revoke_upstream provider record \<longleftrightarrow>
     (case provider of
        None \<Rightarrow> False
      | Some p \<Rightarrow> ak_provider_name record = pv_name p \<and>
          (case ak_upstream_key_id record of Some i \<Rightarrow> i \<noteq> [] | None \<Rightarrow> False))"

definition mark_revoked :: "int \<Rightarrow> api_key \<Rightarrow> api_key" where
  "mark_revoked now r = r\<lparr>ak_status := lit ''revoked'', ak_revoked_at := Some now\<rparr>"

text \<open>\<open>revoke\<close> reads the row in one session and writes it in a second one, after the provider's
  answer: \<open>between\<close> is what other requests did to the table meanwhile.\<close>

definition revoke_key ::
    "int \<Rightarrow> key_provider option \<Rightarrow> (key_table \<Rightarrow> key_table) \<Rightarrow> key_table \<Rightarrow> str
     \<Rightarrow> key_table \<times> provider_call list \<times> api_key option res" where
  "revoke_key now provider between t api_key_id =
     (case get_key t api_key_id of
        None \<Rightarrow> (t, [], Inr None)
      | Some record \<Rightarrow>
          (let uid = (case ak_upstream_key_id record of Some i \<Rightarrow> i | None \<Rightarrow> []);
               upstream = should_revoke_upstream provider record;
               calls = (if upstream then [Call_Revoke uid] else []);
               t1 = between t in
           (case (if upstream then pv_revoke (the provider) uid else Inr True) of
              Inl e \<Rightarrow> (t1, calls, Inl e)
            | Inr _ \<Rightarrow>
                (case get_key t1 api_key_id of
                   None \<Rightarrow> (t1, calls, Inr None)
                 | Some _ \<Rightarrow>
                     (let t2 = tbl_update ak_id api_key_id (mark_revoked now) t1
                      in (t2, calls, Inr (get_key t2 api_key_id)))))))"

definition delete_revoked :: "key_table \<Rightarrow> str \<Rightarrow> key_table \<times> bool option res" where
  "delete_revoked t api_key_id =
     (case get_key t api_key_id of
        None \<Rightarrow> (t, Inr None)
      | Some record \<Rightarrow>
          if ak_status record \<noteq> lit ''revoked''
            then (t, Inl (Value_Error (lit ''only revoked api key can be deleted'')))
          else (tbl_delete (\<lambda>r. ak_id r = api_key_id) t, Inr (Some True)))"

text \<open>One entry of the dictionary \<open>fields\<close>, with the type its column has; \<open>F_other\<close> is a name
  that is not in \<open>allowed\<close>.\<close>

datatype field =
    F_name "str option"
  | F_owner_user_id "str option"
  | F_owner_department "str option"
  | F_cost_center "str option"
  | F_expires_at "int option"
  | F_other str

fun set_field :: "field \<Rightarrow> api_key \<Rightarrow> api_key" where
  "set_field (F_name v) r =
     (case v of None \<Rightarrow> r | Some s \<Rightarrow> if strip s = [] then r else r\<lparr>ak_name := strip s\<rparr>)"
| "set_field (F_owner_user_id v) r =
     (case v of None \<Rightarrow> r | Some s \<Rightarrow> if strip s = [] then r else r\<lparr>ak_owner_user_id := strip s\<rparr>)"
| "set_field (F_owner_department v) r = r\<lparr>ak_owner_department := v\<rparr>"
| "set_field (F_cost_center v) r = r\<lparr>ak_cost_center := v\<rparr>"
| "set_field (F_expires_at v) r = r\<lparr>ak_expires_at := v\<rparr>"
| "set_field (F_other n) r = r"

definition update_key :: "key_table \<Rightarrow> str \<Rightarrow> field list \<Rightarrow> key_table \<times> api_key option" where
  "update_key t api_key_id flds =
     (if flds = [] then (t, get_key t api_key_id)
      else (case get_key t api_key_id of
              None \<Rightarrow> (t, None)
            | Some record \<Rightarrow>
                (let t' = tbl_update ak_id api_key_id (fold set_field flds) t
                 in (t', get_key t' api_key_id))))"

definition set_upstream :: "crypto \<Rightarrow> str \<Rightarrow> api_key \<Rightarrow> api_key" where
  "set_upstream c raw_key r =
     r\<lparr>ak_upstream_key_encrypted := Some (encrypt c raw_key),
       ak_upstream_key_prefix := Some (key_prefix raw_key),
       ak_is_decoupled := True\<rparr>"

definition replace_upstream_key ::
    "crypto \<Rightarrow> key_table \<Rightarrow> str \<Rightarrow> str \<Rightarrow> key_table \<times> api_key option res" where
  "replace_upstream_key c t api_key_id new_upstream_key =
     (let raw_key = strip new_upstream_key in
      (case validate_key raw_key of
         Inl e \<Rightarrow> (t, Inl e)
       | Inr _ \<Rightarrow>
           (case get_key t api_key_id of
              None \<Rightarrow> (t, Inr None)
            | Some record \<Rightarrow>
                (let t' = tbl_update ak_id api_key_id (set_upstream c raw_key) t
                 in (t', Inr (get_key t' api_key_id))))))"

definition find_for_bulk_replace :: "crypto \<Rightarrow> key_table \<Rightarrow> str \<Rightarrow> api_key option" where
  "find_for_bulk_replace c t identifier =
     (let v = strip identifier in
      if v = [] then None
      else (case get_key t v of
          Some r \<Rightarrow> Some r
        | None \<Rightarrow>
            (case (if startswith v (lit ''sk-'') then find_by_hash (hash_api_key c v) t else None) of
               Some r \<Rightarrow> Some r
             | None \<Rightarrow> (case filter (\<lambda>r. ak_key_prefix r = v) t of [r] \<Rightarrow> Some r | _ \<Rightarrow> None))))"

datatype bulk_outcome = Not_Matched | Replace_Failed exn str | Replaced str

definition replace_row :: "crypto \<Rightarrow> key_table \<Rightarrow> str \<times> str \<Rightarrow> key_table \<times> bulk_outcome" where
  "replace_row c t row =
     (case find_for_bulk_replace c t (fst row) of
        None \<Rightarrow> (t, Not_Matched)
      | Some record \<Rightarrow>
          (case replace_upstream_key c t (ak_id record) (snd row) of
             (t1, Inl e) \<Rightarrow> (t1, Replace_Failed e (ak_id record))
           | (t1, Inr updated) \<Rightarrow>
               (t1, Replaced (case updated of Some u \<Rightarrow> ak_id u | None \<Rightarrow> ak_id record))))"

fun bulk_replace ::
    "crypto \<Rightarrow> key_table \<Rightarrow> (str \<times> str) list \<Rightarrow> key_table \<times> (str \<times> bulk_outcome) list" where
  "bulk_replace c t [] = (t, [])"
| "bulk_replace c t (row # rows) =
     (case replace_row c t row of
        (t', outcome) \<Rightarrow>
          (case bulk_replace c t' rows of (t2, rest) \<Rightarrow> (t2, (fst row, outcome) # rest)))"

definition decrypt_upstream_key :: "crypto \<Rightarrow> api_key \<Rightarrow> str res" where
  "decrypt_upstream_key c record =
     (case ak_upstream_key_encrypted record of
        None \<Rightarrow> Inr []
      | Some v \<Rightarrow> if v = [] then Inr [] else decrypt c v)"

definition decrypt_safetyhub_key :: "crypto \<Rightarrow> api_key \<Rightarrow> str res" where
  "decrypt_safetyhub_key c record =
     (case ak_safetyhub_key_encrypted record of
        None \<Rightarrow> Inr []
      | Some v \<Rightarrow> if v = [] then Inr [] else decrypt c v)"

definition reveal_safetyhub_key :: "crypto \<Rightarrow> key_table \<Rightarrow> str \<Rightarrow> str option res" where
  "reveal_safetyhub_key c t api_key_id =
     (case get_key t api_key_id of
        None \<Rightarrow> Inr None
      | Some record \<Rightarrow> rbind (decrypt_safetyhub_key c record) (\<lambda>s. Inr (Some s)))"

text \<open>The rows \<open>csv.DictReader\<close> yields, each a dictionary of cells that may be \<open>None\<close>.\<close>

definition csv_cell :: "(str \<times> str option) list \<Rightarrow> str \<Rightarrow> str" where
  "csv_cell item k = (case dict_get item k of Some (Some s) \<Rightarrow> s | _ \<Rightarrow> [])"

definition parse_bulk_row :: "(str \<times> str option) list \<Rightarrow> (str \<times> str) list" where
  "parse_bulk_row item =
     (let a = csv_cell item (lit ''api_key_id'');
          b = csv_cell item (lit ''safetyhub_key_full'');
          d = csv_cell item (lit ''safetyhub_key_prefix'');
          identifier = strip (if a \<noteq> [] then a else if b \<noteq> [] then b else d);
          new_key = strip (csv_cell item (lit ''new_upstream_key''))
      in if identifier \<noteq> [] \<and> new_key \<noteq> [] then [(identifier, new_key)] else [])"

definition parse_bulk_replace_csv :: "(str \<times> str option) list list \<Rightarrow> (str \<times> str) list" where
  "parse_bulk_replace_csv items = concat (map parse_bulk_row items)"

section \<open>Facts about the operations\<close>

interpretation keys: keyed_table ak_id "tbl_get ak_id" tbl_add "tbl_update ak_id" tbl_delete
  by (rule keyed_table_list)

definition row_ok :: "api_key \<Rightarrow> bool" where
  "row_ok r \<longleftrightarrow> ak_status r \<in> {lit ''active'', lit ''revoked''} \<and>
     (ak_status r = lit ''revoked'' \<longleftrightarrow> ak_revoked_at r \<noteq> None)"

definition keys_ok :: "key_table \<Rightarrow> bool" where
  "keys_ok t \<longleftrightarrow> distinct (map ak_id t) \<and> distinct (map ak_key_hash t) \<and> (\<forall>r\<in>set t. row_ok r)"

lemma keys_ok_Nil [simp]: "keys_ok []"
  by (simp add: keys_ok_def)

lemma find_by_hash_None: "find_by_hash h t = None \<longleftrightarrow> h \<notin> ak_key_hash ` set t"
  by (auto simp: find_by_hash_def find_None_iff)

lemma find_by_hash_Some: "find_by_hash h t = Some r \<Longrightarrow> r \<in> set t \<and> ak_key_hash r = h"
  by (auto simp: find_by_hash_def find_Some_iff)

lemma find_by_hash_add:
  "h \<notin> ak_key_hash ` set t \<Longrightarrow> ak_key_hash r = h \<Longrightarrow> find_by_hash h (tbl_add r t) = Some r"
  by (induction t) (auto simp: find_by_hash_def tbl_add_def)

lemma decrypt_encrypt [simp]: "dec c (enc c v) = Some v \<Longrightarrow> decrypt c (encrypt c v) = Inr v"
  by (simp add: decrypt_def encrypt_def)

lemma build_record_fields [simp]:
  "ak_id (build_api_key_record c u n p uk sk i) = lit ''ak_'' @ u"
  "ak_key_hash (build_api_key_record c u n p uk sk i) = hash_api_key c sk"
  "ak_status (build_api_key_record c u n p uk sk i) = lit ''active''"
  "ak_revoked_at (build_api_key_record c u n p uk sk i) = None"
  "ak_expires_at (build_api_key_record c u n p uk sk i) = ac_expires_at p"
  "ak_upstream_key_encrypted (build_api_key_record c u n p uk sk i) = Some (encrypt c uk)"
  by (simp_all add: build_api_key_record_def)

lemma encrypt_not_Nil [simp]: "encrypt c v \<noteq> []"
  by (simp add: encrypt_def)

lemma decrypt_build [simp]:
  "dec c (enc c uk) = Some uk \<Longrightarrow>
   decrypt_upstream_key c (build_api_key_record c u n p uk sk i) = Inr uk"
  by (simp add: decrypt_upstream_key_def)

text \<open>\<open>_create_record\<close> either fails and leaves the table alone or appends one fresh row.\<close>

lemma create_record_cases:
  assumes "create_record c dr t payload uk sk i reveal = (t', x)"
  obtains (failed) e where "t' = t" "x = Inl e"
  | (created) k shown where
      "x = Inr (build_api_key_record c (dr_uuid_hex dr) (dr_now dr) payload uk k i, shown)"
      "t' = tbl_add (build_api_key_record c (dr_uuid_hex dr) (dr_now dr) payload uk k i) t"
      "find_by_hash (hash_api_key c k) t = None"
      "get_key t (lit ''ak_'' @ dr_uuid_hex dr) = None"
      "shown = (if (case reveal of Some b \<Rightarrow> b | None \<Rightarrow> \<not> ac_reuse_upstream_key payload)
                then Some k else None)"
      "sk \<noteq> None \<Longrightarrow> the sk \<noteq> [] \<Longrightarrow> k = the sk"
  using assms
  by (auto simp: create_record_def insert_row_def Let_def split: sum.splits if_splits option.splits)

lemma get_key_None: "get_key t i = None \<longleftrightarrow> i \<notin> ak_id ` set t"
  by (simp add: get_key_def keys.get_None)

lemma keys_ok_add_build:
  assumes "keys_ok t" "find_by_hash (hash_api_key c k) t = None"
    "get_key t (lit ''ak_'' @ u) = None"
  shows "keys_ok (tbl_add (build_api_key_record c u n p uk k i) t)"
  using assms
  by (auto simp: keys_ok_def find_by_hash_None get_key_None keys.set_add row_ok_def
      intro!: keys.distinct_add)

lemma create_record_ok:
  assumes "keys_ok t"
  shows "keys_ok (fst (create_record c dr t payload uk sk i reveal))"
proof -
  obtain t' x where eq: "create_record c dr t payload uk sk i reveal = (t', x)"
    by (cases "create_record c dr t payload uk sk i reveal")
  from eq show ?thesis
  proof (cases rule: create_record_cases)
    case (created k shown)
    with assms show ?thesis by (simp add: eq keys_ok_add_build)
  qed (use assms eq in simp)
qed

text \<open>A change of one row that keeps its id and hash.\<close>

lemma update_ok:
  assumes "keys_ok t" "\<And>r. ak_id (f r) = ak_id r" "\<And>r. ak_key_hash (f r) = ak_key_hash r"
    and "\<And>r. row_ok r \<Longrightarrow> row_ok (f r)"
  shows "keys_ok (tbl_update ak_id i f t)"
  using assms by (auto simp: keys_ok_def keys.map_upd keys.set_upd)

lemma mark_revoked_fields [simp]:
  "ak_id (mark_revoked now r) = ak_id r" "ak_key_hash (mark_revoked now r) = ak_key_hash r"
  "ak_status (mark_revoked now r) = lit ''revoked''" "row_ok (mark_revoked now r)"
  by (simp_all add: mark_revoked_def row_ok_def)

lemma set_upstream_fields [simp]:
  "ak_id (set_upstream c k r) = ak_id r" "ak_key_hash (set_upstream c k r) = ak_key_hash r"
  "ak_status (set_upstream c k r) = ak_status r"
  "ak_revoked_at (set_upstream c k r) = ak_revoked_at r"
  "ak_expires_at (set_upstream c k r) = ak_expires_at r"
  "ak_owner_user_id (set_upstream c k r) = ak_owner_user_id r"
  by (simp_all add: set_upstream_def)

lemma row_ok_set_upstream: "row_ok r \<Longrightarrow> row_ok (set_upstream c k r)"
  unfolding row_ok_def by (simp only: set_upstream_fields)

lemma set_field_fields [simp]:
  "ak_id (set_field x r) = ak_id r" "ak_key_hash (set_field x r) = ak_key_hash r"
  "ak_status (set_field x r) = ak_status r" "ak_revoked_at (set_field x r) = ak_revoked_at r"
  by (cases x; simp split: option.splits)+

lemma fold_set_field_fields [simp]:
  "ak_id (fold set_field xs r) = ak_id r" "ak_key_hash (fold set_field xs r) = ak_key_hash r"
  "ak_status (fold set_field xs r) = ak_status r"
  "ak_revoked_at (fold set_field xs r) = ak_revoked_at r"
  by (induction xs arbitrary: r) simp_all

lemma fold_set_field_ok: "row_ok r \<Longrightarrow> row_ok (fold set_field xs r)"
  unfolding row_ok_def by (simp only: fold_set_field_fields)

lemma record_provider_key_cases:
  assumes "record_provider_key c dr p t payload info secret = (t', calls, x)"
  obtains (failed) e where "t' = t" "x = Inl e"
      "calls = (if ki_key_id info \<noteq> [] then [Call_Revoke (ki_key_id info)] else [])"
  | (created) payload' sk r where "calls = []" "x = Inr r"
      "create_record c dr t payload' secret sk (Some (ki_key_id info)) (Some True) = (t', Inr r)"
      "ac_expires_at payload' = ac_expires_at payload"
proof -
  let ?p = "payload\<lparr>ac_upstream_key := secret, ac_provider_name := pv_name p,
                      ac_create_mode := lit ''manual''\<rparr>"
  let ?sk = "if ac_reuse_upstream_key payload then Some secret else None"
  obtain t1 y where eq: "create_record c dr t ?p secret ?sk (Some (ki_key_id info)) (Some True) = (t1, y)"
    by (cases "create_record c dr t ?p secret ?sk (Some (ki_key_id info)) (Some True)")
  show thesis
  proof (cases y)
    case (Inr r)
    with eq assms have "create_record c dr t ?p secret ?sk (Some (ki_key_id info)) (Some True) = (t', Inr r)"
      "calls = []" "x = Inr r"
      by (auto simp: record_provider_key_def)
    then show thesis by (intro created [where payload' = ?p]) simp_all
  next
    case (Inl e)
    from eq Inl have "t1 = t" by (cases rule: create_record_cases) auto
    with Inl eq assms show thesis
      by (intro failed [of "projl x"])
        (auto simp: record_provider_key_def split: if_splits sum.splits)
  qed
qed

lemma record_provider_key_ok:
  assumes "keys_ok t"
  shows "keys_ok (fst (record_provider_key c dr p t payload info secret))"
proof -
  obtain t' calls x where eq: "record_provider_key c dr p t payload info secret = (t', calls, x)"
    by (cases "record_provider_key c dr p t payload info secret")
  then show ?thesis
  proof (cases rule: record_provider_key_cases)
    case (created payload' sk r)
    with create_record_ok [OF assms] eq show ?thesis by (metis fst_conv)
  qed (use assms eq in simp)
qed

lemma create_from_provider_fst:
  "fst (create_from_provider c dr provider t payload) = t \<or>
   (\<exists>p info secret. fst (create_from_provider c dr provider t payload) =
      fst (record_provider_key c dr p t payload info secret))"
  unfolding create_from_provider_def Let_def
  by (auto split: option.splits sum.splits prod.splits if_splits) (metis fst_conv)+

lemma create_key_ok: "keys_ok t \<Longrightarrow> keys_ok (fst (create_key c dr provider t payload))"
  using create_from_provider_fst [of c dr provider t payload] create_record_ok [of t]
    record_provider_key_ok [of t]
  by (auto simp: create_key_def Let_def split: sum.splits prod.splits) (metis fst_conv)+

lemma revoke_key_ok:
  "keys_ok (between t) \<Longrightarrow> keys_ok t \<Longrightarrow> keys_ok (fst (revoke_key now provider between t i))"
  by (auto simp: revoke_key_def Let_def intro!: update_ok split: option.splits sum.splits)

lemma delete_revoked_ok: "keys_ok t \<Longrightarrow> keys_ok (fst (delete_revoked t i))"
  by (auto simp: delete_revoked_def keys_ok_def keys.set_del intro: keys.distinct_del
      split: option.splits)

lemma update_key_ok: "keys_ok t \<Longrightarrow> keys_ok (fst (update_key t i flds))"
  by (auto simp: update_key_def Let_def intro!: update_ok fold_set_field_ok split: option.splits)

lemma replace_ok: "keys_ok t \<Longrightarrow> keys_ok (fst (replace_upstream_key c t i k))"
  by (auto simp: replace_upstream_key_def Let_def intro!: update_ok row_ok_set_upstream split: option.splits sum.splits)

lemma get_key_Some: "get_key t i = Some r \<Longrightarrow> r \<in> set t \<and> ak_id r = i"
  by (auto simp: get_key_def dest: keys.get_Some)

lemma get_key_update:
  "(\<And>r. ak_id (f r) = ak_id r) \<Longrightarrow>
   get_key (tbl_update ak_id k f t) i = (if i = k then map_option f (get_key t i) else get_key t i)"
  by (simp add: get_key_def keys.get_upd)

lemma get_key_add:
  "get_key t (ak_id r) = None \<Longrightarrow>
   get_key (tbl_add r t) i = (if i = ak_id r then Some r else get_key t i)"
  by (induction t) (auto simp: get_key_def tbl_get_def tbl_add_def split: if_splits)

lemma get_key_delete:
  "get_key (tbl_delete (\<lambda>r. ak_id r = k) t) i = (if i = k then None else get_key t i)"
  by (induction t) (auto simp: get_key_def tbl_get_def tbl_delete_def)

lemma find_by_raw_update:
  "(\<And>r. ak_key_hash (f r) = ak_key_hash r) \<Longrightarrow>
   find_by_hash h (tbl_update ak_id k f t) =
   map_option (\<lambda>r. if ak_id r = k then f r else r) (find_by_hash h t)"
  by (induction t) (auto simp: find_by_hash_def tbl_update_def)

lemmas get_key_ops = get_key_update get_key_add get_key_delete

section \<open>The service as a transition system\<close>

text \<open>One step is one write of one request; the row a revocation read (\<open>t0\<close>) may be older than
  the table it writes to.\<close>

inductive key_step :: "crypto \<Rightarrow> key_table \<Rightarrow> key_table \<Rightarrow> bool" for c where
  S_create: "key_step c t (fst (create_key c dr provider t payload))"
| S_revoke: "key_step c t (fst (revoke_key now provider (\<lambda>_. t) t0 i))" if "get_key t0 i \<noteq> None"
| S_delete: "key_step c t (fst (delete_revoked t i))"
| S_update: "key_step c t (fst (update_key t i flds))"
| S_replace: "key_step c t (fst (replace_upstream_key c t i k))"

inductive key_reachable :: "crypto \<Rightarrow> key_table \<Rightarrow> bool" for c where
  R_empty: "key_reachable c []"
| R_step: "key_reachable c t \<Longrightarrow> key_step c t t' \<Longrightarrow> key_reachable c t'"

inductive_cases key_stepE: "key_step c t t'"

lemma revoke_key_table:
  assumes "get_key t0 i \<noteq> None"
  shows "fst (revoke_key now provider (\<lambda>_. t) t0 i) \<in> {t, tbl_update ak_id i (mark_revoked now) t}"
  using assms by (auto simp: revoke_key_def Let_def split: option.splits sum.splits)

lemma key_step_ok:
  assumes "key_step c t t'" "keys_ok t"
  shows "keys_ok t'"
  using assms(1)
proof cases
  case (S_revoke t0 i now provider)
  have "keys_ok (tbl_update ak_id i (mark_revoked now) t)"
    by (rule update_ok [OF assms(2)]) simp_all
  with revoke_key_table [OF S_revoke(2), of now provider t] assms(2) S_revoke(1) show ?thesis
    by auto
qed (use assms(2) in \<open>simp_all add: create_key_ok delete_revoked_ok update_key_ok replace_ok\<close>)

lemma key_reachable_ok: "key_reachable c t \<Longrightarrow> keys_ok t"
  by (induction rule: key_reachable.induct) (auto intro: key_step_ok)

text \<open>Creating keys never touches the rows there are.\<close>

lemma create_record_get:
  assumes "get_key t i = Some r"
  shows "get_key (fst (create_record c dr t payload uk sk ki reveal)) i = Some r"
proof -
  obtain t' x where eq: "create_record c dr t payload uk sk ki reveal = (t', x)"
    by (cases "create_record c dr t payload uk sk ki reveal")
  then show ?thesis
    by (cases rule: create_record_cases) (use assms eq in \<open>auto simp: get_key_add\<close>)
qed

lemma create_key_get:
  assumes "get_key t i = Some r"
  shows "get_key (fst (create_key c dr provider t payload)) i = Some r"
proof -
  have rec: "get_key (fst (record_provider_key c dr p t payload info secret)) i = Some r" for p info secret
  proof -
    obtain t' calls x where eq: "record_provider_key c dr p t payload info secret = (t', calls, x)"
      by (cases "record_provider_key c dr p t payload info secret")
    then show ?thesis
    proof (cases rule: record_provider_key_cases)
      case (created payload' sk y)
      with create_record_get [OF assms] eq show ?thesis by (metis fst_conv)
    qed (use assms eq in simp)
  qed
  show ?thesis
    using create_from_provider_fst [of c dr provider t payload] create_record_get [OF assms] rec assms
    by (auto simp: create_key_def Let_def split: sum.splits prod.splits) (metis fst_conv)+
qed

text \<open>A revoked key stays revoked as long as its row exists, whatever a step does, and a step
  never changes the hash a row is found by.\<close>

lemma revoked_step:
  assumes step: "key_step c t t'" and r: "get_key t i = Some r" "ak_status r = lit ''revoked''"
  shows "get_key t' i = None \<or>
    (\<exists>r'. get_key t' i = Some r' \<and> ak_status r' = lit ''revoked'' \<and> ak_key_hash r' = ak_key_hash r)"
  using step
proof cases
  case (S_create dr provider payload)
  with create_key_get [OF r(1)] r show ?thesis by auto
next
  case (S_revoke t0 j now provider)
  with revoke_key_table [OF S_revoke(2), of now provider t] r show ?thesis
    by (cases "i = j") (auto simp: get_key_ops)
qed (use r in \<open>auto simp: delete_revoked_def update_key_def replace_upstream_key_def Let_def get_key_ops
      split: option.splits sum.splits\<close>)

section \<open>Bulk replacement\<close>

lemma replace_frame:
  "map ak_key_hash (fst (replace_upstream_key c t i k)) = map ak_key_hash t \<and>
   map ak_id (fst (replace_upstream_key c t i k)) = map ak_id t \<and>
   map ak_status (fst (replace_upstream_key c t i k)) = map ak_status t \<and>
   map ak_owner_user_id (fst (replace_upstream_key c t i k)) = map ak_owner_user_id t"
  by (simp add: replace_upstream_key_def Let_def keys.map_upd split: option.splits sum.splits)

lemma replace_row_fst:
  "fst (replace_row c t row) = t \<or>
   (\<exists>i. fst (replace_row c t row) = fst (replace_upstream_key c t i (snd row)))"
  by (auto simp: replace_row_def split: option.splits prod.splits sum.splits) (metis fst_conv)+

lemma replace_row_frame:
  "map ak_key_hash (fst (replace_row c t row)) = map ak_key_hash t \<and>
   map ak_id (fst (replace_row c t row)) = map ak_id t \<and>
   map ak_status (fst (replace_row c t row)) = map ak_status t \<and>
   map ak_owner_user_id (fst (replace_row c t row)) = map ak_owner_user_id t"
  using replace_row_fst [of c t row] replace_frame [of c t _ "snd row"] by metis

lemma bulk_replace_frame_lists:
  "map ak_key_hash (fst (bulk_replace c t rows)) = map ak_key_hash t \<and>
   map ak_id (fst (bulk_replace c t rows)) = map ak_id t \<and>
   map ak_status (fst (bulk_replace c t rows)) = map ak_status t \<and>
   map ak_owner_user_id (fst (bulk_replace c t rows)) = map ak_owner_user_id t \<and>
   map fst (snd (bulk_replace c t rows)) = map fst rows"
proof (induction rows arbitrary: t)
  case (Cons row rows)
  obtain t' out where eq: "replace_row c t row = (t', out)" by (cases "replace_row c t row")
  with replace_row_frame [of c t row] Cons.IH [of t'] show ?case
    by (cases "bulk_replace c t' rows") simp
qed simp

lemma find_for_bulk_replace_in: "find_for_bulk_replace c t v = Some r \<Longrightarrow> r \<in> set t"
  by (auto simp: find_for_bulk_replace_def Let_def dest: get_key_Some find_by_hash_Some
      split: if_splits option.splits list.splits) (metis list.set_intros(1) filter_is_subset subsetD)+

lemma revoke_key_success:
  assumes "revoke_key now provider between t i = (t', calls, Inr (Some r'))"
  shows "t' = tbl_update ak_id i (mark_revoked now) (between t) \<and> get_key t' i = Some r' \<and>
    ak_status r' = lit ''revoked''"
  using assms
  by (auto simp: revoke_key_def Let_def get_key_update split: option.splits sum.splits if_splits)

text \<open>What the service asks the provider for, and a secret it can use.\<close>

definition provider_params :: "api_key_create \<Rightarrow> key_create_params" where
  "provider_params payload =
     \<lparr>kp_name = strip (ac_name payload), kp_owner_user_id = strip (ac_owner_user_id payload),
      kp_expires_at = ac_expires_at payload, kp_metadata = ac_metadata payload\<rparr>"

definition usable_secret :: "upstream_key_info \<Rightarrow> bool" where
  "usable_secret info \<longleftrightarrow> (\<exists>s. ki_key_secret info = Some s \<and> 8 \<le> length s)"

lemma usable_secret_cases:
  "usable_secret info \<longleftrightarrow>
   (case ki_key_secret info of Some s \<Rightarrow> s \<noteq> [] \<and> validate_key s = Inr () | None \<Rightarrow> False)"
  by (auto simp: usable_secret_def validate_key_def split: option.splits)

lemma create_from_provider_unusable:
  assumes "pv_create p (provider_params payload) = Inr info" "\<not> usable_secret info"
  shows "\<exists>e. create_from_provider c dr (Some p) t payload = (t, [Call_Create (provider_params payload)], Inl e)"
  using assms
  by (auto simp: create_from_provider_def provider_params_def usable_secret_cases Let_def
      split: option.splits sum.splits)

lemma create_from_provider_usable:
  assumes "pv_create p (provider_params payload) = Inr info" "ki_key_secret info = Some secret" "8 \<le> length secret"
  shows "create_from_provider c dr (Some p) t payload =
    (case record_provider_key c dr p t payload info secret of
       (t', calls, r) \<Rightarrow> (t', Call_Create (provider_params payload) # calls, r))"
proof -
  from assms(3) have "secret \<noteq> []" by auto
  with assms show ?thesis
    by (simp add: create_from_provider_def provider_params_def validate_key_def Let_def)
qed

lemma create_from_provider_failed:
  assumes "create_from_provider c dr (Some p) t payload = (t', calls, Inl e)"
  shows "t' = t \<and> calls = Call_Create (provider_params payload) #
    (case pv_create p (provider_params payload) of
       Inl e' \<Rightarrow> []
     | Inr info \<Rightarrow> if usable_secret info \<and> ki_key_id info \<noteq> [] then [Call_Revoke (ki_key_id info)] else [])"
proof (cases "pv_create p (provider_params payload)")
  case (Inl e')
  with assms show ?thesis by (simp add: create_from_provider_def provider_params_def Let_def)
next
  case (Inr info)
  show ?thesis
  proof (cases "usable_secret info")
    case False
    from create_from_provider_unusable [OF Inr False, of c dr t] assms Inr False show ?thesis by auto
  next
    case True
    then obtain secret where s: "ki_key_secret info = Some secret" "8 \<le> length secret"
      by (auto simp: usable_secret_def)
    obtain t1 cs x where eq: "record_provider_key c dr p t payload info secret = (t1, cs, x)"
      by (cases "record_provider_key c dr p t payload info secret")
    with create_from_provider_usable [OF Inr s, of c dr t] assms
    have r: "t1 = t'" "x = Inl e" "calls = Call_Create (provider_params payload) # cs" by auto
    from eq show ?thesis
      by (cases rule: record_provider_key_cases) (use Inr True r in auto)
  qed
qed

text \<open>The key a row was created with: the one asked for, or a generated one.\<close>

lemma generated_key:
  "generate_unique_safetyhub_key c t token n = Inr k \<Longrightarrow> \<exists>i. k = lit ''sk-sh-'' @ token i"
  by (induction n) (auto simp: Let_def split: if_splits)

lemma create_record_made:
  assumes "create_record c dr t payload uk sk i reveal = (t', Inr (r, shown))"
  obtains k where "r = build_api_key_record c (dr_uuid_hex dr) (dr_now dr) payload uk k i"
    "t' = tbl_add r t" "find_by_hash (hash_api_key c k) t = None"
    "shown = (if (case reveal of Some b \<Rightarrow> b | None \<Rightarrow> \<not> ac_reuse_upstream_key payload) then Some k else None)"
    "sk = Some k \<or> (\<exists>n. k = lit ''sk-sh-'' @ dr_tokens dr n) \<and> (sk = None \<or> sk = Some [])"
  using assms
  by (auto simp: create_record_def insert_row_def Let_def dest: generated_key
      split: sum.splits if_splits option.splits)

text \<open>Every way of creating a key ends in one such row: \<open>u\<close> is the upstream key, the caller's or the
  provider's, and with \<open>reuse_upstream_key\<close> it is the SafetyHub key as well.\<close>

definition upstream_key_for :: "key_provider option \<Rightarrow> api_key_create \<Rightarrow> str \<Rightarrow> bool" where
  "upstream_key_for provider payload u \<longleftrightarrow>
     (if ac_create_mode payload = lit ''provider''
      then (\<exists>p info. provider = Some p \<and> pv_create p (provider_params payload) = Inr info \<and>
              ki_key_secret info = Some u)
      else u = strip (ac_upstream_key payload)) \<and> 8 \<le> length u"

lemma create_key_made:
  assumes "create_key c dr provider t payload = (t', calls, Inr (r, shown))"
  obtains payload' u sk i reveal where
    "create_record c dr t payload' u sk i reveal = (t', Inr (r, shown))"
    "upstream_key_for provider payload u" "ac_expires_at payload' = ac_expires_at payload"
    "sk = (if ac_reuse_upstream_key payload then Some u else None)"
    "ac_reuse_upstream_key payload' = ac_reuse_upstream_key payload"
    "reveal = (if ac_create_mode payload = lit ''provider'' \<or> \<not> ac_reuse_upstream_key payload then Some True else None)"
proof (cases "ac_create_mode payload = lit ''provider''")
  case False
  let ?u = "strip (ac_upstream_key payload)"
  from assms False have "create_record c dr t payload ?u
      (if ac_reuse_upstream_key payload then Some ?u else None) None
      (if ac_reuse_upstream_key payload then None else Some True) = (t', Inr (r, shown))"
    "upstream_key_for provider payload ?u"
    by (auto simp: create_key_def upstream_key_for_def validate_key_def Let_def split: if_splits prod.splits)
  with False show thesis by (intro that) auto
next
  case True
  with assms have made: "create_from_provider c dr provider t payload = (t', calls, Inr (r, shown))"
    by (simp add: create_key_def)
  then obtain p where p: "provider = Some p" by (cases provider) (auto simp: create_from_provider_def)
  with made obtain info where info: "pv_create p (provider_params payload) = Inr info"
    by (cases "pv_create p (provider_params payload)")
      (auto simp: create_from_provider_def provider_params_def Let_def)
  with made p create_from_provider_unusable [OF info, of c dr t] obtain u where
    u: "ki_key_secret info = Some u" "8 \<le> length u" by (force simp: usable_secret_def)
  let ?p = "payload\<lparr>ac_upstream_key := u, ac_provider_name := pv_name p, ac_create_mode := lit ''manual''\<rparr>"
  from made p create_from_provider_usable [OF info u, of c dr t]
  have "create_record c dr t ?p u (if ac_reuse_upstream_key payload then Some u else None)
      (Some (ki_key_id info)) (Some True) = (t', Inr (r, shown))"
    by (auto simp: record_provider_key_def Let_def split: prod.splits sum.splits if_splits)
  with True p info u show thesis
    by (intro that [of ?p u]) (auto simp: upstream_key_for_def)
qed

lemma replace_upstream_key_success:
  assumes "replace_upstream_key c t i k = (t', Inr (Some r))" "dec c (enc c (strip k)) = Some (strip k)"
  shows "get_key t' i = Some r \<and> decrypt_upstream_key c r = Inr (strip k) \<and> ak_is_decoupled r \<and>
    (\<exists>r0. get_key t i = Some r0 \<and> ak_key_hash r = ak_key_hash r0 \<and> ak_status r = ak_status r0)"
  using assms
  by (auto simp: replace_upstream_key_def Let_def get_key_update set_upstream_def decrypt_upstream_key_def
      split: sum.splits option.splits)

end
