(* ===== verification/Identity.thy ===== *)
theory Identity
  imports Api_Keys
begin

text \<open>
  The identity middleware (\<open>middleware/identity.py\<close>): which requests reach the proxy, and as
  whom. The service behind it is the API-key table of \<open>Api_Keys\<close>; the count cache is part of the
  middleware's state. The rest of the application (\<open>call_next\<close>) is the verdict \<open>Call_Next\<close>.
\<close>

record request_identity =
  ri_api_key_id :: str
  ri_user_id :: str
  ri_upstream_api_key :: str
  ri_key_prefix :: str

definition anonymous :: request_identity where
  "anonymous = \<lparr>ri_api_key_id = [], ri_user_id = [], ri_upstream_api_key = [], ri_key_prefix = []\<rparr>"

text \<open>The middleware's fields: the clamped cache duration, its expiry and the cached count. Times
  are readings of the monotonic clock.\<close>

record count_cache =
  cc_seconds :: int
  cc_until :: int
  cc_value :: "nat option"

definition new_cache :: "int \<Rightarrow> count_cache" where
  "new_cache seconds = \<lparr>cc_seconds = max 0 seconds, cc_until = 0, cc_value = None\<rparr>"

definition api_key_count :: "int \<Rightarrow> key_table \<Rightarrow> count_cache \<Rightarrow> count_cache \<times> nat" where
  "api_key_count now t cache =
     (if cc_seconds cache \<le> 0 then (cache, count_keys t)
      else (case cc_value cache of
              Some v \<Rightarrow>
                if now < cc_until cache then (cache, v)
                else (cache\<lparr>cc_value := Some (count_keys t), cc_until := now + cc_seconds cache\<rparr>, count_keys t)
            | None \<Rightarrow>
                (cache\<lparr>cc_value := Some (count_keys t), cc_until := now + cc_seconds cache\<rparr>, count_keys t)))"

definition extract_bearer_key :: "str \<Rightarrow> str" where
  "extract_bearer_key v =
     (if v = [] then []
      else (let (scheme, _, token) = partition_at 32 v in
            if lower scheme \<noteq> lit ''bearer'' \<or> strip token = [] then [] else strip token))"

definition build_identity :: "crypto \<Rightarrow> api_key \<Rightarrow> request_identity res" where
  "build_identity c record =
     rbind (decrypt_upstream_key c record) (\<lambda>k.
       Inr \<lparr>ri_api_key_id = ak_id record, ri_user_id = ak_owner_user_id record,
            ri_upstream_api_key = k, ri_key_prefix = ak_key_prefix record\<rparr>)"

text \<open>The verdict on a request: pass it on without or with an identity in \<open>request.state\<close>, or
  answer 401 with a detail, or an exception (a 500 of the framework).\<close>

datatype verdict =
    Call_Next "request_identity option"
  | Unauthorized str
  | Raised exn

text \<open>A request as the middleware sees it: the path, the \<open>authorization\<close> header (empty when
  absent), the monotonic and the wall clock.\<close>

record id_request =
  iq_path :: str
  iq_authorization :: str
  iq_monotonic :: int
  iq_now :: int

definition check_key :: "crypto \<Rightarrow> key_table \<Rightarrow> int \<Rightarrow> str \<Rightarrow> verdict" where
  "check_key c t now authorization =
     (let raw_key = extract_bearer_key authorization in
      if raw_key = [] then Unauthorized (lit ''missing api key'')
      else (case find_by_raw_key c t raw_key of
              None \<Rightarrow> Unauthorized (lit ''invalid api key'')
            | Some record \<Rightarrow>
                if \<not> is_record_active record now then Unauthorized (lit ''invalid api key'')
                else (case build_identity c record of
                        Inl e \<Rightarrow> Raised e
                      | Inr i \<Rightarrow> Call_Next (Some i))))"

definition dispatch ::
    "crypto \<Rightarrow> bool \<Rightarrow> key_table \<Rightarrow> id_request \<Rightarrow> count_cache \<Rightarrow> count_cache \<times> verdict" where
  "dispatch c allow_empty t request cache =
     (if \<not> startswith (iq_path request) (lit ''/v1/'') then (cache, Call_Next None)
      else (let (cache', n) = api_key_count (iq_monotonic request) t cache in
            if n = 0 \<and> allow_empty then (cache', Call_Next (Some anonymous))
            else if n = 0 then (cache', Unauthorized (lit ''api key is required''))
            else (cache', check_key c t (iq_now request) (iq_authorization request))))"

definition require_request_identity :: "request_identity option \<Rightarrow> request_identity" where
  "require_request_identity state = (case state of None \<Rightarrow> anonymous | Some i \<Rightarrow> i)"

section \<open>Facts\<close>

lemma check_key_pass:
  assumes "check_key c t now h = Call_Next (Some i)"
  obtains rc where "rc \<in> set t" "is_record_active rc now"
    "ak_key_hash rc = hash_api_key c (extract_bearer_key h)" "extract_bearer_key h \<noteq> []"
    "ri_api_key_id i = ak_id rc" "ri_user_id i = ak_owner_user_id rc"
    "decrypt_upstream_key c rc = Inr (ri_upstream_api_key i)"
  using assms
  by (auto simp: check_key_def build_identity_def find_by_raw_key_def Let_def rbind_eq_Inr
      dest!: find_by_hash_Some split: if_splits option.splits sum.splits)

lemma check_key_not_None [simp]: "check_key c t now h \<noteq> Call_Next None"
  by (auto simp: check_key_def Let_def split: option.splits sum.splits)

text \<open>The cache is right when its value is the count of a table seen less than the duration ago:
  the history \<open>hist\<close> gives the table at each time.\<close>

definition cache_ok :: "(int \<Rightarrow> key_table) \<Rightarrow> int \<Rightarrow> count_cache \<Rightarrow> bool" where
  "cache_ok hist now cache \<longleftrightarrow>
     (\<forall>v. cc_value cache = Some v \<longrightarrow>
        (\<exists>s. s \<le> now \<and> cc_until cache = s + cc_seconds cache \<and> v = count_keys (hist s)))"

lemma cache_ok_new [simp]: "cache_ok hist now (new_cache s)"
  by (simp add: cache_ok_def new_cache_def)

lemma cache_ok_later: "cache_ok hist now cache \<Longrightarrow> now \<le> now' \<Longrightarrow> cache_ok hist now' cache"
  unfolding cache_ok_def by (meson order_trans)

lemma api_key_count_ok:
  assumes "cache_ok hist now cache"
  shows "cache_ok hist now (fst (api_key_count now (hist now) cache))"
    and "\<exists>s\<le>now. now - s \<le> max 0 (cc_seconds cache) \<and>
      snd (api_key_count now (hist now) cache) = count_keys (hist s)"
proof -
  show "cache_ok hist now (fst (api_key_count now (hist now) cache))"
    using assms by (auto simp: cache_ok_def api_key_count_def split: option.splits)
  show "\<exists>s\<le>now. now - s \<le> max 0 (cc_seconds cache) \<and>
      snd (api_key_count now (hist now) cache) = count_keys (hist s)"
  proof (cases "cc_seconds cache > 0 \<and> cc_value cache \<noteq> None \<and> now < cc_until cache")
    case True
    then obtain v s where "cc_value cache = Some v" "s \<le> now" "cc_until cache = s + cc_seconds cache"
      "v = count_keys (hist s)"
      using assms by (auto simp: cache_ok_def)
    with True show ?thesis by (intro exI [of _ s]) (auto simp: api_key_count_def)
  next
    case False
    then have "snd (api_key_count now (hist now) cache) = count_keys (hist now)"
      by (auto simp: api_key_count_def split: option.splits)
    then show ?thesis by (intro exI [of _ now]) simp
  qed
qed

text \<open>Keys presented as \<open>Bearer\<close> tokens.\<close>

lemma bearer_key: "strip k \<noteq> [] \<Longrightarrow> extract_bearer_key (lit ''Bearer '' @ k) = strip k"
proof -
  assume k: "strip k \<noteq> []"
  have bearer: "lit ''Bearer '' = lit ''Bearer'' @ [32]" "32 \<notin> set (lit ''Bearer'')"
    "lower (lit ''Bearer'') = lit ''bearer''"
    by (simp_all add: lit_def lower_def lower1_def)
  then have "partition_at 32 (lit ''Bearer '' @ k) = (lit ''Bearer'', True, k)"
    by (auto simp: partition_at_def takeWhile_append dropWhile_append)
  with bearer(3) k show ?thesis by (simp add: extract_bearer_key_def Let_def)
qed

lemma hash_strip [simp]: "hash_api_key c (strip k) = hash_api_key c k"
  by (simp add: hash_api_key_def)

text \<open>The key a created row holds passes, whether or not the caller is shown it.\<close>

lemma strip_Cons_nonspace: "\<not> is_space c \<Longrightarrow> strip (c # s) \<noteq> []"
  by (auto simp: strip_def strip_by_def)

lemma lit_nonspace: "strip (lit ''sk-sh-'' @ s) \<noteq> []"
proof -
  have "lit ''sk-sh-'' = 115 # lit ''k-sh-''" by (simp add: lit_def)
  then show ?thesis using strip_Cons_nonspace [of 115] by (simp add: is_space_def)
qed

lemma created_key_passes:
  assumes "create_record c dr t payload u sk i reveal = (t', Inr (r, shown))"
    and "\<And>s. dec c (enc c s) = Some s" "case ac_expires_at payload of Some e \<Rightarrow> now < e | None \<Rightarrow> True"
  obtains k where "decrypt_safetyhub_key c r = Inr k"
    "shown = (if (case reveal of Some b \<Rightarrow> b | None \<Rightarrow> \<not> ac_reuse_upstream_key payload) then Some k else None)"
    "sk = Some k \<or> strip k \<noteq> [] \<and> (sk = None \<or> sk = Some [])"
    "strip k \<noteq> [] \<Longrightarrow> \<exists>ident. check_key c t' now (lit ''Bearer '' @ k) = Call_Next (Some ident) \<and>
       ri_api_key_id ident = ak_id r \<and> ri_upstream_api_key ident = u"
proof -
  from assms(1) obtain k where k: "r = build_api_key_record c (dr_uuid_hex dr) (dr_now dr) payload u k i"
    "t' = tbl_add r t" "find_by_hash (hash_api_key c k) t = None"
    "shown = (if (case reveal of Some b \<Rightarrow> b | None \<Rightarrow> \<not> ac_reuse_upstream_key payload) then Some k else None)"
    "sk = Some k \<or> (\<exists>n. k = lit ''sk-sh-'' @ dr_tokens dr n) \<and> (sk = None \<or> sk = Some [])"
    by (rule create_record_made)
  have sh: "decrypt_safetyhub_key c r = Inr k"
    using assms(2) k(1) by (simp add: decrypt_safetyhub_key_def build_api_key_record_def)
  have "find_by_hash (hash_api_key c k) t' = Some r"
    using k by (simp add: find_by_hash_add find_by_hash_None)
  moreover have "is_record_active r now"
    using assms(3) by (auto simp: k(1) is_record_active_def split: option.splits)
  moreover have "decrypt_upstream_key c r = Inr u" using assms(2) by (simp add: k(1))
  ultimately have "strip k \<noteq> [] \<Longrightarrow> \<exists>ident. check_key c t' now (lit ''Bearer '' @ k) = Call_Next (Some ident) \<and>
       ri_api_key_id ident = ak_id r \<and> ri_upstream_api_key ident = u"
    by (simp add: check_key_def bearer_key find_by_raw_key_def build_identity_def Let_def)
  with sh k(4,5) lit_nonspace show thesis by (intro that) auto
qed

lemma find_by_hash_unique:
  assumes "keys_ok t" "r \<in> set t"
  shows "find_by_hash (ak_key_hash r) t = Some r"
proof -
  obtain r' where r': "find_by_hash (ak_key_hash r) t = Some r'"
    using assms(2) find_by_hash_None [of "ak_key_hash r" t] by auto
  with find_by_hash_Some [OF r'] assms show ?thesis
    by (auto simp: keys_ok_def distinct_map inj_on_def)
qed

lemma revoked_key_rejected:
  assumes "keys_ok t" "get_key t i = Some r"
    and "hash_api_key c (extract_bearer_key h) = ak_key_hash r"
    and "t' = tbl_update ak_id i (mark_revoked now) t"
  shows "\<exists>d. check_key c t' later h = Unauthorized d"
proof -
  from get_key_Some [OF assms(2)] have r: "r \<in> set t" "ak_id r = i" by auto
  from find_by_hash_unique [OF assms(1) r(1)]
  have "find_by_hash (ak_key_hash r) t' = Some (mark_revoked now r)"
    by (simp add: assms(4) find_by_raw_update r(2))
  then show ?thesis
    by (auto simp: check_key_def Let_def find_by_raw_key_def assms(3) is_record_active_def)
qed

end
