(* ===== verification/Paths.thy ===== *)
theory Paths
  imports Prelude
begin

text \<open>
  What the code uses of \<open>pathlib\<close> (POSIX): a path is whether it is absolute and its components; joining
  an absolute path replaces the one before it; \<open>..\<close> stays until a path is resolved. Resolving follows
  symbolic links, which are the file system's, so \<open>resolve()\<close> is a parameter where it is used.
\<close>

fun split_on :: "nat \<Rightarrow> str \<Rightarrow> str list" where
  "split_on c [] = [[]]"
| "split_on c (x # xs) =
     (if x = c then [] # split_on c xs
      else (case split_on c xs of p # ps \<Rightarrow> (x # p) # ps | [] \<Rightarrow> [[x]]))"

record path =
  pt_absolute :: bool
  pt_parts :: "str list"

definition parse_path :: "str \<Rightarrow> path" where
  "parse_path s =
     \<lparr>pt_absolute = startswith s [47],
      pt_parts = filter (\<lambda>p. p \<noteq> [] \<and> p \<noteq> lit ''.'') (split_on 47 s)\<rparr>"

definition join_path :: "path \<Rightarrow> path \<Rightarrow> path" where
  "join_path p q = (if pt_absolute q then q else p\<lparr>pt_parts := pt_parts p @ pt_parts q\<rparr>)"

definition path_str :: "path \<Rightarrow> str" where
  "path_str p =
     (if pt_absolute p then 47 # join [47] (pt_parts p)
      else if pt_parts p = [] then lit ''.'' else join [47] (pt_parts p))"

text \<open>Inside the directory, whatever the symbolic links.\<close>

definition inside :: "path \<Rightarrow> path \<Rightarrow> bool" where
  "inside dir p \<longleftrightarrow> pt_absolute p = pt_absolute dir \<and>
     (\<exists>rest. pt_parts p = pt_parts dir @ rest \<and> lit ''..'' \<notin> set rest)"

lemma split_on_no_sep: "c \<notin> set s \<Longrightarrow> split_on c s = [s]"
  by (induction s) auto

lemma parse_path_plain:
  assumes "47 \<notin> set s" "s \<noteq> []" "s \<noteq> lit ''.''"
  shows "pt_parts (parse_path s) = [s]" "\<not> pt_absolute (parse_path s)"
proof -
  show "pt_parts (parse_path s) = [s]" using assms by (simp add: parse_path_def split_on_no_sep)
  show "\<not> pt_absolute (parse_path s)"
    using assms(1,2) by (cases s) (auto simp: parse_path_def startswith_def)
qed

text \<open>\<open>root in path.parents or path == root\<close>.\<close>

definition is_parent :: "path \<Rightarrow> path \<Rightarrow> bool" where
  "is_parent base p \<longleftrightarrow> pt_absolute p = pt_absolute base \<and> prefix (pt_parts base) (pt_parts p)"

text \<open>A component of a path, as it stands between two slashes; the text of a path is read back.\<close>

definition plain_part :: "str \<Rightarrow> bool" where
  "plain_part s \<longleftrightarrow> s \<noteq> [] \<and> s \<noteq> lit ''.'' \<and> 47 \<notin> set s"

lemma split_on_sep: "c \<notin> set s \<Longrightarrow> split_on c (s @ c # t) = s # split_on c t"
  by (induction s) auto

lemma split_on_join: "ps \<noteq> [] \<Longrightarrow> \<forall>p\<in>set ps. c \<notin> set p \<Longrightarrow> split_on c (join [c] ps) = ps"
proof (induction ps)
  case (Cons p ps)
  then show ?case by (cases "ps = []") (simp_all add: join_Cons split_on_no_sep split_on_sep)
qed simp

lemma parse_path_str:
  assumes "\<not> pt_absolute p" "pt_parts p \<noteq> []" "\<forall>s\<in>set (pt_parts p). plain_part s"
  shows "parse_path (path_str p) = p"
proof -
  have "split_on 47 (join [47] (pt_parts p)) = pt_parts p"
    using assms(2,3) by (intro split_on_join) (simp_all add: plain_part_def)
  moreover have "\<not> startswith (join [47] (pt_parts p)) [47]"
    using assms(2,3) by (cases "pt_parts p" rule: list.exhaust; cases "hd (pt_parts p)")
      (auto simp: join_Cons startswith_def plain_part_def)
  moreover have "filter (\<lambda>s. s \<noteq> [] \<and> s \<noteq> lit ''.'') (pt_parts p) = pt_parts p"
    using assms(3) by (simp add: plain_part_def filter_id_conv)
  ultimately show ?thesis using assms(1,2) by (simp add: parse_path_def path_str_def)
qed

end
