(* ===== verification/Image_Assets.thy ===== *)
theory Image_Assets
  imports Paths Stream Table
begin

text \<open>
  Archiving of generated images (\<open>storage/image_assets.py\<close>): the sources in an upstream answer,
  the download that follows redirects only to public hosts, the file written and the row recorded.
  Parameters: URL parsing and joining, address parsing and name resolution, the HTTP \<open>GET\<close>, base64,
  SHA-256 and the file system. The n-th request and the n-th resolution may answer differently, so
  they take a number.
\<close>

section \<open>Sources\<close>

datatype source_kind = Src_Url | Src_B64

record asset_source =
  src_index :: nat
  src_kind :: source_kind
  src_url :: str
  src_b64 :: str

fun item_sources :: "nat \<Rightarrow> json \<Rightarrow> asset_source list" where
  "item_sources i (JDict d) =
     (case get_or d (lit ''url'') JNull of
        JStr u \<Rightarrow> if u \<noteq> [] then [\<lparr>src_index = i, src_kind = Src_Url, src_url = u, src_b64 = []\<rparr>] else []
      | _ \<Rightarrow> []) @
     (case get_or d (lit ''b64_json'') JNull of
        JStr b \<Rightarrow> if b \<noteq> [] then [\<lparr>src_index = i, src_kind = Src_B64, src_url = [], src_b64 = b\<rparr>] else []
      | _ \<Rightarrow> [])"
| "item_sources i _ = []"

fun sources_from :: "nat \<Rightarrow> json list \<Rightarrow> asset_source list" where
  "sources_from i [] = []"
| "sources_from i (x # xs) = item_sources i x @ sources_from (Suc i) xs"

definition extract_image_asset_sources :: "json \<Rightarrow> asset_source list" where
  "extract_image_asset_sources payload =
     (case json_get payload (lit ''data'') JNull of JList data \<Rightarrow> sources_from 0 data | _ \<Rightarrow> [])"

fun sanitize_item :: "json \<Rightarrow> json" where
  "sanitize_item (JDict d) =
     (case get_or d (lit ''b64_json'') JNull of
        JStr b \<Rightarrow> if b \<noteq> [] then JDict (dict_set d (lit ''b64_json'') (JStr (lit ''[archived:image_b64]'')))
                  else JDict d
      | _ \<Rightarrow> JDict d)"
| "sanitize_item x = x"

fun sanitize_image_response_payload :: "json \<Rightarrow> json" where
  "sanitize_image_response_payload (JDict d) =
     (case get_or d (lit ''data'') JNull of
        JList xs \<Rightarrow> JDict (dict_set d (lit ''data'') (JList (map sanitize_item xs)))
      | _ \<Rightarrow> JDict d)"
| "sanitize_image_response_payload x = x"

section \<open>Public hosts\<close>

record ip =
  ip_private :: bool
  ip_loopback :: bool
  ip_link_local :: bool
  ip_multicast :: bool
  ip_reserved :: bool
  ip_unspecified :: bool

record get_response =
  gr_status :: nat
  gr_location :: str
  gr_content_type :: str
  gr_content :: bytes

text \<open>The network as the archiver sees it. \<open>nt_parse\<close> is the scheme and the host name of a URL;
  it and \<open>nt_join\<close> are total, the exceptions \<open>urlparse\<close> and \<open>httpx.URL\<close> raise on a malformed URL are left out (they
  fail the source like a refused address does).\<close>

record network =
  nt_parse :: "str \<Rightarrow> str \<times> str option"
  nt_ip_address :: "str \<Rightarrow> ip option"
  nt_resolve :: "nat \<Rightarrow> str \<Rightarrow> ip list option"
  nt_get :: "nat \<Rightarrow> str \<Rightarrow> get_response res"
  nt_join :: "str \<Rightarrow> str \<Rightarrow> str"

definition public_ip :: "ip \<Rightarrow> bool" where
  "public_ip i \<longleftrightarrow> \<not> (ip_private i \<or> ip_loopback i \<or> ip_link_local i \<or> ip_multicast i \<or>
     ip_reserved i \<or> ip_unspecified i)"

definition validate_public_ip :: "ip \<Rightarrow> unit res" where
  "validate_public_ip i =
     (if public_ip i then Inr () else Inl (Value_Error (lit ''image asset url host is not public'')))"

definition validate_public_host :: "network \<Rightarrow> nat \<Rightarrow> str \<Rightarrow> unit res" where
  "validate_public_host net n hostname =
     (case nt_ip_address net hostname of
        Some i \<Rightarrow> validate_public_ip i
      | None \<Rightarrow>
          (case nt_resolve net n hostname of
             None \<Rightarrow> Inl (Value_Error (lit ''image asset url host cannot be resolved''))
           | Some addresses \<Rightarrow> rbind (rmap validate_public_ip addresses) (\<lambda>_. Inr ())))"

definition validate_public_image_url :: "network \<Rightarrow> nat \<Rightarrow> str \<Rightarrow> unit res" where
  "validate_public_image_url net n url =
     (case nt_parse net url of (scheme, hostname) \<Rightarrow>
        if scheme \<notin> set [lit ''http'', lit ''https'']
          then Inl (Value_Error (lit ''unsupported image asset url scheme''))
        else (case hostname of
                None \<Rightarrow> Inl (Value_Error (lit ''image asset url host is required''))
              | Some h \<Rightarrow>
                  if h = [] then Inl (Value_Error (lit ''image asset url host is required''))
                  else validate_public_host net n h))"

text \<open>\<open>for _ in range(5)\<close>, with the list of URLs requested. \<open>n\<close> numbers the requests.\<close>

fun get_with_safe_redirects :: "network \<Rightarrow> nat \<Rightarrow> nat \<Rightarrow> str \<Rightarrow> str list \<times> get_response res" where
  "get_with_safe_redirects net n 0 current_url =
     ([], Inl (Value_Error (lit ''image asset redirect limit exceeded'')))"
| "get_with_safe_redirects net n (Suc tries) current_url =
     (case validate_public_image_url net n current_url of
        Inl e \<Rightarrow> ([], Inl e)
      | Inr _ \<Rightarrow>
          (case nt_get net n current_url of
             Inl e \<Rightarrow> ([current_url], Inl e)
           | Inr response \<Rightarrow>
               if gr_status response \<notin> set [301, 302, 303, 307, 308] then ([current_url], Inr response)
               else if gr_location response = []
                 then ([current_url], Inl (Value_Error (lit ''image asset redirect missing location'')))
               else (case get_with_safe_redirects net (Suc n) tries
                            (nt_join net current_url (gr_location response)) of
                       (urls, r) \<Rightarrow> (current_url # urls, r))))"

section \<open>Contents\<close>

definition detect_mime_type :: "bytes \<Rightarrow> str" where
  "detect_mime_type content =
     (if take 8 content = [0x89, 0x50, 0x4E, 0x47, 0x0D, 0x0A, 0x1A, 0x0A] then lit ''image/png''
      else if take 3 content = [0xFF, 0xD8, 0xFF] then lit ''image/jpeg''
      else if take 6 content = ascii ''GIF87a'' \<or> take 6 content = ascii ''GIF89a'' then lit ''image/gif''
      else if take 4 content = ascii ''RIFF'' \<and> take 4 (drop 8 content) = ascii ''WEBP'' then lit ''image/webp''
      else lit ''application/octet-stream'')"

definition extension_for_mime_type :: "str \<Rightarrow> str" where
  "extension_for_mime_type mime_type =
     (if mime_type = lit ''image/png'' then lit ''.png''
      else if mime_type = lit ''image/jpeg'' then lit ''.jpg''
      else if mime_type = lit ''image/gif'' then lit ''.gif''
      else if mime_type = lit ''image/webp'' then lit ''.webp''
      else lit ''.bin'')"

text \<open>\<open>content_type.split(";", 1)[0].strip().lower()\<close>.\<close>

definition media_type_of :: "str \<Rightarrow> str" where
  "media_type_of content_type = lower (strip (takeWhile (\<lambda>c. c \<noteq> 59) content_type))"

definition download_url :: "network \<Rightarrow> nat \<Rightarrow> str \<Rightarrow> str list \<times> (bytes \<times> str) res" where
  "download_url net max_size_bytes url =
     (case validate_public_image_url net 0 url of
        Inl e \<Rightarrow> ([], Inl e)
      | Inr _ \<Rightarrow>
          (case get_with_safe_redirects net 1 5 url of (urls, r) \<Rightarrow>
             (urls, rbind r (\<lambda>response.
                if gr_status response \<ge> 400
                  then Inl (Other_Error (lit ''image asset download failed with status''))
                else if length (gr_content response) > max_size_bytes
                  then Inl (Value_Error (lit ''image asset exceeds max size''))
                else (let content_type = media_type_of (gr_content_type response);
                          mime_type = (if content_type \<noteq> [] then content_type
                                       else detect_mime_type (gr_content response)) in
                      if \<not> startswith mime_type (lit ''image/'')
                        then Inl (Value_Error (lit ''downloaded asset is not an image''))
                      else Inr (gr_content response, mime_type))))))"

section \<open>The archiver\<close>

record image_asset =
  ia_id :: int
  ia_request_id :: str
  ia_source_index :: nat
  ia_source_kind :: source_kind
  ia_source_url :: str
  ia_status :: str
  ia_local_path :: str
  ia_sha256 :: str
  ia_mime_type :: str
  ia_size_bytes :: nat
  ia_error :: str
  ia_completed :: bool
  ia_created_at :: int

text \<open>The archiver's fields and the library functions it uses; \<open>an_write\<close> is the outcome of
  creating the directory and writing the file.\<close>

record archiver =
  an_dir :: path
  an_max_size_bytes :: nat
  an_b64decode :: "str \<Rightarrow> bytes option"
  an_sha :: "bytes \<Rightarrow> str"
  an_digits :: "nat \<Rightarrow> str"
  an_write :: "path \<Rightarrow> bytes \<Rightarrow> exn option"
  an_exn_str :: "exn \<Rightarrow> str"

definition decode_b64 :: "archiver \<Rightarrow> str \<Rightarrow> bytes res" where
  "decode_b64 an v =
     (case an_b64decode an v of Some b \<Rightarrow> Inr b | None \<Rightarrow> Inl (Value_Error (lit ''invalid b64 image asset'')))"

text \<open>\<open>_record_asset\<close>: one row, numbered and dated by the database.\<close>

definition asset_row :: "str \<Rightarrow> asset_source \<Rightarrow> str \<Rightarrow> image_asset" where
  "asset_row request_id source status =
     \<lparr>ia_id = 0, ia_request_id = request_id, ia_source_index = src_index source,
      ia_source_kind = src_kind source, ia_source_url = src_url source, ia_status = status,
      ia_local_path = [], ia_sha256 = [], ia_mime_type = [], ia_size_bytes = 0, ia_error = [],
      ia_completed = False, ia_created_at = 0\<rparr>"

definition record_asset :: "int \<Rightarrow> image_asset \<Rightarrow> image_asset list \<Rightarrow> image_asset list" where
  "record_asset now row t =
     tbl_insert_all ia_id (\<lambda>n r. r\<lparr>ia_id := n\<rparr>) [row\<lparr>ia_created_at := now\<rparr>] t"

definition source_content :: "network \<Rightarrow> archiver \<Rightarrow> asset_source \<Rightarrow> (bytes \<times> str) res" where
  "source_content net an source =
     (case src_kind source of
        Src_B64 \<Rightarrow> rbind (decode_b64 an (src_b64 source)) (\<lambda>c. Inr (c, detect_mime_type c))
      | Src_Url \<Rightarrow> snd (download_url net (an_max_size_bytes an) (src_url source)))"

definition asset_path :: "archiver \<Rightarrow> str \<Rightarrow> asset_source \<Rightarrow> bytes \<Rightarrow> str \<Rightarrow> path" where
  "asset_path an request_id source content mime_type =
     join_path (parse_path request_id)
       (parse_path (an_digits an (src_index source) @ lit ''_'' @ take 16 (an_sha an content) @
          extension_for_mime_type mime_type))"

text \<open>\<open>_archive_source\<close>: the file written (if one is) and the row, or the exception.\<close>

definition archive_source ::
    "network \<Rightarrow> archiver \<Rightarrow> str \<Rightarrow> asset_source \<Rightarrow> (path \<times> bytes) list \<times> image_asset res" where
  "archive_source net an request_id source =
     (case source_content net an source of
        Inl e \<Rightarrow> ([], Inl e)
      | Inr (content, mime_type) \<Rightarrow>
          if length content > an_max_size_bytes an
            then ([], Inl (Value_Error (lit ''image asset exceeds max size'')))
          else (let relative_path = asset_path an request_id source content mime_type;
                    target_path = join_path (an_dir an) relative_path in
                (case an_write an target_path content of
                   Some e \<Rightarrow> ([], Inl e)
                 | None \<Rightarrow> ([(target_path, content)],
                     Inr ((asset_row request_id source (lit ''completed''))
                       \<lparr>ia_local_path := map (\<lambda>c. if c = 92 then 47 else c) (path_str relative_path),
                        ia_sha256 := an_sha an content, ia_mime_type := mime_type,
                        ia_size_bytes := length content, ia_completed := True\<rparr>)))))"

fun archive_sources ::
    "network \<Rightarrow> archiver \<Rightarrow> int \<Rightarrow> str \<Rightarrow> asset_source list \<Rightarrow> image_asset list
     \<Rightarrow> (path \<times> bytes) list \<times> image_asset list" where
  "archive_sources net an now request_id [] t = ([], t)"
| "archive_sources net an now request_id (s # ss) t =
     (case archive_source net an request_id s of (files, r) \<Rightarrow>
        (let row = (case r of
               Inr a \<Rightarrow> a
             | Inl e \<Rightarrow> (asset_row request_id s (lit ''failed''))\<lparr>ia_error := take 1000 (an_exn_str an e)\<rparr>) in
         (case archive_sources net an now request_id ss (record_asset now row t) of (fs, t') \<Rightarrow>
            (files @ fs, t'))))"

definition archive_response ::
    "network \<Rightarrow> archiver \<Rightarrow> int \<Rightarrow> str \<Rightarrow> json \<Rightarrow> image_asset list
     \<Rightarrow> (path \<times> bytes) list \<times> image_asset list" where
  "archive_response net an now request_id response_payload t =
     (if request_id = [] \<or> extract_image_asset_sources response_payload = [] then ([], t)
      else archive_sources net an now request_id (extract_image_asset_sources response_payload) t)"

definition image_list :: "str option \<Rightarrow> int \<Rightarrow> int \<Rightarrow> image_asset list \<Rightarrow> image_asset list" where
  "image_list request_id limit offset t =
     page (safe_limit 100 limit) (max offset 0) (latest_first ia_created_at ia_id
       (case request_id of
          Some r \<Rightarrow> if r \<noteq> [] then filter (\<lambda>a. ia_request_id a = r) t else t
        | None \<Rightarrow> t))"

definition image_get :: "int \<Rightarrow> image_asset list \<Rightarrow> image_asset option" where
  "image_get i t = tbl_get ia_id i t"

section \<open>Facts\<close>

interpretation images: keyed_table ia_id "tbl_get ia_id" tbl_add "tbl_update ia_id" tbl_delete
  by (rule keyed_table_list)

lemma get_with_safe_redirects_bound: "length (fst (get_with_safe_redirects net n k url)) \<le> k"
  by (induction net n k url rule: get_with_safe_redirects.induct)
    (auto split: sum.splits prod.splits)

lemma validate_public_host_ips:
  assumes "validate_public_host net n h = Inr ()"
  shows "(\<exists>i. nt_ip_address net h = Some i \<and> public_ip i) \<or>
    (\<exists>is. nt_resolve net n h = Some is \<and> (\<forall>i\<in>set is. public_ip i))"
  using assms
  by (auto simp: validate_public_host_def validate_public_ip_def rbind_eq_Inr rmap_Inr_iff
      list_all2_conv_all_nth in_set_conv_nth split: option.splits if_splits)

text \<open>Each URL requested passed the check, for the request it was made by.\<close>

lemma redirects_validated:
  "i < length (fst (get_with_safe_redirects net n k url)) \<Longrightarrow>
   validate_public_image_url net (n + i) (fst (get_with_safe_redirects net n k url) ! i) = Inr ()"
proof (induction net n k url arbitrary: i rule: get_with_safe_redirects.induct)
  case (2 net n tries current_url)
  show ?case
  proof (cases "validate_public_image_url net n current_url")
    case (Inr u)
    show ?thesis
    proof (cases "nt_get net n current_url")
      case get: (Inr response)
      show ?thesis
      proof (cases "gr_status response \<in> set [301, 302, 303, 307, 308] \<and> gr_location response \<noteq> []")
        case True
        obtain urls r where rest: "get_with_safe_redirects net (Suc n) tries
            (nt_join net current_url (gr_location response)) = (urls, r)" by fastforce
        with True Inr get have eq: "fst (get_with_safe_redirects net n (Suc tries) current_url) = current_url # urls"
          by auto
        show ?thesis
        proof (cases i)
          case (Suc j)
          with "2.prems" eq have "j < length urls" by simp
          with "2.IH" [OF Inr get, of j] True rest have "validate_public_image_url net (Suc n + j) (urls ! j) = Inr ()"
            by auto
          with eq Suc show ?thesis by simp
        qed (use eq Inr in simp)
      next
        case False
        with "2.prems" Inr get show ?thesis by (auto split: if_splits)
      qed
    qed (use "2.prems" Inr in auto)
  qed (use "2.prems" in auto)
qed simp

text \<open>The stored file is inside the asset directory when the request id is one plain component.\<close>

lemma asset_path_inside:
  assumes "47 \<notin> set request_id" "request_id \<noteq> lit ''..''"
    and "47 \<notin> set (an_digits an (src_index source))" "47 \<notin> set (an_sha an content)"
    and "an_digits an (src_index source) \<noteq> []"
  shows "inside (an_dir an) (join_path (an_dir an) (asset_path an request_id source content mime))"
proof -
  let ?name = "an_digits an (src_index source) @ lit ''_'' @ take 16 (an_sha an content) @
    extension_for_mime_type mime"
  have ext: "47 \<notin> set (extension_for_mime_type mime)"
    by (simp add: extension_for_mime_type_def lit_def)
  have us: "47 \<notin> set (lit ''_'')" and mem: "95 \<in> set (lit ''_'')" by (simp_all add: lit_def)
  have "47 \<notin> set ?name" using assms(3,4) ext us by (auto dest: in_set_takeD)
  moreover have "?name \<noteq> lit ''.''" "?name \<noteq> lit ''..''"
    using mem by (auto simp: lit_def dest!: arg_cong [where f = set])
  moreover have "?name \<noteq> []" using assms(5) by simp
  ultimately have name: "pt_parts (parse_path ?name) = [?name]" "\<not> pt_absolute (parse_path ?name)"
    using parse_path_plain [of ?name] by blast+
  have "\<not> pt_absolute (parse_path request_id)"
    using assms(1) by (cases request_id) (auto simp: parse_path_def startswith_def)
  with name assms(2) \<open>?name \<noteq> lit ''..''\<close> show ?thesis
    by (auto simp: inside_def asset_path_def join_path_def parse_path_def split_on_no_sep assms(1))
qed

lemma validate_public_image_url_ok:
  assumes "validate_public_image_url net n url = Inr ()"
  shows "\<exists>scheme h. nt_parse net url = (scheme, Some h) \<and> scheme \<in> {lit ''http'', lit ''https''} \<and>
    ((\<exists>i. nt_ip_address net h = Some i \<and> public_ip i) \<or>
     (\<exists>is. nt_resolve net n h = Some is \<and> (\<forall>i\<in>set is. public_ip i)))"
  using assms validate_public_host_ips [of net n]
  by (auto simp: validate_public_image_url_def split: prod.splits if_splits option.splits)

text \<open>A request id is not checked before it is used as a path: an absolute one replaces the
  asset directory altogether, and the target is written where the client's header says.\<close>

lemma request_id_replaces_directory:
  assumes "pt_absolute (parse_path request_id)" "archive_source net an request_id source = ([(target, content)], r)"
    and "\<not> pt_absolute (parse_path (an_digits an (src_index source)))" "an_digits an (src_index source) \<noteq> []"
  shows "pt_absolute target \<and> take (length (pt_parts (parse_path request_id))) (pt_parts target) = pt_parts (parse_path request_id)"
proof -
  from assms(2) obtain mime where
    target: "target = join_path (an_dir an) (asset_path an request_id source content mime)"
    by (auto simp: archive_source_def Let_def split: sum.splits prod.splits if_splits option.splits)
  have "\<not> pt_absolute (parse_path (an_digits an (src_index source) @ rest))" for rest
    using assms(3,4) by (cases "an_digits an (src_index source)") (auto simp: parse_path_def startswith_def)
  with assms(1) show ?thesis by (simp add: target asset_path_def join_path_def)
qed

end
