(* ===== verification/Relay.thy ===== *)
theory Relay
  imports Archive_Queue Desensitize Headers Identity Image_Assets
begin

text \<open>
  The relay (\<open>proxy/relay.py\<close>, \<open>proxy/upstream_router.py\<close>): one request of the OpenAI-compatible
  interface, from the body to the answer. A handler takes the world (the archive queue and the
  effects so far) and returns it with a response or an exception. The body of a streaming response
  runs after the handler returned: \<open>run_stream\<close> runs it for as long as the client reads.
\<close>

section \<open>Data\<close>

datatype payload = No_Payload | Content bytes | Json_Body json

record upstream_request =
  up_method :: str
  up_url :: str
  up_headers :: headers
  up_payload :: payload

datatype effect =
    Upstream_Request upstream_request
  | Upstream_Stream upstream_request
  | Write_Task queue_item
  | Image_Archive str json
  | Client_Closed

record world =
  wd_queue :: "archive_queue option"
  wd_effects :: "effect list"

definition log_effect :: "effect \<Rightarrow> world \<Rightarrow> world" where
  "log_effect e w = w\<lparr>wd_effects := wd_effects w @ [e]\<rparr>"

text \<open>The incoming request: \<open>Disconnected\<close> when the client goes away while its body is read.\<close>

datatype arrival = Disconnected | Body bytes

record request =
  rq_method :: str
  rq_query :: str
  rq_headers :: headers
  rq_body :: arrival
  rq_request_id :: str
  rq_identity :: "request_identity option"

text \<open>The application's state and settings; \<open>None\<close> for an attribute that is not set.\<close>

record app =
  app_engine :: "engine option"
  app_upstream_url :: str
  app_router_url :: "str option"
  app_client :: bool
  app_training_writer :: bool
  app_audit_writer :: bool
  app_capture_enabled :: bool
  app_stream_archive_max_bytes :: int

text \<open>Library functions, and what the request draws: a UUID, the clock, the elapsed milliseconds.\<close>

record libs =
  lb_request_json :: "bytes \<Rightarrow> json option"
  lb_loads :: "str \<Rightarrow> json option"
  lb_dumps :: "json \<Rightarrow> str"
  lb_render :: "json \<Rightarrow> bytes"
  lb_decode :: "bytes \<Rightarrow> str"
  lb_urljoin :: "str \<Rightarrow> str \<Rightarrow> str"
  lb_urlsplit :: "str \<Rightarrow> str \<times> str \<times> str \<times> str \<times> str"
  lb_urlunsplit :: "str \<times> str \<times> str \<times> str \<times> str \<Rightarrow> str"
  lb_unquote :: "str \<Rightarrow> str"
  lb_unescape :: "str \<Rightarrow> str"
  lb_nfkc :: "str \<Rightarrow> str"
  lb_lower :: "str \<Rightarrow> str"
  lb_uuid_hex :: str
  lb_fake_hex8 :: str
  lb_now :: int
  lb_latency_ms :: int

text \<open>The upstream: what a request and what a stream meet.\<close>

datatype http_outcome = Reply nat headers bytes | Failed client_error

record upstream =
  us_request :: "upstream_request \<Rightarrow> http_outcome"
  us_stream :: "upstream_request \<Rightarrow> upstream_stream"

text \<open>What a streaming response carries to its body: the upstream request and, for a chat
  completion, the archive's arguments.\<close>

record archive_context =
  ax_original_body :: json
  ax_archive_body :: json
  ax_scan_result :: "aggregated option"
  ax_action_taken :: str
  ax_identity :: request_identity

record stream_job =
  sj_request :: upstream_request
  sj_client_owner :: bool
  sj_archive :: "archive_context option"

datatype response =
    Plain nat headers "str option" bytes
  | Json_Response nat json
  | Fake_Answer fake_response
  | Streaming stream_job

section \<open>Reading the request\<close>

definition JSON_BODY_METHODS :: "str list" where
  "JSON_BODY_METHODS = [lit ''POST'', lit ''PUT'', lit ''PATCH'']"

definition KNOWN_JSON_ENDPOINTS :: "str list" where
  "KNOWN_JSON_ENDPOINTS =
     [lit ''/v1/chat/completions'', lit ''/v1/embeddings'', lit ''/v1/completions'',
      lit ''/v1/responses'', lit ''/v1/images/generations'', lit ''/v1/images/edits'',
      lit ''/v1/images/variations'']"

definition header_get :: "headers \<Rightarrow> str \<Rightarrow> str \<Rightarrow> str" where
  "header_get hs name dflt =
     (case find (\<lambda>(k, v). lower k = name) hs of Some (k, v) \<Rightarrow> v | None \<Rightarrow> dflt)"

text \<open>The parsed body (\<open>JNull\<close> for \<open>None\<close>) and the raw bytes.\<close>

definition read_request_body :: "libs \<Rightarrow> request \<Rightarrow> str \<Rightarrow> (json \<times> bytes) res" where
  "read_request_body lb rq path =
     (if rq_method rq \<notin> set JSON_BODY_METHODS then Inr (JNull, [])
      else (case rq_body rq of
        Disconnected \<Rightarrow> Inl (Http_Error 499 (lit ''client disconnected while sending request body''))
      | Body raw_body \<Rightarrow>
          if raw_body = [] then Inr (JNull, raw_body)
          else (let content_type = header_get (rq_headers rq) (lit ''content-type'') [];
                    is_known_endpoint = path \<in> set KNOWN_JSON_ENDPOINTS;
                    should_parse_json = is_known_endpoint \<or>
                      contains (lower content_type) (lit ''application/json'') in
                if \<not> should_parse_json then Inr (JNull, raw_body)
                else (case lb_request_json lb raw_body of
                  None \<Rightarrow>
                    if is_known_endpoint then Inl (Http_Error 400 (lit ''invalid json body''))
                    else Inr (JNull, raw_body)
                | Some body \<Rightarrow>
                    if is_known_endpoint \<and> \<not> is_dict body
                      then Inl (Http_Error 400 (lit ''json body must be an object''))
                    else Inr (body, raw_body)))))"

definition infer_capability :: "str \<Rightarrow> str" where
  "infer_capability path =
     (if path = lit ''/v1/embeddings'' then lit ''embedding''
      else if startswith path (lit ''/v1/images/'') then lit ''vision''
      else if startswith path (lit ''/v1/files'') then lit ''file_upload''
      else lit ''chat'')"

definition append_query_string :: "libs \<Rightarrow> str \<Rightarrow> str \<Rightarrow> str" where
  "append_query_string lb url query =
     (if query = [] then url
      else (case lb_urlsplit lb url of (scheme, netloc, path, q, fragment) \<Rightarrow>
        lb_urlunsplit lb (scheme, netloc, path, if q \<noteq> [] then q @ lit ''&'' @ query else query, fragment)))"

definition build_url :: "libs \<Rightarrow> str \<Rightarrow> str \<Rightarrow> str" where
  "build_url lb base_url path =
     lb_urljoin lb (rstrip_by (\<lambda>c. c = 47) base_url @ [47]) (dropWhile (\<lambda>c. c = 47) path)"

definition select_relay_payload :: "str \<Rightarrow> json \<Rightarrow> bytes \<Rightarrow> str \<Rightarrow> payload" where
  "select_relay_payload request_method body raw_body action_taken =
     (if request_method \<notin> set JSON_BODY_METHODS then No_Payload
      else if action_taken = lit ''desensitized'' \<and> is_dict body then Json_Body body
      else if raw_body \<noteq> [] then Content raw_body
      else if body \<noteq> JNull then Json_Body body
      else No_Payload)"

section \<open>Archives and audits\<close>

fun action_str :: "action \<Rightarrow> str" where
  "action_str Blocked = lit ''blocked''"
| "action_str Desensitized = lit ''desensitized''"
| "action_str Warned = lit ''warned''"
| "action_str Passed = lit ''passed''"

definition action_from_scan_result :: "aggregated option \<Rightarrow> bool \<Rightarrow> str" where
  "action_from_scan_result scan_result was_desensitized =
     (case scan_result of
        Some a \<Rightarrow> if agg_blocked a then lit ''blocked''
                  else if was_desensitized then lit ''desensitized'' else action_str (action_of a)
      | None \<Rightarrow> if was_desensitized then lit ''desensitized'' else lit ''passed'')"

text \<open>The queue first; if there is none or it is full, a task of its own when there is a writer.\<close>

definition dispatch_item :: "bool \<Rightarrow> queue_item \<Rightarrow> world \<Rightarrow> world" where
  "dispatch_item writer item w =
     (case wd_queue w of
        Some q \<Rightarrow>
          (case enqueue item q of
             (q', True) \<Rightarrow> w\<lparr>wd_queue := Some q'\<rparr>
           | (q', False) \<Rightarrow>
               (let w' = w\<lparr>wd_queue := Some q'\<rparr> in
                if writer then log_effect (Write_Task item) w' else w'))
      | None \<Rightarrow> if writer then log_effect (Write_Task item) w else w)"

definition archive_payload_of ::
    "libs \<Rightarrow> request \<Rightarrow> (str \<times> json) list \<Rightarrow> json \<Rightarrow> json \<Rightarrow> aggregated option \<Rightarrow> str \<Rightarrow> bool
     \<Rightarrow> request_identity \<Rightarrow> archive_payload" where
  "archive_payload_of lb rq original relayed_body response_body scan_result action_taken is_stream identity =
     \<lparr>ar_request_id = (if rq_request_id rq \<noteq> [] then rq_request_id rq else lb_uuid_hex lb),
      ar_model = get_or original (lit ''model'') (JStr []),
      ar_capability = lit ''chat'',
      ar_prompt_original = get_or original (lit ''messages'') (JList []),
      ar_prompt_desensitized =
        (case relayed_body of
           JDict b \<Rightarrow> get_or b (lit ''messages'') (JList [])
         | _ \<Rightarrow> get_or original (lit ''messages'') (JList [])),
      ar_response = response_body,
      ar_is_stream = is_stream,
      ar_is_blocked = (action_taken = lit ''blocked''),
      ar_is_desensitized = (action_taken = lit ''desensitized''),
      ar_action_taken = action_taken,
      ar_blocked_rule_id =
        (case scan_result of
           Some a \<Rightarrow> (case block_result a of Some r \<Rightarrow> rule_id r | None \<Rightarrow> JStr [])
         | None \<Rightarrow> JStr []),
      ar_matched_rule_ids =
        (case scan_result of
           Some a \<Rightarrow> map rule_id (filter (\<lambda>r. hit r \<and> truthy (rule_id r)) (results a))
         | None \<Rightarrow> []),
      ar_user_id = ri_user_id identity,
      ar_api_key_id = ri_api_key_id identity,
      ar_latency_ms = lb_latency_ms lb\<rparr>"

definition write_chat_archive ::
    "libs \<Rightarrow> app \<Rightarrow> request \<Rightarrow> json \<Rightarrow> json \<Rightarrow> json \<Rightarrow> aggregated option \<Rightarrow> str \<Rightarrow> bool
     \<Rightarrow> request_identity \<Rightarrow> world \<Rightarrow> world" where
  "write_chat_archive lb st rq original_body relayed_body response_body scan_result action_taken
       is_stream identity w =
     (case original_body of
        JDict original \<Rightarrow>
          if \<not> app_capture_enabled st then w
          else dispatch_item (app_training_writer st)
                 (Archive_Item (archive_payload_of lb rq original relayed_body response_body scan_result
                    action_taken is_stream identity)) w
      | _ \<Rightarrow> w)"

definition write_chat_audit ::
    "app \<Rightarrow> request \<Rightarrow> aggregated option \<Rightarrow> str \<Rightarrow> str \<Rightarrow> request_identity \<Rightarrow> str \<Rightarrow> world \<Rightarrow> world" where
  "write_chat_audit st rq scan_result scanned_text action_taken identity desensitized_text w =
     (case scan_result of
        None \<Rightarrow> w
      | Some a \<Rightarrow>
          if \<not> agg_hit a then w
          else dispatch_item (app_audit_writer st)
                 (Audit_Item \<lparr>ap_request_id = rq_request_id rq, ap_scan_result = Aggregated a,
                    ap_action_taken = action_taken, ap_user_id = ri_user_id identity,
                    ap_scanned_text = scanned_text, ap_desensitized_text = desensitized_text\<rparr>) w)"

text \<open>The archived form of a response. JSON responses are rendered; their media type is fixed.\<close>

definition response_archive_body :: "libs \<Rightarrow> response \<Rightarrow> json" where
  "response_archive_body lb response =
     (let body_json = (\<lambda>media_type body.
            JDict [(lit ''media_type'', JStr media_type), (lit ''content'', JStr (lb_decode lb body))]) in
      case response of
        Streaming job \<Rightarrow> JDict [(lit ''stream'', JBool True)]
      | Fake_Answer (Fake_Stream cs) \<Rightarrow> JDict [(lit ''stream'', JBool True)]
      | Fake_Answer (Fake_Json j) \<Rightarrow> body_json (lit ''application/json'') (lb_render lb j)
      | Json_Response code j \<Rightarrow> body_json (lit ''application/json'') (lb_render lb j)
      | Plain code hs media_type body \<Rightarrow>
          body_json (case media_type of Some m \<Rightarrow> m | None \<Rightarrow> []) body)"

definition response_content :: "libs \<Rightarrow> response \<Rightarrow> bytes option" where
  "response_content lb response =
     (case response of
        Plain code hs media_type body \<Rightarrow> Some body
      | Json_Response code j \<Rightarrow> Some (lb_render lb j)
      | Fake_Answer (Fake_Json j) \<Rightarrow> Some (lb_render lb j)
      | Fake_Answer (Fake_Stream cs) \<Rightarrow> None
      | Streaming job \<Rightarrow> None)"

text \<open>\<open>_write_image_archive\<close>, \<open>_parse_response_json\<close>, \<open>_schedule_image_asset_archive\<close>.\<close>

definition write_image_archive :: "libs \<Rightarrow> request \<Rightarrow> json \<Rightarrow> response \<Rightarrow> world \<Rightarrow> world" where
  "write_image_archive lb rq original_body response w =
     (case (is_dict original_body, response_content lb response) of
        (True, Some content) \<Rightarrow>
          (let request_id = (if rq_request_id rq \<noteq> [] then rq_request_id rq else lb_uuid_hex lb);
               response_payload = (case lb_loads lb (lb_decode lb content) of Some j \<Rightarrow> j | None \<Rightarrow> JNull)
           in if request_id = [] \<or> extract_image_asset_sources response_payload = [] then w
              else log_effect (Image_Archive request_id response_payload) w)
      | _ \<Rightarrow> w)"

section \<open>Relaying\<close>

definition build_response :: "nat \<Rightarrow> headers \<Rightarrow> bytes \<Rightarrow> response" where
  "build_response code hs content =
     Plain code (filter_response_headers hs)
       (map_option snd (find (\<lambda>(k, v). lower k = lit ''content-type'') hs)) content"

definition close_client :: "bool \<Rightarrow> world \<Rightarrow> world" where
  "close_client client_owner w = (if client_owner then log_effect Client_Closed w else w)"

definition upstream_request_of ::
    "libs \<Rightarrow> app \<Rightarrow> request \<Rightarrow> str \<Rightarrow> json \<Rightarrow> bytes \<Rightarrow> bool \<Rightarrow> str \<Rightarrow> request_identity \<Rightarrow> upstream_request" where
  "upstream_request_of lb st rq path body raw_body is_stream action_taken identity =
     (let base_url = (case app_router_url st of Some u \<Rightarrow> u | None \<Rightarrow> app_upstream_url st);
          upstream_api_key = (if ri_upstream_api_key identity \<noteq> [] then Some (ri_upstream_api_key identity)
                              else None);
          hs = build_upstream_headers (rq_headers rq)
                 (if rq_request_id rq \<noteq> [] then Some (rq_request_id rq) else None) upstream_api_key
      in \<lparr>up_method = rq_method rq,
          up_url = append_query_string lb (build_url lb base_url path) (rq_query rq),
          up_headers = (if is_stream then with_stream_headers hs else hs),
          up_payload = select_relay_payload (rq_method rq) body raw_body action_taken\<rparr>)"

definition relay_to_upstream ::
    "libs \<Rightarrow> app \<Rightarrow> upstream \<Rightarrow> request \<Rightarrow> str \<Rightarrow> json \<Rightarrow> bytes \<Rightarrow> bool \<Rightarrow> json \<Rightarrow> aggregated option
     \<Rightarrow> str \<Rightarrow> request_identity \<Rightarrow> world \<Rightarrow> world \<times> response res" where
  "relay_to_upstream lb st us rq path body raw_body is_stream original_body scan_result action_taken
       identity w =
     (if app_upstream_url st = [] then (w, Inl (Http_Error 503 (lit ''upstream_url is not configured'')))
      else (let ur = upstream_request_of lb st rq path body raw_body is_stream action_taken identity;
                client_owner = (\<not> app_client st) in
        if is_stream \<and> rq_method rq \<in> set JSON_BODY_METHODS \<and> is_dict body then
          (w, Inr (Streaming
             \<lparr>sj_request = ur, sj_client_owner = client_owner,
              sj_archive =
                (if path = CHAT_COMPLETIONS_PATH then
                   Some \<lparr>ax_original_body = original_body,
                         ax_archive_body =
                           (case up_payload ur of Json_Body b \<Rightarrow> if is_dict b then b else original_body
                            | _ \<Rightarrow> original_body),
                         ax_scan_result = scan_result, ax_action_taken = action_taken,
                         ax_identity = identity\<rparr>
                 else None)\<rparr>))
        else
          (let w1 = log_effect (Upstream_Request ur) w in
           (case us_request us ur of
              Reply code hs content \<Rightarrow> (close_client client_owner w1, Inr (build_response code hs content))
            | Failed e \<Rightarrow>
                (case error_status e of
                   Some (code, detail) \<Rightarrow>
                     (close_client client_owner w1, Inr (Json_Response code (error_content e detail)))
                 | None \<Rightarrow> (close_client client_owner w1, Inl (Other_Error (class_name e))))))))"

text \<open>The body of a streaming response when the client takes \<open>n\<close> chunks: the chunks it gets, and
  the world after the generator was closed. A generator that is never started runs no code, not
  even its \<open>finally\<close> block.\<close>

definition run_stream ::
    "libs \<Rightarrow> app \<Rightarrow> upstream \<Rightarrow> request \<Rightarrow> stream_job \<Rightarrow> nat \<Rightarrow> world
     \<Rightarrow> world \<times> bytes list \<times> exn option" where
  "run_stream lb st us rq job n w =
     (if n = 0 then (w, [], None)
      else
        (case proxy_stream (lb_render lb) (lb_decode lb) (us_stream us (sj_request job)) of
           (all_chunks, err) \<Rightarrow>
             (let sent = take n all_chunks;
                  w1 = log_effect (Upstream_Stream (sj_request job)) w;
                  w2 = (case sj_archive job of
                          None \<Rightarrow> w1
                        | Some ax \<Rightarrow>
                            write_chat_archive lb st rq (ax_original_body ax) (ax_archive_body ax)
                              (collector_payload (lb_decode lb) (lb_loads lb)
                                 (collect_all (app_stream_archive_max_bytes st) sent))
                              (ax_scan_result ax) (ax_action_taken ax) True (ax_identity ax) w1)
              in (close_client (sj_client_owner job) w2, sent,
                  if n \<le> length all_chunks then None else err))))"

section \<open>The handler\<close>

text \<open>The chat part of the handler, before anything is written: the answer of a blocked request, or
  the body to relay with what was found.\<close>

datatype inspection =
    Block fake_response aggregated str
  | Go json "aggregated option" str str bool

definition scan_chat :: "libs \<Rightarrow> app \<Rightarrow> str \<Rightarrow> aggregated option res" where
  "scan_chat lb st latest_scan_text =
     (if latest_scan_text = [] then Inr None
      else (case app_engine st of
              None \<Rightarrow> Inl (Http_Error 503 (lit ''scanner is not initialized''))
            | Some e \<Rightarrow>
                rbind (engine_scan (normalize (lb_unquote lb) (lb_unescape lb) (lb_nfkc lb)) (lb_lower lb)
                         e latest_scan_text) (\<lambda>a. Inr (Some a))))"

text \<open>The local variable \<open>scanner\<close> is bound only where there was text to scan.\<close>

definition desensitize_step :: "app \<Rightarrow> str \<Rightarrow> (str \<times> json) list \<Rightarrow> (str \<times> json) list res" where
  "desensitize_step st latest_scan_text b =
     (if latest_scan_text = [] then Inl (Unbound_Local (lit ''scanner''))
      else desensitize_chat_request_body (map_option engine_desensitizers (app_engine st)) b)"

definition blocked_scan :: "aggregated option \<Rightarrow> aggregated option" where
  "blocked_scan scan_result =
     (case scan_result of Some a \<Rightarrow> if agg_blocked a then Some a else None | None \<Rightarrow> None)"

definition inspect_chat :: "libs \<Rightarrow> app \<Rightarrow> json \<Rightarrow> bool \<Rightarrow> inspection res" where
  "inspect_chat lb st body is_stream =
     rbind (extract_latest_text_from_request CHAT_COMPLETIONS_PATH body) (\<lambda>latest_scan_text.
     rbind (scan_chat lb st latest_scan_text) (\<lambda>scan_result.
     case body of
       JDict b \<Rightarrow>
         (case blocked_scan scan_result of
            Some a \<Rightarrow>
              rbind (generate_fake_response (lb_dumps lb) (lb_fake_hex8 lb) (lb_now lb) b a is_stream)
                (\<lambda>fake. Inr (Block fake a latest_scan_text))
          | None \<Rightarrow>
              rbind (desensitize_step st latest_scan_text b) (\<lambda>b'.
              let was_desensitized = (\<not> py_eq (JDict b') (JDict b)) in
              rbind (if was_desensitized then extract_latest_text_from_request CHAT_COMPLETIONS_PATH (JDict b')
                     else Inr []) (\<lambda>latest_desensitized_text.
              Inr (Go (JDict b') scan_result latest_scan_text latest_desensitized_text was_desensitized))))
     | _ \<Rightarrow> Inr (Go body scan_result latest_scan_text [] False)))"

definition relay_chat ::
    "libs \<Rightarrow> app \<Rightarrow> upstream \<Rightarrow> request \<Rightarrow> json \<Rightarrow> bytes \<Rightarrow> bool \<Rightarrow> request_identity \<Rightarrow> world
     \<Rightarrow> world \<times> response res" where
  "relay_chat lb st us rq body raw_body is_stream identity w =
     (case inspect_chat lb st body is_stream of
        Inl e \<Rightarrow> (w, Inl e)
      | Inr (Block fake a latest_scan_text) \<Rightarrow>
          (let w1 = write_chat_audit st rq (Some a) latest_scan_text (lit ''blocked'') identity [] w;
               w2 = write_chat_archive lb st rq body body (response_archive_body lb (Fake_Answer fake))
                      (Some a) (lit ''blocked'') is_stream identity w1
           in (w2, Inr (Fake_Answer fake)))
      | Inr (Go body' scan_result latest_scan_text latest_desensitized_text was_desensitized) \<Rightarrow>
          (let action_taken = action_from_scan_result scan_result was_desensitized;
               w1 = write_chat_audit st rq scan_result latest_scan_text action_taken identity
                      latest_desensitized_text w in
           (case relay_to_upstream lb st us rq CHAT_COMPLETIONS_PATH body' raw_body is_stream body
                   scan_result action_taken identity w1 of
              (w2, Inl e) \<Rightarrow> (w2, Inl e)
            | (w2, Inr response) \<Rightarrow>
                (if is_stream then w2
                 else write_chat_archive lb st rq body body' (response_archive_body lb response)
                        scan_result action_taken is_stream identity w2,
                 Inr response))))"

definition relay_openai_compatible ::
    "libs \<Rightarrow> app \<Rightarrow> upstream \<Rightarrow> request \<Rightarrow> str \<Rightarrow> world \<Rightarrow> world \<times> response res" where
  "relay_openai_compatible lb st us rq upstream_path w =
     (let stripped = strip_by (\<lambda>c. c = 47) upstream_path in
      if stripped = [] then (w, Inl (Http_Error 404 (lit ''upstream path is required'')))
      else (let path = lit ''/v1/'' @ stripped in
        (case read_request_body lb rq path of
           Inl e \<Rightarrow> (w, Inl e)
         | Inr (body, raw_body) \<Rightarrow>
             (let identity = require_request_identity (rq_identity rq);
                  is_stream = truthy (json_get body (lit ''stream'') (JBool False)) in
              if path = CHAT_COMPLETIONS_PATH then
                relay_chat lb st us rq body raw_body is_stream identity w
              else
                (case relay_to_upstream lb st us rq path body raw_body is_stream body None
                        (lit ''passed'') identity w of
                   (w1, Inl e) \<Rightarrow> (w1, Inl e)
                 | (w1, Inr response) \<Rightarrow>
                     (if startswith path (lit ''/v1/images/'')
                        then write_image_archive lb rq body response w1 else w1,
                      Inr response))))))"

end
