(* ===== verification/Phone_Safety.thy ===== *)
theory Phone_Safety
  imports Desensitize
begin

text \<open>
  Why masking works: after \<open>desensitize_text\<close> with the built-in patterns no mainland mobile
  number is left. A mobile number is a maximal run of decimal digits of a certain form
  (\<open>cn_free\<close> says that a text has none), every match of either pattern is bounded by
  non-digits, and its image has runs of three and four digits only.
\<close>

section \<open>Texts without mobile numbers\<close>

definition cn_run :: "str \<Rightarrow> bool" where
  "cn_run w \<longleftrightarrow> length w = 11 \<and> w ! 0 = 49 \<and> digit_between 51 57 (w ! 1)"

text \<open>The flag says whether the preceding character is a digit.\<close>

fun cn_free :: "bool \<Rightarrow> str \<Rightarrow> bool" where
  "cn_free prev [] = True"
| "cn_free prev (c # a) =
     ((\<not> prev \<longrightarrow> \<not> cn_run (takeWhile is_digit (c # a))) \<and> cn_free (is_digit c) a)"

definition after_digit :: "str \<Rightarrow> bool" where
  "after_digit b \<longleftrightarrow> b \<noteq> [] \<and> is_digit (hd b)"

definition before_digit :: "str \<Rightarrow> bool" where
  "before_digit a \<longleftrightarrow> a \<noteq> [] \<and> is_digit (hd a)"

lemma after_digit_simps [simp]:
  "\<not> after_digit []" "after_digit (c # b) \<longleftrightarrow> is_digit c"
  "\<not> before_digit []" "before_digit (c # b) \<longleftrightarrow> is_digit c"
  by (simp_all add: after_digit_def before_digit_def)

lemma takeWhile_Nil_iff: "takeWhile is_digit a = [] \<longleftrightarrow> \<not> before_digit a"
  by (cases a) auto

lemma not_cn_run_Nil [simp]: "\<not> cn_run []"
  by (simp add: cn_run_def)

lemma cn_free_short: "length s < 11 \<Longrightarrow> cn_free p s"
proof (induction s arbitrary: p)
  case Nil
  then show ?case by simp
next
  case (Cons c s)
  have "length (takeWhile is_digit (c # s)) < 11"
    using Cons.prems by (meson length_takeWhile_le order_le_less_trans)
  with Cons show ?case by (auto simp: cn_run_def)
qed

lemma cn_free_no_digit: "\<forall>c \<in> set s. \<not> is_digit c \<Longrightarrow> cn_free p s"
  by (induction s arbitrary: p) auto

lemma cn_free_append:
  "u = [] \<or> \<not> is_digit (last u) \<or> \<not> before_digit v \<Longrightarrow>
   cn_free p (u @ v) \<longleftrightarrow> cn_free p u \<and> cn_free (if u = [] then p else is_digit (last u)) v"
proof (induction u arbitrary: p)
  case Nil
  then show ?case by simp
next
  case (Cons c u)
  have tw: "takeWhile is_digit ((c # u) @ v) = takeWhile is_digit (c # u)"
  proof (cases "\<forall>x \<in> set (c # u). is_digit x")
    case True
    then have "is_digit (last (c # u))" using last_in_set [of "c # u"] by blast
    with Cons.prems have "takeWhile is_digit v = []" by (simp add: takeWhile_Nil_iff)
    with True show ?thesis by (simp add: takeWhile_append takeWhile_eq_all_conv [THEN iffD2])
  next
    case False
    then show ?thesis by (meson takeWhile_append1)
  qed
  have "u = [] \<or> \<not> is_digit (last u) \<or> \<not> before_digit v"
    using Cons.prems by auto
  from Cons.IH [OF this] tw Cons.prems show ?case
    by (cases "u = []") (auto simp del: takeWhile.simps)
qed

lemma cn_free_suffix: "cn_free p (w @ v) \<Longrightarrow> cn_free (if w = [] then p else is_digit (last w)) v"
  by (induction w arbitrary: p) (auto split: if_splits)

lemma star_not_digit [simp]: "\<not> is_digit star"
  by (simp add: star_def is_digit_def nd_starts_def)

lemma stars_eq: "lit ''****'' = replicate 4 star"
  by (simp add: lit_def star_def numeral_eq_Suc)

lemma cn_free_mask:
  assumes "8 \<le> length (filter is_digit m)"
  shows "cn_free p (mask_phone_match m)" and "mask_phone_match m \<noteq> []"
    and "is_digit (last (mask_phone_match m))"
proof -
  let ?d = "filter is_digit m"
  have e: "mask_phone_match m = take 3 ?d @ replicate 4 star @ drop (length ?d - 4) ?d"
    using assms by (simp add: mask_phone_match_def stars_eq Let_def)
  have "cn_free q (replicate 4 star @ drop (length ?d - 4) ?d)" for q
    by (subst cn_free_append) (auto intro!: cn_free_no_digit cn_free_short)
  then show "cn_free p (mask_phone_match m)"
    unfolding e by (subst cn_free_append) (auto simp: before_digit_def intro!: cn_free_short)
  have ne: "drop (length ?d - 4) ?d \<noteq> []" using assms by simp
  then have "last (mask_phone_match m) = last (drop (length ?d - 4) ?d)" unfolding e by simp
  moreover have "last (drop (length ?d - 4) ?d) \<in> set ?d"
    using ne by (meson in_set_dropD last_in_set)
  ultimately show "is_digit (last (mask_phone_match m))" by simp
  show "mask_phone_match m \<noteq> []" unfolding e by simp
qed

section \<open>Matches that end in a digit\<close>

definition ends :: "(pos \<Rightarrow> pos list) \<Rightarrow> bool" where
  "ends f \<longleftrightarrow> (\<forall>x y. y \<in> set (f x) \<longrightarrow> (\<exists>w. moves x w y \<and> w \<noteq> [] \<and> is_digit (last w)))"

lemma moves_unique: "moves x v y \<Longrightarrow> moves x w y \<Longrightarrow> v = w"
  by (auto simp: moves_def)

lemma ends_Cls: "(\<And>c. p c \<Longrightarrow> is_digit c) \<Longrightarrow> ends (rmatch (Cls p))"
  unfolding ends_def
proof (intro allI impI)
  fix x y assume g: "\<And>c. p c \<Longrightarrow> is_digit c" and y: "y \<in> set (rmatch (Cls p) x)"
  obtain b a where x: "x = (b, a)" by (cases x)
  with y obtain c a' where "a = c # a'" "p c" "y = (c # b, a')"
    by (auto split: list.splits if_splits)
  with g x show "\<exists>w. moves x w y \<and> w \<noteq> [] \<and> is_digit (last w)"
    by (intro exI [of _ "[c]"]) (simp add: moves_def)
qed

lemma ends_Seq:
  assumes "ends (rmatch s)"
  shows "ends (rmatch (Seq r s))"
  unfolding ends_def
proof (intro allI impI)
  fix x z assume "z \<in> set (rmatch (Seq r s) x)"
  then obtain y where y: "y \<in> set (rmatch r x)" "z \<in> set (rmatch s y)" by auto
  obtain v where v: "moves x v y" using rmatch_moves [OF y(1)] by blast
  obtain w where w: "moves y w z" "w \<noteq> []" "is_digit (last w)"
    using assms y(2) unfolding ends_def by blast
  from moves_trans [OF v w(1)] w show "\<exists>w. moves x w z \<and> w \<noteq> [] \<and> is_digit (last w)"
    by (intro exI [of _ "v @ w"]) simp
qed

lemma ends_Seq_look: "ends (rmatch r) \<Longrightarrow> ends (rmatch (Seq r (NotAhead p)))"
  unfolding ends_def by (auto split: list.splits if_splits)

lemma ends_rep: "ends f \<Longrightarrow> 0 < m \<Longrightarrow> y \<in> set (rep f m n x) \<Longrightarrow>
  \<exists>w. moves x w y \<and> w \<noteq> [] \<and> is_digit (last w)"
proof (induction n arbitrary: m x)
  case 0
  then show ?case by simp
next
  case (Suc n)
  from Suc.prems obtain z where z: "z \<in> set (f x)" "y \<in> set (rep f (m - 1) n z)" by auto
  obtain v where v: "moves x v z" "v \<noteq> []" "is_digit (last v)"
    using Suc.prems(1) z(1) unfolding ends_def by blast
  have "\<exists>w. moves z w y \<and> (w = [] \<or> is_digit (last w))"
  proof (cases "0 < m - 1")
    case True
    from Suc.IH [OF Suc.prems(1) True z(2)] show ?thesis by blast
  next
    case False
    then have "y \<in> set (rep f 0 n z)" using z(2) by simp
    then show ?thesis
    proof (cases n)
      case 0
      with \<open>y \<in> set (rep f 0 n z)\<close> show ?thesis by (auto intro: exI [of _ "[]"] moves_refl)
    next
      case (Suc k)
      have "y = z \<or> y \<in> set (rep f 1 n z)"
        using \<open>y \<in> set (rep f 0 n z)\<close> Suc by auto
      then show ?thesis
        using Suc.IH [OF Suc.prems(1), of 1 z] by (auto intro: exI [of _ "[]"] moves_refl)
    qed
  qed
  then obtain w where w: "moves z w y" "w = [] \<or> is_digit (last w)" by blast
  from moves_trans [OF v(1) w(1)] v(2,3) w(2) show ?case
    by (intro exI [of _ "v @ w"]) (auto simp: last_append)
qed

lemma ends_Rep: "ends (rmatch r) \<Longrightarrow> 0 < m \<Longrightarrow> ends (rmatch (Rep r m n))"
  unfolding ends_def [of "rmatch (Rep r m n)"] by (auto dest: ends_rep)

section \<open>Substituting a bounded pattern\<close>

text \<open>The contract of a telephone pattern: its matches start after and end before a non-digit, end
  in a digit and hold at least eight; \<open>safe\<close> is a property of positions that scanning keeps and
  that rules out a mobile number where the pattern does not match.\<close>

locale phone_pattern =
  fixes r :: re and safe :: "pos \<Rightarrow> bool"
  assumes match_bounds: "y \<in> set (rmatch r x) \<Longrightarrow> \<not> after_digit (fst x) \<and> \<not> before_digit (snd y)"
    and match_ends: "ends (rmatch r)"
    and match_digits: "advances (rmatch r) 8 is_digit"
    and safe_step: "safe (b, c # a) \<Longrightarrow> rmatch r (b, c # a) = [] \<Longrightarrow> safe (c # b, a)"
    and safe_match: "safe x \<Longrightarrow> y \<in> set (rmatch r x) \<Longrightarrow> safe y"
    and safe_free: "safe (b, c # a) \<Longrightarrow> rmatch r (b, c # a) = [] \<Longrightarrow> \<not> after_digit b \<Longrightarrow>
      \<not> cn_run (takeWhile is_digit (c # a))"
begin

lemma match_shape:
  assumes "first_match r adv x = Some y"
  shows "\<not> after_digit (fst x)" "\<not> before_digit (snd y)" "after_digit (fst y)" "snd y \<noteq> snd x"
    "8 \<le> length (filter is_digit (group x y))" "y \<in> set (rmatch r x)"
proof -
  show y: "y \<in> set (rmatch r x)" using assms by (rule first_match_in)
  from match_bounds [OF y] show "\<not> after_digit (fst x)" "\<not> before_digit (snd y)" by auto
  obtain w where w: "moves x w y" "w \<noteq> []" "is_digit (last w)"
    using match_ends y unfolding ends_def by blast
  then show "after_digit (fst y)" "snd y \<noteq> snd x"
    by (auto simp: moves_def after_digit_def hd_append hd_rev)
  obtain v where v: "moves x v y" "8 \<le> length (filter is_digit v)"
    using advancesD [OF match_digits y] by blast
  then show "8 \<le> length (filter is_digit (group x y))" by (simp add: group_moves)
qed

lemma no_match_after_digit: "after_digit b \<Longrightarrow> first_match r False (b, a) = None"
  using match_shape(1) by (cases "first_match r False (b, a)") fastforce+

text \<open>Inside a run of digits the substitution copies its input up to and including the end of the
  run.\<close>

lemma sub_after_digit:
  "after_digit b \<Longrightarrow> takeWhile is_digit (sub_from r f False (b, a)) = takeWhile is_digit a"
proof (induction a arbitrary: b)
  case Nil
  then show ?case by (subst sub_from.simps) (simp add: no_match_after_digit)
next
  case (Cons c a)
  then show ?case
    by (subst sub_from.simps) (simp add: no_match_after_digit)
qed

lemma sub_from_cn_free:
  "safe x \<Longrightarrow> cn_free (after_digit (fst x)) (sub_from r mask_phone_match False x)"
proof (induction "length (snd x)" arbitrary: x rule: less_induct)
  case less
  obtain b a where x: "x = (b, a)" by (cases x)
  show ?case
  proof (cases "first_match r False x")
    case (Some y)
    note m = match_shape [OF Some]
    let ?m = "mask_phone_match (group x y)"
    have out: "sub_from r mask_phone_match False x = ?m @ sub_from r mask_phone_match False y"
      using Some m(4) by (subst sub_from.simps) simp
    have "length (snd y) < length (snd x)"
      using rmatch_moves [OF m(6)] m(4) by (auto simp: moves_def)
    then have IH: "cn_free True (sub_from r mask_phone_match False y)"
      using less.hyps [of y] safe_match [OF less.prems m(6)] m(3) by simp
    have "takeWhile is_digit (sub_from r mask_phone_match False (fst y, snd y)) = []"
      unfolding sub_after_digit [OF m(3)] using m(2) by (simp add: takeWhile_Nil_iff)
    then have "\<not> before_digit (sub_from r mask_phone_match False y)"
      by (simp add: takeWhile_Nil_iff)
    then show ?thesis
      unfolding out using IH cn_free_mask [OF m(5)] by (subst cn_free_append) auto
  next
    case None
    show ?thesis
    proof (cases a)
      case Nil
      then show ?thesis using None x by (subst sub_from.simps) simp
    next
      case (Cons c a')
      let ?o = "sub_from r mask_phone_match False (c # b, a')"
      have out: "sub_from r mask_phone_match False x = c # ?o"
        using None x Cons by (subst sub_from.simps) simp
      have nm: "rmatch r (b, c # a') = []" using None x Cons by (simp add: first_match_None)
      have IH: "cn_free (is_digit c) ?o"
        using less.hyps [of "(c # b, a')"] safe_step [of b c a'] less.prems nm x Cons by simp
      have "\<not> cn_run (takeWhile is_digit (c # ?o))" if "\<not> after_digit b"
      proof (cases "is_digit c")
        case True
        then have "takeWhile is_digit (c # ?o) = takeWhile is_digit (c # a')"
          using sub_after_digit [of "c # b"] by simp
        then show ?thesis using safe_free [of b c a'] less.prems nm that x Cons by simp
      next
        case False
        then show ?thesis by simp
      qed
      with IH show ?thesis unfolding out by (simp add: x)
    qed
  qed
qed

lemma re_sub_cn_free: "safe ([], s) \<Longrightarrow> cn_free False (re_sub r mask_phone_match s)"
  using sub_from_cn_free [of "([], s)"] by (simp add: re_sub_def)

end

section \<open>The two built-in patterns\<close>

lemma begins_bounded:
  "y \<in> set (rmatch (Seq (NotBehind is_digit) s) x) \<Longrightarrow> \<not> after_digit (fst x)"
  by (cases x) (auto simp: after_digit_def split: list.splits if_splits)

definition closes :: "re \<Rightarrow> bool" where
  "closes s \<longleftrightarrow> (\<forall>x y. y \<in> set (rmatch s x) \<longrightarrow> \<not> before_digit (snd y))"

lemma closes_Seq: "closes s \<Longrightarrow> closes (Seq r s)"
  unfolding closes_def by auto

lemma closes_look: "closes (NotAhead is_digit)"
  unfolding closes_def by (auto simp: before_digit_def split: list.splits if_splits)

lemma Seq_match: "y \<in> set (rmatch r x) \<Longrightarrow> rmatch s y \<noteq> [] \<Longrightarrow> rmatch (Seq r s) x \<noteq> []"
  by auto

lemma Cls_match: "p c \<Longrightarrow> (c # b, a) \<in> set (rmatch (Cls p) (b, c # a))"
  by simp

lemma NotAhead_ok: "\<not> before_digit v \<Longrightarrow> rmatch (NotAhead is_digit) (x, v) = [(x, v)]"
  by (cases v) auto

lemma dropWhile_not_before: "\<not> before_digit (dropWhile is_digit a)"
  using hd_dropWhile [of is_digit a] by (auto simp: before_digit_def)

lemma is_digit_ascii: "digit_between 48 57 c \<Longrightarrow> is_digit c"
  by (simp add: is_digit_def nd_starts_def digit_between_def)

lemma rep_all_digits: "set w \<subseteq> Collect is_digit \<Longrightarrow> length w = n \<Longrightarrow>
  rep (rmatch (Cls is_digit)) n n (b, w @ v) = [(rev w @ b, v)]"
proof (induction n arbitrary: w b)
  case 0
  then show ?case by simp
next
  case (Suc n)
  then obtain c u where w: "w = c # u" by (cases w) auto
  with Suc show ?case by simp
qed

text \<open>A mobile number at a position is matched there.\<close>

lemma phone_cn_complete:
  assumes "\<not> after_digit b" and "cn_run (takeWhile is_digit a)"
  shows "rmatch phone_cn (b, a) \<noteq> []"
proof -
  let ?w = "takeWhile is_digit a"
  obtain c1 c2 u where w: "?w = c1 # c2 # u" and u: "length u = 9"
    and c: "c1 = 49" "digit_between 51 57 c2"
    using assms(2) unfolding cn_run_def
    by (cases ?w; cases "tl ?w") auto
  have a: "a = c1 # c2 # u @ dropWhile is_digit a"
    using w takeWhile_dropWhile_id [of is_digit a] by simp
  have us: "set u \<subseteq> Collect is_digit" using w set_takeWhileD [of _ is_digit a] by fastforce
  have nb: "rmatch (NotBehind is_digit) (b, a) = [(b, a)]"
    using assms(1) by (cases b) auto
  have na: "rmatch (NotAhead is_digit) (x, dropWhile is_digit a) = [(x, dropWhile is_digit a)]" for x
    by (rule NotAhead_ok) (rule dropWhile_not_before)
  have r: "rep (rmatch (Cls is_digit)) 9 9 (c2 # c1 # b, u @ dropWhile is_digit a)
      = [(rev u @ c2 # c1 # b, dropWhile is_digit a)]"
    using rep_all_digits [OF us u] .
  have "rmatch phone_cn (b, c1 # c2 # u @ dropWhile is_digit a) \<noteq> []"
    unfolding phone_cn_def
  proof (intro Seq_match)
    show "(b, c1 # c2 # u @ dropWhile is_digit a)
        \<in> set (rmatch (NotBehind is_digit) (b, c1 # c2 # u @ dropWhile is_digit a))"
      using nb a by simp
    show "(c1 # b, c2 # u @ dropWhile is_digit a)
        \<in> set (rmatch (Cls (\<lambda>c. c = 49)) (b, c1 # c2 # u @ dropWhile is_digit a))"
      using c by simp
    show "(c2 # c1 # b, u @ dropWhile is_digit a)
        \<in> set (rmatch (Cls (digit_between 51 57)) (c1 # b, c2 # u @ dropWhile is_digit a))"
      using c by simp
    show "(rev u @ c2 # c1 # b, dropWhile is_digit a)
        \<in> set (rmatch (Rep (Cls is_digit) 9 9) (c2 # c1 # b, u @ dropWhile is_digit a))"
      unfolding rmatch.simps r by simp
    show "rmatch (NotAhead is_digit) (rev u @ c2 # c1 # b, dropWhile is_digit a) \<noteq> []"
      unfolding na by simp
  qed
  with a show ?thesis by simp
qed

lemma phone_cn_match:
  assumes "y \<in> set (rmatch phone_cn x)"
  shows "\<not> after_digit (fst x) \<and> \<not> before_digit (snd y)"
proof -
  have "closes phone_cn" unfolding phone_cn_def by (intro closes_Seq closes_look)
  then show ?thesis
    using assms begins_bounded unfolding closes_def phone_cn_def by blast
qed

lemma phone_intl_match:
  assumes "y \<in> set (rmatch phone_intl x)"
  shows "\<not> after_digit (fst x) \<and> \<not> before_digit (snd y)"
proof -
  have "closes phone_intl" unfolding phone_intl_def by (intro closes_Seq closes_look)
  then show ?thesis
    using assms begins_bounded unfolding closes_def phone_intl_def by blast
qed

lemma ends_phone: "ends (rmatch phone_cn)" "ends (rmatch phone_intl)"
  unfolding phone_cn_def phone_intl_def
  by (intro ends_Seq ends_Seq_look ends_Rep ends_Cls; simp)+

lemma advances_phone_cn: "advances (rmatch phone_cn) 8 is_digit"
proof -
  have "advances (rmatch phone_cn) (0 + (0 + (0 + (9 * 1 + 0)))) is_digit"
    unfolding phone_cn_def
    by (intro advances_Seq advances_Rep advances_look advances_Cls0 advances_Cls) simp
  then show ?thesis by (rule advances_mono) simp
qed

lemma advances_phone_intl: "advances (rmatch phone_intl) 8 is_digit"
proof -
  have "advances (rmatch phone_intl) (0 + (0 + (0 + (0 * 0 + (0 * 0 + (7 * (1 + 0 * 0) + (1 + 0))))))) is_digit"
    unfolding phone_intl_def
    by (intro advances_Seq advances_Rep advances_look advances_0 advances_Cls) simp_all
  then show ?thesis by (rule advances_mono) simp
qed

interpretation cn: phone_pattern phone_cn "\<lambda>_. True"
proof
  fix b c a assume "rmatch phone_cn (b, c # a) = []" "\<not> after_digit b"
  then show "\<not> cn_run (takeWhile is_digit (c # a))" using phone_cn_complete by blast
qed (auto dest: phone_cn_match intro: ends_phone advances_phone_cn)

interpretation intl: phone_pattern phone_intl "\<lambda>x. cn_free (after_digit (fst x)) (snd x)"
proof
  fix x y assume free: "cn_free (after_digit (fst x)) (snd x)" and y: "y \<in> set (rmatch phone_intl x)"
  obtain w where w: "moves x w y" "w \<noteq> []" "is_digit (last w)"
    using ends_phone(2) y unfolding ends_def by blast
  from free w show "cn_free (after_digit (fst y)) (snd y)"
    using cn_free_suffix [of "after_digit (fst x)" w "snd y"]
    by (auto simp: moves_def after_digit_def hd_append hd_rev)
qed (auto dest: phone_intl_match intro: ends_phone advances_phone_intl)

lemma desensitize_cn_free: "cn_free False (desensitize_text PHONE_PATTERNS t)"
proof -
  have "cn_free False (re_sub phone_cn mask_phone_match t)"
    by (rule cn.re_sub_cn_free) simp
  then have "cn_free False (re_sub phone_intl mask_phone_match (re_sub phone_cn mask_phone_match t))"
    by (intro intl.re_sub_cn_free) simp
  then show ?thesis by (simp add: desensitize_text_def PHONE_PATTERNS_def)
qed

section \<open>No match of the mobile pattern is left\<close>

lemma rep_exact: "y \<in> set (rep (rmatch (Cls is_digit)) n n x) \<Longrightarrow>
  \<exists>w. moves x w y \<and> length w = n \<and> (\<forall>c \<in> set w. is_digit c)"
proof (induction n arbitrary: x)
  case 0
  then show ?case by (auto intro: exI [of _ "[]"] simp: moves_refl)
next
  case (Suc n)
  obtain b a where x: "x = (b, a)" by (cases x)
  with Suc.prems obtain c a' where c: "a = c # a'" "is_digit c"
    and y: "y \<in> set (rep (rmatch (Cls is_digit)) n n (c # b, a'))"
    by (auto split: list.splits if_splits)
  from Suc.IH [OF y] obtain w where "moves (c # b, a') w y" "length w = n" "\<forall>c \<in> set w. is_digit c"
    by blast
  with c x show ?case by (intro exI [of _ "c # w"]) (auto simp: moves_def)
qed

lemma phone_cn_sound:
  assumes "rmatch phone_cn (b, a) \<noteq> []"
  shows "\<not> after_digit b \<and> cn_run (takeWhile is_digit a)"
proof -
  obtain y where y: "y \<in> set (rmatch phone_cn (b, a))" using assms by (cases "rmatch phone_cn (b, a)") auto
  then obtain c1 c2 a' z where a: "a = c1 # c2 # a'" "c1 = 49" "digit_between 51 57 c2"
    and z: "z \<in> set (rep (rmatch (Cls is_digit)) 9 9 (c2 # c1 # b, a'))"
    and yz: "y \<in> set (rmatch (NotAhead is_digit) z)"
    unfolding phone_cn_def
    by (auto simp del: rep.simps split: list.splits if_splits)
  obtain w where w: "moves (c2 # c1 # b, a') w z" "length w = 9" "\<forall>c \<in> set w. is_digit c"
    using rep_exact [OF z] by blast
  have "\<not> before_digit (snd z)"
    using yz by (cases z) (auto simp: before_digit_def split: list.splits if_splits)
  then have "takeWhile is_digit a' = w"
    using w takeWhile_append2 [of w is_digit "snd z"]
    by (auto simp: moves_def takeWhile_Nil_iff [symmetric])
  moreover have "is_digit c1" "is_digit c2"
    using a by (auto simp: digit_between_def intro!: is_digit_ascii)
  ultimately have "cn_run (takeWhile is_digit a)" using a w by (simp add: cn_run_def)
  with phone_cn_match [OF y] show ?thesis by simp
qed

lemma cn_free_no_match: "cn_free False t \<Longrightarrow> finditer phone_cn t = []"
proof -
  assume free: "cn_free False t"
  have "rmatch phone_cn (rev u @ [], v) = []" if "t = u @ v" for u v
  proof (rule ccontr)
    assume m: "rmatch phone_cn (rev u @ [], v) \<noteq> []"
    from phone_cn_sound [OF m] have nd: "\<not> after_digit (rev u)" and run: "cn_run (takeWhile is_digit v)"
      by auto
    then obtain c v' where v: "v = c # v'" by (cases v) auto
    from free that have "cn_free (if u = [] then False else is_digit (last u)) v"
      using cn_free_suffix by blast
    with nd run v show False by (auto simp: after_digit_def hd_rev split: if_splits)
  qed
  then show ?thesis by (simp add: finditer_def finditer_from_Nil)
qed

lemma not_digit_10 [simp]: "\<not> is_digit 10"
  by (simp add: is_digit_def nd_starts_def)

lemma cn_free_join: "(\<And>p. p \<in> set ps \<Longrightarrow> cn_free False p) \<Longrightarrow> cn_free False (join [10] ps)"
proof (induction ps)
  case Nil
  then show ?case by simp
next
  case (Cons p ps)
  have "cn_free q ([10] @ join [10] ps)" for q
    using Cons by simp
  then show ?case
    using Cons.prems by (auto simp: join_Cons cn_free_append)
qed

section \<open>Requests\<close>

text \<open>The texts of a desensitised content are desensitised texts.\<close>

lemma desensitized_parts:
  "p \<in> set (extract_content_parts (desensitize_content ps c)) \<Longrightarrow> \<exists>t. p = desensitize_text ps t"
  "p \<in> set (extract_item_parts (desensitize_part ps i)) \<Longrightarrow> \<exists>t. p = desensitize_text ps t"
proof (induction ps c and ps i arbitrary: p and p rule: desensitize_content_desensitize_part.induct)
  case (1 ps c)
  show ?case
  proof (cases c)
    case (JList items)
    with "1.prems" obtain i where i: "i \<in> set items" "p \<in> set (extract_item_parts (desensitize_part ps i))"
      by auto
    from "1.IH" [OF JList i(1)] i show ?thesis by blast
  qed (use "1.prems" in auto)
next
  case (2 ps i)
  show ?case
  proof (cases i)
    case (JDict d)
    show ?thesis
    proof (cases "\<exists>s. dict_get d (lit ''text'') = Some (JStr s)")
      case True
      then obtain s where s: "dict_get d (lit ''text'') = Some (JStr s)" by blast
      with "2.prems" JDict show ?thesis
        by (auto simp: desensitize_part.simps Let_def extract_item_dict split: option.splits)
    next
      case False
      then have d1: "(case dict_get d (lit ''text'') of
          Some (JStr s) \<Rightarrow> dict_set d (lit ''text'') (JStr (desensitize_text ps s)) | _ \<Rightarrow> d) = d"
        by (auto split: option.splits json.splits)
      have nt: "(case dict_get d (lit ''text'') of Some (JStr t) \<Rightarrow> [t] | _ \<Rightarrow> x) = x" for x :: "str list"
        using False by (auto split: option.splits json.splits)
      show ?thesis
      proof (cases "dict_get d (lit ''content'')")
        case None
        with "2.prems" JDict show ?thesis
          by (simp add: desensitize_part.simps d1 Let_def extract_item_dict nt)
      next
        case (Some c)
        with "2.prems" JDict have "p \<in> set (extract_content_parts (desensitize_content ps c))"
          by (simp add: desensitize_part.simps d1 Let_def extract_item_dict nt)
        with "2.IH" [OF JDict refl Some] show ?thesis by blast
      qed
    qed
  qed (use "2.prems" in auto)
qed

lemma desensitize_message_parts:
  assumes "desensitize_message PHONE_PATTERNS m = Inr m'" and "m' = JDict d"
    and "in_str_set (get_or d (lit ''role'') JNull) DESENSITIZE_ROLES = Inr True"
    and "p \<in> set (message_parts m')"
  shows "cn_free False p"
proof -
  obtain e where m: "m = JDict e" using assms(1,2) by (cases m) auto
  from assms(1-3) m have role: "in_str_set (get_or e (lit ''role'') JNull) DESENSITIZE_ROLES = Inr True"
    by (auto simp: rbind_eq_Inr get_or_def split: if_splits)
  with assms(1,2) m have d: "d = dict_set e (lit ''content'')
      (desensitize_content PHONE_PATTERNS (get_or e (lit ''content'') JNull))"
    by simp
  have "get_or d (lit ''content'') JNull =
      desensitize_content PHONE_PATTERNS (get_or e (lit ''content'') JNull)"
    by (simp add: d get_or_def)
  with assms(2,4) have "p \<in> set (extract_content_parts
      (desensitize_content PHONE_PATTERNS (get_or e (lit ''content'') JNull)))"
    by simp
  then obtain t where "p = desensitize_text PHONE_PATTERNS t"
    using desensitized_parts(1) by blast
  then show ?thesis by (simp add: desensitize_cn_free)
qed

lemma body_messages:
  assumes "desensitize_chat_request_body None body = Inr body'"
    and "dict_get body' (lit ''messages'') = Some (JList ms')"
  shows "\<exists>ms. dict_get body (lit ''messages'') = Some (JList ms) \<and>
     list_all2 (\<lambda>m m'. desensitize_message PHONE_PATTERNS m = Inr m') ms ms'"
proof -
  have ne: "PHONE_PATTERNS \<noteq> []" by (simp add: PHONE_PATTERNS_def)
  with assms show ?thesis
    by (auto simp: desensitize_chat_request_body_def resolve_desensitize_patterns_def Let_def
        rbind_eq_Inr rmap_Inr_iff split: option.splits json.splits)
qed

text \<open>Everything the code may change is the content of a message of an allowed role.\<close>

lemma desensitize_message_frame:
  assumes "desensitize_message ps (JDict m) = Inr m'"
  shows "\<exists>d. m' = JDict d \<and> (\<forall>k. k \<noteq> lit ''content'' \<longrightarrow> dict_get d k = dict_get m k) \<and>
    (in_str_set (get_or m (lit ''role'') JNull) DESENSITIZE_ROLES = Inr False \<longrightarrow> d = m)"
  using assms by (auto simp: rbind_eq_Inr split: if_splits)

end
