(* ===== verification/Relay_Safety.thy ===== *)
theory Relay_Safety
  imports Relay Phone_Safety
begin

text \<open>
  Facts about the relay: what reaches the upstream. The first group says that archives and audits
  never do; the second that a chat request is relayed only after a scan that did not block it; the
  third that the messages relayed carry no mobile number, whether the body is sent again or the
  client's bytes are.
\<close>

section \<open>Effects\<close>

fun is_upstream :: "effect \<Rightarrow> bool" where
  "is_upstream (Upstream_Request ur) = True"
| "is_upstream (Upstream_Stream ur) = True"
| "is_upstream _ = False"

definition upstream_calls :: "world \<Rightarrow> effect list" where
  "upstream_calls w = filter is_upstream (wd_effects w)"

lemma upstream_calls_log [simp]:
  "upstream_calls (log_effect e w) = upstream_calls w @ (if is_upstream e then [e] else [])"
  by (simp add: upstream_calls_def log_effect_def)

lemma upstream_calls_dispatch [simp]: "upstream_calls (dispatch_item writer item w) = upstream_calls w"
  by (auto simp: dispatch_item_def upstream_calls_def log_effect_def Let_def
      split: option.splits prod.splits bool.splits)

lemma upstream_calls_writes [simp]:
  "upstream_calls (write_chat_archive lb st rq ob rb resp sr act str ident w) = upstream_calls w"
  "upstream_calls (write_chat_audit st rq sr txt act ident dt w) = upstream_calls w"
  "upstream_calls (write_image_archive lb rq ob answer w) = upstream_calls w"
  "upstream_calls (close_client b w) = upstream_calls w"
  by (auto simp: write_chat_archive_def write_chat_audit_def write_image_archive_def close_client_def
      Let_def split: json.splits option.splits bool.splits)

text \<open>Relaying sends one request, or returns a stream that will; or nothing at all.\<close>

lemma relay_to_upstream_cases:
  assumes "relay_to_upstream lb st us rq path body raw is_stream ob sr act ident w = (w', r)"
  obtains (unconfigured) "w' = w" "r = Inl (Http_Error 503 (lit ''upstream_url is not configured''))"
      "app_upstream_url st = []"
  | (stream) job where "w' = w" "r = Inr (Streaming job)" "is_stream"
      "sj_request job = upstream_request_of lb st rq path body raw is_stream act ident"
      "sj_archive job = None \<or> path = CHAT_COMPLETIONS_PATH"
      "\<And>ax. sj_archive job = Some ax \<Longrightarrow> ax_original_body ax = ob \<and> ax_action_taken ax = act \<and>
         ax_identity ax = ident \<and> ax_scan_result ax = sr"
  | (sent) "upstream_calls w' = upstream_calls w @
         [Upstream_Request (upstream_request_of lb st rq path body raw is_stream act ident)]"
      "\<And>job. r \<noteq> Inr (Streaming job)"
  using assms
  by (auto simp: relay_to_upstream_def Let_def build_response_def
      split: if_splits http_outcome.splits option.splits)

section \<open>Scanning before relaying\<close>

definition scan_of :: "libs \<Rightarrow> engine \<Rightarrow> str \<Rightarrow> aggregated res" where
  "scan_of lb e t =
     engine_scan (normalize (lb_unquote lb) (lb_unescape lb) (lb_nfkc lb)) (lb_lower lb) e t"

lemma scan_chat_Some:
  "scan_chat lb st t = Inr (Some a) \<longleftrightarrow> t \<noteq> [] \<and> (\<exists>e. app_engine st = Some e \<and> scan_of lb e t = Inr a)"
  by (auto simp: scan_chat_def scan_of_def rbind_eq_Inr split: option.splits)

lemma scan_chat_None: "scan_chat lb st t = Inr None \<longleftrightarrow> t = []"
  by (auto simp: scan_chat_def rbind_eq_Inr split: option.splits)

lemma inspect_Block:
  assumes "inspect_chat lb st body is_stream = Inr (Block fake a t)"
  shows "agg_blocked a \<and> (\<exists>e. app_engine st = Some e \<and> scan_of lb e t = Inr a) \<and>
    extract_latest_text_from_request CHAT_COMPLETIONS_PATH body = Inr t"
  using assms
  by (cases body) (auto simp: inspect_chat_def rbind_eq_Inr blocked_scan_def scan_chat_Some Let_def
      split: option.splits if_splits)

lemma inspect_Go_dict:
  assumes "inspect_chat lb st (JDict b) is_stream = Inr (Go body' sr t dt wd)"
  obtains e a b' where "app_engine st = Some e" "scan_of lb e t = Inr a" "\<not> agg_blocked a"
    "sr = Some a" "t \<noteq> []" "body' = JDict b'"
    "desensitize_chat_request_body (Some (engine_desensitizers e)) b = Inr b'"
    "wd = (\<not> py_eq (JDict b') (JDict b))"
    "extract_latest_text_from_request CHAT_COMPLETIONS_PATH (JDict b) = Inr t"
proof -
  from assms obtain x sr' b' where x: "extract_latest_text_from_request CHAT_COMPLETIONS_PATH (JDict b) = Inr x"
    "scan_chat lb st x = Inr sr'" "blocked_scan sr' = None" "desensitize_step st x b = Inr b'"
    "body' = JDict b'" "sr = sr'" "t = x" "wd = (\<not> py_eq (JDict b') (JDict b))"
    by (auto simp: inspect_chat_def rbind_eq_Inr Let_def split: option.splits)
  from x(4) have ne: "x \<noteq> []"
    and d: "desensitize_chat_request_body (map_option engine_desensitizers (app_engine st)) b = Inr b'"
    by (auto simp: desensitize_step_def split: if_splits)
  with x(2) have "sr' \<noteq> None" by (metis scan_chat_None)
  then obtain a where a: "sr' = Some a" by blast
  with x(2) obtain e where e: "app_engine st = Some e" "scan_of lb e x = Inr a"
    by (auto simp: scan_chat_Some)
  from a x(3) have "\<not> agg_blocked a" by (simp add: blocked_scan_def split: if_splits)
  with that [of e a b'] x e d ne a show thesis by simp
qed

text \<open>A JSON object with nothing to scan: the handler raises before it relays.\<close>

lemma inspect_unbound:
  assumes "extract_latest_text_from_request CHAT_COMPLETIONS_PATH (JDict b) = Inr []"
  shows "inspect_chat lb st (JDict b) is_stream = Inl (Unbound_Local (lit ''scanner''))"
  using assms by (simp add: inspect_chat_def scan_chat_def blocked_scan_def desensitize_step_def)

text \<open>Everything the chat handler can do: fail before any upstream call, answer a blocked request,
  or relay what the inspection let through.\<close>

lemma relay_chat_cases:
  assumes "relay_chat lb st us rq body raw is_stream ident w = (w', r)"
  obtains (failed) e where "w' = w" "r = Inl e" "inspect_chat lb st body is_stream = Inl e"
  | (blocked) fake a t where "inspect_chat lb st body is_stream = Inr (Block fake a t)"
      "r = Inr (Fake_Answer fake)" "upstream_calls w' = upstream_calls w"
  | (relayed) body' sr t dt wd w1 w2 where
      "inspect_chat lb st body is_stream = Inr (Go body' sr t dt wd)"
      "upstream_calls w1 = upstream_calls w" "upstream_calls w' = upstream_calls w2"
      "relay_to_upstream lb st us rq CHAT_COMPLETIONS_PATH body' raw is_stream body sr
         (action_from_scan_result sr wd) ident w1 = (w2, r)"
proof (cases "inspect_chat lb st body is_stream")
  case (Inl e)
  with assms show thesis by (intro failed [of e]) (simp_all add: relay_chat_def)
next
  case (Inr i)
  show thesis
  proof (cases i)
    case (Block fake a t)
    with assms Inr show thesis by (intro blocked [of fake a t]) (auto simp: relay_chat_def Let_def)
  next
    case (Go body' sr t dt wd)
    let ?w1 = "write_chat_audit st rq sr t (action_from_scan_result sr wd) ident dt w"
    obtain w2 r2 where eq: "relay_to_upstream lb st us rq CHAT_COMPLETIONS_PATH body' raw is_stream body sr
         (action_from_scan_result sr wd) ident ?w1 = (w2, r2)" by fastforce
    with assms Inr Go have "r2 = r" "upstream_calls w' = upstream_calls w2"
      by (auto simp: relay_chat_def Let_def split: sum.splits if_splits)
    with eq Inr Go show thesis by (intro relayed [of body' sr t dt wd ?w1 w2]) simp_all
  qed
qed

text \<open>The request a chat completion sends upstream, now or when its stream runs.\<close>

definition relays :: "world \<Rightarrow> world \<Rightarrow> response res \<Rightarrow> upstream_request \<Rightarrow> bool" where
  "relays w w' r ur \<longleftrightarrow>
     upstream_calls w' = upstream_calls w @ [Upstream_Request ur] \<or>
     (\<exists>job. r = Inr (Streaming job) \<and> sj_request job = ur)"

lemma upstream_request_payload [simp]:
  "up_payload (upstream_request_of lb st rq path body raw is_stream act ident) =
   select_relay_payload (rq_method rq) body raw act"
  by (simp add: upstream_request_of_def Let_def)

lemma relay_to_upstream_relays:
  assumes "relay_to_upstream lb st us rq path body raw is_stream ob sr act ident w1 = (w2, r)"
    and "relays w w' r ur" "upstream_calls w1 = upstream_calls w" "upstream_calls w' = upstream_calls w2"
  shows "ur = upstream_request_of lb st rq path body raw is_stream act ident"
  using assms(1)
  by (cases rule: relay_to_upstream_cases) (use assms(2-4) in \<open>auto simp: relays_def\<close>)

lemma relay_chat_relays:
  assumes "relay_chat lb st us rq (JDict b) raw is_stream ident w = (w', r)" "relays w w' r ur"
  obtains e a b' t where "app_engine st = Some e"
    "extract_latest_text_from_request CHAT_COMPLETIONS_PATH (JDict b) = Inr t" "t \<noteq> []"
    "scan_of lb e t = Inr a" "\<not> agg_blocked a"
    "desensitize_chat_request_body (Some (engine_desensitizers e)) b = Inr b'"
    "ur = upstream_request_of lb st rq CHAT_COMPLETIONS_PATH (JDict b') raw is_stream
       (action_from_scan_result (Some a) (\<not> py_eq (JDict b') (JDict b))) ident"
  using assms(1)
proof (cases rule: relay_chat_cases)
  case (failed e)
  with assms(2) show thesis by (simp add: relays_def)
next
  case (blocked fake a t)
  with assms(2) show thesis by (simp add: relays_def)
next
  case (relayed body' sr t dt wd w1 w2)
  from relayed(1) obtain e a b' where g: "app_engine st = Some e" "scan_of lb e t = Inr a" "\<not> agg_blocked a"
    "sr = Some a" "t \<noteq> []" "body' = JDict b'"
    "desensitize_chat_request_body (Some (engine_desensitizers e)) b = Inr b'"
    "wd = (\<not> py_eq (JDict b') (JDict b))"
    "extract_latest_text_from_request CHAT_COMPLETIONS_PATH (JDict b) = Inr t"
    by (rule inspect_Go_dict) blast
  from relayed(4) have "ur = upstream_request_of lb st rq CHAT_COMPLETIONS_PATH body' raw is_stream
      (action_from_scan_result sr wd) ident"
    using relay_to_upstream_relays assms(2) relayed(2,3) by blast
  with that [of e t a b'] g show thesis by simp
qed

section \<open>What the messages carry\<close>

lemma py_eq_items_get:
  "py_eq_items d e \<Longrightarrow> dict_get d k = Some v \<Longrightarrow> \<exists>w. dict_get e k = Some w \<and> py_eq v w"
  by (induction d) (auto split: option.splits if_splits)

text \<open>A content that desensitising leaves equal has the texts of the desensitised one.\<close>

lemma desensitize_eq_parts:
  "py_eq (desensitize_content ps c) c \<Longrightarrow>
     extract_content_parts c = extract_content_parts (desensitize_content ps c)"
  "py_eq (desensitize_part ps i) i \<Longrightarrow>
     extract_item_parts i = extract_item_parts (desensitize_part ps i)"
proof (induction ps c and ps i rule: desensitize_content_desensitize_part.induct)
  case (1 ps c)
  show ?case
  proof (cases c)
    case (JList items)
    with "1.prems" have "list_all2 py_eq (map (desensitize_part ps) items) items"
      by (simp add: py_eq_list_iff)
    then have "\<forall>i\<in>set items. py_eq (desensitize_part ps i) i"
      by (auto simp: list_all2_conv_all_nth in_set_conv_nth)
    with "1.IH" [OF JList] have "map extract_item_parts items = map (\<lambda>i. extract_item_parts (desensitize_part ps i)) items"
      by auto
    with JList show ?thesis by (simp add: comp_def del: map_eq_conv)
  qed (use "1.prems" in auto)
next
  case (2 ps i)
  show ?case
  proof (cases i)
    case (JDict d)
    obtain d' where d': "desensitize_part ps i = JDict d'"
      by (simp add: JDict desensitize_part.simps Let_def)
    with "2.prems" JDict have items: "py_eq_items d' d" by simp
    have text': "dict_get d' (lit ''text'') = (case dict_get d (lit ''text'') of
        Some (JStr s) \<Rightarrow> Some (JStr (desensitize_text ps s)) | x \<Rightarrow> x)"
      using d' JDict by (auto simp: desensitize_part.simps Let_def split: option.splits json.splits)
    have content': "dict_get d' (lit ''content'') = map_option (desensitize_content ps) (dict_get d (lit ''content''))"
      using d' JDict by (auto simp: desensitize_part.simps Let_def split: option.splits json.splits)
    have content: "extract_content_parts c = extract_content_parts (desensitize_content ps c)"
      if "dict_get d (lit ''content'') = Some c" for c
    proof -
      have "py_eq (desensitize_content ps c) c"
        using py_eq_items_get [OF items, of "lit ''content''"] content' that by auto
      then show ?thesis using "2.IH" JDict that by blast
    qed
    show ?thesis
    proof (cases "\<exists>s. dict_get d (lit ''text'') = Some (JStr s)")
      case True
      then obtain s where s: "dict_get d (lit ''text'') = Some (JStr s)" by blast
      with text' py_eq_items_get [OF items, of "lit ''text''"] have "desensitize_text ps s = s" by auto
      with s text' show ?thesis by (simp add: JDict d' [unfolded JDict] extract_item_dict)
    next
      case False
      then have same: "dict_get d' (lit ''text'') = dict_get d (lit ''text'')"
        using text' by (auto split: option.splits json.splits)
      show ?thesis
        using content by (simp add: JDict d' [unfolded JDict] extract_item_dict same content'
            split: option.splits json.splits)
    qed
  qed (use "2.prems" in auto)
qed

definition phone_free_message :: "json \<Rightarrow> bool" where
  "phone_free_message m \<longleftrightarrow>
     (\<forall>d. m = JDict d \<longrightarrow> in_str_set (get_or d (lit ''role'') JNull) DESENSITIZE_ROLES = Inr True \<longrightarrow>
        (\<forall>p\<in>set (message_parts m). cn_free False p))"

definition phone_free_body :: "json \<Rightarrow> bool" where
  "phone_free_body body \<longleftrightarrow>
     (\<forall>ms. json_get body (lit ''messages'') JNull = JList ms \<longrightarrow> (\<forall>m\<in>set ms. phone_free_message m))"

lemma desensitized_message_free:
  assumes "desensitize_message PHONE_PATTERNS m = Inr m'"
  shows "phone_free_message m'"
  using desensitize_message_parts [OF assms] by (auto simp: phone_free_message_def)

lemma desensitized_message_same:
  assumes "desensitize_message PHONE_PATTERNS m = Inr m'" "py_eq m' m"
  shows "phone_free_message m"
proof (cases m)
  case (JDict d)
  show ?thesis unfolding phone_free_message_def
  proof (intro allI impI ballI)
    fix d2 p
    assume m: "m = JDict d2" and role: "in_str_set (get_or d2 (lit ''role'') JNull) DESENSITIZE_ROLES = Inr True"
      and p: "p \<in> set (message_parts m)"
    let ?c = "get_or d2 (lit ''content'') JNull"
    let ?c' = "desensitize_content PHONE_PATTERNS ?c"
    from assms(1) m role have m': "m' = JDict (dict_set d2 (lit ''content'') ?c')" by simp
    with assms(2) m have items: "py_eq_items (dict_set d2 (lit ''content'') ?c') d2" by simp
    from py_eq_items_get [OF items, of "lit ''content''" ?c'] have "py_eq ?c' ?c"
      by (auto simp: get_or_def)
    then have "extract_content_parts ?c = extract_content_parts ?c'" by (rule desensitize_eq_parts)
    with p m m' have "p \<in> set (message_parts m')" by (simp add: get_or_def)
    moreover have "in_str_set (get_or (dict_set d2 (lit ''content'') ?c') (lit ''role'') JNull) DESENSITIZE_ROLES = Inr True"
      using role by (simp add: get_or_def)
    ultimately show "cn_free False p"
      using desensitized_message_free [OF assms(1)] m' by (simp add: phone_free_message_def)
  qed
qed (simp_all add: phone_free_message_def)

text \<open>The scanner's patterns are the phone patterns when its desensitising rules are the shipped ones.\<close>

definition phone_rules :: "engine \<Rightarrow> bool" where
  "phone_rules e \<longleftrightarrow> map fst (desensitize_patterns (eng_regex e)) = PHONE_PATTERNS"

lemma desensitized_body_free:
  assumes "phone_rules e" "desensitize_chat_request_body (Some (engine_desensitizers e)) b = Inr b'"
  shows "phone_free_body (JDict b')" and "py_eq (JDict b') (JDict b) \<Longrightarrow> phone_free_body (JDict b)"
proof -
  have pats: "resolve_desensitize_patterns (Some (engine_desensitizers e)) = PHONE_PATTERNS"
    using assms(1) by (simp add: resolve_desensitize_patterns_def engine_desensitizers_def phone_rules_def)
  have ne: "PHONE_PATTERNS \<noteq> []" by (simp add: PHONE_PATTERNS_def)
  have cases: "(\<exists>ms ms'. dict_get b (lit ''messages'') = Some (JList ms) \<and>
      b' = dict_set b (lit ''messages'') (JList ms') \<and>
      list_all2 (\<lambda>m m'. desensitize_message PHONE_PATTERNS m = Inr m') ms ms') \<or>
    ((\<nexists>ms. dict_get b (lit ''messages'') = Some (JList ms)) \<and> b' = b)"
    using assms(2) by (auto simp: desensitize_chat_request_body_def pats ne Let_def rbind_eq_Inr rmap_Inr_iff
        split: option.splits json.splits)
  have free: "\<forall>m\<in>set ms'. phone_free_message m"
    if "list_all2 (\<lambda>m m'. desensitize_message PHONE_PATTERNS m = Inr m') ms ms'" for ms ms'
    using that by (induction rule: list_all2_induct) (auto intro: desensitized_message_free)
  from cases show "phone_free_body (JDict b')"
    using free by (fastforce simp: phone_free_body_def get_or_def split: option.splits)
  show "phone_free_body (JDict b)" if eq: "py_eq (JDict b') (JDict b)"
    using cases
  proof (elim disjE exE conjE)
    fix ms ms'
    assume ms: "dict_get b (lit ''messages'') = Some (JList ms)"
      and b': "b' = dict_set b (lit ''messages'') (JList ms')"
      and rel: "list_all2 (\<lambda>m m'. desensitize_message PHONE_PATTERNS m = Inr m') ms ms'"
    from eq b' have "py_eq_items (dict_set b (lit ''messages'') (JList ms')) b" by simp
    from py_eq_items_get [OF this, of "lit ''messages''" "JList ms'"] ms
    have "list_all2 py_eq ms' ms" by (simp add: py_eq_list_iff)
    with rel have "phone_free_message (ms ! i)" if "i < length ms" for i
      using that desensitized_message_same [of "ms ! i" "ms' ! i"] by (auto simp: list_all2_conv_all_nth)
    then have "\<forall>m\<in>set ms. phone_free_message m" by (auto simp: in_set_conv_nth)
    with ms show ?thesis by (simp add: phone_free_body_def get_or_def)
  next
    assume "\<nexists>ms. dict_get b (lit ''messages'') = Some (JList ms)"
    then show ?thesis by (auto simp: phone_free_body_def get_or_def split: option.splits)
  qed
qed

text \<open>The JSON value a payload carries, for the parser the relay used on the client's bytes.\<close>

fun payload_json :: "libs \<Rightarrow> payload \<Rightarrow> json option" where
  "payload_json lb No_Payload = None"
| "payload_json lb (Content raw) = lb_request_json lb raw"
| "payload_json lb (Json_Body j) = Some j"

lemma select_payload_free:
  assumes "phone_rules e" "desensitize_chat_request_body (Some (engine_desensitizers e)) b = Inr b'"
    and "lb_request_json lb raw = Some (JDict b)"
    and "payload_json lb (select_relay_payload m (JDict b') raw
           (action_from_scan_result (Some a) (\<not> py_eq (JDict b') (JDict b)))) = Some j"
    and "\<not> agg_blocked a"
  shows "phone_free_body j"
proof (cases "py_eq (JDict b') (JDict b)")
  case True
  with desensitized_body_free [OF assms(1,2)] assms(3,4) show ?thesis
    by (auto simp: select_relay_payload_def split: if_splits)
next
  case False
  with desensitized_body_free(1) [OF assms(1,2)] assms(4,5) show ?thesis
    by (auto simp: select_relay_payload_def action_from_scan_result_def split: if_splits)
qed

section \<open>The whole handler on the chat path\<close>

definition chat_path :: "str \<Rightarrow> bool" where
  "chat_path upstream_path \<longleftrightarrow> lit ''/v1/'' @ strip_by (\<lambda>c. c = 47) upstream_path = CHAT_COMPLETIONS_PATH"

lemma chat_path_known: "CHAT_COMPLETIONS_PATH \<in> set KNOWN_JSON_ENDPOINTS"
  by (simp add: CHAT_COMPLETIONS_PATH_def KNOWN_JSON_ENDPOINTS_def)

lemma read_chat_body:
  assumes "read_request_body lb rq CHAT_COMPLETIONS_PATH = Inr (body, raw)"
  shows "body = JNull \<and> raw = [] \<or>
    (\<exists>b. body = JDict b \<and> rq_body rq = Body raw \<and> lb_request_json lb raw = Some (JDict b))"
proof -
  have "is_dict x \<Longrightarrow> \<exists>b. x = JDict b" for x by (cases x) auto
  with assms chat_path_known show ?thesis
    by (auto simp: read_request_body_def Let_def split: if_splits arrival.splits option.splits)
qed

definition streams :: "json \<Rightarrow> bool" where
  "streams body \<longleftrightarrow> truthy (json_get body (lit ''stream'') (JBool False))"

lemma relay_chat_path:
  assumes "chat_path up"
  shows "relay_openai_compatible lb st us rq up w =
    (case read_request_body lb rq CHAT_COMPLETIONS_PATH of
       Inl e \<Rightarrow> (w, Inl e)
     | Inr (body, raw) \<Rightarrow>
         relay_chat lb st us rq body raw (streams body) (require_request_identity (rq_identity rq)) w)"
proof -
  have "strip_by (\<lambda>c. c = 47) up \<noteq> []"
    using assms by (auto simp: chat_path_def CHAT_COMPLETIONS_PATH_def)
  with assms show ?thesis
    by (simp add: relay_openai_compatible_def chat_path_def Let_def streams_def split: sum.splits)
qed

lemma relay_chat_null:
  assumes "relay_chat lb st us rq JNull [] is_stream ident w = (w', r)" "relays w w' r ur"
  shows "up_payload ur = No_Payload"
  using assms(1)
proof (cases rule: relay_chat_cases)
  case (failed e)
  with assms(2) show ?thesis by (simp add: relays_def)
next
  case (blocked fake a t)
  with assms(2) show ?thesis by (simp add: relays_def)
next
  case (relayed body' sr t dt wd w1 w2)
  from relayed(1) have "body' = JNull"
    by (auto simp: inspect_chat_def rbind_eq_Inr)
  with relay_to_upstream_relays [OF relayed(4) assms(2) relayed(2,3)] show ?thesis
    by (simp add: select_relay_payload_def)
qed

text \<open>A chat request that carries JSON upstream was a JSON object, scanned and not blocked.\<close>

lemma relay_openai_chat:
  assumes "chat_path up" "relay_openai_compatible lb st us rq up w = (w', r)" "relays w w' r ur"
    and "payload_json lb (up_payload ur) = Some j"
  obtains raw b e a b' t where "rq_body rq = Body raw" "lb_request_json lb raw = Some (JDict b)"
    "app_engine st = Some e"
    "extract_latest_text_from_request CHAT_COMPLETIONS_PATH (JDict b) = Inr t" "t \<noteq> []"
    "scan_of lb e t = Inr a" "\<not> agg_blocked a"
    "desensitize_chat_request_body (Some (engine_desensitizers e)) b = Inr b'"
    "ur = upstream_request_of lb st rq CHAT_COMPLETIONS_PATH (JDict b') raw (streams (JDict b))
       (action_from_scan_result (Some a) (\<not> py_eq (JDict b') (JDict b)))
       (require_request_identity (rq_identity rq))"
proof -
  have "read_request_body lb rq CHAT_COMPLETIONS_PATH \<noteq> Inl e" for e
    using assms(2,3) by (auto simp: relay_chat_path [OF assms(1)] relays_def)
  then obtain body raw where read: "read_request_body lb rq CHAT_COMPLETIONS_PATH = Inr (body, raw)"
    by (cases "read_request_body lb rq CHAT_COMPLETIONS_PATH") auto
  with assms(2) have chat: "relay_chat lb st us rq body raw (streams body)
      (require_request_identity (rq_identity rq)) w = (w', r)"
    by (simp add: relay_chat_path [OF assms(1)])
  from read_chat_body [OF read] obtain b where b: "body = JDict b" "rq_body rq = Body raw"
    "lb_request_json lb raw = Some (JDict b)"
    using relay_chat_null chat assms(3,4) by fastforce
  show thesis
    by (rule relay_chat_relays [OF chat [unfolded b(1)] assms(3)]) (rule that [OF b(2,3)])
qed

text \<open>A block-level result always selects the blocking template.\<close>

lemma generate_blocked:
  assumes "agg_blocked a"
  shows "generate_fake_response dumps hex8 now b a is_stream =
    Inr (if is_stream then Fake_Stream (stream_fake_chunks dumps hex8 now TEMPLATE_BLOCK
             (get_or b (lit ''model'') (JStr (lit ''gpt-3.5-turbo''))))
         else Fake_Json (build_non_stream_response hex8 now TEMPLATE_BLOCK
             (get_or b (lit ''model'') (JStr (lit ''gpt-3.5-turbo'')))))"
proof -
  from assms obtain r where r: "block_result a = Some r" using block_result_iff by blast
  then have "level r = JStr (lit ''block'')"
    using block_result_Some by (fastforce simp: blocked1_def)
  with r show ?thesis by (simp add: generate_fake_response_def select_result_def)
qed

lemma relay_chat_blocked:
  assumes "extract_latest_text_from_request CHAT_COMPLETIONS_PATH (JDict b) = Inr t" "t \<noteq> []"
    and "app_engine st = Some e" "scan_of lb e t = Inr a" "agg_blocked a"
  shows "\<exists>w' fake. relay_chat lb st us rq (JDict b) raw is_stream ident w = (w', Inr (Fake_Answer fake)) \<and>
    upstream_calls w' = upstream_calls w \<and>
    generate_fake_response (lb_dumps lb) (lb_fake_hex8 lb) (lb_now lb) b a is_stream = Inr fake"
proof -
  have "scan_chat lb st t = Inr (Some a)" using assms by (auto simp: scan_chat_Some)
  with assms(1,5) generate_blocked [OF assms(5)] show ?thesis
    by (auto simp: relay_chat_def inspect_chat_def blocked_scan_def Let_def)
qed

text \<open>A scan that raises ends the request before anything is sent.\<close>

lemma relay_chat_scan_error:
  assumes "extract_latest_text_from_request CHAT_COMPLETIONS_PATH (JDict b) = Inr t" "t \<noteq> []"
    and "app_engine st = Some e" "scan_of lb e t = Inl x"
  shows "relay_chat lb st us rq (JDict b) raw is_stream ident w = (w, Inl x)"
  using assms by (simp add: relay_chat_def inspect_chat_def scan_chat_def scan_of_def)

section \<open>Other paths\<close>

lemma relay_other_path:
  assumes "\<not> chat_path up" "read_request_body lb rq (lit ''/v1/'' @ strip_by (\<lambda>c. c = 47) up) = Inr (body, raw)"
    and "relay_openai_compatible lb st us rq up w = (w', r)" "relays w w' r ur"
  shows "ur = upstream_request_of lb st rq (lit ''/v1/'' @ strip_by (\<lambda>c. c = 47) up) body raw (streams body)
    (lit ''passed'') (require_request_identity (rq_identity rq))"
proof -
  let ?path = "lit ''/v1/'' @ strip_by (\<lambda>c. c = 47) up"
  have ne: "strip_by (\<lambda>c. c = 47) up \<noteq> []"
    using assms(3,4) by (auto simp: relay_openai_compatible_def Let_def relays_def)
  obtain w2 r2 where eq: "relay_to_upstream lb st us rq ?path body raw (streams body) body None
      (lit ''passed'') (require_request_identity (rq_identity rq)) w = (w2, r2)"
    by fastforce
  with assms(1,2,3) ne have "r = r2" "upstream_calls w' = upstream_calls w2"
    by (auto simp: relay_openai_compatible_def Let_def chat_path_def streams_def split: sum.splits if_splits)
  with relay_to_upstream_relays [OF eq, of w w' ur] assms(4) show ?thesis by simp
qed

section \<open>The archive of a stream\<close>

lemma collector_payload_content:
  "json_get (collector_payload decode loads c) (lit ''content'') JNull = JStr (decode (concat (chunks c)))"
  "json_get (collector_payload decode loads c) (lit ''truncated'') JNull = JBool (original_bytes c > max_bytes c)"
  by (simp_all add: collector_payload_def Let_def get_or_def)

lemma log_effect_fields [simp]:
  "wd_queue (log_effect e w) = wd_queue w" "wd_effects (log_effect e w) = wd_effects w @ [e]"
  by (simp_all add: log_effect_def)

lemma close_client_effects [simp]: "x \<in> set (wd_effects w) \<Longrightarrow> x \<in> set (wd_effects (close_client b w))"
  by (simp add: close_client_def)

text \<open>Where a dispatched item goes: into the queue while that has room, else to a task of its own when
  there is a writer.\<close>

definition queued :: "world \<Rightarrow> queue_item list" where
  "queued w = (case wd_queue w of None \<Rightarrow> [] | Some q \<Rightarrow> ff_items (qu_queue q))"

definition queue_has_room :: "world \<Rightarrow> bool" where
  "queue_has_room w \<longleftrightarrow> (case wd_queue w of None \<Rightarrow> False | Some q \<Rightarrow> length (queued w) < ff_max (qu_queue q))"

lemma dispatch_item_queued: "queue_has_room w \<Longrightarrow> queued (dispatch_item writer item w) = queued w @ [item]"
  by (simp add: queue_has_room_def queued_def dispatch_item_def enqueue_def put_nowait_def split: option.splits)

lemma dispatch_item_task:
  "\<not> queue_has_room w \<Longrightarrow> Write_Task item \<in> set (wd_effects (dispatch_item True item w))"
  by (simp add: queue_has_room_def queued_def dispatch_item_def enqueue_def put_nowait_def Let_def
      split: option.splits)

lemma queue_fields_kept [simp]:
  "queued (log_effect e w) = queued w" "queue_has_room (log_effect e w) = queue_has_room w"
  "queued (close_client b w) = queued w"
  by (auto simp: queued_def queue_has_room_def close_client_def split: option.splits)

lemma archive_payload_response [simp]:
  "ar_response (archive_payload_of lb rq original rb resp sr act is_stream ident) = resp"
  by (simp add: archive_payload_of_def)

lemma run_stream_archive:
  assumes "run_stream lb st us rq job n w = (w', sent, x)" "n > 0" "sj_archive job = Some ax"
    and "ax_original_body ax = JDict b" "app_capture_enabled st"
  shows "\<exists>p. ar_response p = collector_payload (lb_decode lb) (lb_loads lb)
      (collect_all (app_stream_archive_max_bytes st) sent) \<and>
    (if queue_has_room w then queued w' = queued w @ [Archive_Item p]
     else app_training_writer st \<longrightarrow> Write_Task (Archive_Item p) \<in> set (wd_effects w'))"
proof -
  let ?p = "archive_payload_of lb rq b (ax_archive_body ax)
      (collector_payload (lb_decode lb) (lb_loads lb) (collect_all (app_stream_archive_max_bytes st) sent))
      (ax_scan_result ax) (ax_action_taken ax) True (ax_identity ax)"
  obtain cs err where up: "proxy_stream (lb_render lb) (lb_decode lb) (us_stream us (sj_request job)) = (cs, err)"
    by fastforce
  with assms have "w' = close_client (sj_client_owner job)
      (dispatch_item (app_training_writer st) (Archive_Item ?p) (log_effect (Upstream_Stream (sj_request job)) w))"
    by (auto simp: run_stream_def Let_def write_chat_archive_def)
  then show ?thesis by (intro exI [of _ ?p]) (simp add: dispatch_item_queued dispatch_item_task)
qed

end
