(* ===== verification/Auth.thy ===== *)
theory Auth
  imports Prelude
begin

text \<open>
  Access to the administration (\<open>middleware/auth.py\<close>): the IP whitelist, the signed session cookie,
  basic credentials, the static pages' middleware and the API's dependency. Parameters: the HMAC
  (\<open>hmac secret payload\<close>, in hexadecimal), base64, \<open>ipaddress\<close> (\<open>in_network\<close> is \<open>None\<close> when the
  network does not parse), \<open>int\<close> and \<open>str\<close> on decimal digits, URL quoting and the clock.
\<close>

section \<open>Data\<close>

record auth_settings =
  au_username :: str
  au_password :: str
  au_app_name :: str
  au_ip_whitelist :: "str list"

record auth_libs =
  li_hmac :: "str \<Rightarrow> str \<Rightarrow> str"
  li_b64decode :: "str \<Rightarrow> str option"
  li_is_ip :: "str \<Rightarrow> bool"
  li_in_network :: "str \<Rightarrow> str \<Rightarrow> bool option"
  li_int :: "str \<Rightarrow> int option"
  li_str :: "int \<Rightarrow> str"
  li_quote :: "str \<Rightarrow> str"

record credentials =
  cr_username :: str
  cr_password :: str

record admin_request =
  ad_path :: str
  ad_client_host :: "str option"
  ad_session_cookie :: str
  ad_authorization :: str
  ad_now :: int

definition ADMIN_SESSION_MAX_AGE :: int where
  "ADMIN_SESSION_MAX_AGE = 8 * 60 * 60"

definition ADMIN_LOGIN_PATH :: str where
  "ADMIN_LOGIN_PATH = lit ''/admin/login.html''"

definition PUBLIC_ADMIN_STATIC_PATHS :: "str list" where
  "PUBLIC_ADMIN_STATIC_PATHS = [ADMIN_LOGIN_PATH, lit ''/admin/css/style.css'', lit ''/admin/js/app.js'']"

definition PUBLIC_ADMIN_API_PATHS :: "str list" where
  "PUBLIC_ADMIN_API_PATHS = [lit ''/admin/api/login'', lit ''/admin/api/logout'']"

text \<open>\<open>secrets.compare_digest\<close> on two strings raises \<open>TypeError\<close> unless both are ASCII.\<close>

definition ascii_only :: "str \<Rightarrow> bool" where
  "ascii_only s \<longleftrightarrow> list_all (\<lambda>c. c < 128) s"

definition compare_digest :: "str \<Rightarrow> str \<Rightarrow> bool res" where
  "compare_digest a b = (if ascii_only a \<and> ascii_only b then Inr (a = b) else Inl Type_Error)"

section \<open>The session cookie\<close>

definition session_signature :: "auth_libs \<Rightarrow> str \<Rightarrow> auth_settings \<Rightarrow> str" where
  "session_signature li payload st =
     li_hmac li (if au_password st \<noteq> [] then au_password st else au_app_name st) payload"

definition create_admin_session_cookie :: "auth_libs \<Rightarrow> int \<Rightarrow> str \<Rightarrow> auth_settings \<Rightarrow> str" where
  "create_admin_session_cookie li now admin_user st =
     (let payload = admin_user @ lit '':'' @ li_str li now
      in payload @ lit '':'' @ session_signature li payload st)"

text \<open>\<open>cookie_value.split(":", 2)\<close>, or three empty strings when there are fewer parts.\<close>

definition split_session_cookie :: "str \<Rightarrow> str \<times> str \<times> str" where
  "split_session_cookie cookie_value =
     (case partition_at 58 cookie_value of
        (a, True, rest) \<Rightarrow>
          (case partition_at 58 rest of (b, True, d) \<Rightarrow> (a, b, d) | _ \<Rightarrow> ([], [], []))
      | _ \<Rightarrow> ([], [], []))"

definition admin_user_from_session_cookie :: "auth_libs \<Rightarrow> admin_request \<Rightarrow> auth_settings \<Rightarrow> str res" where
  "admin_user_from_session_cookie li rq st =
     (if ad_session_cookie rq = [] then Inr []
      else (let (username, issued_at, signature) = split_session_cookie (ad_session_cookie rq) in
        if username = [] \<or> issued_at = [] \<or> signature = [] then Inr []
        else rbind (compare_digest signature
                      (session_signature li (username @ lit '':'' @ issued_at) st)) (\<lambda>ok.
          if \<not> ok then Inr []
          else (case li_int li issued_at of
                  None \<Rightarrow> Inr []
                | Some issued_at_seconds \<Rightarrow>
                    if issued_at_seconds + ADMIN_SESSION_MAX_AGE < ad_now rq then Inr []
                    else rbind (compare_digest username (au_username st)) (\<lambda>same.
                      Inr (if same then username else []))))))"

section \<open>Credentials\<close>

definition validate_admin_login :: "str \<Rightarrow> str \<Rightarrow> auth_settings \<Rightarrow> bool res" where
  "validate_admin_login username password st =
     (if au_password st = [] then Inr False
      else rbind (compare_digest username (au_username st)) (\<lambda>username_valid.
           rbind (compare_digest password (au_password st)) (\<lambda>password_valid.
           Inr (username_valid \<and> password_valid))))"

definition unauthorized_error :: exn where
  "unauthorized_error = Http_Error 401 (lit ''Admin authentication required'')"

definition validate_admin_credentials :: "credentials option \<Rightarrow> auth_settings \<Rightarrow> unit res" where
  "validate_admin_credentials cr st =
     (case cr of
        None \<Rightarrow> Inl unauthorized_error
      | Some c \<Rightarrow> rbind (validate_admin_login (cr_username c) (cr_password c) st) (\<lambda>ok.
          if ok then Inr () else Inl unauthorized_error))"

definition credentials_from_authorization :: "auth_libs \<Rightarrow> str \<Rightarrow> credentials option" where
  "credentials_from_authorization li authorization =
     (case partition_at 32 authorization of (scheme, _, encoded) \<Rightarrow>
        if scheme = [] \<or> encoded = [] \<or> lower scheme \<noteq> lit ''basic'' then None
        else (case li_b64decode li encoded of
                None \<Rightarrow> None
              | Some decoded \<Rightarrow>
                  (case partition_at 58 decoded of (username, separator, password) \<Rightarrow>
                     if \<not> separator then None
                     else Some \<lparr>cr_username = username, cr_password = password\<rparr>)))"

definition authenticated_admin_user ::
    "auth_libs \<Rightarrow> admin_request \<Rightarrow> auth_settings \<Rightarrow> credentials option \<Rightarrow> str res" where
  "authenticated_admin_user li rq st cr =
     (case cr of
        Some c \<Rightarrow> rbind (validate_admin_credentials (Some c) st) (\<lambda>_. Inr (cr_username c))
      | None \<Rightarrow>
          rbind (admin_user_from_session_cookie li rq st) (\<lambda>session_user.
          if session_user \<noteq> [] then Inr session_user
          else (let cr' = credentials_from_authorization li (ad_authorization rq) in
                rbind (validate_admin_credentials cr' st) (\<lambda>_.
                Inr (case cr' of Some c \<Rightarrow> cr_username c | None \<Rightarrow> [])))))"

section \<open>The whitelist\<close>

fun ip_allowed_loop :: "auth_libs \<Rightarrow> str \<Rightarrow> str list \<Rightarrow> bool res" where
  "ip_allowed_loop li client_host [] = Inr False"
| "ip_allowed_loop li client_host (item # items) =
     rbind (compare_digest client_host item) (\<lambda>same.
     if same then Inr True
     else if \<not> li_is_ip li client_host then ip_allowed_loop li client_host items
     else (case li_in_network li client_host item of
             Some True \<Rightarrow> Inr True
           | _ \<Rightarrow> ip_allowed_loop li client_host items))"

definition validate_admin_ip :: "auth_libs \<Rightarrow> admin_request \<Rightarrow> str list \<Rightarrow> unit res" where
  "validate_admin_ip li rq whitelist =
     (if whitelist = [] then Inr ()
      else (let client_host = (case ad_client_host rq of Some h \<Rightarrow> h | None \<Rightarrow> []) in
        if client_host = [] then Inl (Http_Error 403 (lit ''Admin access denied''))
        else rbind (ip_allowed_loop li client_host whitelist) (\<lambda>ok.
          if ok then Inr () else Inl (Http_Error 403 (lit ''Admin access denied'')))))"

section \<open>Entry points\<close>

datatype admin_answer =
    Admitted "str option"
  | Redirect str
  | Refused nat str
  | Admin_Raised exn

definition admin_check :: "auth_libs \<Rightarrow> admin_request \<Rightarrow> auth_settings \<Rightarrow> credentials option \<Rightarrow> str res" where
  "admin_check li rq st cr =
     rbind (validate_admin_ip li rq (au_ip_whitelist st)) (\<lambda>_. authenticated_admin_user li rq st cr)"

text \<open>\<open>AdminStaticAuthMiddleware.dispatch\<close>.\<close>

definition static_dispatch :: "auth_libs \<Rightarrow> admin_request \<Rightarrow> auth_settings \<Rightarrow> admin_answer" where
  "static_dispatch li rq st =
     (if \<not> startswith (ad_path rq) (lit ''/admin'') \<or> startswith (ad_path rq) (lit ''/admin/api'') \<or>
         ad_path rq \<in> set PUBLIC_ADMIN_STATIC_PATHS then Admitted None
      else (case admin_check li rq st None of
              Inr user \<Rightarrow> Admitted (Some user)
            | Inl (Http_Error code detail) \<Rightarrow>
                if code = 401 then Redirect (ADMIN_LOGIN_PATH @ lit ''?next='' @ li_quote li (ad_path rq))
                else Refused code detail
            | Inl e \<Rightarrow> Admin_Raised e))"

text \<open>\<open>require_admin_access\<close>, the dependency of the API; \<open>cr\<close> is what \<open>HTTPBasic\<close> parsed.\<close>

definition require_admin_access ::
    "auth_libs \<Rightarrow> admin_request \<Rightarrow> auth_settings \<Rightarrow> credentials option \<Rightarrow> str option res" where
  "require_admin_access li rq st cr =
     (if ad_path rq \<in> set PUBLIC_ADMIN_API_PATHS then Inr None
      else rbind (admin_check li rq st cr) (\<lambda>user. Inr (Some user)))"

definition admin_static_cache_header :: "str \<Rightarrow> str option" where
  "admin_static_cache_header path =
     (let normalized_path = strip_by (\<lambda>c. c = 47) path in
      if normalized_path = [] \<or> endswith normalized_path (lit ''.html'') then Some (lit ''no-store'')
      else if endswith normalized_path (lit ''.js'') \<or> endswith normalized_path (lit ''.css'')
        then Some (lit ''no-cache, must-revalidate'')
      else None)"

section \<open>Facts\<close>

lemma compare_digest_True: "compare_digest a b = Inr True \<Longrightarrow> a = b"
  by (simp add: compare_digest_def split: if_splits)

lemma partition_at_colon: "c \<notin> set a \<Longrightarrow> partition_at c (a @ c # rest) = (a, True, rest)"
  by (simp add: partition_at_def takeWhile_append dropWhile_append)

lemma split_session_three:
  "58 \<notin> set u \<Longrightarrow> 58 \<notin> set i \<Longrightarrow> split_session_cookie (u @ lit '':'' @ i @ lit '':'' @ s) = (u, i, s)"
  by (simp add: split_session_cookie_def lit_def partition_at_colon)

lemma session_cookie_accepted:
  assumes "58 \<notin> set (au_username st)" "au_username st \<noteq> []" "ascii_only (au_username st)"
    and "58 \<notin> set (li_str li issued)" "li_str li issued \<noteq> []" "li_int li (li_str li issued) = Some issued"
    and "\<And>k m. li_hmac li k m \<noteq> [] \<and> ascii_only (li_hmac li k m)"
    and "ad_session_cookie rq = create_admin_session_cookie li issued (au_username st) st"
  shows "admin_user_from_session_cookie li rq st =
    Inr (if issued + ADMIN_SESSION_MAX_AGE < ad_now rq then [] else au_username st)"
proof -
  let ?sig = "session_signature li (au_username st @ lit '':'' @ li_str li issued) st"
  have "split_session_cookie (ad_session_cookie rq) = (au_username st, li_str li issued, ?sig)"
    using split_session_three [OF assms(1,4)] assms(8) by (simp add: create_admin_session_cookie_def Let_def)
  moreover have "ad_session_cookie rq \<noteq> []"
    using assms(2,8) by (simp add: create_admin_session_cookie_def Let_def)
  moreover have "?sig \<noteq> []" "ascii_only ?sig" using assms(7) by (simp_all add: session_signature_def)
  ultimately show ?thesis
    using assms(2,3,5,6) by (simp add: admin_user_from_session_cookie_def compare_digest_def)
qed

text \<open>Whoever is taken for the administrator showed a cookie signed with the secret and not older
  than its age, or the configured name and password.\<close>

lemma session_user_signed:
  assumes "admin_user_from_session_cookie li rq st = Inr u" "u \<noteq> []"
  obtains i s where "split_session_cookie (ad_session_cookie rq) = (u, i, session_signature li (u @ lit '':'' @ i) st)"
    "u = au_username st" "li_int li i = Some s" "ad_now rq \<le> s + ADMIN_SESSION_MAX_AGE"
proof -
  obtain a b c where sp: "split_session_cookie (ad_session_cookie rq) = (a, b, c)"
    by (cases "split_session_cookie (ad_session_cookie rq)")
  let ?sig = "session_signature li (a @ lit '':'' @ b) st"
  have "compare_digest c ?sig = Inr True \<and> (\<exists>s. li_int li b = Some s \<and>
      \<not> s + ADMIN_SESSION_MAX_AGE < ad_now rq \<and> compare_digest a (au_username st) = Inr True \<and> u = a)"
    using assms(1) unfolding admin_user_from_session_cookie_def sp Let_def prod.case
    by (cases "ad_session_cookie rq = [] \<or> a = [] \<or> b = [] \<or> c = []"; cases "compare_digest c ?sig";
        cases "li_int li b"; cases "compare_digest a (au_username st)")
      (use assms(2) in \<open>auto split: if_splits\<close>)
  then obtain s where s: "compare_digest c ?sig = Inr True"
    "li_int li b = Some s" "\<not> s + ADMIN_SESSION_MAX_AGE < ad_now rq"
    "compare_digest a (au_username st) = Inr True" "u = a" by blast
  from compare_digest_True [OF s(1)] compare_digest_True [OF s(4)] sp s
  have "split_session_cookie (ad_session_cookie rq) = (u, b, session_signature li (u @ lit '':'' @ b) st)"
    "u = au_username st" "li_int li b = Some s" "ad_now rq \<le> s + ADMIN_SESSION_MAX_AGE" by auto
  then show thesis by (rule that)
qed

lemma login_valid:
  "validate_admin_login u p st = Inr True \<longleftrightarrow>
   p \<noteq> [] \<and> u = au_username st \<and> p = au_password st \<and> ascii_only u \<and> ascii_only p"
  by (auto simp: validate_admin_login_def compare_digest_def)

lemma credentials_valid:
  "validate_admin_credentials cr st = Inr () \<longleftrightarrow>
   (\<exists>c. cr = Some c \<and> validate_admin_login (cr_username c) (cr_password c) st = Inr True)"
  by (auto simp: validate_admin_credentials_def rbind_eq_Inr split: option.splits)

lemma authenticated_cases:
  assumes "authenticated_admin_user li rq st cr = Inr u"
  shows "(u \<noteq> [] \<and> admin_user_from_session_cookie li rq st = Inr u) \<or>
    (u = au_username st \<and> au_password st \<noteq> [] \<and>
     (\<exists>c. (cr = Some c \<or> credentials_from_authorization li (ad_authorization rq) = Some c) \<and>
        cr_username c = au_username st \<and> cr_password c = au_password st))"
  using assms
  by (auto simp: authenticated_admin_user_def rbind_eq_Inr credentials_valid login_valid Let_def
      split: option.splits if_splits)

lemma ip_allowed_item:
  "ip_allowed_loop li h items = Inr True \<Longrightarrow>
   \<exists>item\<in>set items. h = item \<or> li_is_ip li h \<and> li_in_network li h item = Some True"
proof (induction items)
  case (Cons item items)
  then show ?case
    by (cases "compare_digest h item") (auto split: if_splits option.splits bool.splits dest: compare_digest_True)
qed simp

lemma validate_admin_ip_ok:
  assumes "validate_admin_ip li rq wl = Inr ()" "wl \<noteq> []"
  shows "\<exists>h. ad_client_host rq = Some h \<and>
    (\<exists>item\<in>set wl. h = item \<or> li_is_ip li h \<and> li_in_network li h item = Some True)"
  using assms ip_allowed_item [of li _ wl]
  by (auto simp: validate_admin_ip_def Let_def rbind_eq_Inr split: if_splits option.splits)

end
