(* ===== verification/Governance.thy ===== *)
theory Governance
  imports Audit_Log Training
begin

text \<open>
  Data governance (\<open>storage/data_governance.py\<close>): the coverage analysis, which marks a conversation
  as covered when a later one of the same user and key continues it, and the retention cleanup.
  Parameters: \<open>loads\<close> (JSON), the clock readings of the loop, whether another request asked the job
  to stop, and whether each transaction commits.
\<close>

section \<open>Trajectories\<close>

definition parse_trajectory :: "(str \<Rightarrow> json option) \<Rightarrow> str \<Rightarrow> json list" where
  "parse_trajectory loads v =
     (if v = [] then []
      else (case loads v of Some (JList xs) \<Rightarrow> xs | _ \<Rightarrow> []))"

definition is_prefix_trajectory :: "json list \<Rightarrow> json list \<Rightarrow> bool" where
  "is_prefix_trajectory candidate trajectory \<longleftrightarrow>
     candidate \<noteq> [] \<and> length candidate < length trajectory \<and>
     py_eq_list (take (length candidate) trajectory) candidate"

section \<open>Marking\<close>

definition candidate_conversations :: "training_table \<Rightarrow> conversation \<Rightarrow> conversation list" where
  "candidate_conversations t c =
     sort_key (\<lambda>r. - tc_id r)
       (filter (\<lambda>r. tc_id r \<noteq> tc_id c \<and> tc_covered_by r = [] \<and> tc_user_id r = tc_user_id c \<and>
          tc_api_key_id r = tc_api_key_id c \<and> tc_id r < tc_id c) t)"

text \<open>The state of the marking: the table (the session's objects are its rows), the ids known to be
  covered, the number marked.\<close>

type_synonym marking = "training_table \<times> int list \<times> nat"

definition set_covered :: "str \<Rightarrow> conversation \<Rightarrow> conversation" where
  "set_covered cid r = r\<lparr>tc_covered_by := cid\<rparr>"

fun mark_candidates :: "(str \<Rightarrow> json option) \<Rightarrow> conversation \<Rightarrow> json list \<Rightarrow> conversation list \<Rightarrow> marking \<Rightarrow> marking" where
  "mark_candidates loads c trajectory [] m = m"
| "mark_candidates loads c trajectory (cand # cs) (t, covered, marked) =
     (if tc_id cand \<in> set covered \<or> tc_covered_by cand \<noteq> []
        then mark_candidates loads c trajectory cs (t, tc_id cand # covered, marked)
      else if is_prefix_trajectory (parse_trajectory loads (tc_trajectory cand)) trajectory
        then mark_candidates loads c trajectory cs
               (tbl_update tc_id (tc_id cand) (set_covered (tc_conversation_id c)) t,
                tc_id cand # covered, marked + 1)
      else mark_candidates loads c trajectory cs (t, covered, marked))"

definition mark_conversation :: "(str \<Rightarrow> json option) \<Rightarrow> marking \<Rightarrow> conversation \<Rightarrow> marking" where
  "mark_conversation loads m c =
     (case m of (t, covered, marked) \<Rightarrow>
        if tc_id c \<in> set covered then m
        else (let trajectory = parse_trajectory loads (tc_trajectory c) in
              if length trajectory < 2 then m
              else mark_candidates loads c trajectory (candidate_conversations t c) m))"

definition mark_group :: "(str \<Rightarrow> json option) \<Rightarrow> training_table \<times> nat \<Rightarrow> conversation list \<Rightarrow> training_table \<times> nat" where
  "mark_group loads tm grp =
     (case tm of (t, marked) \<Rightarrow>
        (let covered = map tc_id (filter (\<lambda>c. tc_covered_by c \<noteq> []) grp) in
         (case foldl (mark_conversation loads) (t, covered, marked) (sort_key (\<lambda>c. - tc_id c) grp) of
            (t', _, marked') \<Rightarrow> (t', marked'))))"

definition group_key :: "conversation \<Rightarrow> str \<times> str" where
  "group_key c = (tc_user_id c, tc_api_key_id c)"

text \<open>\<open>groups.setdefault(...)\<close>: the groups in order of first appearance.\<close>

definition groups_of :: "conversation list \<Rightarrow> conversation list list" where
  "groups_of cs = map (\<lambda>k. filter (\<lambda>c. group_key c = k) cs) (rev (remdups (rev (map group_key cs))))"

definition mark_covered_by_group ::
    "(str \<Rightarrow> json option) \<Rightarrow> training_table \<Rightarrow> conversation list \<Rightarrow> training_table \<times> nat" where
  "mark_covered_by_group loads t conversations =
     foldl (mark_group loads) (t, 0) (groups_of conversations)"

section \<open>The coverage job\<close>

record coverage_config =
  co_max_seconds :: int
  co_max_records :: int
  co_batch_size :: int

record coverage_env =
  ce_loads :: "str \<Rightarrow> json option"
  ce_elapsed :: "nat \<Rightarrow> rat"
  ce_stop :: "nat \<Rightarrow> bool"
  ce_commits :: "nat \<Rightarrow> bool"
  ce_now :: int

record coverage_state =
  cs_training :: training_table
  cs_processed :: int
  cs_marked :: nat
  cs_cursor :: int

definition next_batch :: "coverage_config \<Rightarrow> coverage_state \<Rightarrow> conversation list" where
  "next_batch cfg s =
     (let batch_limit = min (max (co_batch_size cfg) 1) (co_max_records cfg - cs_processed s) in
      take (nat batch_limit) (sort_key tc_id
        (filter (\<lambda>c. tc_analysis_status c = lit ''pending'' \<and> tc_id c > cs_cursor s) (cs_training s))))"

definition mark_analyzed :: "int \<Rightarrow> conversation \<Rightarrow> conversation" where
  "mark_analyzed now c = c\<lparr>tc_analysis_status := lit ''analyzed'', tc_analyzed_at := Some now\<rparr>"

definition process_batch_rows :: "coverage_env \<Rightarrow> conversation list \<Rightarrow> coverage_state \<Rightarrow> coverage_state" where
  "process_batch_rows env conversations s =
     (case mark_covered_by_group (ce_loads env) (cs_training s) conversations of
        (t, n) \<Rightarrow>
          s\<lparr>cs_training := map (\<lambda>r. if tc_id r \<in> tc_id ` set conversations then mark_analyzed (ce_now env) r else r) t,
            cs_processed := cs_processed s + int (length conversations),
            cs_marked := cs_marked s + n,
            cs_cursor := tc_id (last conversations)\<rparr>)"

text \<open>The loop. An exception of the commit undoes the batch in the table, but the counters of the
  function keep it. The number returned counts the rounds, for the clock reading after the loop.\<close>

lemma next_batch_bound:
  assumes "cs_processed s < co_max_records cfg"
  shows "int (length (next_batch cfg s)) \<le> co_max_records cfg - cs_processed s"
proof -
  have "length (next_batch cfg s) \<le> nat (min (max (co_batch_size cfg) 1) (co_max_records cfg - cs_processed s))"
    by (simp add: next_batch_def)
  with assms show ?thesis by linarith
qed

lemma process_batch_rows_processed [simp]:
  "cs_processed (process_batch_rows env b s) = cs_processed s + int (length b)"
  by (simp add: process_batch_rows_def split: prod.splits)

function coverage_loop :: "coverage_env \<Rightarrow> coverage_config \<Rightarrow> nat \<Rightarrow> coverage_state \<Rightarrow> coverage_state \<times> str \<times> nat" where
  "coverage_loop env cfg k s =
     (if \<not> (cs_processed s < co_max_records cfg \<and> ce_elapsed env k < of_int (co_max_seconds cfg))
        then (s, lit ''completed'', k)
      else if ce_stop env k then (s, lit ''stopped'', k)
      else (let conversations = next_batch cfg s in
            if conversations = [] then (s, lit ''completed'', k)
            else if \<not> ce_commits env k
              then ((process_batch_rows env conversations s)\<lparr>cs_training := cs_training s\<rparr>, lit ''failed'', k)
            else coverage_loop env cfg (Suc k) (process_batch_rows env conversations s)))"
  by pat_completeness auto
termination
  by (relation "measure (\<lambda>(env, cfg, k, s). nat (co_max_records cfg - cs_processed s))")
    (auto simp: length_greater_0_conv [symmetric] simp del: length_greater_0_conv)

declare coverage_loop.simps [simp del]

text \<open>\<open>_execute_coverage_job\<close>: the loop from the start, and the status it ends with.\<close>

definition execute_coverage_job ::
    "coverage_env \<Rightarrow> coverage_config \<Rightarrow> training_table \<Rightarrow> coverage_state \<times> str" where
  "execute_coverage_job env cfg t =
     (case coverage_loop env cfg 0 \<lparr>cs_training = t, cs_processed = 0, cs_marked = 0, cs_cursor = 0\<rparr> of
        (s, status, k) \<Rightarrow>
          (s, if status = lit ''failed'' then status
              else if cs_processed s \<ge> co_max_records cfg then lit ''limited''
              else if ce_elapsed env (Suc k) \<ge> of_int (co_max_seconds cfg) then lit ''timeout''
              else status))"

section \<open>Jobs\<close>

record gov_job =
  dj_id :: int
  dj_status :: str
  dj_requested_by :: str
  dj_processed :: int
  dj_marked :: nat
  dj_cursor :: int
  dj_started_at :: int
  dj_finished_at :: "int option"

definition running_job :: "gov_job list \<Rightarrow> gov_job option" where
  "running_job jobs =
     (case latest_first dj_started_at dj_id
             (filter (\<lambda>j. dj_status j \<in> set [lit ''running'', lit ''stopping'']) jobs) of
        [] \<Rightarrow> None | j # _ \<Rightarrow> Some j)"

definition finish_job :: "int \<Rightarrow> coverage_state \<times> str \<Rightarrow> gov_job \<Rightarrow> gov_job" where
  "finish_job now r j = j\<lparr>dj_status := snd r, dj_processed := cs_processed (fst r),
     dj_marked := cs_marked (fst r), dj_cursor := cs_cursor (fst r), dj_finished_at := Some now\<rparr>"

text \<open>\<open>run_coverage_analysis\<close>: refused while a job is running; otherwise the job is recorded, run and
  finished.\<close>

definition run_coverage_analysis ::
    "coverage_env \<Rightarrow> coverage_config \<Rightarrow> str \<Rightarrow> training_table \<Rightarrow> gov_job list
     \<Rightarrow> training_table \<times> gov_job list \<times> (gov_job + coverage_state \<times> str)" where
  "run_coverage_analysis env cfg requested_by t jobs =
     (case running_job jobs of
        Some j \<Rightarrow> (t, jobs, Inl j)
      | None \<Rightarrow>
          (let job = \<lparr>dj_id = 0, dj_status = lit ''running'', dj_requested_by = requested_by, dj_processed = 0,
                      dj_marked = 0, dj_cursor = 0, dj_started_at = ce_now env, dj_finished_at = None\<rparr>;
               i = next_id dj_id jobs;
               jobs1 = tbl_insert_all dj_id (\<lambda>n j. j\<lparr>dj_id := n\<rparr>) [job] jobs;
               r = execute_coverage_job env cfg t
           in (cs_training (fst r), tbl_update dj_id i (finish_job (ce_now env) r) jobs1, Inr r)))"

section \<open>Retention\<close>

definition audit_cutoff :: "int \<Rightarrow> int \<Rightarrow> int" where
  "audit_cutoff audit_retention_days now =
     (if audit_retention_days \<le> 0 then now - 36500 * day else now - audit_retention_days * day)"

definition expired_audit_ids :: "int \<Rightarrow> int \<Rightarrow> int \<Rightarrow> audit_log list \<Rightarrow> int list" where
  "expired_audit_ids retention now limit t =
     map al_id (take (nat (safe_limit 10000 limit))
       (sort_key al_created_at (filter (\<lambda>r. al_created_at r \<le> audit_cutoff retention now) t)))"

definition governance_preview_cleanup ::
    "int \<Rightarrow> int \<Rightarrow> bool \<Rightarrow> bool \<Rightarrow> bool \<Rightarrow> int \<Rightarrow> training_table \<Rightarrow> audit_log list \<Rightarrow> (nat \<times> nat) \<times> nat" where
  "governance_preview_cleanup retention now include_covered include_expired include_audit limit t a =
     (training_preview_cleanup now include_covered include_expired limit t,
      if include_audit then length (expired_audit_ids retention now limit a) else 0)"

text \<open>One \<open>now\<close> stands for the several readings of the clock in a cleanup.\<close>

definition governance_cleanup ::
    "int \<Rightarrow> int \<Rightarrow> bool \<Rightarrow> bool \<Rightarrow> bool \<Rightarrow> int \<Rightarrow> training_table \<Rightarrow> audit_log list
     \<Rightarrow> (training_table \<times> audit_log list) \<times> (nat \<times> nat) \<times> nat" where
  "governance_cleanup retention now include_covered include_expired include_audit limit t a =
     (case training_cleanup now include_covered include_expired limit t of
        (t', counts) \<Rightarrow>
          (let ids = (if include_audit then expired_audit_ids retention now limit a else []) in
           ((t', if ids \<noteq> [] then tbl_delete (\<lambda>r. al_id r \<in> set ids) a else a), counts, length ids)))"

record gov_summary =
  gs_training :: training_summary
  gs_audit_total :: nat
  gs_audit_expired :: nat
  gs_running_job :: "gov_job option"

definition governance_summary ::
    "int \<Rightarrow> int \<Rightarrow> training_table \<Rightarrow> audit_log list \<Rightarrow> gov_job list \<Rightarrow> gov_summary" where
  "governance_summary retention now t a jobs =
     \<lparr>gs_training = training_summary_of now t,
      gs_audit_total = length a,
      gs_audit_expired = length (filter (\<lambda>r. al_created_at r \<le> audit_cutoff retention now) a),
      gs_running_job = running_job jobs\<rparr>"

definition coverage_status :: "gov_job list \<Rightarrow> gov_job option" where
  "coverage_status jobs =
     (case running_job jobs of
        Some j \<Rightarrow> Some j
      | None \<Rightarrow> (case latest_first dj_started_at dj_id jobs of [] \<Rightarrow> None | j # _ \<Rightarrow> Some j))"

section \<open>What the analysis changes\<close>

text \<open>A row without the three fields the analysis writes, and the relation between a row of the
  table before (\<open>t0\<close>) and the same row after.\<close>

definition row_frame :: "conversation \<Rightarrow> conversation" where
  "row_frame r = r\<lparr>tc_covered_by := [], tc_analysis_status := [], tc_analyzed_at := None\<rparr>"

definition covers :: "(str \<Rightarrow> json option) \<Rightarrow> conversation \<Rightarrow> conversation \<Rightarrow> bool" where
  "covers loads d r \<longleftrightarrow> tc_user_id d = tc_user_id r \<and> tc_api_key_id d = tc_api_key_id r \<and> tc_id r < tc_id d \<and>
     is_prefix_trajectory (parse_trajectory loads (tc_trajectory r)) (parse_trajectory loads (tc_trajectory d))"

definition cov_row :: "(str \<Rightarrow> json option) \<Rightarrow> training_table \<Rightarrow> conversation \<Rightarrow> conversation \<Rightarrow> bool" where
  "cov_row loads t0 r r' \<longleftrightarrow> row_frame r' = row_frame r \<and>
     (tc_covered_by r' = tc_covered_by r \<or>
      tc_covered_by r = [] \<and> (\<exists>d\<in>set t0. covers loads d r \<and> tc_covered_by r' = tc_conversation_id d))"

abbreviation cov_rel :: "(str \<Rightarrow> json option) \<Rightarrow> training_table \<Rightarrow> training_table \<Rightarrow> bool" where
  "cov_rel loads t0 \<equiv> list_all2 (cov_row loads t0) t0"

definition covered_count :: "training_table \<Rightarrow> nat" where
  "covered_count t = length (filter (\<lambda>r. tc_covered_by r \<noteq> []) t)"

lemma row_frame_eqD:
  "row_frame a = row_frame b \<Longrightarrow> tc_id a = tc_id b \<and> tc_user_id a = tc_user_id b \<and>
   tc_api_key_id a = tc_api_key_id b \<and> tc_trajectory a = tc_trajectory b \<and>
   tc_conversation_id a = tc_conversation_id b"
  by (cases a; cases b) (simp add: row_frame_def)

lemma row_frame_set_covered [simp]: "row_frame (set_covered cid r) = row_frame r"
  by (cases r) (simp add: row_frame_def set_covered_def)

lemma row_frame_mark_analyzed [simp]: "row_frame (mark_analyzed now r) = row_frame r"
  by (cases r) (simp add: row_frame_def mark_analyzed_def)

lemma row_frame_mark_job [simp]:
  "tc_id (set_covered cid r) = tc_id r" "tc_covered_by (set_covered cid r) = cid"
  "tc_id (mark_analyzed now r) = tc_id r" "tc_covered_by (mark_analyzed now r) = tc_covered_by r"
  by (simp_all add: set_covered_def mark_analyzed_def)

lemma cov_rel_refl: "cov_rel loads t t"
  by (simp add: list_all2_refl cov_row_def)

lemma cov_rel_ids:
  assumes "cov_rel loads t0 t"
  shows "map tc_id t = map tc_id t0"
proof -
  from assms have "list_all2 (\<lambda>r r'. row_frame r' = row_frame r) t0 t"
    by (rule list_all2_mono) (simp add: cov_row_def)
  then show ?thesis
    by (induction rule: list_all2_induct) (simp_all, metis row_frame_eqD)
qed

lemma cov_rel_origin:
  assumes "cov_rel loads t0 t" "r \<in> set t"
  obtains r0 where "r0 \<in> set t0" "cov_row loads t0 r0 r"
  using assms by (force simp: list_all2_conv_all_nth in_set_conv_nth)

text \<open>Marking one candidate.\<close>

lemma cov_rel_cover:
  assumes rel: "cov_rel loads t0 t" and dist: "distinct (map tc_id t0)"
    and c0: "c0 \<in> set t0" "row_frame c = row_frame c0" and r0: "r0 \<in> set t0" "cov_row loads t0 r0 cand"
    and cand: "tc_covered_by cand = []" "covers loads c cand"
  shows "cov_rel loads t0 (tbl_update tc_id (tc_id cand) (set_covered (tc_conversation_id c)) t)"
proof -
  note cf = row_frame_eqD [OF c0(2)]
  have rf: "row_frame cand = row_frame r0" using r0(2) by (simp add: cov_row_def)
  have cov: "covers loads c0 r0"
    using cand(2) cf row_frame_eqD [OF rf] by (simp add: covers_def)
  have empty: "tc_covered_by r0 = []"
    using r0(2) cand(1) by (auto simp: cov_row_def)
  have "cov_row loads t0 x (set_covered (tc_conversation_id c) y)"
    if "x \<in> set t0" "cov_row loads t0 x y" "tc_id y = tc_id cand" for x y
  proof -
    have fr: "row_frame y = row_frame x" using that(2) by (simp add: cov_row_def)
    have "x = r0"
      using row_frame_eqD [OF fr] row_frame_eqD [OF rf] that(1,3) r0(1) dist
      by (auto simp: distinct_map inj_on_def)
    with fr empty cov cf c0(1) show ?thesis by (auto simp: cov_row_def)
  qed
  then show ?thesis
    using rel by (fastforce simp: tbl_update_def list_all2_conv_all_nth)
qed

lemma covered_count_cover:
  assumes "distinct (map tc_id t)" "r \<in> set t" "tc_covered_by r = []" "cid \<noteq> []"
  shows "covered_count (tbl_update tc_id (tc_id r) (set_covered cid) t) = Suc (covered_count t)"
  using assms(1,2)
proof (induction t)
  case (Cons x t)
  have tail: "tbl_update tc_id (tc_id r) (set_covered cid) t = t" if "tc_id r \<notin> tc_id ` set t"
    unfolding tbl_update_def using that by (intro map_idI) (metis image_eqI)
  show ?case
  proof (cases "tc_id x = tc_id r")
    case True
    with Cons.prems have "x = r" "tc_id r \<notin> tc_id ` set t" by auto
    with tail assms(3,4) show ?thesis by (simp add: covered_count_def tbl_update_def)
  next
    case False
    with Cons show ?thesis by (auto simp: covered_count_def tbl_update_def)
  qed
qed simp

text \<open>The invariant of the marking, for the candidates still to be looked at.\<close>

definition mark_inv ::
    "(str \<Rightarrow> json option) \<Rightarrow> training_table \<Rightarrow> nat \<Rightarrow> training_table \<Rightarrow> nat \<Rightarrow> bool" where
  "mark_inv loads t0 n0 t n \<longleftrightarrow> cov_rel loads t0 t \<and> covered_count t = n0 + n"

lemma mark_candidates_inv:
  assumes "mark_candidates loads c (parse_trajectory loads (tc_trajectory c)) cs (t, covd, n) = (t', covd', n')"
    and "mark_inv loads t0 n0 t n" "distinct (map tc_id t0)" "distinct (map tc_id cs)"
    and "c0 \<in> set t0" "row_frame c = row_frame c0" "tc_conversation_id c \<noteq> []"
    and "\<forall>x\<in>set cs. x \<in> set t \<and> tc_covered_by x = [] \<and> tc_user_id x = tc_user_id c \<and>
      tc_api_key_id x = tc_api_key_id c \<and> tc_id x < tc_id c"
  shows "mark_inv loads t0 n0 t' n'"
  using assms
proof (induction cs arbitrary: t covd n)
  case (Cons x cs)
  note x = Cons.prems(8)
  have ids: "distinct (map tc_id t)"
    using Cons.prems(2,3) cov_rel_ids [of loads t0 t] by (simp add: mark_inv_def)
  let ?t1 = "tbl_update tc_id (tc_id x) (set_covered (tc_conversation_id c)) t"
  show ?case
  proof (cases "\<not> (tc_id x \<in> set covd \<or> tc_covered_by x \<noteq> []) \<and>
      is_prefix_trajectory (parse_trajectory loads (tc_trajectory x)) (parse_trajectory loads (tc_trajectory c))")
    case True
    from Cons.prems(2) x obtain r0 where r0: "r0 \<in> set t0" "cov_row loads t0 r0 x"
      by (auto simp: mark_inv_def elim: cov_rel_origin)
    have "covers loads c x" using True x by (simp add: covers_def)
    then have "cov_rel loads t0 ?t1"
      using cov_rel_cover [OF _ Cons.prems(3,5,6) r0] Cons.prems(2) x by (simp add: mark_inv_def)
    moreover have "covered_count ?t1 = Suc (covered_count t)"
      using covered_count_cover [OF ids _ _ Cons.prems(7)] x by simp
    ultimately have inv: "mark_inv loads t0 n0 ?t1 (n + 1)"
      using Cons.prems(2) by (simp add: mark_inv_def)
    have here: "x \<notin> set cs" "tc_id x \<notin> tc_id ` set cs" using Cons.prems(4) by auto
    have keep: "y \<in> set ?t1" if "y \<in> set t" "tc_id y \<noteq> tc_id x" for y
      using that by (force simp: convs.set_upd)
    have rest: "\<forall>y\<in>set cs. y \<in> set ?t1 \<and> tc_covered_by y = [] \<and> tc_user_id y = tc_user_id c \<and>
        tc_api_key_id y = tc_api_key_id c \<and> tc_id y < tc_id c"
    proof
      fix y
      assume "y \<in> set cs"
      with x here keep [of y] show "y \<in> set ?t1 \<and> tc_covered_by y = [] \<and> tc_user_id y = tc_user_id c \<and>
          tc_api_key_id y = tc_api_key_id c \<and> tc_id y < tc_id c"
        by (metis image_eqI list.set_intros(2))
    qed
    show ?thesis
      using True Cons.prems(1) by (intro Cons.IH [OF _ inv Cons.prems(3) _ Cons.prems(5-7) rest])
        (use Cons.prems(4) in auto)
  next
    case False
    then obtain covd1 where
      "mark_candidates loads c (parse_trajectory loads (tc_trajectory c)) cs (t, covd1, n) = (t', covd', n')"
      using Cons.prems(1) by (auto split: if_splits)
    from Cons.IH [OF this Cons.prems(2,3) _ Cons.prems(5-7)] Cons.prems(4,8) show ?thesis by simp
  qed
qed simp

lemma foldl_invariant:
  "P a \<Longrightarrow> (\<And>x a. x \<in> set xs \<Longrightarrow> P a \<Longrightarrow> P (f a x)) \<Longrightarrow> P (foldl f a xs)"
  by (induction xs arbitrary: a) auto

text \<open>The objects of the batch: rows of the table as they were when the batch was read.\<close>

definition batch_of :: "training_table \<Rightarrow> conversation list \<Rightarrow> bool" where
  "batch_of t0 cs \<longleftrightarrow>
     (\<forall>c\<in>set cs. tc_conversation_id c \<noteq> [] \<and> (\<exists>c0\<in>set t0. row_frame c = row_frame c0))"

lemma mark_conversation_inv:
  assumes "mark_inv loads t0 n0 t n" "distinct (map tc_id t0)" "batch_of t0 [c]"
    and "mark_conversation loads (t, covd, n) c = (t', covd', n')"
  shows "mark_inv loads t0 n0 t' n'"
proof (cases "tc_id c \<in> set covd \<or> length (parse_trajectory loads (tc_trajectory c)) < 2")
  case True
  with assms(1,4) show ?thesis by (auto simp: mark_conversation_def Let_def split: if_splits)
next
  case False
  from assms(3) obtain c0 where c0: "c0 \<in> set t0" "row_frame c = row_frame c0" "tc_conversation_id c \<noteq> []"
    by (auto simp: batch_of_def)
  have ids: "distinct (map tc_id t)"
    using assms(1,2) cov_rel_ids [of loads t0 t] by (simp add: mark_inv_def)
  then have "distinct (map tc_id (candidate_conversations t c))"
    by (simp add: candidate_conversations_def distinct_map inj_on_def)
  then show ?thesis
    using False assms(4)
    by (intro mark_candidates_inv [OF _ assms(1,2) _ c0])
      (auto simp: mark_conversation_def Let_def candidate_conversations_def)
qed

lemma mark_group_inv:
  assumes "mark_inv loads t0 n0 (fst tm) (snd tm)" "distinct (map tc_id t0)" "batch_of t0 grp"
  shows "mark_inv loads t0 n0 (fst (mark_group loads tm grp)) (snd (mark_group loads tm grp))"
proof -
  let ?m = "foldl (mark_conversation loads)
    (fst tm, map tc_id (filter (\<lambda>c. tc_covered_by c \<noteq> []) grp), snd tm) (sort_key (\<lambda>c. - tc_id c) grp)"
  have "mark_inv loads t0 n0 (fst ?m) (snd (snd ?m))"
  proof (rule foldl_invariant)
    fix c and m :: marking
    assume "c \<in> set (sort_key (\<lambda>c. - tc_id c) grp)" "mark_inv loads t0 n0 (fst m) (snd (snd m))"
    then show "mark_inv loads t0 n0 (fst (mark_conversation loads m c)) (snd (snd (mark_conversation loads m c)))"
      using assms(2,3) mark_conversation_inv [of loads t0 n0 "fst m" "snd (snd m)" c "fst (snd m)"]
      by (cases m; cases "mark_conversation loads m c") (auto simp: batch_of_def)
  qed (use assms(1) in simp)
  then show ?thesis
    by (cases tm; cases ?m) (simp add: mark_group_def Let_def)
qed

lemma groups_of_subset: "g \<in> set (groups_of cs) \<Longrightarrow> set g \<subseteq> set cs"
  by (auto simp: groups_of_def)

lemma mark_covered_by_group_inv:
  assumes "cov_rel loads t0 t" "distinct (map tc_id t0)" "batch_of t0 cs"
    and "mark_covered_by_group loads t cs = (t', n)"
  shows "cov_rel loads t0 t' \<and> covered_count t' = covered_count t + n"
proof -
  let ?r = "foldl (mark_group loads) (t, 0) (groups_of cs)"
  have "mark_inv loads t0 (covered_count t) (fst ?r) (snd ?r)"
  proof (rule foldl_invariant)
    fix g tm
    assume "g \<in> set (groups_of cs)" "mark_inv loads t0 (covered_count t) (fst tm) (snd tm)"
    then show "mark_inv loads t0 (covered_count t) (fst (mark_group loads tm g)) (snd (mark_group loads tm g))"
      using mark_group_inv [OF _ assms(2), of loads _ tm g] assms(3) groups_of_subset [of g cs]
      by (auto simp: batch_of_def)
  qed (use assms(1) in \<open>simp add: mark_inv_def\<close>)
  with assms(4) show ?thesis by (simp add: mark_covered_by_group_def mark_inv_def)
qed

lemma set_next_batch: "set (next_batch cfg s) \<subseteq> set (cs_training s)"
  using set_take_subset by (fastforce simp: next_batch_def)

lemma cov_rel_analyzed:
  "cov_rel loads t0 t \<Longrightarrow> cov_rel loads t0 (map (\<lambda>r. if P r then mark_analyzed now r else r) t)"
  by (auto simp: list_all2_conv_all_nth cov_row_def)

lemma covered_count_analyzed:
  "covered_count (map (\<lambda>r. if P r then mark_analyzed now r else r) t) = covered_count t"
  by (induction t) (auto simp: covered_count_def)

definition cov_inv :: "(str \<Rightarrow> json option) \<Rightarrow> training_table \<Rightarrow> coverage_config \<Rightarrow> coverage_state \<Rightarrow> bool" where
  "cov_inv loads t0 cfg s \<longleftrightarrow> cov_rel loads t0 (cs_training s) \<and>
     covered_count (cs_training s) = covered_count t0 + cs_marked s \<and>
     cs_processed s \<le> max 0 (co_max_records cfg)"

lemma process_batch_inv:
  assumes "cov_inv (ce_loads env) t0 cfg s" "distinct (map tc_id t0)"
    and "\<forall>r\<in>set t0. tc_conversation_id r \<noteq> []" "cs_processed s < co_max_records cfg"
  shows "cov_inv (ce_loads env) t0 cfg (process_batch_rows env (next_batch cfg s) s)"
proof -
  have rel: "cov_rel (ce_loads env) t0 (cs_training s)" using assms(1) by (simp add: cov_inv_def)
  have "batch_of t0 (next_batch cfg s)"
    unfolding batch_of_def
  proof
    fix c
    assume "c \<in> set (next_batch cfg s)"
    with set_next_batch [of cfg s] have "c \<in> set (cs_training s)" by auto
    with rel obtain c0 where "c0 \<in> set t0" "cov_row (ce_loads env) t0 c0 c"
      by (rule cov_rel_origin)
    then show "tc_conversation_id c \<noteq> [] \<and> (\<exists>c0\<in>set t0. row_frame c = row_frame c0)"
      using assms(3) row_frame_eqD [of c c0] by (auto simp: cov_row_def)
  qed
  moreover obtain t' n where m: "mark_covered_by_group (ce_loads env) (cs_training s) (next_batch cfg s) = (t', n)"
    by fastforce
  ultimately have "cov_rel (ce_loads env) t0 t' \<and> covered_count t' = covered_count (cs_training s) + n"
    using mark_covered_by_group_inv [OF rel assms(2)] by blast
  then show ?thesis
    using assms(1) next_batch_bound [OF assms(4)]
    by (simp add: process_batch_rows_def m cov_inv_def cov_rel_analyzed covered_count_analyzed)
qed

text \<open>A run that does not fail keeps the invariant; a failed one leaves the table of its last commit.\<close>

lemma coverage_loop_inv:
  assumes "coverage_loop env cfg k s = (s', status, k')" "cov_inv (ce_loads env) t0 cfg s"
    and "distinct (map tc_id t0)" "\<forall>r\<in>set t0. tc_conversation_id r \<noteq> []"
  shows "cov_rel (ce_loads env) t0 (cs_training s') \<and> cs_processed s' \<le> max 0 (co_max_records cfg) \<and>
    (status \<noteq> lit ''failed'' \<longrightarrow> covered_count (cs_training s') = covered_count t0 + cs_marked s')"
  using assms
proof (induction env cfg k s rule: coverage_loop.induct)
  case (1 env cfg k s)
  note inv = "1.prems"(2)
  show ?case
  proof (cases "cs_processed s < co_max_records cfg \<and> ce_elapsed env k < of_int (co_max_seconds cfg) \<and>
      \<not> ce_stop env k \<and> next_batch cfg s \<noteq> []")
    case False
    then have "s' = s"
      using "1.prems"(1) by (auto simp: coverage_loop.simps [of env cfg k s] Let_def split: if_splits)
    with inv show ?thesis by (simp add: cov_inv_def)
  next
    case True
    note step = process_batch_inv [OF inv "1.prems"(3,4)]
    show ?thesis
    proof (cases "ce_commits env k")
      case True
      show ?thesis
        using "1.IH" [OF _ _ refl _ _ _ step "1.prems"(3,4)] "1.prems"(1) \<open>_ \<and> _\<close> True
        by (simp add: coverage_loop.simps [of env cfg k s])
    next
      case False
      then have "s' = (process_batch_rows env (next_batch cfg s) s)\<lparr>cs_training := cs_training s\<rparr>"
        "status = lit ''failed''"
        using True "1.prems"(1) by (simp_all add: coverage_loop.simps [of env cfg k s])
      with inv step True show ?thesis by (simp add: cov_inv_def)
    qed
  qed
qed

lemma execute_coverage_job_inv:
  assumes "execute_coverage_job env cfg t = (s, status)"
    and "distinct (map tc_id t)" "\<forall>r\<in>set t. tc_conversation_id r \<noteq> []"
  shows "cov_rel (ce_loads env) t (cs_training s) \<and> cs_processed s \<le> max 0 (co_max_records cfg) \<and>
    (status \<noteq> lit ''failed'' \<longrightarrow> covered_count (cs_training s) = covered_count t + cs_marked s)"
proof -
  let ?s0 = "\<lparr>cs_training = t, cs_processed = 0, cs_marked = 0, cs_cursor = 0\<rparr>"
  obtain s' status' k where run: "coverage_loop env cfg 0 ?s0 = (s', status', k)"
    by (cases "coverage_loop env cfg 0 ?s0")
  have "cov_inv (ce_loads env) t cfg ?s0" by (simp add: cov_inv_def cov_rel_refl)
  from coverage_loop_inv [OF run this assms(2,3)] assms(1) show ?thesis
    by (auto simp: execute_coverage_job_def run split: if_splits)
qed

lemma audit_cleanup:
  assumes "distinct (map al_id a)" "ids = expired_audit_ids retention now limit a"
  shows "\<forall>r\<in>set a. al_id r \<in> set ids \<longrightarrow> al_created_at r \<le> audit_cutoff retention now"
    and "length (tbl_delete (\<lambda>r. al_id r \<in> set ids) a) + length ids = length a"
    and "set (tbl_delete (\<lambda>r. al_id r \<in> set ids) a) = {r \<in> set a. al_id r \<notin> set ids}"
proof -
  let ?sel = "take (nat (safe_limit 10000 limit))
    (sort_key al_created_at (filter (\<lambda>r. al_created_at r \<le> audit_cutoff retention now) a))"
  have ids: "ids = map al_id ?sel" by (simp add: assms(2) expired_audit_ids_def)
  have sel: "set ?sel \<subseteq> {r \<in> set a. al_created_at r \<le> audit_cutoff retention now}"
    by (auto dest: in_set_takeD)
  have key: "r = r'" if "r \<in> set a" "r' \<in> set a" "al_id r = al_id r'" for r r'
    using assms(1) that by (auto simp: distinct_map inj_on_def)
  have sel_ids: "r \<in> set ?sel" if "r \<in> set a" "al_id r \<in> set ids" for r
  proof -
    from that(2) obtain r' where r': "r' \<in> set ?sel" "al_id r = al_id r'" by (auto simp: ids)
    with sel key [OF that(1)] show ?thesis by blast
  qed
  show "\<forall>r\<in>set a. al_id r \<in> set ids \<longrightarrow> al_created_at r \<le> audit_cutoff retention now"
    using sel_ids sel by blast
  show "set (tbl_delete (\<lambda>r. al_id r \<in> set ids) a) = {r \<in> set a. al_id r \<notin> set ids}"
    by (auto simp: audits.set_del)
  have "distinct ?sel" using assms(1) by (simp add: distinct_map)
  moreover have "{r \<in> set a. al_id r \<in> set ids} = set ?sel"
    using sel_ids sel by (auto simp: ids)
  ultimately have "length (filter (\<lambda>r. al_id r \<in> set ids) a) = length ids"
    using assms(1) distinct_card [of ?sel] distinct_card [of "filter (\<lambda>r. al_id r \<in> set ids) a"]
    by (simp add: ids distinct_map)
  with sum_length_filter_compl [of "\<lambda>r. al_id r \<in> set ids" a]
  show "length (tbl_delete (\<lambda>r. al_id r \<in> set ids) a) + length ids = length a"
    by (simp add: tbl_delete_def)
qed

end
