(* ===== verification/Example.thy ===== *)
theory Example
  imports Relay_Safety Auth Governance Image_Assets
begin

text \<open>
  A small configuration on which the properties are exercised: one blocking keyword rule, the two
  shipped phone rules, an upstream that answers 200, and three request bodies. The library
  functions are simple stand-ins with the documented types.
\<close>

definition ex_phone_rule :: "str \<Rightarrow> json" where
  "ex_phone_rule i = JDict [(lit ''id'', JStr i), (lit ''level'', JStr (lit ''desensitize''))]"

definition ex_keyword_rule :: json where
  "ex_keyword_rule = JDict [(lit ''id'', JStr (lit ''K1'')), (lit ''level'', JStr (lit ''block'')),
     (lit ''keywords'', JList [JStr (lit ''secret'')])]"

definition ex_engine :: engine where
  "ex_engine = \<lparr>eng_rules = [ex_keyword_rule],
     eng_regex = \<lparr>rx_rules = [], rx_compiled = [(phone_cn, ex_phone_rule (lit ''P1'')),
                                                (phone_intl, ex_phone_rule (lit ''P2''))]\<rparr>,
     eng_fail_open = False\<rparr>"

definition ex_body :: "str \<Rightarrow> (str \<times> json) list" where
  "ex_body t = [(lit ''messages'', JList [JDict [(lit ''role'', JStr (lit ''user'')),
                                                (lit ''content'', JStr t)]])]"

definition ex_phone :: str where "ex_phone = lit ''call 13800138000''"
definition ex_masked :: str where "ex_masked = lit ''call 138****8000''"
definition ex_secret :: str where "ex_secret = lit ''a secret plan''"

text \<open>The bytes \<open>[1]\<close>, \<open>[2]\<close>, \<open>[3]\<close> stand for a body with a phone number, one with the keyword,
  and one with an empty message.\<close>

definition ex_libs :: libs where
  "ex_libs = \<lparr>lb_request_json = (\<lambda>raw. if raw = [1] then Some (JDict (ex_body ex_phone))
                                      else if raw = [2] then Some (JDict (ex_body ex_secret))
                                      else if raw = [3] then Some (JDict (ex_body [])) else None),
     lb_loads = (\<lambda>_. None), lb_dumps = (\<lambda>_. []), lb_render = (\<lambda>_. []), lb_decode = map unat,
     lb_urljoin = (@), lb_urlsplit = (\<lambda>u. (u, [], [], [], [])), lb_urlunsplit = fst,
     lb_unquote = id, lb_unescape = id, lb_nfkc = id, lb_lower = lower,
     lb_uuid_hex = lit ''0f'', lb_fake_hex8 = lit ''12345678'', lb_now = 0, lb_latency_ms = 0\<rparr>"

definition ex_app :: app where
  "ex_app = \<lparr>app_engine = Some ex_engine, app_upstream_url = lit ''http://up'', app_router_url = None,
     app_client = True, app_training_writer = True, app_audit_writer = True,
     app_capture_enabled = True, app_stream_archive_max_bytes = 100\<rparr>"

definition ex_upstream :: upstream where
  "ex_upstream = \<lparr>us_request = (\<lambda>_. Reply 200 [] [65]), us_stream = (\<lambda>_. Opened 200 None [[65], [66]] None)\<rparr>"

definition ex_request :: "bytes \<Rightarrow> request" where
  "ex_request raw = \<lparr>rq_method = lit ''POST'', rq_query = [], rq_headers = [(lit ''accept'', lit ''*'')],
     rq_body = Body raw, rq_request_id = lit ''r1'', rq_identity = None\<rparr>"

definition ex_world :: world where
  "ex_world = \<lparr>wd_queue = None, wd_effects = []\<rparr>"

definition ex_up :: str where "ex_up = lit ''chat/completions''"

lemma ex_chat_path: "chat_path ex_up"
  by code_simp

lemma ex_phone_rules: "phone_rules ex_engine"
  by (simp add: phone_rules_def ex_engine_def desensitize_patterns_def ex_phone_rule_def
      is_desensitize_rule_def PHONE_PATTERNS_def get_or_def)

definition ex_run :: "bytes \<Rightarrow> world \<times> response res" where
  "ex_run raw = relay_openai_compatible ex_libs ex_app ex_upstream (ex_request raw) ex_up ex_world"

definition ex_upstream_request :: upstream_request where
  "ex_upstream_request = \<lparr>up_method = lit ''POST'', up_url = lit ''http://up/v1/chat/completions'',
     up_headers = [(lit ''accept'', lit ''*''), (lit ''X-Request-ID'', lit ''r1'')],
     up_payload = Json_Body (JDict (ex_body ex_masked))\<rparr>"

lemma ex_run_calls: "upstream_calls (fst (ex_run [1])) = [Upstream_Request ex_upstream_request]"
  by code_simp

lemma ex_relays: "relays ex_world (fst (ex_run [1])) (snd (ex_run [1])) ex_upstream_request"
  by (simp add: relays_def ex_run_calls) (simp add: upstream_calls_def ex_world_def)

lemma ex_payload: "payload_json ex_libs (up_payload ex_upstream_request) = Some (JDict (ex_body ex_masked))"
  by (simp add: ex_upstream_request_def)

lemma ex_run_eq: "relay_openai_compatible ex_libs ex_app ex_upstream (ex_request raw) ex_up ex_world =
    (fst (ex_run raw), snd (ex_run raw))"
  by (simp add: ex_run_def)

lemma ex_app_engine: "app_engine ex_app = Some ex_engine"
  by (simp add: ex_app_def)

section \<open>A blocked request\<close>

lemma ex_secret_blocked:
  obtains a where "scan_of ex_libs ex_engine ex_secret = Inr a" "agg_blocked a"
proof -
  have "(case scan_of ex_libs ex_engine ex_secret of Inr a \<Rightarrow> agg_blocked a | Inl _ \<Rightarrow> False)"
    by code_simp
  with that show thesis by (cases "scan_of ex_libs ex_engine ex_secret") auto
qed

lemma ex_secret_text: "extract_latest_text_from_request CHAT_COMPLETIONS_PATH (JDict (ex_body ex_secret)) = Inr ex_secret"
  by code_simp

lemma ex_empty_text: "extract_latest_text_from_request CHAT_COMPLETIONS_PATH (JDict (ex_body [])) = Inr []"
  by code_simp

lemma ex_read:
  "read_request_body ex_libs (ex_request [2]) CHAT_COMPLETIONS_PATH = Inr (JDict (ex_body ex_secret), [2])"
  "read_request_body ex_libs (ex_request [3]) CHAT_COMPLETIONS_PATH = Inr (JDict (ex_body []), [3])"
  by code_simp+

section \<open>API keys\<close>

definition ex_crypto :: crypto where
  "ex_crypto = \<lparr>sha = id, enc = id, dec = Some\<rparr>"

definition ex_draws :: draws where
  "ex_draws = \<lparr>dr_uuid_hex = lit ''01'', dr_now = 5, dr_tokens = (\<lambda>_. lit ''token'')\<rparr>"

definition ex_create :: api_key_create where
  "ex_create = \<lparr>ac_name = lit ''n'', ac_owner_user_id = lit ''u'', ac_upstream_key = lit ''upstream-key'',
     ac_reuse_upstream_key = False, ac_expires_at = None, ac_provider_name = lit ''passthrough'',
     ac_owner_department = None, ac_cost_center = None, ac_create_mode = lit ''manual'', ac_metadata = []\<rparr>"

definition ex_created :: "key_table \<times> provider_call list \<times> (api_key \<times> str option) res" where
  "ex_created = create_key ex_crypto ex_draws None [] ex_create"

definition ex_keys :: key_table where
  "ex_keys = fst ex_created"

definition ex_key :: api_key where
  "ex_key = fst (projr (snd (snd ex_created)))"

lemma ex_keys_eq: "ex_keys = [ex_key]" "get_key ex_keys (lit ''ak_01'') = Some ex_key"
  by code_simp+

lemma ex_reachable: "key_reachable ex_crypto ex_keys"
  unfolding ex_keys_def ex_created_def by (rule R_step [OF R_empty S_create])

text \<open>A provider whose keys cannot be recorded: the row it would have is there already.\<close>

definition ex_provider :: key_provider where
  "ex_provider = \<lparr>pv_name = lit ''oneapi'',
     pv_create = (\<lambda>_. Inr \<lparr>ki_key_id = lit ''7'', ki_key_prefix = [], ki_key_suffix = [],
                             ki_key_secret = Some (lit ''upstream-key''), ki_metadata = []\<rparr>),
     pv_revoke = (\<lambda>_. Inr True)\<rparr>"

section \<open>The archive queue\<close>

definition ex_codec :: codec where
  "ex_codec = \<lparr>cd_loads = (\<lambda>_. None), cd_dumps = (\<lambda>_. [49]), cd_py_str = (\<lambda>_. []),
     cd_utf8_len = length, cd_sha = id\<rparr>"

text \<open>The training database is locked.\<close>

definition ex_write_env :: write_env where
  "ex_write_env = \<lparr>we_codec = ex_codec, we_retention_days = 180, we_now = 0, we_uuid = (\<lambda>_. lit ''c''),
     we_training_commits = False, we_audit_commits = True\<rparr>"

definition ex_archive :: archive_payload where
  "ex_archive = \<lparr>ar_request_id = lit ''r1'', ar_model = JStr (lit ''m''), ar_capability = lit ''chat'',
     ar_prompt_original = JList [JDict [(lit ''role'', JStr (lit ''user'')), (lit ''content'', JStr ex_phone)]],
     ar_prompt_desensitized = JList [JDict [(lit ''role'', JStr (lit ''user'')), (lit ''content'', JStr ex_masked)]],
     ar_response = JDict [(lit ''message_content'', JStr (lit ''ok''))],
     ar_is_stream = True, ar_is_blocked = False, ar_is_desensitized = True,
     ar_action_taken = lit ''desensitized'', ar_blocked_rule_id = JStr [], ar_matched_rule_ids = [],
     ar_user_id = [], ar_api_key_id = [], ar_latency_ms = 0\<rparr>"

definition ex_result :: scanner_result where
  "ex_result = \<lparr>hit = True, rule_id = JStr (lit ''P1''), rule_name = JStr [], level = JStr (lit ''desensitize''),
     matched_text = lit ''13*******00'', position = (5, 16), scanner_type = lit ''regex'', description = JStr []\<rparr>"

definition ex_audit :: audit_payload where
  "ex_audit = \<lparr>ap_request_id = lit ''r1'',
     ap_scan_result = Aggregated \<lparr>results = [ex_result], normalized_text = ex_phone\<rparr>,
     ap_action_taken = lit ''desensitized'', ap_user_id = [], ap_scanned_text = ex_phone,
     ap_desensitized_text = ex_masked\<rparr>"

definition ex_queue :: archive_queue where
  "ex_queue = \<lparr>qu_queue = \<lparr>ff_items = [], ff_max = 5\<rparr>, qu_batch_size = 2, qu_dropped = 0, qu_processed = 0,
     qu_running = True, qu_unfinished = 2, qu_batch = [Archive_Item ex_archive, Audit_Item ex_audit],
     qu_task = In_Loop\<rparr>"

text \<open>A run of the queue: the worker is started, an audit is offered, the application shuts down, and
  the worker, which only now runs for the first time, fetches and writes the item and returns.\<close>

definition ex_idle :: run where
  "ex_idle = initial_run (new_archive_queue None None 5 2) \<lparr>st_training = [], st_audit = []\<rparr>"

definition ex_offered :: run where
  "ex_offered = ex_idle\<lparr>rn_queue := stop_request (fst (enqueue (Audit_Item ex_audit) (queue_start (rn_queue ex_idle)))),
     rn_accepted := [Audit_Item ex_audit], rn_offered := 1\<rparr>"

definition ex_fetched :: run where
  "ex_fetched = ex_offered\<lparr>rn_queue := (loop_test (rn_queue ex_offered))
     \<lparr>qu_queue := \<lparr>ff_items = [], ff_max = 5\<rparr>, qu_batch := [Audit_Item ex_audit]\<rparr>\<rparr>"

definition ex_written :: "archive_queue \<times> store" where
  "ex_written = worker_write ex_write_env True (rn_queue ex_fetched) (rn_store ex_fetched)"

definition ex_drained :: run where
  "ex_drained = ex_fetched\<lparr>rn_queue := loop_test (fst ex_written), rn_store := snd ex_written,
     rn_done := [Audit_Item ex_audit],
     rn_skipped := not_written ex_write_env True (rn_store ex_fetched) [Audit_Item ex_audit]\<rparr>"

lemmas ex_run_defs = ex_idle_def ex_offered_def ex_fetched_def initial_run_def new_archive_queue_def
  queue_start_def worker_alive_def stop_request_def enqueue_def put_nowait_def loop_test_def int_or_def

lemma ex_idle_reachable: "queue_reachable ex_idle"
  by (simp add: ex_idle_def QR_init)

lemma ex_offered_reachable: "queue_reachable ex_offered"
proof -
  let ?r1 = "ex_idle\<lparr>rn_queue := queue_start (rn_queue ex_idle)\<rparr>"
  let ?r2 = "?r1\<lparr>rn_queue := fst (enqueue (Audit_Item ex_audit) (rn_queue ?r1)),
    rn_accepted := rn_accepted ?r1 @ (if True then [Audit_Item ex_audit] else []), rn_offered := rn_offered ?r1 + 1\<rparr>"
  have "queue_reachable ?r1" by (rule QR_step [OF ex_idle_reachable Q_start])
  moreover have "queue_step ?r1 ?r2"
    by (rule Q_enqueue) (simp add: ex_run_defs)
  ultimately have "queue_reachable ?r2" by (rule QR_step)
  then have "queue_reachable (?r2\<lparr>rn_queue := stop_request (rn_queue ?r2)\<rparr>)"
    by (rule QR_step [OF _ Q_stop])
  then show ?thesis by (simp add: ex_run_defs)
qed

lemma ex_drained_steps: "worker_step\<^sup>*\<^sup>* ex_offered ex_drained"
proof -
  let ?r1 = "ex_offered\<lparr>rn_queue := loop_test (rn_queue ex_offered)\<rparr>"
  have "worker_step ex_offered ?r1" by (rule W_begin) (simp add: ex_run_defs)
  moreover have "worker_step ?r1 (?r1\<lparr>rn_queue := rn_queue ex_fetched\<rparr>)"
    by (rule W_get) (simp_all add: ex_run_defs worker_get_def get_first_def)
  moreover have "?r1\<lparr>rn_queue := rn_queue ex_fetched\<rparr> = ex_fetched" by (simp add: ex_fetched_def)
  moreover have "worker_step ex_fetched ex_drained"
    using W_write [of ex_fetched ex_write_env True "fst ex_written" "snd ex_written"]
    by (simp add: ex_written_def ex_drained_def) (simp add: ex_run_defs)
  ultimately show ?thesis by (metis rtranclp.rtrancl_into_rtrancl rtranclp.rtrancl_refl)
qed

lemma ex_drained_stuck: "\<not> worker_step ex_drained r"
proof -
  have "worker_write ex_write_env True (rn_queue ex_fetched) (rn_store ex_fetched) = (fst ex_written, snd ex_written)"
    by (simp add: ex_written_def)
  from worker_write_fields [OF this] have "\<not> worker_alive (rn_queue ex_drained)"
    by (simp add: ex_drained_def loop_test_def worker_alive_def) (simp add: ex_run_defs)
  then show ?thesis by (rule no_step_without_task)
qed

lemma worker_steps_reachable: "worker_step\<^sup>*\<^sup>* r r' \<Longrightarrow> queue_reachable r \<Longrightarrow> queue_reachable r'"
  by (induction rule: rtranclp_induct) (auto intro: QR_step Q_worker)

section \<open>Images\<close>

definition ex_public_ip :: ip where
  "ex_public_ip = \<lparr>ip_private = False, ip_loopback = False, ip_link_local = False, ip_multicast = False,
     ip_reserved = False, ip_unspecified = False\<rparr>"

text \<open>Host \<open>a\<close> is public and redirects to \<open>b\<close>, which answers.\<close>

definition ex_network :: network where
  "ex_network = \<lparr>nt_parse = (\<lambda>u. (lit ''http'', Some u)), nt_ip_address = (\<lambda>_. None),
     nt_resolve = (\<lambda>n h. Some [ex_public_ip]),
     nt_get = (\<lambda>n u. Inr \<lparr>gr_status = (if u = lit ''a'' then 302 else 200), gr_location = lit ''b'',
                          gr_content_type = lit ''image/png'', gr_content = [1]\<rparr>),
     nt_join = (\<lambda>u l. l)\<rparr>"

definition ex_archiver :: archiver where
  "ex_archiver = \<lparr>an_dir = parse_path (lit ''/data/assets''), an_max_size_bytes = 10,
     an_b64decode = (\<lambda>_. Some [1]), an_sha = (\<lambda>_. lit ''0123456789abcdef''), an_digits = (\<lambda>_. lit ''0''),
     an_write = (\<lambda>_ _. None), an_exn_str = (\<lambda>_. [])\<rparr>"

definition ex_source :: asset_source where
  "ex_source = \<lparr>src_index = 0, src_kind = Src_B64, src_url = [], src_b64 = lit ''AQ==''\<rparr>"

section \<open>Administration\<close>

text \<open>A signature that spells out the secret, and \<open>42\<close> as the only number there is.\<close>

definition ex_auth_libs :: auth_libs where
  "ex_auth_libs = \<lparr>li_hmac = (\<lambda>k m. map (\<lambda>c. c mod 128) (lit ''s'' @ k @ m)), li_b64decode = (\<lambda>_. None), li_is_ip = (\<lambda>_. True),
     li_in_network = (\<lambda>h n. Some (h = n)), li_int = (\<lambda>s. if s = lit ''42'' then Some 42 else None),
     li_str = (\<lambda>_. lit ''42''), li_quote = id\<rparr>"

definition ex_auth :: auth_settings where
  "ex_auth = \<lparr>au_username = lit ''admin'', au_password = [], au_app_name = lit ''LLM-SafetyHub'',
     au_ip_whitelist = [lit ''10.0.0.1'']\<rparr>"

definition ex_admin_request :: "str \<Rightarrow> admin_request" where
  "ex_admin_request cookie = \<lparr>ad_path = lit ''/admin/api/keys'', ad_client_host = Some (lit ''10.0.0.1''),
     ad_session_cookie = cookie, ad_authorization = [], ad_now = 50\<rparr>"

section \<open>Conversations\<close>

definition ex_conversation :: "int \<Rightarrow> str \<Rightarrow> str \<Rightarrow> conversation" where
  "ex_conversation i cid traj = \<lparr>tc_id = i, tc_conversation_id = cid, tc_request_id = lit ''r'', tc_user_id = lit ''u'',
     tc_api_key_id = lit ''k'', tc_model = JNull, tc_capability = lit ''chat'', tc_messages = [],
     tc_assistant_response = lit ''ok'', tc_trajectory = traj, tc_trajectory_hash = [], tc_covered_by = [],
     tc_analysis_status = lit ''pending'', tc_analyzed_at = None, tc_prompt_bytes = 0, tc_response_bytes = 0,
     tc_is_desensitized = False, tc_expires_at = Some 5, tc_created_at = 0\<rparr>"

text \<open>A trajectory is as many equal messages as its text has characters.\<close>

definition ex_coverage_env :: coverage_env where
  "ex_coverage_env = \<lparr>ce_loads = (\<lambda>s. Some (JList (map (\<lambda>_. JStr (lit ''m'')) s))), ce_elapsed = (\<lambda>_. 0),
     ce_stop = (\<lambda>_. False), ce_commits = (\<lambda>_. True), ce_now = 7\<rparr>"

definition ex_coverage_config :: coverage_config where
  "ex_coverage_config = \<lparr>co_max_seconds = 600, co_max_records = 5000, co_batch_size = 200\<rparr>"

definition ex_table :: training_table where
  "ex_table = [ex_conversation 1 (lit ''c1'') (lit ''ab''), ex_conversation 2 (lit ''c2'') (lit ''abcd'')]"

lemma ex_hmac: "li_hmac ex_auth_libs k m \<noteq> [] \<and> ascii_only (li_hmac ex_auth_libs k m)"
  by (auto simp: ex_auth_libs_def ascii_only_def lit_def list_all_iff)

end
