(* ===== verification/Database.thy ===== *)
theory Database
  imports Paths
begin

text \<open>
  Setting the database up at start-up (\<open>storage/database.py\<close>): create what is missing, add the columns
  older versions lack, record the migrations. The engine is SQLAlchemy over SQLite or PostgreSQL and a
  parameter: \<open>exec\<close> runs a statement, \<open>create_all\<close> is \<open>Base.metadata.create_all\<close>, \<open>mkdir\<close> makes a
  directory; \<open>'w\<close> is the world they act on. What the code relies on of them is the locale
  \<open>sql_database\<close>. SQL names are plain strings.
\<close>

section \<open>Tables and columns\<close>

datatype sql_default = D_Text string | D_Int int | D_False | D_Null | D_Now

text \<open>The type and the default of a column, as in \<open>VARCHAR(64) DEFAULT NULL\<close>; \<open>D_Now\<close> is
  \<open>CURRENT_TIMESTAMP\<close>.\<close>

datatype column_def = Def string sql_default

fun column_default :: "column_def \<Rightarrow> sql_default" where
  "column_default (Def type_name d) = d"

text \<open>The tables of the ORM classes (\<open>storage/models.py\<close>) and their columns.\<close>

definition MODEL_COLUMNS :: "(string \<times> string list) list" where
  "MODEL_COLUMNS =
    [
     (''training_conversations'',
       [''id'', ''conversation_id'', ''request_id'', ''user_id'', ''api_key_id'', ''model'', ''capability'',
        ''messages'', ''assistant_response'', ''trajectory'', ''trajectory_hash'',
        ''covered_by_conversation_id'', ''analysis_status'', ''analyzed_at'', ''prompt_bytes'',
        ''response_bytes'', ''is_desensitized'', ''expires_at'', ''created_at'']),
     (''runtime_settings'',
       [''key'', ''value'', ''description'', ''updated_by'', ''created_at'', ''updated_at'']),
     (''data_governance_jobs'',
       [''id'', ''job_type'', ''status'', ''requested_by'', ''processed_count'', ''marked_count'',
        ''deleted_count'', ''cursor_value'', ''config_snapshot'', ''error'', ''started_at'', ''updated_at'',
        ''finished_at'']),
     (''audit_logs'',
       [''id'', ''request_id'', ''user_id'', ''rule_id'', ''rule_name'', ''rule_level'', ''scanner_type'',
        ''matched_snippet'', ''context_snippet'', ''desensitized_snippet'', ''full_text_hash'',
        ''action_taken'', ''approval_id'', ''security_policy_id'', ''created_at'']),
     (''image_assets'',
       [''id'', ''request_id'', ''source_index'', ''source_type'', ''source_url'', ''status'', ''local_path'',
        ''sha256'', ''mime_type'', ''size_bytes'', ''error'', ''created_at'', ''completed_at'']),
     (''generated_reports'',
       [''id'', ''report_type'', ''period_start'', ''period_end'', ''timezone'', ''status'',
        ''generation_mode'', ''include_sensitive'', ''pdf_path'', ''xlsx_path'', ''csv_path'', ''pdf_sha256'',
        ''xlsx_sha256'', ''csv_sha256'', ''summary_json'', ''runtime_summary_json'', ''error_message'',
        ''generated_by'', ''generated_at'', ''expires_at'', ''created_at'', ''updated_at'']),
     (''runtime_samples'',
       [''id'', ''sampled_at'', ''worker_pid'', ''health_status'', ''cpu_percent'', ''memory_percent'',
        ''data_disk_total'', ''data_disk_used'', ''data_disk_free'', ''system_disk_total'',
        ''system_disk_used'', ''system_disk_free'', ''v1_inflight'', ''v1_queued'', ''v1_rejected_total'',
        ''v1_timeout_total'', ''archive_queue_size'', ''archive_processed_total'', ''archive_dropped_total'',
        ''upstream_error_total'', ''raw_json'', ''created_at'']),
     (''api_keys'',
       [''id'', ''key_hash'', ''key_prefix'', ''key_suffix'', ''name'', ''owner_user_id'', ''owner_department'',
        ''cost_center'', ''status'', ''provider_name'', ''upstream_route_id'', ''upstream_key_id'',
        ''upstream_key_prefix'', ''upstream_key_encrypted'', ''safetyhub_key_encrypted'', ''is_decoupled'',
        ''security_policy_id'', ''approval_chain_id'', ''created_at'', ''expires_at'', ''revoked_at'']),
     (''approval_requests'',
       [''id'', ''request_id'', ''user_id'', ''api_key_id'', ''model'', ''capability'', ''rule_id'', ''status'',
        ''approver'', ''expires_at'', ''decided_at'', ''chain_id'', ''current_level'', ''escalated_at'',
        ''created_at'']),
     (''security_policies'',
       [''id'', ''name'', ''description'', ''rule_overrides'', ''block_threshold'', ''warn_to_block_keywords'',
        ''immutable_rules'', ''inherit_from'', ''is_default'', ''created_at'', ''updated_at'']),
     (''approval_chains'',
       [''id'', ''name'', ''description'', ''chain_definition'', ''trigger_rule_levels'',
        ''trigger_capabilities'', ''escalation_policy'', ''blocked_rules'', ''is_default'', ''created_at'',
        ''updated_at'']),
     (''admin_operations'',
       [''id'', ''request_id'', ''admin_user'', ''operation'', ''resource_type'', ''resource_id'',
        ''created_at''])]"

definition SQLITE_LEGACY_COLUMNS :: "(string \<times> (string \<times> column_def) list) list" where
  "SQLITE_LEGACY_COLUMNS =
    [
     (''image_assets'',
       [(''request_id'', Def ''VARCHAR(64)'' (D_Text '''')), (''source_index'', Def ''INTEGER'' (D_Int 0)),
        (''source_type'', Def ''VARCHAR(32)'' (D_Text '''')), (''source_url'', Def ''TEXT'' (D_Text '''')),
        (''status'', Def ''VARCHAR(32)'' (D_Text ''pending'')), (''local_path'', Def ''TEXT'' (D_Text '''')),
        (''sha256'', Def ''VARCHAR(64)'' (D_Text '''')), (''mime_type'', Def ''VARCHAR(64)'' (D_Text '''')),
        (''size_bytes'', Def ''INTEGER'' (D_Int 0)), (''error'', Def ''TEXT'' (D_Text '''')),
        (''created_at'', Def ''DATETIME'' D_Now), (''completed_at'', Def ''DATETIME'' D_Null)]),
     (''audit_logs'',
       [(''approval_id'', Def ''VARCHAR(64)'' D_Null), (''security_policy_id'', Def ''VARCHAR(64)'' D_Null),
        (''context_snippet'', Def ''TEXT'' (D_Text '''')),
        (''desensitized_snippet'', Def ''TEXT'' (D_Text ''''))]),
     (''training_conversations'',
       [(''messages'', Def ''TEXT'' (D_Text '''')), (''assistant_response'', Def ''TEXT'' (D_Text '''')),
        (''trajectory'', Def ''TEXT'' (D_Text '''')),
        (''analysis_status'', Def ''VARCHAR(32)'' (D_Text ''pending'')),
        (''analyzed_at'', Def ''DATETIME'' D_Null)]),
     (''data_governance_jobs'',
       [(''requested_by'', Def ''VARCHAR(128)'' (D_Text '''')),
        (''processed_count'', Def ''INTEGER'' (D_Int 0)), (''marked_count'', Def ''INTEGER'' (D_Int 0)),
        (''deleted_count'', Def ''INTEGER'' (D_Int 0)), (''cursor_value'', Def ''VARCHAR(128)'' (D_Text '''')),
        (''config_snapshot'', Def ''TEXT'' (D_Text ''{}'')), (''error'', Def ''TEXT'' (D_Text '''')),
        (''updated_at'', Def ''DATETIME'' D_Now), (''finished_at'', Def ''DATETIME'' D_Null)]),
     (''api_keys'',
       [(''key_prefix'', Def ''VARCHAR(16)'' (D_Text '''')), (''key_suffix'', Def ''VARCHAR(8)'' (D_Text '''')),
        (''name'', Def ''VARCHAR(128)'' (D_Text '''')), (''owner_user_id'', Def ''VARCHAR(128)'' (D_Text '''')),
        (''owner_department'', Def ''VARCHAR(128)'' D_Null), (''cost_center'', Def ''VARCHAR(64)'' D_Null),
        (''status'', Def ''VARCHAR(16)'' (D_Text ''active'')),
        (''provider_name'', Def ''VARCHAR(64)'' (D_Text ''passthrough'')),
        (''upstream_route_id'', Def ''VARCHAR(64)'' D_Null), (''upstream_key_id'', Def ''VARCHAR(128)'' D_Null),
        (''upstream_key_prefix'', Def ''VARCHAR(16)'' D_Null),
        (''upstream_key_encrypted'', Def ''TEXT'' D_Null), (''safetyhub_key_encrypted'', Def ''TEXT'' D_Null),
        (''is_decoupled'', Def ''BOOLEAN'' (D_Int 0)), (''security_policy_id'', Def ''VARCHAR(64)'' D_Null),
        (''approval_chain_id'', Def ''VARCHAR(64)'' D_Null), (''created_at'', Def ''DATETIME'' D_Now),
        (''expires_at'', Def ''DATETIME'' D_Null), (''revoked_at'', Def ''DATETIME'' D_Null)])]"

definition POSTGRES_LEGACY_COLUMNS :: "(string \<times> (string \<times> column_def) list) list" where
  "POSTGRES_LEGACY_COLUMNS =
    [
     (''audit_logs'',
       [(''context_snippet'', Def ''TEXT'' (D_Text '''')),
        (''desensitized_snippet'', Def ''TEXT'' (D_Text ''''))]),
     (''api_keys'',
       [(''key_prefix'', Def ''VARCHAR(16)'' (D_Text '''')), (''key_suffix'', Def ''VARCHAR(8)'' (D_Text '''')),
        (''name'', Def ''VARCHAR(128)'' (D_Text '''')), (''owner_user_id'', Def ''VARCHAR(128)'' (D_Text '''')),
        (''owner_department'', Def ''VARCHAR(128)'' D_Null), (''cost_center'', Def ''VARCHAR(64)'' D_Null),
        (''status'', Def ''VARCHAR(16)'' (D_Text ''active'')),
        (''provider_name'', Def ''VARCHAR(64)'' (D_Text ''passthrough'')),
        (''upstream_route_id'', Def ''VARCHAR(64)'' D_Null), (''upstream_key_id'', Def ''VARCHAR(128)'' D_Null),
        (''upstream_key_prefix'', Def ''VARCHAR(16)'' D_Null),
        (''upstream_key_encrypted'', Def ''TEXT'' D_Null), (''safetyhub_key_encrypted'', Def ''TEXT'' D_Null),
        (''is_decoupled'', Def ''BOOLEAN'' D_False), (''security_policy_id'', Def ''VARCHAR(64)'' D_Null),
        (''approval_chain_id'', Def ''VARCHAR(64)'' D_Null),
        (''created_at'', Def ''TIMESTAMP WITH TIME ZONE'' D_Now),
        (''expires_at'', Def ''TIMESTAMP WITH TIME ZONE'' D_Null),
        (''revoked_at'', Def ''TIMESTAMP WITH TIME ZONE'' D_Null)]),
     (''training_conversations'',
       [(''messages'', Def ''TEXT'' (D_Text '''')), (''assistant_response'', Def ''TEXT'' (D_Text '''')),
        (''trajectory'', Def ''TEXT'' (D_Text '''')),
        (''analysis_status'', Def ''VARCHAR(32)'' (D_Text ''pending'')),
        (''analyzed_at'', Def ''TIMESTAMP WITH TIME ZONE'' D_Null)]),
     (''data_governance_jobs'',
       [(''requested_by'', Def ''VARCHAR(128)'' (D_Text '''')),
        (''processed_count'', Def ''INTEGER'' (D_Int 0)), (''marked_count'', Def ''INTEGER'' (D_Int 0)),
        (''deleted_count'', Def ''INTEGER'' (D_Int 0)), (''cursor_value'', Def ''VARCHAR(128)'' (D_Text '''')),
        (''config_snapshot'', Def ''TEXT'' (D_Text ''{}'')), (''error'', Def ''TEXT'' (D_Text '''')),
        (''updated_at'', Def ''TIMESTAMP WITH TIME ZONE'' D_Now),
        (''finished_at'', Def ''TIMESTAMP WITH TIME ZONE'' D_Null)])]"

section \<open>Statements\<close>

text \<open>The statements of the module: \<open>PRAGMA name\<close>, \<open>PRAGMA table_info(t)\<close>,
  \<open>ALTER TABLE t ADD COLUMN c d\<close>, the same with \<open>IF NOT EXISTS\<close>, \<open>CREATE TABLE IF NOT EXISTS\<close> of the
  migration table with a type for its time, \<open>SELECT version\<close> and \<open>INSERT\<close> of a version.\<close>

datatype sql =
    Pragma string
  | Table_Info string
  | Add_Column string string column_def
  | Add_Column_If_Missing string string column_def
  | Create_Migrations string
  | Select_Versions
  | Insert_Version string string

definition SCHEMA_MIGRATIONS_TABLE :: string where
  "SCHEMA_MIGRATIONS_TABLE = ''schema_migrations''"

definition MIGRATIONS :: "(string \<times> string) list" where
  "MIGRATIONS = [(''0001_baseline_metadata'', ''Baseline SQLAlchemy metadata and legacy column compatibility'')]"

text \<open>What can be seen of a database: its tables, their columns, the migrations recorded. The effect of
  a statement on it and the names it returns, as SQLite and PostgreSQL document them.\<close>

record db_view =
  vw_tables :: "string set"
  vw_columns :: "(string \<times> string) set"
  vw_versions :: "string set"

definition add_tables :: "(string \<times> string list) list \<Rightarrow> db_view \<Rightarrow> db_view" where
  "add_tables ts v =
     v\<lparr>vw_tables := vw_tables v \<union> set (map fst ts),
       vw_columns := vw_columns v \<union>
         set (concat (map (\<lambda>(t, cs). if t \<in> vw_tables v then [] else map (Pair t) cs) ts))\<rparr>"

fun sql_effect :: "sql \<Rightarrow> db_view \<Rightarrow> db_view" where
  "sql_effect (Pragma p) v = v"
| "sql_effect (Table_Info t) v = v"
| "sql_effect (Add_Column t c d) v = v\<lparr>vw_columns := insert (t, c) (vw_columns v)\<rparr>"
| "sql_effect (Add_Column_If_Missing t c d) v = v\<lparr>vw_columns := insert (t, c) (vw_columns v)\<rparr>"
| "sql_effect (Create_Migrations ts) v =
     add_tables [(SCHEMA_MIGRATIONS_TABLE, [''version'', ''description'', ''applied_at''])] v"
| "sql_effect Select_Versions v = v"
| "sql_effect (Insert_Version n d) v = v\<lparr>vw_versions := insert n (vw_versions v)\<rparr>"

fun sql_answer :: "sql \<Rightarrow> db_view \<Rightarrow> string set" where
  "sql_answer (Table_Info t) v = snd ` Set.filter (\<lambda>x. fst x = t) (vw_columns v)"
| "sql_answer Select_Versions v = vw_versions v"
| "sql_answer q v = {}"

section \<open>The start-up\<close>

definition SQLITE_PREFIX :: str where "SQLITE_PREFIX = lit ''sqlite+aiosqlite:///''"
definition POSTGRES_PREFIX :: str where "POSTGRES_PREFIX = lit ''postgresql+asyncpg://''"

definition sqlite_connect_args :: "str \<Rightarrow> (string \<times> int) list" where
  "sqlite_connect_args db_url = (if \<not> startswith db_url SQLITE_PREFIX then [] else [(''timeout'', 30)])"

text \<open>\<open>for x in xs: f(x)\<close>, where \<open>f\<close> may raise.\<close>

fun each_do :: "('a \<Rightarrow> 'w \<Rightarrow> 'w res) \<Rightarrow> 'a list \<Rightarrow> 'w \<Rightarrow> 'w res" where
  "each_do f [] w = Inr w"
| "each_do f (x # xs) w = rbind (f x w) (each_do f xs)"

type_synonym 'w sql_exec = "sql \<Rightarrow> 'w \<Rightarrow> ('w \<times> string list) res"

text \<open>A statement whose answer is not used.\<close>

definition run_sql :: "'w sql_exec \<Rightarrow> sql \<Rightarrow> 'w \<Rightarrow> 'w res" where
  "run_sql exec q w = rbind (exec q w) (\<lambda>(w', r). Inr w')"

definition ensure_sqlite_parent_dir :: "(path \<Rightarrow> 'w \<Rightarrow> 'w res) \<Rightarrow> str \<Rightarrow> 'w \<Rightarrow> 'w res" where
  "ensure_sqlite_parent_dir mkdir db_url w =
     (if \<not> startswith db_url SQLITE_PREFIX then Inr w
      else (let db_path = removeprefix db_url SQLITE_PREFIX in
            if startswith db_path (lit '':memory:'') then Inr w
            else (let p = parse_path db_path in mkdir (p\<lparr>pt_parts := butlast (pt_parts p)\<rparr>) w)))"

definition configure_sqlite :: "'w sql_exec \<Rightarrow> str \<Rightarrow> 'w \<Rightarrow> 'w res" where
  "configure_sqlite exec db_url w =
     (if \<not> startswith db_url SQLITE_PREFIX then Inr w
      else each_do (\<lambda>p. run_sql exec (Pragma p))
             [''journal_mode=WAL'', ''synchronous=NORMAL'', ''busy_timeout=30000''] w)"

text \<open>The inner loop over the columns of one table.\<close>

definition add_missing_columns ::
    "'w sql_exec \<Rightarrow> string \<Rightarrow> string list \<Rightarrow> (string \<times> column_def) list \<Rightarrow> 'w \<Rightarrow> 'w res" where
  "add_missing_columns exec table_name existing_columns =
     each_do (\<lambda>(column_name, column_definition) w.
       if column_name \<in> set existing_columns then Inr w
       else run_sql exec (Add_Column table_name column_name column_definition) w)"

definition ensure_table_columns :: "'w sql_exec \<Rightarrow> string \<times> (string \<times> column_def) list \<Rightarrow> 'w \<Rightarrow> 'w res" where
  "ensure_table_columns exec tc w =
     rbind (exec (Table_Info (fst tc)) w) (\<lambda>(w', existing_columns).
     add_missing_columns exec (fst tc) existing_columns (snd tc) w')"

definition ensure_sqlite_legacy_columns :: "'w sql_exec \<Rightarrow> str \<Rightarrow> 'w \<Rightarrow> 'w res" where
  "ensure_sqlite_legacy_columns exec db_url w =
     (if \<not> startswith db_url SQLITE_PREFIX then Inr w
      else each_do (ensure_table_columns exec) SQLITE_LEGACY_COLUMNS w)"

definition ensure_postgres_legacy_columns :: "'w sql_exec \<Rightarrow> str \<Rightarrow> 'w \<Rightarrow> 'w res" where
  "ensure_postgres_legacy_columns exec db_url w =
     (if \<not> startswith db_url POSTGRES_PREFIX then Inr w
      else each_do (\<lambda>(table_name, columns).
             each_do (\<lambda>(column_name, column_definition).
               run_sql exec (Add_Column_If_Missing table_name column_name column_definition)) columns)
             POSTGRES_LEGACY_COLUMNS w)"

definition ensure_legacy_columns :: "'w sql_exec \<Rightarrow> str \<Rightarrow> 'w \<Rightarrow> 'w res" where
  "ensure_legacy_columns exec db_url w =
     rbind (ensure_sqlite_legacy_columns exec db_url w) (ensure_postgres_legacy_columns exec db_url)"

definition ensure_schema_migrations_table :: "'w sql_exec \<Rightarrow> str \<Rightarrow> 'w \<Rightarrow> 'w res" where
  "ensure_schema_migrations_table exec db_url =
     run_sql exec (Create_Migrations
       (if startswith db_url POSTGRES_PREFIX then ''TIMESTAMP WITH TIME ZONE'' else ''DATETIME''))"

definition run_schema_migrations :: "'w sql_exec \<Rightarrow> str \<Rightarrow> 'w \<Rightarrow> 'w res" where
  "run_schema_migrations exec db_url w =
     rbind (ensure_schema_migrations_table exec db_url w) (\<lambda>w1.
     rbind (exec Select_Versions w1) (\<lambda>(w2, applied_versions).
     each_do (\<lambda>(version, description) w.
       if version \<in> set applied_versions then Inr w else run_sql exec (Insert_Version version description) w)
       MIGRATIONS w2))"

definition init_db ::
    "(path \<Rightarrow> 'w \<Rightarrow> 'w res) \<Rightarrow> 'w sql_exec \<Rightarrow> ('w \<Rightarrow> 'w res) \<Rightarrow> str \<Rightarrow> 'w \<Rightarrow> 'w res" where
  "init_db mkdir exec create_all db_url w =
     rbind (ensure_sqlite_parent_dir mkdir db_url w) (\<lambda>w.
     rbind (configure_sqlite exec db_url w) (\<lambda>w.
     rbind (create_all w) (\<lambda>w.
     rbind (ensure_legacy_columns exec db_url w) (\<lambda>w.
     run_schema_migrations exec db_url w))))"

section \<open>What it achieves\<close>

text \<open>The columns that are added to tables of older versions, and the abstract start-up: the tables of
  the models that are not there, those columns, the migration table, the migrations.\<close>

definition legacy_columns :: "str \<Rightarrow> (string \<times> (string \<times> column_def) list) list" where
  "legacy_columns db_url =
     (if startswith db_url SQLITE_PREFIX then SQLITE_LEGACY_COLUMNS
      else if startswith db_url POSTGRES_PREFIX then POSTGRES_LEGACY_COLUMNS else [])"

definition column_pairs :: "(string \<times> (string \<times> column_def) list) list \<Rightarrow> (string \<times> string) list" where
  "column_pairs l = concat (map (\<lambda>(t, cs). map (\<lambda>c. (t, fst c)) cs) l)"

definition init_view :: "str \<Rightarrow> db_view \<Rightarrow> db_view" where
  "init_view db_url v =
     (let v1 = add_tables MODEL_COLUMNS v;
          v2 = v1\<lparr>vw_columns := vw_columns v1 \<union> set (column_pairs (legacy_columns db_url))\<rparr>;
          v3 = add_tables [(SCHEMA_MIGRATIONS_TABLE, [''version'', ''description'', ''applied_at''])] v2
      in v3\<lparr>vw_versions := vw_versions v3 \<union> set (map fst MIGRATIONS)\<rparr>)"

locale sql_database =
  fixes mkdir :: "path \<Rightarrow> 'w \<Rightarrow> 'w res"
    and exec :: "'w sql_exec"
    and create_all :: "'w \<Rightarrow> 'w res"
    and view :: "'w \<Rightarrow> db_view"
  assumes mkdir_view: "mkdir p w = Inr w' \<Longrightarrow> view w' = view w"
    and exec_view: "exec q w = Inr (w', r) \<Longrightarrow> view w' = sql_effect q (view w) \<and> set r = sql_answer q (view w)"
    and create_all_view: "create_all w = Inr w' \<Longrightarrow> view w' = add_tables MODEL_COLUMNS (view w)"
begin

lemma run_sql_view: "run_sql exec q w = Inr w' \<Longrightarrow> view w' = sql_effect q (view w)"
  by (auto simp: run_sql_def rbind_eq_Inr dest: exec_view)

lemma parent_dir_view: "ensure_sqlite_parent_dir mkdir db_url w = Inr w' \<Longrightarrow> view w' = view w"
  by (auto simp: ensure_sqlite_parent_dir_def Let_def mkdir_view split: if_splits)

lemma configure_view: "configure_sqlite exec db_url w = Inr w' \<Longrightarrow> view w' = view w"
  by (auto simp: configure_sqlite_def rbind_eq_Inr dest!: run_sql_view split: if_splits)

lemma add_columns_view:
  "each_do (\<lambda>(c, d) w. if c \<in> set old then Inr w else run_sql exec (Add_Column t c d) w) cs w = Inr w' \<Longrightarrow>
   (\<forall>c\<in>set old. (t, c) \<in> vw_columns (view w)) \<Longrightarrow>
   view w' = (view w)\<lparr>vw_columns := vw_columns (view w) \<union> set (map (\<lambda>c. (t, fst c)) cs)\<rparr>"
proof (induction cs arbitrary: w)
  case (Cons cd cs)
  obtain c d where cd: "cd = (c, d)" by (cases cd)
  from Cons.prems(1) obtain w1 where
    step: "(if c \<in> set old then Inr w else run_sql exec (Add_Column t c d) w) = Inr w1"
    and rest: "each_do (\<lambda>(c, d) w. if c \<in> set old then Inr w else run_sql exec (Add_Column t c d) w) cs w1 = Inr w'"
    by (auto simp: cd rbind_eq_Inr)
  from step Cons.prems(2)
  have v1: "view w1 = (view w)\<lparr>vw_columns := insert (t, c) (vw_columns (view w))\<rparr>"
    by (auto simp: insert_absorb dest: run_sql_view split: if_splits)
  with Cons.IH [OF rest] Cons.prems(2) show ?case by (simp add: cd)
qed simp

lemma ensure_table_view:
  assumes "ensure_table_columns exec tc w = Inr w'"
  shows "view w' = (view w)\<lparr>vw_columns := vw_columns (view w) \<union> set (column_pairs [tc])\<rparr>"
proof -
  from assms obtain w1 old where info: "exec (Table_Info (fst tc)) w = Inr (w1, old)"
    and add: "each_do (\<lambda>(c, d) w. if c \<in> set old then Inr w else run_sql exec (Add_Column (fst tc) c d) w)
      (snd tc) w1 = Inr w'"
    by (auto simp: ensure_table_columns_def add_missing_columns_def rbind_eq_Inr)
  from exec_view [OF info] have "view w1 = view w" "\<forall>c\<in>set old. (fst tc, c) \<in> vw_columns (view w1)" by auto
  with add_columns_view [OF add] show ?thesis by (simp add: column_pairs_def split_def)
qed

lemma each_columns_view:
  assumes "\<And>tc w w'. f tc w = Inr w' \<Longrightarrow>
      view w' = (view w)\<lparr>vw_columns := vw_columns (view w) \<union> set (column_pairs [tc])\<rparr>"
  shows "each_do f l w = Inr w' \<Longrightarrow>
    view w' = (view w)\<lparr>vw_columns := vw_columns (view w) \<union> set (column_pairs l)\<rparr>"
proof (induction l arbitrary: w)
  case (Cons tc l)
  from Cons.prems obtain w1 where "f tc w = Inr w1" "each_do f l w1 = Inr w'"
    by (auto simp: rbind_eq_Inr)
  with assms [of tc w w1] Cons.IH [of w1] show ?case by (simp add: column_pairs_def Un_assoc)
qed (simp add: column_pairs_def)

lemma postgres_columns_view:
  "each_do (\<lambda>(c, d). run_sql exec (Add_Column_If_Missing t c d)) cs w = Inr w' \<Longrightarrow>
   view w' = (view w)\<lparr>vw_columns := vw_columns (view w) \<union> set (column_pairs [(t, cs)])\<rparr>"
proof (induction cs arbitrary: w)
  case (Cons cd cs)
  then obtain c d w1 where "cd = (c, d)" "run_sql exec (Add_Column_If_Missing t c d) w = Inr w1"
    "each_do (\<lambda>(c, d). run_sql exec (Add_Column_If_Missing t c d)) cs w1 = Inr w'"
    by (cases cd) (auto simp: rbind_eq_Inr)
  with Cons.IH [of w1] run_sql_view [of _ w w1] show ?case by (simp add: column_pairs_def)
qed (simp add: column_pairs_def)

lemma prefixes_differ: "startswith db_url SQLITE_PREFIX \<Longrightarrow> \<not> startswith db_url POSTGRES_PREFIX"
  by (auto simp: startswith_iff SQLITE_PREFIX_def POSTGRES_PREFIX_def lit_def)

lemma sqlite_view:
  assumes "ensure_sqlite_legacy_columns exec db_url w = Inr w'"
  shows "view w' = (if startswith db_url SQLITE_PREFIX
    then (view w)\<lparr>vw_columns := vw_columns (view w) \<union> set (column_pairs SQLITE_LEGACY_COLUMNS)\<rparr> else view w)"
  using assms each_columns_view [OF ensure_table_view, where l = SQLITE_LEGACY_COLUMNS and w = w and w' = w']
  by (auto simp: ensure_sqlite_legacy_columns_def simp del: set_concat split: if_splits)

lemma postgres_view:
  assumes "ensure_postgres_legacy_columns exec db_url w = Inr w'"
  shows "view w' = (if startswith db_url POSTGRES_PREFIX
    then (view w)\<lparr>vw_columns := vw_columns (view w) \<union> set (column_pairs POSTGRES_LEGACY_COLUMNS)\<rparr> else view w)"
proof (cases "startswith db_url POSTGRES_PREFIX")
  case True
  have "view w' = (view w)\<lparr>vw_columns := vw_columns (view w) \<union> set (column_pairs POSTGRES_LEGACY_COLUMNS)\<rparr>"
    by (rule each_columns_view [where f = "\<lambda>(t, cs). each_do (\<lambda>(c, d). run_sql exec (Add_Column_If_Missing t c d)) cs"])
      (use assms True in \<open>auto simp: ensure_postgres_legacy_columns_def dest: postgres_columns_view\<close>)
  with True show ?thesis by simp
qed (use assms in \<open>simp add: ensure_postgres_legacy_columns_def\<close>)

lemma legacy_view:
  assumes "ensure_legacy_columns exec db_url w = Inr w'"
  shows "view w' = (view w)\<lparr>vw_columns := vw_columns (view w) \<union> set (column_pairs (legacy_columns db_url))\<rparr>"
proof -
  from assms obtain w1 where "ensure_sqlite_legacy_columns exec db_url w = Inr w1"
    "ensure_postgres_legacy_columns exec db_url w1 = Inr w'"
    by (auto simp: ensure_legacy_columns_def rbind_eq_Inr)
  from sqlite_view [OF this(1)] postgres_view [OF this(2)] prefixes_differ [of db_url] show ?thesis
    by (simp add: legacy_columns_def column_pairs_def)
qed

lemma versions_view:
  "each_do (\<lambda>(n, s) w. if n \<in> set old then Inr w else run_sql exec (Insert_Version n s) w) ms w = Inr w' \<Longrightarrow>
   set old \<subseteq> vw_versions (view w) \<Longrightarrow>
   view w' = (view w)\<lparr>vw_versions := vw_versions (view w) \<union> set (map fst ms)\<rparr>"
proof (induction ms arbitrary: w)
  case (Cons m ms)
  obtain n s where m: "m = (n, s)" by (cases m)
  from Cons.prems(1) obtain w1 where
    step: "(if n \<in> set old then Inr w else run_sql exec (Insert_Version n s) w) = Inr w1"
    and rest: "each_do (\<lambda>(n, s) w. if n \<in> set old then Inr w else run_sql exec (Insert_Version n s) w) ms w1 = Inr w'"
    by (auto simp: m rbind_eq_Inr)
  from step Cons.prems(2) have "view w1 = (view w)\<lparr>vw_versions := insert n (vw_versions (view w))\<rparr>"
    by (auto simp: insert_absorb dest: run_sql_view split: if_splits)
  with Cons.IH [OF rest] Cons.prems(2) show ?case by (auto simp: m)
qed simp

lemma migrations_view:
  assumes "run_schema_migrations exec db_url w = Inr w'"
  shows "view w' =
    (let v = add_tables [(SCHEMA_MIGRATIONS_TABLE, [''version'', ''description'', ''applied_at''])] (view w)
     in v\<lparr>vw_versions := vw_versions v \<union> set (map fst MIGRATIONS)\<rparr>)"
proof -
  from assms obtain w1 w2 old where w1: "ensure_schema_migrations_table exec db_url w = Inr w1"
    and w2: "exec Select_Versions w1 = Inr (w2, old)"
    and w': "each_do (\<lambda>(n, s) w. if n \<in> set old then Inr w else run_sql exec (Insert_Version n s) w)
      MIGRATIONS w2 = Inr w'"
    by (auto simp: run_schema_migrations_def rbind_eq_Inr)
  from exec_view [OF w2] have "view w2 = view w1" "set old \<subseteq> vw_versions (view w2)" by simp_all
  with versions_view [OF w'] w1 show ?thesis
    by (simp add: ensure_schema_migrations_table_def Let_def run_sql_view)
qed

lemma init_db_view:
  assumes "init_db mkdir exec create_all db_url w = Inr w'"
  shows "view w' = init_view db_url (view w)"
  using assms
  by (auto simp: init_db_def rbind_eq_Inr init_view_def Let_def
      dest!: parent_dir_view configure_view create_all_view legacy_view migrations_view)

end


text \<open>SQLite refuses to add a column whose default is the current time to a table that has rows.\<close>

locale sqlite_database = sql_database +
  fixes filled :: "'w \<Rightarrow> string set"
  assumes add_to_filled: "exec (Add_Column t c d) w = Inr (w', r) \<Longrightarrow> t \<in> filled w \<Longrightarrow> column_default d \<noteq> D_Now"
    and exec_filled: "exec q w = Inr (w', r) \<Longrightarrow> filled w \<subseteq> filled w'"
    and create_all_filled: "create_all w = Inr w' \<Longrightarrow> filled w \<subseteq> filled w'"
    and mkdir_filled: "mkdir p w = Inr w' \<Longrightarrow> filled w \<subseteq> filled w'"
begin

lemma run_sql_filled: "run_sql exec q w = Inr w' \<Longrightarrow> t \<in> filled w \<Longrightarrow> t \<in> filled w'"
  by (auto simp: run_sql_def rbind_eq_Inr dest: exec_filled)

lemma add_columns_filled:
  "each_do (\<lambda>(c, d) w. if c \<in> set old then Inr w else run_sql exec (Add_Column t c d) w) cs w = Inr w' \<Longrightarrow>
   s \<in> filled w \<Longrightarrow> s \<in> filled w' \<and> (s = t \<longrightarrow> (\<forall>(c, d)\<in>set cs. column_default d = D_Now \<longrightarrow> c \<in> set old))"
proof (induction cs arbitrary: w)
  case (Cons cd cs)
  obtain c d where cd: "cd = (c, d)" by (cases cd)
  from Cons.prems(1) obtain w1 where
    step: "(if c \<in> set old then Inr w else run_sql exec (Add_Column t c d) w) = Inr w1"
    and rest: "each_do (\<lambda>(c, d) w. if c \<in> set old then Inr w else run_sql exec (Add_Column t c d) w) cs w1 = Inr w'"
    by (auto simp: cd rbind_eq_Inr)
  from step Cons.prems(2) have "s \<in> filled w1" by (auto dest: run_sql_filled split: if_splits)
  moreover from step Cons.prems(2) have "s = t \<longrightarrow> column_default d = D_Now \<longrightarrow> c \<in> set old"
    by (auto simp: run_sql_def rbind_eq_Inr dest: add_to_filled split: if_splits)
  ultimately show ?case using Cons.IH [OF rest] by (simp add: cd)
qed simp

lemma ensure_table_filled:
  assumes "ensure_table_columns exec tc w = Inr w'" "s \<in> filled w"
  shows "s \<in> filled w' \<and>
    (s = fst tc \<longrightarrow> (\<forall>(c, d)\<in>set (snd tc). column_default d = D_Now \<longrightarrow> (s, c) \<in> vw_columns (view w)))"
proof -
  from assms(1) obtain w1 old where info: "exec (Table_Info (fst tc)) w = Inr (w1, old)"
    and add: "each_do (\<lambda>(c, d) w. if c \<in> set old then Inr w else run_sql exec (Add_Column (fst tc) c d) w)
      (snd tc) w1 = Inr w'"
    by (auto simp: ensure_table_columns_def add_missing_columns_def rbind_eq_Inr)
  from exec_filled [OF info] assms(2) have "s \<in> filled w1" by auto
  from add_columns_filled [OF add this] exec_view [OF info] show ?thesis by auto
qed

lemma ensure_sqlite_filled:
  "each_do (ensure_table_columns exec) l w = Inr w' \<Longrightarrow> distinct (map fst l) \<Longrightarrow> s \<in> filled w \<Longrightarrow>
   (s, cs) \<in> set l \<Longrightarrow> (c, d) \<in> set cs \<Longrightarrow> column_default d = D_Now \<Longrightarrow> (s, c) \<in> vw_columns (view w)"
proof (induction l arbitrary: w)
  case (Cons tc l)
  from Cons.prems(1) obtain w1 where tc: "ensure_table_columns exec tc w = Inr w1"
    and l: "each_do (ensure_table_columns exec) l w1 = Inr w'"
    by (auto simp: rbind_eq_Inr)
  note filled = ensure_table_filled [OF tc Cons.prems(3)]
  show ?case
  proof (cases "tc = (s, cs)")
    case True
    with filled Cons.prems(5,6) show ?thesis by auto
  next
    case False
    with Cons.prems(4) have l_mem: "(s, cs) \<in> set l" by auto
    then have "s \<in> fst ` set l" by force
    with Cons.prems(2) have "fst tc \<noteq> s" by auto
    with l_mem Cons.IH [OF l _ _ _ Cons.prems(5,6)] Cons.prems(2) filled ensure_table_view [OF tc]
    show ?thesis by (auto simp: column_pairs_def)
  qed
qed simp

lemma configure_filled: "configure_sqlite exec db_url w = Inr w' \<Longrightarrow> s \<in> filled w \<Longrightarrow> s \<in> filled w'"
  by (auto simp: configure_sqlite_def rbind_eq_Inr dest!: run_sql_filled split: if_splits)

lemma parent_dir_filled: "ensure_sqlite_parent_dir mkdir db_url w = Inr w' \<Longrightarrow> s \<in> filled w \<Longrightarrow> s \<in> filled w'"
  using mkdir_filled by (auto simp: ensure_sqlite_parent_dir_def Let_def split: if_splits)

lemma upgrade_needs_column:
  assumes "startswith db_url SQLITE_PREFIX" "init_db mkdir exec create_all db_url w = Inr w'"
    and "s \<in> filled w" "s \<in> vw_tables (view w)"
    and "(s, cs) \<in> set SQLITE_LEGACY_COLUMNS" "(c, d) \<in> set cs" "column_default d = D_Now"
  shows "(s, c) \<in> vw_columns (view w)"
proof -
  from assms(1,2) obtain w1 w2 w3 w4 where w1: "ensure_sqlite_parent_dir mkdir db_url w = Inr w1"
    and w2: "configure_sqlite exec db_url w1 = Inr w2" and w3: "create_all w2 = Inr w3"
    and w4: "each_do (ensure_table_columns exec) SQLITE_LEGACY_COLUMNS w3 = Inr w4"
    by (auto simp: init_db_def ensure_legacy_columns_def ensure_sqlite_legacy_columns_def rbind_eq_Inr)
  have "distinct (map fst SQLITE_LEGACY_COLUMNS)" by code_simp
  moreover have "s \<in> filled w3"
    using assms(3) parent_dir_filled [OF w1] configure_filled [OF w2] create_all_filled [OF w3] by auto
  ultimately have "(s, c) \<in> vw_columns (view w3)"
    using ensure_sqlite_filled [OF w4] assms(5-7) by blast
  with assms(4) parent_dir_view [OF w1] configure_view [OF w2] create_all_view [OF w3] show ?thesis
    by (auto simp: add_tables_def split: if_splits)
qed

end

text \<open>The legacy columns whose default is the current time.\<close>

definition now_columns :: "(string \<times> string) list" where
  "now_columns = [(''image_assets'', ''created_at''), (''data_governance_jobs'', ''updated_at''), (''api_keys'', ''created_at'')]"

lemma now_columns_legacy:
  assumes "(t, c) \<in> set now_columns"
  obtains cs d where "(t, cs) \<in> set SQLITE_LEGACY_COLUMNS" "(c, d) \<in> set cs" "column_default d = D_Now"
proof -
  have "list_all (\<lambda>(t, c). list_ex (\<lambda>(t', cs). t' = t \<and> list_ex (\<lambda>(c', d). c' = c \<and> column_default d = D_Now) cs)
    SQLITE_LEGACY_COLUMNS) now_columns" by code_simp
  with assms that show thesis by (force simp: list_all_iff list_ex_iff)
qed

text \<open>The other way round: an engine that refuses a statement only for these reasons, and a file system
  that lets the directory be made. A table that is missing, a column or a version that is there already and a
  default that is not constant are refused; nothing else is.\<close>

fun refused :: "sql \<Rightarrow> db_view \<Rightarrow> string set \<Rightarrow> bool" where
  "refused (Add_Column t c d) v fl \<longleftrightarrow>
     t \<notin> vw_tables v \<or> (t, c) \<in> vw_columns v \<or> t \<in> fl \<and> column_default d = D_Now"
| "refused (Add_Column_If_Missing t c d) v fl \<longleftrightarrow> t \<notin> vw_tables v"
| "refused Select_Versions v fl \<longleftrightarrow> SCHEMA_MIGRATIONS_TABLE \<notin> vw_tables v"
| "refused (Insert_Version n d) v fl \<longleftrightarrow> SCHEMA_MIGRATIONS_TABLE \<notin> vw_tables v \<or> n \<in> vw_versions v"
| "refused q v fl \<longleftrightarrow> False"

text \<open>A database that can be upgraded: no table that has rows lacks a column whose default is the current time.\<close>

definition upgradable :: "db_view \<Rightarrow> string set \<Rightarrow> bool" where
  "upgradable v fl \<longleftrightarrow> (\<forall>(t, c)\<in>set now_columns. t \<in> fl \<longrightarrow> (t, c) \<in> vw_columns v)"

lemma sqlite_legacy_shape:
  assumes "(t, cs) \<in> set SQLITE_LEGACY_COLUMNS"
  shows "t \<in> fst ` set MODEL_COLUMNS" "distinct (map fst cs)" "t \<noteq> SCHEMA_MIGRATIONS_TABLE"
    "(c, d) \<in> set cs \<Longrightarrow> column_default d = D_Now \<Longrightarrow> (t, c) \<in> set now_columns"
proof -
  have "list_all (\<lambda>(t, cs). t \<in> set (map fst MODEL_COLUMNS) \<and> distinct (map fst cs) \<and> t \<noteq> SCHEMA_MIGRATIONS_TABLE \<and>
      list_all (\<lambda>(c, d). column_default d = D_Now \<longrightarrow> (t, c) \<in> set now_columns) cs) SQLITE_LEGACY_COLUMNS" by code_simp
  with assms show "t \<in> fst ` set MODEL_COLUMNS" "distinct (map fst cs)" "t \<noteq> SCHEMA_MIGRATIONS_TABLE"
    "(c, d) \<in> set cs \<Longrightarrow> column_default d = D_Now \<Longrightarrow> (t, c) \<in> set now_columns"
    by (fastforce simp: list_all_iff)+
qed

lemma table_info_answer: "c \<in> sql_answer (Table_Info t) v \<longleftrightarrow> (t, c) \<in> vw_columns v"
  by force

lemma postgres_tables: "fst ` set POSTGRES_LEGACY_COLUMNS \<subseteq> fst ` set MODEL_COLUMNS"
proof -
  have "list_all (\<lambda>t. t \<in> set (map fst MODEL_COLUMNS)) (map fst POSTGRES_LEGACY_COLUMNS)" by code_simp
  then show ?thesis by (auto simp: list_all_iff)
qed

lemma add_tables_fields:
  "vw_tables (add_tables ts v) = vw_tables v \<union> fst ` set ts" "vw_columns v \<subseteq> vw_columns (add_tables ts v)"
  "vw_versions (add_tables ts v) = vw_versions v"
  by (auto simp: add_tables_def)

locale sql_engine = sqlite_database +
  assumes accepted: "\<not> refused q (view w) (filled w) \<Longrightarrow> \<exists>w' r. exec q w = Inr (w', r)"
    and refusal: "refused q (view w) (filled w) \<Longrightarrow> \<exists>e. exec q w = Inl e"
    and filled_after: "exec q w = Inr (w', r) \<Longrightarrow> filled w' \<subseteq> insert SCHEMA_MIGRATIONS_TABLE (filled w)"
    and created: "\<exists>w'. create_all w = Inr w' \<and> filled w' \<subseteq> filled w"
    and made_dir: "\<exists>w'. mkdir p w = Inr w' \<and> filled w' \<subseteq> filled w"
begin

lemma run_sql_accepted:
  assumes "\<not> refused q (view w) (filled w)"
  obtains w' where "run_sql exec q w = Inr w'" "view w' = sql_effect q (view w)"
    "filled w' \<subseteq> insert SCHEMA_MIGRATIONS_TABLE (filled w)"
proof -
  from accepted [OF assms] obtain w' r where "exec q w = Inr (w', r)" by blast
  with that [of w'] exec_view [of q w w' r] filled_after [of q w w' r] show thesis by (simp add: run_sql_def)
qed

lemma parent_dir_runs: "\<exists>w'. ensure_sqlite_parent_dir mkdir db_url w = Inr w' \<and> filled w' \<subseteq> filled w"
  using made_dir by (auto simp: ensure_sqlite_parent_dir_def Let_def)

lemma configure_runs:
  "\<exists>w'. configure_sqlite exec db_url w = Inr w' \<and> filled w' \<subseteq> insert SCHEMA_MIGRATIONS_TABLE (filled w)"
proof -
  have "\<exists>w'. each_do (\<lambda>p. run_sql exec (Pragma p)) ps w = Inr w' \<and> filled w' \<subseteq> insert SCHEMA_MIGRATIONS_TABLE (filled w)" for ps
  proof (induction ps arbitrary: w)
    case (Cons p ps)
    obtain w1 where w1: "run_sql exec (Pragma p) w = Inr w1" "filled w1 \<subseteq> insert SCHEMA_MIGRATIONS_TABLE (filled w)"
      using run_sql_accepted [of "Pragma p" w] by auto
    from Cons.IH [of w1] w1 show ?case by fastforce
  qed auto
  from this [of "[''journal_mode=WAL'', ''synchronous=NORMAL'', ''busy_timeout=30000'']"] show ?thesis
    by (auto simp: configure_sqlite_def simp del: each_do.simps)
qed

lemma add_columns_runs:
  assumes "distinct (map fst cs)" "t \<in> vw_tables (view w)" "t \<noteq> SCHEMA_MIGRATIONS_TABLE"
    and "\<forall>c\<in>fst ` set cs. (t, c) \<in> vw_columns (view w) \<longrightarrow> c \<in> set old"
    and "\<forall>(c, d)\<in>set cs. t \<in> filled w \<and> column_default d = D_Now \<longrightarrow> c \<in> set old"
  shows "\<exists>w'. each_do (\<lambda>(c, d) w. if c \<in> set old then Inr w else run_sql exec (Add_Column t c d) w) cs w = Inr w' \<and>
    filled w' \<subseteq> insert SCHEMA_MIGRATIONS_TABLE (filled w)"
  using assms
proof (induction cs arbitrary: w)
  case (Cons cd cs)
  obtain c d where cd: "cd = (c, d)" by (cases cd)
  show ?case
  proof (cases "c \<in> set old")
    case True
    with Cons.IH [of w] Cons.prems show ?thesis by (simp add: cd)
  next
    case False
    with Cons.prems have "\<not> refused (Add_Column t c d) (view w) (filled w)" by (auto simp: cd)
    then obtain w1 where w1: "run_sql exec (Add_Column t c d) w = Inr w1"
      "view w1 = sql_effect (Add_Column t c d) (view w)" "filled w1 \<subseteq> insert SCHEMA_MIGRATIONS_TABLE (filled w)"
      by (rule run_sql_accepted)
    have "\<exists>w'. each_do (\<lambda>(c, d) w. if c \<in> set old then Inr w else run_sql exec (Add_Column t c d) w) cs w1 = Inr w' \<and>
      filled w' \<subseteq> insert SCHEMA_MIGRATIONS_TABLE (filled w1)"
      using Cons.prems w1(2,3) by (intro Cons.IH) (auto simp: cd)
    with False w1(1,3) show ?thesis by (auto simp: cd)
  qed
qed auto

lemma sqlite_columns_run:
  assumes "\<forall>(t, cs)\<in>set l. t \<in> vw_tables (view w) \<and> distinct (map fst cs) \<and> t \<noteq> SCHEMA_MIGRATIONS_TABLE \<and>
      (\<forall>(c, d)\<in>set cs. t \<in> filled w \<and> column_default d = D_Now \<longrightarrow> (t, c) \<in> vw_columns (view w))"
  shows "\<exists>w'. each_do (ensure_table_columns exec) l w = Inr w' \<and> filled w' \<subseteq> insert SCHEMA_MIGRATIONS_TABLE (filled w)"
  using assms
proof (induction l arbitrary: w)
  case (Cons tc l)
  obtain t cs where tc: "tc = (t, cs)" by (cases tc)
  from accepted [of "Table_Info t" w] obtain w1 old where info: "exec (Table_Info t) w = Inr (w1, old)" by auto
  from exec_view [OF info] filled_after [OF info]
  have w1: "view w1 = view w" "\<forall>c. c \<in> set old \<longleftrightarrow> (t, c) \<in> vw_columns (view w)"
    "filled w1 \<subseteq> insert SCHEMA_MIGRATIONS_TABLE (filled w)" by (simp_all only: table_info_answer sql_effect.simps) simp_all
  from Cons.prems have t: "t \<in> vw_tables (view w)" "distinct (map fst cs)" "t \<noteq> SCHEMA_MIGRATIONS_TABLE"
    "\<And>c d. (c, d) \<in> set cs \<Longrightarrow> t \<in> filled w \<Longrightarrow> column_default d = D_Now \<Longrightarrow> (t, c) \<in> vw_columns (view w)"
    by (auto simp: tc)
  have "\<exists>w2. each_do (\<lambda>(c, d) w. if c \<in> set old then Inr w else run_sql exec (Add_Column t c d) w) cs w1 = Inr w2 \<and>
    filled w2 \<subseteq> insert SCHEMA_MIGRATIONS_TABLE (filled w1)"
  proof (rule add_columns_runs)
    show "\<forall>(c, d)\<in>set cs. t \<in> filled w1 \<and> column_default d = D_Now \<longrightarrow> c \<in> set old"
    proof clarify
      fix c d assume "(c, d) \<in> set cs" "t \<in> filled w1" "column_default d = D_Now"
      moreover from this w1(3) t(3) have "t \<in> filled w" by blast
      ultimately show "c \<in> set old" using t(4) w1(2) by blast
    qed
  qed (use t w1 in auto)
  then obtain w2 where w2: "each_do (\<lambda>(c, d) w. if c \<in> set old then Inr w else run_sql exec (Add_Column t c d) w) cs w1 = Inr w2"
    "filled w2 \<subseteq> insert SCHEMA_MIGRATIONS_TABLE (filled w1)" by blast
  then have table: "ensure_table_columns exec tc w = Inr w2"
    by (simp add: ensure_table_columns_def add_missing_columns_def tc info)
  have "\<exists>w'. each_do (ensure_table_columns exec) l w2 = Inr w' \<and> filled w' \<subseteq> insert SCHEMA_MIGRATIONS_TABLE (filled w2)"
  proof (rule Cons.IH, clarify)
    fix t' cs' assume m: "(t', cs') \<in> set l"
    with Cons.prems have p: "t' \<in> vw_tables (view w)" "distinct (map fst cs')" "t' \<noteq> SCHEMA_MIGRATIONS_TABLE"
      "\<forall>(c, d)\<in>set cs'. t' \<in> filled w \<and> column_default d = D_Now \<longrightarrow> (t', c) \<in> vw_columns (view w)" by auto
    from p(3) w1(3) w2(2) have "t' \<in> filled w2 \<Longrightarrow> t' \<in> filled w" by blast
    with p ensure_table_view [OF table]
    show "t' \<in> vw_tables (view w2) \<and> distinct (map fst cs') \<and> t' \<noteq> SCHEMA_MIGRATIONS_TABLE \<and>
        (\<forall>(c, d)\<in>set cs'. t' \<in> filled w2 \<and> column_default d = D_Now \<longrightarrow> (t', c) \<in> vw_columns (view w2))" by auto
  qed
  with table w1(3) w2(2) show ?case by auto
qed auto

lemma postgres_columns_run:
  assumes "fst ` set l \<subseteq> vw_tables (view w)"
  shows "\<exists>w'. each_do (\<lambda>(t, cs). each_do (\<lambda>(c, d). run_sql exec (Add_Column_If_Missing t c d)) cs) l w = Inr w' \<and>
    filled w' \<subseteq> insert SCHEMA_MIGRATIONS_TABLE (filled w)"
  using assms
proof (induction l arbitrary: w)
  case (Cons tc l)
  obtain t cs where tc: "tc = (t, cs)" by (cases tc)
  have "\<exists>w'. each_do (\<lambda>(c, d). run_sql exec (Add_Column_If_Missing t c d)) cs w = Inr w' \<and>
      vw_tables (view w') = vw_tables (view w) \<and> filled w' \<subseteq> insert SCHEMA_MIGRATIONS_TABLE (filled w)"
    if "t \<in> vw_tables (view w)" for w
    using that
  proof (induction cs arbitrary: w)
    case (Cons cd cs)
    obtain c d where cd: "cd = (c, d)" by (cases cd)
    from Cons.prems obtain w1 where w1: "run_sql exec (Add_Column_If_Missing t c d) w = Inr w1"
      "view w1 = sql_effect (Add_Column_If_Missing t c d) (view w)" "filled w1 \<subseteq> insert SCHEMA_MIGRATIONS_TABLE (filled w)"
      using run_sql_accepted [of "Add_Column_If_Missing t c d" w] by auto
    with Cons.IH [of w1] Cons.prems show ?case by (fastforce simp: cd)
  qed auto
  with Cons.prems obtain w1 where "each_do (\<lambda>(c, d). run_sql exec (Add_Column_If_Missing t c d)) cs w = Inr w1"
    "vw_tables (view w1) = vw_tables (view w)" "filled w1 \<subseteq> insert SCHEMA_MIGRATIONS_TABLE (filled w)"
    by (force simp: tc)
  with Cons.IH [of w1] Cons.prems show ?case by (fastforce simp: tc)
qed auto

lemma migrations_run:
  "\<exists>w'. run_schema_migrations exec db_url w = Inr w' \<and> filled w' \<subseteq> insert SCHEMA_MIGRATIONS_TABLE (filled w)"
proof -
  obtain ts where ts: "ensure_schema_migrations_table exec db_url = run_sql exec (Create_Migrations ts)"
    by (simp add: ensure_schema_migrations_table_def)
  obtain w1 where w1: "run_sql exec (Create_Migrations ts) w = Inr w1" "view w1 = sql_effect (Create_Migrations ts) (view w)"
    "filled w1 \<subseteq> insert SCHEMA_MIGRATIONS_TABLE (filled w)"
    using run_sql_accepted [of "Create_Migrations ts" w] by auto
  then have table: "SCHEMA_MIGRATIONS_TABLE \<in> vw_tables (view w1)" by (simp add: add_tables_fields)
  then obtain w2 old where sel: "exec Select_Versions w1 = Inr (w2, old)"
    using accepted [of Select_Versions w1] by auto
  from exec_view [OF sel] filled_after [OF sel] have w2: "view w2 = view w1" "set old = vw_versions (view w1)"
    "filled w2 \<subseteq> insert SCHEMA_MIGRATIONS_TABLE (filled w1)" by auto
  obtain n d where m: "MIGRATIONS = [(n, d)]" by (simp add: MIGRATIONS_def)
  show ?thesis
  proof (cases "n \<in> set old")
    case True
    with w1 w2 sel show ?thesis by (auto simp: run_schema_migrations_def ts m)
  next
    case False
    with table w2 have "\<not> refused (Insert_Version n d) (view w2) (filled w2)" by simp
    then obtain w3 where "run_sql exec (Insert_Version n d) w2 = Inr w3"
      "filled w3 \<subseteq> insert SCHEMA_MIGRATIONS_TABLE (filled w2)"
      by (rule run_sql_accepted) blast
    with False w1 w2 sel show ?thesis by (auto simp: run_schema_migrations_def ts m)
  qed
qed

text \<open>The start-up succeeds on every database that can be upgraded; after it, that is so still.\<close>

lemma init_db_runs:
  assumes "startswith db_url SQLITE_PREFIX \<Longrightarrow> upgradable (view w) (filled w)"
  obtains w' where "init_db mkdir exec create_all db_url w = Inr w'" "filled w' \<subseteq> insert SCHEMA_MIGRATIONS_TABLE (filled w)"
proof -
  let ?S = "\<lambda>w. insert SCHEMA_MIGRATIONS_TABLE (filled w)"
  obtain w1 where w1: "ensure_sqlite_parent_dir mkdir db_url w = Inr w1" "filled w1 \<subseteq> filled w"
    using parent_dir_runs by blast
  obtain w2 where w2: "configure_sqlite exec db_url w1 = Inr w2" "filled w2 \<subseteq> ?S w1" using configure_runs by blast
  obtain w3 where w3: "create_all w2 = Inr w3" "filled w3 \<subseteq> filled w2" using created by blast
  from create_all_view [OF w3(1)] configure_view [OF w2(1)] parent_dir_view [OF w1(1)]
  have v3: "view w3 = add_tables MODEL_COLUMNS (view w)" by simp
  from w1(2) w2(2) w3(2) have f3: "filled w3 \<subseteq> ?S w" by auto
  have tables: "fst ` set MODEL_COLUMNS \<subseteq> vw_tables (view w3)" by (simp add: v3 add_tables_fields)
  obtain w4 where w4: "ensure_sqlite_legacy_columns exec db_url w3 = Inr w4" "filled w4 \<subseteq> ?S w3"
  proof (cases "startswith db_url SQLITE_PREFIX")
    case True
    have "\<forall>(t, cs)\<in>set SQLITE_LEGACY_COLUMNS. t \<in> vw_tables (view w3) \<and> distinct (map fst cs) \<and> t \<noteq> SCHEMA_MIGRATIONS_TABLE \<and>
        (\<forall>(c, d)\<in>set cs. t \<in> filled w3 \<and> column_default d = D_Now \<longrightarrow> (t, c) \<in> vw_columns (view w3))"
    proof (clarify, intro conjI ballI)
      fix t cs assume m: "(t, cs) \<in> set SQLITE_LEGACY_COLUMNS"
      note shape = sqlite_legacy_shape [OF m]
      from shape(1) tables show "t \<in> vw_tables (view w3)" by blast
      from shape show "distinct (map fst cs)" "t \<noteq> SCHEMA_MIGRATIONS_TABLE" by blast+
      fix cd assume cd: "cd \<in> set cs"
      show "case cd of (c, d) \<Rightarrow> t \<in> filled w3 \<and> column_default d = D_Now \<longrightarrow> (t, c) \<in> vw_columns (view w3)"
      proof (clarify, goal_cases)
        case (1 c d)
        with shape(4) cd have "(t, c) \<in> set now_columns" by blast
        moreover from 1 f3 shape(3) have "t \<in> filled w" by auto
        ultimately have "(t, c) \<in> vw_columns (view w)" using assms [OF True] by (auto simp: upgradable_def)
        then show ?case using add_tables_fields(2) by (auto simp: v3)
      qed
    qed
    from sqlite_columns_run [OF this] that True show thesis by (auto simp: ensure_sqlite_legacy_columns_def)
  qed (use that [of w3] in \<open>auto simp: ensure_sqlite_legacy_columns_def\<close>)
  obtain w5 where w5: "ensure_postgres_legacy_columns exec db_url w4 = Inr w5" "filled w5 \<subseteq> ?S w4"
  proof (cases "startswith db_url POSTGRES_PREFIX")
    case True
    from sqlite_view [OF w4(1)] tables postgres_tables have "fst ` set POSTGRES_LEGACY_COLUMNS \<subseteq> vw_tables (view w4)" by auto
    from postgres_columns_run [OF this] that True show thesis by (auto simp: ensure_postgres_legacy_columns_def)
  qed (use that [of w4] in \<open>auto simp: ensure_postgres_legacy_columns_def\<close>)
  obtain w6 where w6: "run_schema_migrations exec db_url w5 = Inr w6" "filled w6 \<subseteq> ?S w5" using migrations_run by blast
  have "init_db mkdir exec create_all db_url w = Inr w6"
    by (simp add: init_db_def w1 w2 w3 ensure_legacy_columns_def w4 w5 w6)
  with that f3 w4(2) w5(2) w6(2) show thesis by blast
qed

end

section \<open>An engine\<close>

text \<open>Tables as lists: name, columns, whether it has rows. The refusals are those of SQLite and
  PostgreSQL: a table that is missing, a column or a version that is there, a default that is not constant.\<close>

record mem_db =
  mb_tables :: "(string \<times> string list \<times> bool) list"
  mb_versions :: "string list"

definition mem_columns :: "string \<Rightarrow> mem_db \<Rightarrow> string list" where
  "mem_columns t d = concat (map (\<lambda>(t', cs, f). if t' = t then cs else []) (mb_tables d))"

definition mem_view :: "mem_db \<Rightarrow> db_view" where
  "mem_view d =
     \<lparr>vw_tables = set (map fst (mb_tables d)),
      vw_columns = set (concat (map (\<lambda>(t, cs, f). map (Pair t) cs) (mb_tables d))),
      vw_versions = set (mb_versions d)\<rparr>"

definition mem_filled :: "mem_db \<Rightarrow> string set" where
  "mem_filled d = set (map fst (filter (\<lambda>(t, cs, f). f) (mb_tables d)))"

definition mem_create :: "(string \<times> string list) list \<Rightarrow> mem_db \<Rightarrow> mem_db" where
  "mem_create ts d =
     d\<lparr>mb_tables := mb_tables d @
         map (\<lambda>(t, cs). (t, cs, False)) (filter (\<lambda>(t, cs). t \<notin> set (map fst (mb_tables d))) ts)\<rparr>"

definition mem_add_column :: "string \<Rightarrow> string \<Rightarrow> mem_db \<Rightarrow> mem_db" where
  "mem_add_column t c d =
     d\<lparr>mb_tables := map (\<lambda>(t', cs, f). (t', if t' = t then cs @ [c] else cs, f)) (mb_tables d)\<rparr>"

definition sql_error :: exn where
  "sql_error = Other_Error (lit ''OperationalError'')"

fun mem_exec :: "sql \<Rightarrow> mem_db \<Rightarrow> (mem_db \<times> string list) res" where
  "mem_exec (Pragma p) d = Inr (d, [])"
| "mem_exec (Table_Info t) d = Inr (d, mem_columns t d)"
| "mem_exec (Add_Column t c df) d =
     (if t \<notin> set (map fst (mb_tables d)) \<or> c \<in> set (mem_columns t d) \<or>
         t \<in> mem_filled d \<and> column_default df = D_Now then Inl sql_error
      else Inr (mem_add_column t c d, []))"
| "mem_exec (Add_Column_If_Missing t c df) d =
     (if t \<notin> set (map fst (mb_tables d)) then Inl sql_error
      else if c \<in> set (mem_columns t d) then Inr (d, []) else Inr (mem_add_column t c d, []))"
| "mem_exec (Create_Migrations ts) d =
     Inr (mem_create [(SCHEMA_MIGRATIONS_TABLE, [''version'', ''description'', ''applied_at''])] d, [])"
| "mem_exec Select_Versions d =
     (if SCHEMA_MIGRATIONS_TABLE \<notin> set (map fst (mb_tables d)) then Inl sql_error else Inr (d, mb_versions d))"
| "mem_exec (Insert_Version n s) d =
     (if SCHEMA_MIGRATIONS_TABLE \<notin> set (map fst (mb_tables d)) \<or> n \<in> set (mb_versions d) then Inl sql_error
      else Inr (d\<lparr>mb_versions := mb_versions d @ [n]\<rparr>, []))"

lemma created_pairs:
  "concat (map (\<lambda>(t, cs, f). map (Pair t) cs) (map (\<lambda>(t, cs). (t, cs, False)) (filter (\<lambda>(t, cs). t \<notin> T) ts))) =
   concat (map (\<lambda>(t, cs). if t \<in> T then [] else map (Pair t) cs) ts)"
  by (induction ts) auto

lemma created_tables:
  "T \<union> set (map fst (map (\<lambda>(t, cs). (t, cs, False)) (filter (\<lambda>(t, cs). t \<notin> T) ts))) = T \<union> set (map fst ts)"
  by (induction ts) auto

lemma added_pairs:
  "set (concat (map (\<lambda>(t, cs, f). map (Pair t) cs) (map (\<lambda>(t', cs, f). (t', if t' = t then cs @ [c] else cs, f)) l))) =
   (if t \<in> set (map fst l) then insert (t, c) else id) (set (concat (map (\<lambda>(t, cs, f). map (Pair t) cs) l)))"
proof (induction l)
  case (Cons e l)
  obtain t' cs f where e: "e = (t', cs, f)" by (cases e)
  show ?case
    by (cases "t' = t"; cases "t \<in> set (map fst l)") (use Cons e in \<open>auto simp del: set_concat map_map\<close>)
qed simp

lemma mem_create_view: "mem_view (mem_create ts d) = add_tables ts (mem_view d)"
  using created_tables [of "set (map fst (mb_tables d))" ts]
  by (simp add: mem_view_def mem_create_def add_tables_def created_pairs del: set_map set_concat map_map)

lemma mem_add_column_view:
  assumes "t \<in> set (map fst (mb_tables d))"
  shows "mem_view (mem_add_column t c d) = (mem_view d)\<lparr>vw_columns := insert (t, c) (vw_columns (mem_view d))\<rparr>"
proof -
  have "set (map fst (map (\<lambda>(t', cs, f). (t', if t' = t then cs @ [c] else cs, f)) l)) = set (map fst l)"
    for l :: "(string \<times> string list \<times> bool) list" by (induction l) auto
  with assms show ?thesis
    by (simp add: mem_view_def mem_add_column_def added_pairs del: set_map set_concat map_map)
qed

lemma mem_columns_view: "c \<in> set (mem_columns t d) \<longleftrightarrow> (t, c) \<in> vw_columns (mem_view d)"
  by (force simp: mem_columns_def mem_view_def split: if_splits)

lemma mem_exec_view:
  assumes "mem_exec q d = Inr (d', r)"
  shows "mem_view d' = sql_effect q (mem_view d) \<and> set r = sql_answer q (mem_view d)"
proof (cases q)
  case (Table_Info t)
  then show ?thesis using assms mem_columns_view [of _ t d] by force
next
  case (Add_Column t c df)
  then have "t \<in> set (map fst (mb_tables d))" "d' = mem_add_column t c d" "r = []"
    using assms by (simp_all only: mem_exec.simps) (auto split: if_splits)
  with mem_add_column_view [of t d c] Add_Column show ?thesis by simp
next
  case (Add_Column_If_Missing t c df)
  then have t: "t \<in> set (map fst (mb_tables d))" and r: "r = []"
    and d': "d' = (if c \<in> set (mem_columns t d) then d else mem_add_column t c d)"
    using assms by (simp_all only: mem_exec.simps) (auto split: if_splits)
  show ?thesis
  proof (cases "c \<in> set (mem_columns t d)")
    case True
    with mem_columns_view [of c t d] r d' Add_Column_If_Missing show ?thesis by (simp add: insert_absorb)
  next
    case False
    with mem_add_column_view [OF t, of c] r d' Add_Column_If_Missing show ?thesis by simp
  qed
next
  case Select_Versions
  with assms have "d' = d" "r = mb_versions d" by (auto split: if_splits)
  with Select_Versions show ?thesis by (simp add: mem_view_def)
next
  case (Insert_Version n s)
  then show ?thesis using assms by (auto simp: mem_view_def split: if_splits)
qed (use assms in \<open>auto simp: mem_create_view\<close>)

lemma mem_add_column_filled: "mem_filled (mem_add_column t c d) = mem_filled d"
  by (force simp: mem_filled_def mem_add_column_def)

lemma mem_create_filled: "mem_filled (mem_create ts d) = mem_filled d"
  by (auto simp: mem_filled_def mem_create_def)

lemma mem_exec_db:
  assumes "mem_exec q d = Inr (d', r)"
  shows "d' = d \<or> (\<exists>t c. d' = mem_add_column t c d) \<or> (\<exists>ts. d' = mem_create ts d) \<or> (\<exists>vs. d' = d\<lparr>mb_versions := vs\<rparr>)"
proof (cases q)
  case (Create_Migrations ts)
  with assms have "d' = mem_create [(SCHEMA_MIGRATIONS_TABLE, [''version'', ''description'', ''applied_at''])] d" by simp
  then show ?thesis by blast
next
  case (Insert_Version n s)
  with assms have "d' = d\<lparr>mb_versions := mb_versions d @ [n]\<rparr>" by (simp split: if_splits)
  then show ?thesis by blast
next
  case (Add_Column t c df)
  with assms have "d' = mem_add_column t c d" by (simp split: if_splits)
  then show ?thesis by blast
next
  case (Add_Column_If_Missing t c df)
  with assms have "d' = d \<or> d' = mem_add_column t c d" by (simp split: if_splits)
  then show ?thesis by blast
qed (use assms in \<open>simp_all split: if_splits\<close>)

lemma mem_exec_filled: "mem_exec q d = Inr (d', r) \<Longrightarrow> mem_filled d' = mem_filled d"
  by (drule mem_exec_db) (elim disjE exE; simp add: mem_add_column_filled mem_create_filled; simp add: mem_filled_def)

lemma mem_view_fields: "vw_tables (mem_view d) = set (map fst (mb_tables d))" "vw_versions (mem_view d) = set (mb_versions d)"
  by (simp_all add: mem_view_def)

lemma mem_refusals:
  "refused q (mem_view d) (mem_filled d) \<Longrightarrow> mem_exec q d = Inl sql_error"
  "\<not> refused q (mem_view d) (mem_filled d) \<Longrightarrow> \<exists>d' r. mem_exec q d = Inr (d', r)"
  by (cases q; simp add: mem_view_fields mem_columns_view)+

interpretation mem: sql_engine "\<lambda>p d. Inr d" mem_exec "\<lambda>d. Inr (mem_create MODEL_COLUMNS d)" mem_view mem_filled
proof unfold_locales
  show "mem_exec (Add_Column t c df) d = Inr (d', r) \<Longrightarrow> t \<in> mem_filled d \<Longrightarrow> column_default df \<noteq> D_Now"
    for t c df d d' r by (auto split: if_splits)
  show "\<not> refused q (mem_view d) (mem_filled d) \<Longrightarrow> \<exists>d' r. mem_exec q d = Inr (d', r)" for q d by (rule mem_refusals(2))
  show "refused q (mem_view d) (mem_filled d) \<Longrightarrow> \<exists>e. mem_exec q d = Inl e" for q d using mem_refusals(1) by blast
  show "mem_exec q d = Inr (d', r) \<Longrightarrow> mem_view d' = sql_effect q (mem_view d) \<and> set r = sql_answer q (mem_view d)"
    for q d d' r by (rule mem_exec_view)
qed (simp_all add: mem_create_view mem_exec_filled mem_create_filled subset_insertI)

section \<open>Facts\<close>

text \<open>A second start changes nothing.\<close>

lemma add_tables_present: "fst ` set ts \<subseteq> vw_tables v \<Longrightarrow> add_tables ts v = v"
proof -
  assume present: "fst ` set ts \<subseteq> vw_tables v"
  then have "concat (map (\<lambda>(t, cs). if t \<in> vw_tables v then [] else map (Pair t) cs) ts) = []"
    by (auto split: prod.splits)
  with present show ?thesis by (simp add: add_tables_def Un_absorb2)
qed

lemma init_view_idem: "init_view db_url (init_view db_url v) = init_view db_url v"
proof -
  let ?v = "init_view db_url v"
  have "fst ` set MODEL_COLUMNS \<subseteq> vw_tables ?v" "SCHEMA_MIGRATIONS_TABLE \<in> vw_tables ?v"
    "set (column_pairs (legacy_columns db_url)) \<subseteq> vw_columns ?v" "set (map fst MIGRATIONS) \<subseteq> vw_versions ?v"
    by (auto simp: init_view_def Let_def add_tables_def)
  then show ?thesis
    by (simp add: init_view_def [of db_url ?v] Let_def add_tables_present Un_absorb2)
qed

lemma init_view_columns: "vw_columns v \<subseteq> vw_columns (init_view db_url v)"
  by (auto simp: init_view_def Let_def add_tables_def)

text \<open>A table of an older version has the columns the models had before the legacy lists; after a
  start-up it has all of them.\<close>

definition old_schema :: "str \<Rightarrow> db_view \<Rightarrow> bool" where
  "old_schema db_url v \<longleftrightarrow>
     list_all (\<lambda>(t, cs). t \<in> vw_tables v \<longrightarrow>
       list_all (\<lambda>c. (t, c) \<in> vw_columns v \<or> (t, c) \<in> set (column_pairs (legacy_columns db_url))) cs) MODEL_COLUMNS"

lemma init_view_complete:
  assumes "old_schema db_url v" "(t, cs) \<in> set MODEL_COLUMNS" "c \<in> set cs"
  shows "(t, c) \<in> vw_columns (init_view db_url v)"
proof (cases "t \<in> vw_tables v")
  case True
  with assms have "(t, c) \<in> vw_columns v \<or> (t, c) \<in> set (column_pairs (legacy_columns db_url))"
    by (auto simp: old_schema_def list_all_iff)
  then show ?thesis by (auto simp: init_view_def Let_def add_tables_def)
next
  case False
  with assms(2,3) have "(t, c) \<in> vw_columns (add_tables MODEL_COLUMNS v)"
    by (force simp: add_tables_def)
  then show ?thesis by (simp add: init_view_def Let_def add_tables_def)
qed

end
