(* ===== verification/Concurrency.thy ===== *)
theory Concurrency
  imports Prelude
begin

text \<open>
  The concurrency limiter (\<open>middleware/concurrency_limit.py\<close>). A request runs the code of
  \<open>_acquire_slot\<close> under the lock of an \<open>asyncio.Condition\<close>, so what happens between two awaits
  is one atomic operation here: the arrival, the return from \<open>wait\<close>, a timeout or a cancellation
  while waiting, and the release when the application is done. Requests are numbered; the lists
  say where each one is. Times are rationals (seconds).
\<close>

section \<open>State\<close>

record limiter =
  lm_max_inflight :: int
  lm_max_queue_size :: int
  lm_timeout :: rat
  lm_queued :: int
  lm_inflight :: int
  lm_waiting :: "nat list"
  lm_woken :: "nat list"
  lm_active :: "nat list"

text \<open>\<open>lm_waiting\<close> are the waiters of the condition in order, \<open>lm_woken\<close> the notified ones that
  have not run yet, \<open>lm_active\<close> the ones the application works for.\<close>

definition new_limiter :: "int \<Rightarrow> int \<Rightarrow> rat \<Rightarrow> limiter" where
  "new_limiter max_inflight max_queue_size timeout =
     \<lparr>lm_max_inflight = max 1 max_inflight, lm_max_queue_size = max 0 max_queue_size,
      lm_timeout = max (1 / 1000) timeout, lm_queued = 0, lm_inflight = 0,
      lm_waiting = [], lm_woken = [], lm_active = []\<rparr>"

datatype admission =
    Acquired int int int
  | Rejected str int
  | Wait

section \<open>Operations\<close>

text \<open>\<open>finally: if queued: self._queued = max(0, self._queued - 1)\<close>.\<close>

definition leave_queue :: "nat \<Rightarrow> limiter \<Rightarrow> limiter" where
  "leave_queue r lm = lm\<lparr>lm_queued := max 0 (lm_queued lm - 1),
     lm_waiting := remove1 r (lm_waiting lm), lm_woken := remove1 r (lm_woken lm)\<rparr>"

definition take_slot :: "nat \<Rightarrow> int \<Rightarrow> limiter \<Rightarrow> limiter \<times> admission" where
  "take_slot r wait_ms lm =
     (let lm' = lm\<lparr>lm_inflight := lm_inflight lm + 1, lm_active := r # lm_active lm\<rparr>
      in (lm', Acquired wait_ms (lm_inflight lm') (lm_queued lm')))"

text \<open>The arrival, up to the first \<open>wait\<close>. \<open>elapsed\<close> is the time since the request came in.\<close>

definition ms :: "rat \<Rightarrow> int" where
  "ms elapsed = \<lfloor>elapsed * 1000\<rfloor>"

definition arrive :: "nat \<Rightarrow> rat \<Rightarrow> limiter \<Rightarrow> limiter \<times> admission" where
  "arrive r elapsed lm =
     (if lm_inflight lm \<ge> lm_max_inflight lm then
        (if lm_queued lm \<ge> lm_max_queue_size lm then (lm, Rejected (lit ''queue_full'') 0)
         else
           (let lm1 = lm\<lparr>lm_queued := lm_queued lm + 1\<rparr> in
            if lm_timeout lm - elapsed \<le> 0
              then (leave_queue r lm1, Rejected (lit ''queue_timeout'') (ms elapsed))
            else (lm1\<lparr>lm_waiting := lm_waiting lm @ [r]\<rparr>, Wait)))
      else take_slot r (ms elapsed) lm)"

text \<open>A notified waiter runs: the loop's condition again, then the rest of the function.\<close>

definition resume :: "nat \<Rightarrow> rat \<Rightarrow> limiter \<Rightarrow> limiter \<times> admission" where
  "resume r elapsed lm =
     (let lm1 = lm\<lparr>lm_woken := remove1 r (lm_woken lm)\<rparr> in
      if lm_inflight lm \<ge> lm_max_inflight lm then
        (if lm_timeout lm - elapsed \<le> 0
           then (leave_queue r lm1, Rejected (lit ''queue_timeout'') (ms elapsed))
         else (lm1\<lparr>lm_waiting := lm_waiting lm1 @ [r]\<rparr>, Wait))
      else take_slot r (ms elapsed) (leave_queue r lm1))"

text \<open>\<open>wait_for\<close> times out; or the task is cancelled, which leaves by the same \<open>finally\<close>.\<close>

definition time_out :: "nat \<Rightarrow> rat \<Rightarrow> limiter \<Rightarrow> limiter \<times> admission" where
  "time_out r elapsed lm = (leave_queue r lm, Rejected (lit ''queue_timeout'') (ms elapsed))"

definition cancel :: "nat \<Rightarrow> limiter \<Rightarrow> limiter" where
  "cancel r lm = leave_queue r lm"

text \<open>\<open>notify(1)\<close> moves the first waiter. The release of a slot is one step: a cancellation while the
  \<open>finally\<close> block waits for the lock, which would leave the slot taken, is not modelled.\<close>

definition notify1 :: "limiter \<Rightarrow> limiter" where
  "notify1 lm = (case lm_waiting lm of
       [] \<Rightarrow> lm | r # rs \<Rightarrow> lm\<lparr>lm_waiting := rs, lm_woken := lm_woken lm @ [r]\<rparr>)"

definition release :: "nat \<Rightarrow> limiter \<Rightarrow> limiter" where
  "release r lm =
     notify1 (lm\<lparr>lm_inflight := max 0 (lm_inflight lm - 1), lm_active := remove1 r (lm_active lm)\<rparr>)"

section \<open>The answers\<close>

record limit_response =
  lr_status :: nat
  lr_reason :: str
  lr_queue_wait_ms :: int
  lr_inflight :: int
  lr_queue_size :: int
  lr_retry_after :: int

definition send_reject :: "limiter \<Rightarrow> str \<Rightarrow> int \<Rightarrow> limit_response" where
  "send_reject lm reason queue_wait_ms =
     \<lparr>lr_status = 429, lr_reason = reason, lr_queue_wait_ms = queue_wait_ms,
      lr_inflight = lm_inflight lm, lr_queue_size = lm_queued lm,
      lr_retry_after = max 1 \<lfloor>lm_timeout lm\<rfloor>\<rparr>"

text \<open>Only HTTP requests under \<open>/v1/\<close> are limited.\<close>

definition limited :: "str \<Rightarrow> str \<Rightarrow> bool" where
  "limited scope_type path \<longleftrightarrow> scope_type = lit ''http'' \<and> startswith path (lit ''/v1/'')"

definition snapshot :: "limiter \<Rightarrow> (str \<times> rat) list" where
  "snapshot lm =
     [(lit ''max_inflight'', of_int (lm_max_inflight lm)),
      (lit ''max_queue_size'', of_int (lm_max_queue_size lm)),
      (lit ''queue_timeout_seconds'', lm_timeout lm),
      (lit ''inflight'', of_int (lm_inflight lm)), (lit ''queue_size'', of_int (lm_queued lm))]"

section \<open>The limiter as a transition system\<close>

datatype event =
    E_arrive nat rat admission
  | E_resume nat rat admission
  | E_timeout nat rat admission
  | E_cancel nat
  | E_release nat

definition requests :: "limiter \<Rightarrow> nat list" where
  "requests lm = lm_waiting lm @ lm_woken lm @ lm_active lm"

inductive limiter_step :: "limiter \<Rightarrow> event \<Rightarrow> limiter \<Rightarrow> bool" where
  L_arrive: "r \<notin> set (requests lm) \<Longrightarrow> arrive r t lm = (lm', a) \<Longrightarrow> limiter_step lm (E_arrive r t a) lm'"
| L_resume: "r \<in> set (lm_woken lm) \<Longrightarrow> resume r t lm = (lm', a) \<Longrightarrow> limiter_step lm (E_resume r t a) lm'"
| L_timeout: "r \<in> set (lm_waiting lm) \<union> set (lm_woken lm) \<Longrightarrow> time_out r t lm = (lm', a) \<Longrightarrow>
     limiter_step lm (E_timeout r t a) lm'"
| L_cancel: "r \<in> set (lm_waiting lm) \<union> set (lm_woken lm) \<Longrightarrow> limiter_step lm (E_cancel r) (cancel r lm)"
| L_release: "r \<in> set (lm_active lm) \<Longrightarrow> limiter_step lm (E_release r) (release r lm)"

inductive limiter_reachable :: "limiter \<Rightarrow> bool" where
  LR_init: "limiter_reachable (new_limiter a b t)"
| LR_step: "limiter_reachable lm \<Longrightarrow> limiter_step lm e lm' \<Longrightarrow> limiter_reachable lm'"

inductive_cases limiter_stepE: "limiter_step lm e lm'"
inductive_simps limiter_step_release: "limiter_step lm (E_release r) lm'"

definition limiter_inv :: "limiter \<Rightarrow> bool" where
  "limiter_inv lm \<longleftrightarrow>
     distinct (requests lm) \<and>
     lm_inflight lm = int (length (lm_active lm)) \<and>
     lm_inflight lm \<le> lm_max_inflight lm \<and> 1 \<le> lm_max_inflight lm \<and>
     lm_queued lm = int (length (lm_waiting lm) + length (lm_woken lm)) \<and>
     lm_queued lm \<le> lm_max_queue_size lm \<and> lm_timeout lm > 0"

lemma length_remove1_int:
  "int (length (remove1 x xs)) = int (length xs) - (if x \<in> set xs then 1 else 0)"
  by (induction xs) auto

lemma leave_queue_inv:
  assumes "limiter_inv lm" "r \<in> set (lm_waiting lm) \<union> set (lm_woken lm)"
  shows "limiter_inv (leave_queue r lm)" "lm_queued (leave_queue r lm) = lm_queued lm - 1"
    "r \<notin> set (requests (leave_queue r lm))"
proof -
  let ?W = "lm_waiting lm" and ?K = "lm_woken lm"
  from assms(1) have d: "distinct ?W" "distinct ?K" "set ?W \<inter> set ?K = {}" "distinct (lm_active lm)"
      "set ?W \<inter> set (lm_active lm) = {}" "set ?K \<inter> set (lm_active lm) = {}"
    by (auto simp: limiter_inv_def requests_def)
  from d(1-3) assms(2) have len: "int (length (remove1 r ?W) + length (remove1 r ?K)) =
      int (length ?W + length ?K) - 1"
    by (auto simp: length_remove1_int)
  from assms(2) have "0 < length ?W + length ?K" by auto
  with assms(1) len show q: "lm_queued (leave_queue r lm) = lm_queued lm - 1"
    by (auto simp: leave_queue_def limiter_inv_def)
  have "distinct (remove1 r ?W @ remove1 r ?K @ lm_active lm)"
    using d notin_set_remove1 [of _ ?W r] by (auto dest: notin_set_remove1 in_set_remove1 [THEN iffD1] simp: disjoint_iff)
  with assms(1) len q show "limiter_inv (leave_queue r lm)"
    by (auto simp: limiter_inv_def leave_queue_def requests_def)
  show "r \<notin> set (requests (leave_queue r lm))"
    using d assms(2) by (auto simp: requests_def leave_queue_def)
qed

lemma take_slot_inv:
  assumes "limiter_inv lm" "r \<notin> set (requests lm)" "lm_inflight lm < lm_max_inflight lm"
  shows "limiter_inv (fst (take_slot r t lm))"
  using assms by (auto simp: take_slot_def limiter_inv_def requests_def Let_def)

lemma resume_leave:
  assumes "limiter_inv lm"
  shows "leave_queue r (lm\<lparr>lm_woken := remove1 r (lm_woken lm)\<rparr>) = leave_queue r lm"
proof -
  from assms have "distinct (lm_woken lm)" by (simp add: limiter_inv_def requests_def)
  then show ?thesis by (simp add: leave_queue_def remove1_idem)
qed

lemma arrive_inv:
  assumes "limiter_inv lm" "r \<notin> set (requests lm)"
  shows "limiter_inv (fst (arrive r t lm))"
proof (cases "lm_inflight lm \<ge> lm_max_inflight lm")
  case False
  with assms take_slot_inv [of lm r] show ?thesis by (simp add: arrive_def)
next
  case True
  have "leave_queue r (lm\<lparr>lm_queued := lm_queued lm + 1\<rparr>) = lm"
    using assms by (auto simp: leave_queue_def limiter_inv_def requests_def remove1_idem)
  with True assms show ?thesis
    by (auto simp: arrive_def Let_def limiter_inv_def requests_def)
qed

lemma resume_inv:
  assumes "limiter_inv lm" "r \<in> set (lm_woken lm)"
  shows "limiter_inv (fst (resume r t lm))"
proof -
  from leave_queue_inv [OF assms(1)] assms(2)
  have leave: "limiter_inv (leave_queue r lm)" "r \<notin> set (requests (leave_queue r lm))" by auto
  have same: "lm_inflight (leave_queue r lm) = lm_inflight lm" "lm_max_inflight (leave_queue r lm) = lm_max_inflight lm"
    by (simp_all add: leave_queue_def)
  show ?thesis
  proof (cases "lm_inflight lm \<ge> lm_max_inflight lm")
    case False
    with take_slot_inv [OF leave] same show ?thesis
      by (simp add: resume_def Let_def resume_leave [OF assms(1)])
  next
    case True
    have "limiter_inv (lm\<lparr>lm_woken := remove1 r (lm_woken lm), lm_waiting := lm_waiting lm @ [r]\<rparr>)"
      using assms by (auto simp: limiter_inv_def requests_def length_remove1_int dest: notin_set_remove1)
    with True leave show ?thesis by (simp add: resume_def Let_def resume_leave [OF assms(1)])
  qed
qed

lemma notify1_inv: "limiter_inv lm \<Longrightarrow> limiter_inv (notify1 lm)"
  by (auto simp: notify1_def limiter_inv_def requests_def split: list.splits)

lemma release_inv:
  assumes "limiter_inv lm" "r \<in> set (lm_active lm)"
  shows "limiter_inv (release r lm)"
proof -
  from assms have "0 < length (lm_active lm)" by (cases "lm_active lm") auto
  with assms have "limiter_inv (lm\<lparr>lm_inflight := max 0 (lm_inflight lm - 1),
      lm_active := remove1 r (lm_active lm)\<rparr>)"
    by (auto simp: limiter_inv_def requests_def length_remove1_int dest: notin_set_remove1)
  then show ?thesis unfolding release_def by (rule notify1_inv)
qed

lemma limiter_step_inv:
  assumes "limiter_step lm e lm'" "limiter_inv lm"
  shows "limiter_inv lm'"
  using assms(1)
proof cases
  case (L_arrive r t a)
  with arrive_inv [OF assms(2), of r t] show ?thesis by simp
next
  case (L_resume r t a)
  with resume_inv [OF assms(2), of r t] show ?thesis by simp
next
  case (L_timeout r t a)
  with leave_queue_inv(1) [OF assms(2), of r] show ?thesis by (simp add: time_out_def)
next
  case (L_cancel r)
  with leave_queue_inv(1) [OF assms(2), of r] show ?thesis by (simp add: cancel_def)
next
  case (L_release r)
  with release_inv [OF assms(2), of r] show ?thesis by simp
qed

lemma new_limiter_inv: "limiter_inv (new_limiter a b t)"
  by (simp add: limiter_inv_def new_limiter_def requests_def max_def)

lemma limiter_reachable_inv: "limiter_reachable lm \<Longrightarrow> limiter_inv lm"
proof (induction rule: limiter_reachable.induct)
  case (LR_init a b t)
  show ?case by (rule new_limiter_inv)
next
  case (LR_step lm e lm')
  then show ?case using limiter_step_inv by blast
qed

end
