(* ===== verification/Key_Provider.thy ===== *)
theory Key_Provider
  imports Api_Keys Engine
begin

text \<open>
  The key providers (\<open>governance/key_provider.py\<close>, \<open>governance/providers/\<close>): the choice of a provider
  and the client that administers the keys of the upstream through its web interface. A call threads
  the log of what was sent and slept; \<open>kv_http\<close>, the upstream, answers a request by the log before it.
  Parameters: the upstream, \<open>str\<close> of a value that is no string, \<open>int\<close> of a string.
\<close>

section \<open>Data\<close>

record provider_config =
  kc_base_url :: str
  kc_username :: str
  kc_password :: str
  kc_password_env :: str
  kc_auth_version :: str
  kc_login_retries :: int
  kc_login_retry_delay :: rat
  kc_request_retries :: int
  kc_request_retry_delay :: rat
  kc_default_remain_quota :: json
  kc_default_unlimited_quota :: json

record remote_request =
  rr_method :: str
  rr_url :: str
  rr_json :: "json option"
  rr_params :: "(str \<times> int) list"
  rr_session :: str
  rr_headers :: "(str \<times> str) list"

datatype remote_event = Sent remote_request | Slept rat

text \<open>A response: its status, the parsed body (\<open>None\<close> when \<open>json()\<close> raises), the session cookie,
  and the text of the exception \<open>raise_for_status\<close> or \<open>json\<close> would raise.\<close>

record remote_response =
  rp_status :: nat
  rp_json :: "json option"
  rp_session :: "str option"
  rp_error :: str

record provider_env =
  kv_config :: provider_config
  kv_http :: "remote_event list \<Rightarrow> remote_request \<Rightarrow> remote_response res"
  kv_str :: "json \<Rightarrow> str"
  kv_int :: "str \<Rightarrow> int option"

text \<open>An action: from the lg to the log and a result.\<close>

type_synonym 'a act = "remote_event list \<Rightarrow> remote_event list \<times> 'a res"

definition abind :: "'a act \<Rightarrow> ('a \<Rightarrow> 'b act) \<Rightarrow> 'b act" where
  "abind m f = (\<lambda>lg. case m lg of (lg', Inl e) \<Rightarrow> (lg', Inl e) | (lg', Inr a) \<Rightarrow> f a lg')"

definition alift :: "'a res \<Rightarrow> 'a act" where
  "alift r = (\<lambda>lg. (lg, r))"

section \<open>Python conversions\<close>

text \<open>\<open>str(x)\<close> and \<open>int(x)\<close>.\<close>

fun py_str :: "provider_env \<Rightarrow> json \<Rightarrow> str" where
  "py_str env (JStr s) = s"
| "py_str env v = kv_str env v"

fun py_int :: "provider_env \<Rightarrow> json \<Rightarrow> int res" where
  "py_int env (JInt n) = Inr n"
| "py_int env (JBool b) = Inr (if b then 1 else 0)"
| "py_int env (JFloat x) = Inr (if x \<ge> 0 then \<lfloor>x\<rfloor> else \<lceil>x\<rceil>)"
| "py_int env (JStr s) =
     (case kv_int env s of Some n \<Rightarrow> Inr n | None \<Rightarrow> Inl (Value_Error (lit ''invalid literal for int()'')))"
| "py_int env _ = Inl Type_Error"

text \<open>\<open>a or b\<close>, and \<open>payload.get("data") or {}\<close>.\<close>

definition or_else :: "json \<Rightarrow> json \<Rightarrow> json" where
  "or_else a b = (if truthy a then a else b)"

definition data_of :: "json \<Rightarrow> json res" where
  "data_of payload = rbind (rule_get payload (lit ''data'') JNull) (\<lambda>d. Inr (or_else d (JDict [])))"

section \<open>Requests\<close>

definition validate_config :: "provider_config \<Rightarrow> unit res" where
  "validate_config kc =
     (let missing =
        (if kc_base_url kc = [] then [lit ''KEY_PROVIDER_BASE_URL''] else []) @
        (if kc_username kc = [] then [lit ''KEY_PROVIDER_USERNAME''] else []) @
        (if kc_password kc = [] then [kc_password_env kc] else []) @
        (if kc_auth_version kc = [] then [lit ''KEY_PROVIDER_AUTH_VERSION''] else [])
      in if missing \<noteq> [] then Inl (Key_Provider_Error (lit ''missing key provider settings: '' @ join (lit '', '') missing))
         else Inr ())"

definition USER_AGENT :: str where
  "USER_AGENT = lit ''Mozilla/5.0 (Windows NT 10.0; Win64; x64) AppleWebKit/537.36''"

definition login_headers :: "provider_config \<Rightarrow> (str \<times> str) list" where
  "login_headers kc =
     [(lit ''Referer'', kc_base_url kc @ lit ''/''),
      (lit ''Accept'', lit ''application/json, text/plain, */*''),
      (lit ''Accept-Language'', lit ''zh-CN,zh;q=0.9,en;q=0.8''),
      (lit ''User-Agent'', USER_AGENT)]"

definition auth_headers :: "provider_config \<Rightarrow> str \<Rightarrow> bool \<Rightarrow> (str \<times> str) list" where
  "auth_headers kc user_id origin =
     [(lit ''Referer'', kc_base_url kc @ lit ''/console/token''),
      (lit ''Accept'', lit ''application/json, text/plain, */*''),
      (lit ''Accept-Language'', lit ''zh-CN,zh;q=0.9,en;q=0.8''),
      (lit ''auth-version'', kc_auth_version kc),
      (lit ''new-api-user'', user_id),
      (lit ''User-Agent'', USER_AGENT)] @
     (if origin then [(lit ''origin'', kc_base_url kc)] else [])"

definition send :: "provider_env \<Rightarrow> remote_request \<Rightarrow> remote_response act" where
  "send env rq = (\<lambda>lg. (lg @ [Sent rq], kv_http env lg rq))"

definition sleep :: "rat \<Rightarrow> unit act" where
  "sleep d = (\<lambda>lg. (lg @ [Slept d], Inr ()))"

text \<open>\<open>raise_for_status()\<close> and \<open>json()\<close> in one \<open>try\<close> block.\<close>

definition response_payload :: "str \<Rightarrow> remote_response \<Rightarrow> json res" where
  "response_payload what response =
     (case (if 200 \<le> rp_status response \<and> rp_status response < 300 then rp_json response else None) of
        Some payload \<Rightarrow> Inr payload
      | None \<Rightarrow> Inl (Key_Provider_Error (what @ rp_error response)))"

section \<open>Logging in\<close>

definition login_request :: "provider_config \<Rightarrow> remote_request" where
  "login_request kc =
     \<lparr>rr_method = lit ''POST'', rr_url = kc_base_url kc @ lit ''/api/user/login'',
      rr_json = Some (JDict [(lit ''username'', JStr (kc_username kc)), (lit ''password'', JStr (kc_password kc))]),
      rr_params = [], rr_session = [], rr_headers = login_headers kc\<rparr>"

definition login_result :: "provider_env \<Rightarrow> remote_response \<Rightarrow> (str \<times> str) res" where
  "login_result env response =
     rbind (response_payload (lit ''upstream login failed: '') response) (\<lambda>payload.
     rbind (data_of payload) (\<lambda>data.
     rbind (rule_get data (lit ''id'') JNull) (\<lambda>i.
     let session_cookie = (case rp_session response of Some s \<Rightarrow> s | None \<Rightarrow> []);
         user_id = py_str env (or_else i (JStr [])) in
     if session_cookie = [] \<or> user_id = []
       then Inl (Key_Provider_Error (lit ''upstream login did not return session or user id''))
     else Inr (session_cookie, user_id))))"

text \<open>\<open>for attempt in range(1, retries + 1)\<close>: \<open>n\<close> rounds left, \<open>attempt\<close> the current one.\<close>

fun login_loop :: "provider_env \<Rightarrow> nat \<Rightarrow> nat \<Rightarrow> exn \<Rightarrow> (str \<times> str) act" where
  "login_loop env 0 attempt last_error = alift (Inl last_error)"
| "login_loop env (Suc n) attempt last_error =
     abind (send env (login_request (kv_config env))) (\<lambda>response.
     if rp_status response = 429
       then abind (sleep (kc_login_retry_delay (kv_config env) * of_nat attempt)) (\<lambda>_.
            login_loop env n (Suc attempt) (Key_Provider_Error (lit ''upstream login rate limited'')))
     else alift (login_result env response))"

definition login :: "provider_env \<Rightarrow> (str \<times> str) act" where
  "login env = login_loop env (nat (kc_login_retries (kv_config env))) 1
     (Key_Provider_Error (lit ''upstream login failed''))"

section \<open>Authenticated requests\<close>

definition api_request ::
    "provider_config \<Rightarrow> str \<Rightarrow> str \<Rightarrow> str \<times> str \<Rightarrow> json option \<Rightarrow> (str \<times> int) list \<Rightarrow> bool \<Rightarrow> remote_request" where
  "api_request kc meth path auth body params origin =
     \<lparr>rr_method = meth, rr_url = kc_base_url kc @ path, rr_json = body, rr_params = params,
      rr_session = fst auth, rr_headers = auth_headers kc (snd auth) origin\<rparr>"

definition request_result :: "provider_env \<Rightarrow> remote_response \<Rightarrow> json res" where
  "request_result env response =
     rbind (response_payload (lit ''upstream request failed: '') response) (\<lambda>payload.
     rbind (rule_get payload (lit ''success'') (JBool True)) (\<lambda>success.
     if \<not> truthy success
       then Inl (Key_Provider_Error (lit ''upstream request returned failure: '' @ kv_str env payload))
     else Inr payload))"

fun request_loop :: "provider_env \<Rightarrow> remote_request \<Rightarrow> nat \<Rightarrow> nat \<Rightarrow> exn \<Rightarrow> json act" where
  "request_loop env rq 0 attempt last_error = alift (Inl last_error)"
| "request_loop env rq (Suc n) attempt last_error =
     abind (send env rq) (\<lambda>response.
     if rp_status response = 429
       then abind (sleep (kc_request_retry_delay (kv_config env) * of_nat attempt)) (\<lambda>_.
            request_loop env rq n (Suc attempt) (Key_Provider_Error (lit ''upstream request rate limited'')))
     else alift (request_result env response))"

definition request_upstream ::
    "provider_env \<Rightarrow> str \<Rightarrow> str \<Rightarrow> str \<times> str \<Rightarrow> json option \<Rightarrow> (str \<times> int) list \<Rightarrow> bool \<Rightarrow> json act" where
  "request_upstream env meth path auth body params origin =
     request_loop env (api_request (kv_config env) meth path auth body params origin)
       (nat (kc_request_retries (kv_config env))) 1 (Key_Provider_Error (lit ''upstream request failed''))"

section \<open>Operations of the remote provider\<close>

text \<open>\<open>_find_latest_token_id\<close>: \<open>max\<close> keeps the first of equal keys.\<close>

definition token_matches :: "str \<Rightarrow> json \<Rightarrow> bool res" where
  "token_matches name item =
     rbind (rule_get item (lit ''name'') JNull) (\<lambda>n.
     if \<not> py_eq n (JStr name) then Inr False
     else rbind (rule_get item (lit ''id'') JNull) (\<lambda>i. Inr (i \<noteq> JNull)))"

fun max_id :: "provider_env \<Rightarrow> json \<Rightarrow> int \<Rightarrow> json list \<Rightarrow> json res" where
  "max_id env best k [] = Inr best"
| "max_id env best k (x # xs) =
     rbind (rule_get x (lit ''id'') JNull) (\<lambda>i.
     rbind (py_int env (or_else i (JInt 0))) (\<lambda>n.
     if n > k then max_id env i n xs else max_id env best k xs))"

definition latest_id :: "provider_env \<Rightarrow> str \<Rightarrow> json \<Rightarrow> json res" where
  "latest_id env name payload =
     rbind (data_of payload) (\<lambda>data.
     rbind (rule_get data (lit ''items'') JNull) (\<lambda>v.
     rbind (iter_json (or_else v (JList []))) (\<lambda>items.
     rbind (rmap (\<lambda>x. rbind (token_matches name x) (\<lambda>b. Inr (b, x))) items) (\<lambda>flagged.
     case map snd (filter fst flagged) of
       [] \<Rightarrow> Inl (Key_Provider_Error (lit ''created upstream token id not found''))
     | x # xs \<Rightarrow>
         rbind (rule_get x (lit ''id'') JNull) (\<lambda>i.
         rbind (py_int env (or_else i (JInt 0))) (\<lambda>n. max_id env i n xs))))))"

definition find_latest_token_id :: "provider_env \<Rightarrow> str \<times> str \<Rightarrow> str \<Rightarrow> str act" where
  "find_latest_token_id env auth name =
     abind (request_upstream env (lit ''GET'') (lit ''/api/token/'') auth None
              [(lit ''p'', 1), (lit ''size'', 100)] False)
       (\<lambda>payload. alift (rbind (latest_id env name payload) (\<lambda>i. Inr (py_str env i))))"

text \<open>\<open>_get_full_key\<close>; the method \<open>strip\<close> is there for strings only.\<close>

definition full_key_of :: "json \<Rightarrow> str res" where
  "full_key_of payload =
     rbind (data_of payload) (\<lambda>data.
     rbind (rule_get data (lit ''key'') JNull) (\<lambda>k.
     case or_else k (JStr []) of
       JStr s \<Rightarrow>
         (let key_value = strip s in
          if key_value = [] then Inl (Key_Provider_Error (lit ''upstream key secret is empty''))
          else if startswith key_value (lit ''sk-'') then Inr key_value
          else Inr (lit ''sk-'' @ key_value))
     | _ \<Rightarrow> Inl Attribute_Error))"

definition get_full_key :: "provider_env \<Rightarrow> str \<times> str \<Rightarrow> str \<Rightarrow> str act" where
  "get_full_key env auth token_id =
     abind (request_upstream env (lit ''POST'') (lit ''/api/token/'' @ token_id @ lit ''/key'') auth None [] True)
       (\<lambda>payload. alift (full_key_of payload))"

definition create_token_body :: "provider_env \<Rightarrow> key_create_params \<Rightarrow> json res" where
  "create_token_body env params =
     rbind (py_int env (get_or (kp_metadata params) (lit ''remain_quota'') (kc_default_remain_quota (kv_config env))))
       (\<lambda>quota. Inr (JDict
          [(lit ''name'', JStr (kp_name params)), (lit ''remain_quota'', JInt quota),
           (lit ''unlimited_quota'', JBool (truthy (get_or (kp_metadata params) (lit ''unlimited_quota'')
              (kc_default_unlimited_quota (kv_config env)))))]))"

definition create_remote_key :: "provider_env \<Rightarrow> key_create_params \<Rightarrow> upstream_key_info act" where
  "create_remote_key env params =
     abind (alift (validate_config (kv_config env))) (\<lambda>_.
     abind (login env) (\<lambda>auth.
     abind (alift (create_token_body env params)) (\<lambda>body.
     abind (request_upstream env (lit ''POST'') (lit ''/api/token/'') auth (Some body) [] False) (\<lambda>token.
     abind (alift (data_of token)) (\<lambda>token_data.
     abind (alift (rule_get token_data (lit ''id'') JNull)) (\<lambda>i.
     abind (if i = JNull then find_latest_token_id env auth (kp_name params) else alift (Inr (py_str env i))) (\<lambda>token_id.
     abind (get_full_key env auth token_id) (\<lambda>key_secret.
     alift (Inr \<lparr>ki_key_id = token_id, ki_key_prefix = key_prefix key_secret,
                 ki_key_suffix = key_suffix key_secret, ki_key_secret = Some key_secret,
                 ki_metadata = [(lit ''raw_create_response'', token_data)]\<rparr>)))))))))"

definition revoke_remote_key :: "provider_env \<Rightarrow> str \<Rightarrow> bool act" where
  "revoke_remote_key env key_id =
     abind (alift (validate_config (kv_config env))) (\<lambda>_.
     if key_id = [] then alift (Inl (Key_Provider_Error (lit ''upstream key id is required'')))
     else abind (login env) (\<lambda>auth.
       abind (request_upstream env (lit ''DELETE'') (lit ''/api/token/'' @ key_id) auth None [] False) (\<lambda>_.
       alift (Inr True))))"

section \<open>Listing\<close>

definition PAGE_SIZE :: int where
  "PAGE_SIZE = 100"

definition key_of_item :: "provider_env \<Rightarrow> json \<Rightarrow> upstream_key_info list res" where
  "key_of_item env item =
     rbind (rule_get item (lit ''id'') JNull) (\<lambda>i.
     Inr (if i = JNull then []
          else [\<lparr>ki_key_id = py_str env i, ki_key_prefix = [], ki_key_suffix = [], ki_key_secret = None,
                 ki_metadata = [(lit ''raw'', item)]\<rparr>]))"

text \<open>What one page says: its keys, and whether it is the last one.\<close>

definition read_page :: "provider_env \<Rightarrow> int \<Rightarrow> json \<Rightarrow> (upstream_key_info list \<times> bool) res" where
  "read_page env pg payload =
     rbind (data_of payload) (\<lambda>data.
     rbind (rule_get data (lit ''items'') JNull) (\<lambda>v.
     rbind (iter_json (or_else v (JList []))) (\<lambda>page_items.
     rbind (rmap (key_of_item env) page_items) (\<lambda>keys.
     rbind (rule_get data (lit ''total'') JNull) (\<lambda>t1.
     rbind (rule_get data (lit ''total_count'') JNull) (\<lambda>t2.
     rbind (rule_get data (lit ''count'') JNull) (\<lambda>t3.
     let total = or_else t1 (or_else t2 t3) in
     if int (length page_items) < PAGE_SIZE then Inr (concat keys, True)
     else if total = JNull then Inr (concat keys, False)
     else rbind (py_int env total) (\<lambda>n. Inr (concat keys, pg * PAGE_SIZE \<ge> n)))))))))"

text \<open>\<open>while True\<close>: an upstream that keeps sending full pages keeps the loop going, so the loop is a
  partial function and \<open>None\<close> is not returning.\<close>

partial_function (option) list_pages ::
    "provider_env \<Rightarrow> str \<times> str \<Rightarrow> int \<Rightarrow> upstream_key_info list \<Rightarrow> remote_event list
     \<Rightarrow> (remote_event list \<times> upstream_key_info list res) option" where
  "list_pages env auth pg items lg =
     (case request_upstream env (lit ''GET'') (lit ''/api/token/'') auth None
             [(lit ''p'', pg), (lit ''size'', PAGE_SIZE)] False lg of
        (lg', Inl e) \<Rightarrow> Some (lg', Inl e)
      | (lg', Inr payload) \<Rightarrow>
          (case read_page env pg payload of
             Inl e \<Rightarrow> Some (lg', Inl e)
           | Inr (keys, done) \<Rightarrow>
               if done then Some (lg', Inr (items @ keys))
               else list_pages env auth (pg + 1) (items @ keys) lg'))"

definition list_remote_keys ::
    "provider_env \<Rightarrow> remote_event list \<Rightarrow> (remote_event list \<times> upstream_key_info list res) option" where
  "list_remote_keys env lg =
     (case abind (alift (validate_config (kv_config env))) (\<lambda>_. login env) lg of
        (lg', Inl e) \<Rightarrow> Some (lg', Inl e)
      | (lg', Inr auth) \<Rightarrow> list_pages env auth 1 [] lg')"

definition get_remote_key_info ::
    "provider_env \<Rightarrow> str \<Rightarrow> remote_event list \<Rightarrow> (remote_event list \<times> upstream_key_info option res) option" where
  "get_remote_key_info env key_id lg =
     map_option (\<lambda>(lg', r). (lg', rbind r (\<lambda>keys. Inr (find (\<lambda>k. ki_key_id k = key_id) keys))))
       (list_remote_keys env lg)"

section \<open>The choice of a provider\<close>

datatype provider_kind = Passthrough | Static str | OneApi provider_env

definition provider_name_of :: "provider_kind \<Rightarrow> str" where
  "provider_name_of p =
     (case p of Passthrough \<Rightarrow> lit ''passthrough'' | Static u \<Rightarrow> lit ''static'' | OneApi e \<Rightarrow> lit ''oneapi_nanfu_yxai'')"

definition upstream_base_url_of :: "provider_kind \<Rightarrow> str" where
  "upstream_base_url_of p =
     (case p of Passthrough \<Rightarrow> [] | Static u \<Rightarrow> u | OneApi e \<Rightarrow> kc_base_url (kv_config e))"

definition create_key_provider :: "str \<Rightarrow> str \<Rightarrow> provider_env \<Rightarrow> provider_kind res" where
  "create_key_provider key_provider_type upstream_url env =
     (let provider_type = lower (strip key_provider_type) in
      if provider_type \<in> set [lit ''passthrough'', []] then Inr Passthrough
      else if provider_type = lit ''static'' then Inr (Static upstream_url)
      else if provider_type = lit ''oneapi_nanfu_yxai'' then Inr (OneApi env)
      else Inl (Key_Provider_Error (lit ''unsupported key provider type: '' @ provider_type)))"

definition provider_create :: "provider_kind \<Rightarrow> key_create_params \<Rightarrow> upstream_key_info act" where
  "provider_create p params =
     (case p of
        Passthrough \<Rightarrow> alift (Inl (Key_Provider_Error (lit ''passthrough provider does not support key creation'')))
      | Static u \<Rightarrow> alift (Inl (Key_Provider_Error (lit ''static provider does not support key creation'')))
      | OneApi env \<Rightarrow> create_remote_key env params)"

definition provider_revoke :: "provider_kind \<Rightarrow> str \<Rightarrow> bool act" where
  "provider_revoke p key_id =
     (case p of
        Passthrough \<Rightarrow> alift (Inl (Key_Provider_Error (lit ''passthrough provider does not support key revoke'')))
      | Static u \<Rightarrow> alift (Inl (Key_Provider_Error (lit ''static provider does not support key revoke'')))
      | OneApi env \<Rightarrow> revoke_remote_key env key_id)"

text \<open>The provider as the key service sees it, at the lg \<open>lg\<close>.\<close>

definition service_provider :: "provider_kind \<Rightarrow> remote_event list \<Rightarrow> key_provider" where
  "service_provider p lg =
     \<lparr>pv_name = provider_name_of p,
      pv_create = (\<lambda>params. snd (provider_create p params lg)),
      pv_revoke = (\<lambda>i. snd (provider_revoke p i lg))\<rparr>"

section \<open>What an action sends\<close>

fun sent_requests :: "remote_event list \<Rightarrow> remote_request list" where
  "sent_requests [] = []"
| "sent_requests (Sent r # es) = r # sent_requests es"
| "sent_requests (Slept d # es) = sent_requests es"

lemma sent_requests_append [simp]: "sent_requests (a @ b) = sent_requests a @ sent_requests b"
  by (induction a rule: sent_requests.induct) auto

text \<open>An action that only appends to the log, sends at most \<open>n\<close> requests, and only such as satisfy
  \<open>P\<close>.\<close>

definition sends :: "(remote_request \<Rightarrow> bool) \<Rightarrow> nat \<Rightarrow> 'a act \<Rightarrow> bool" where
  "sends P n m \<longleftrightarrow> (\<forall>lg. \<exists>es. fst (m lg) = lg @ es \<and> length (sent_requests es) \<le> n \<and>
     list_all P (sent_requests es))"

named_theorems sends_intros

lemma sends_alift [sends_intros]: "sends P 0 (alift r)"
  by (simp add: sends_def alift_def)

lemma sends_sleep [sends_intros]: "sends P 0 (sleep d)"
  by (auto simp: sends_def sleep_def)

lemma sends_send [sends_intros]: "P rq \<Longrightarrow> sends P 1 (send env rq)"
  by (auto simp: sends_def send_def)

lemma sends_mono: "sends P n m \<Longrightarrow> n \<le> k \<Longrightarrow> sends P k m"
  by (fastforce simp: sends_def)

lemma sends_weaken: "sends P n m \<Longrightarrow> (\<And>r. P r \<Longrightarrow> Q r) \<Longrightarrow> sends Q n m"
  by (fastforce simp: sends_def list_all_iff)

lemma sends_abind [sends_intros]:
  assumes "sends P n m" "\<And>a. sends P k (f a)"
  shows "sends P (n + k) (abind m f)"
  unfolding sends_def
proof
  fix lg
  from assms(1) obtain es where es: "fst (m lg) = lg @ es" "length (sent_requests es) \<le> n"
    "list_all P (sent_requests es)" by (auto simp: sends_def)
  show "\<exists>es. fst (abind m f lg) = lg @ es \<and> length (sent_requests es) \<le> n + k \<and> list_all P (sent_requests es)"
  proof (cases "snd (m lg)")
    case (Inl e)
    with es show ?thesis by (cases "m lg") (auto simp: abind_def)
  next
    case (Inr a)
    from assms(2) [of a] obtain es' where "fst (f a (lg @ es)) = (lg @ es) @ es'"
      "length (sent_requests es') \<le> k" "list_all P (sent_requests es')" unfolding sends_def by blast
    with es Inr show ?thesis
      by (cases "m lg") (auto simp: abind_def intro!: exI [of _ "es @ es'"])
  qed
qed

lemma sends_then: "sends P n m \<Longrightarrow> sends P n (abind m (\<lambda>a. alift (g a)))"
  using sends_abind [OF _ sends_alift, of P n m] by simp

lemma sends_if [sends_intros]: "sends P n a \<Longrightarrow> sends P n b \<Longrightarrow> sends P n (if c then a else b)"
  by simp

lemma sends_login_loop: "P (login_request (kv_config env)) \<Longrightarrow> sends P n (login_loop env n attempt e)"
proof (induction n arbitrary: attempt e)
  case (Suc n)
  have "sends P (1 + (0 + n)) (login_loop env (Suc n) attempt e)"
    unfolding login_loop.simps
    by (intro sends_intros sends_mono [OF sends_alift] Suc) simp_all
  then show ?case by simp
qed (simp add: sends_alift)

lemma sends_request_loop: "P rq \<Longrightarrow> sends P n (request_loop env rq n attempt e)"
proof (induction n arbitrary: attempt e)
  case (Suc n)
  have "sends P (1 + (0 + n)) (request_loop env rq (Suc n) attempt e)"
    unfolding request_loop.simps
    by (intro sends_intros sends_mono [OF sends_alift] Suc) simp_all
  then show ?case by simp
qed (simp add: sends_alift)

lemma sends_login: "P (login_request (kv_config env)) \<Longrightarrow>
    sends P (nat (kc_login_retries (kv_config env))) (login env)"
  by (simp add: login_def sends_login_loop)

lemma sends_request: "P (api_request (kv_config env) meth path auth body params origin) \<Longrightarrow>
    sends P (nat (kc_request_retries (kv_config env))) (request_upstream env meth path auth body params origin)"
  by (simp add: request_upstream_def sends_request_loop)

text \<open>Creating a key: at most the retries of a login and of three requests, none of which deletes;
  the password is in the login request only, the session in the others.\<close>

definition create_traffic :: "provider_config \<Rightarrow> remote_request \<Rightarrow> bool" where
  "create_traffic kc r \<longleftrightarrow> r = login_request kc \<or>
     (rr_method r \<in> {lit ''GET'', lit ''POST''} \<and> rr_url r \<noteq> [] \<and>
      rr_headers r \<in> {auth_headers kc u og |u og. True})"

lemma create_traffic_api: "meth \<in> {lit ''GET'', lit ''POST''} \<Longrightarrow> path \<noteq> [] \<Longrightarrow>
    create_traffic kc (api_request kc meth path auth body params origin)"
  by (auto simp: create_traffic_def api_request_def)

lemma sends_create:
  "sends (create_traffic (kv_config env))
     (nat (kc_login_retries (kv_config env)) + 3 * nat (kc_request_retries (kv_config env)))
     (create_remote_key env params)"
proof -
  let ?P = "create_traffic (kv_config env)" and ?r = "nat (kc_request_retries (kv_config env))"
  have ne: "lit ''/api/token/'' \<noteq> []" "lit ''/api/token/'' @ x @ lit ''/key'' \<noteq> []" for x
    by (simp_all add: lit_def)
  have get: "sends ?P ?r (request_upstream env meth path auth body ps og)"
    if "meth \<in> {lit ''GET'', lit ''POST''}" "path \<noteq> []" for meth path auth body ps og
    using that by (intro sends_request create_traffic_api)
  have find: "sends ?P ?r (if i = JNull then find_latest_token_id env auth (kp_name params)
      else alift (Inr (py_str env i)))" for auth i
    unfolding find_latest_token_id_def
    by (intro sends_if sends_then get ne sends_mono [OF sends_alift]) simp_all
  have full: "sends ?P ?r (get_full_key env auth k)" for auth k
    unfolding get_full_key_def by (intro sends_then get ne) simp
  have "sends ?P (0 + (nat (kc_login_retries (kv_config env)) + (0 + (?r + (0 + (0 + (?r + (?r + 0))))))))
      (create_remote_key env params)"
    unfolding create_remote_key_def
    by (intro sends_intros sends_login sends_request find full create_traffic_api ne)
      (auto simp: create_traffic_def)
  then show ?thesis by (rule sends_mono) simp
qed

section \<open>What a creation returns\<close>

lemma abind_Inr: "abind m f lg = (lg', Inr b) \<Longrightarrow> \<exists>lg1 a. m lg = (lg1, Inr a) \<and> f a lg1 = (lg', Inr b)"
  by (auto simp: abind_def split: prod.splits sum.splits)

lemma full_key_sk:
  assumes "full_key_of payload = Inr k"
  shows "startswith k (lit ''sk-'') \<and> strip k = k"
proof -
  from assms obtain d v where "rbind (data_of payload) (\<lambda>d. rule_get d (lit ''key'') JNull) = Inr v"
    and v: "(case or_else v (JStr []) of JStr s \<Rightarrow>
         (let key_value = strip s in
          if key_value = [] then Inl (Key_Provider_Error (lit ''upstream key secret is empty''))
          else if startswith key_value (lit ''sk-'') then Inr key_value
          else Inr (lit ''sk-'' @ key_value)) | _ \<Rightarrow> Inl Attribute_Error) = Inr k"
    by (auto simp: full_key_of_def rbind_eq_Inr)
  then obtain s where s: "strip s \<noteq> []" "k = strip s \<and> startswith (strip s) (lit ''sk-'') \<or> k = lit ''sk-'' @ strip s"
    by (cases "or_else v (JStr [])") (auto simp: Let_def split: if_splits)
  have "strip (lit ''sk-'' @ strip s) = lit ''sk-'' @ strip s"
    unfolding strip_def
  proof (rule strip_by_fix)
    have "\<not> is_space (last (strip_by is_space s))"
      using strip_by_ends [of is_space s] s(1) by (auto simp: strip_def)
    then show "lit ''sk-'' @ strip_by is_space s = [] \<or>
        \<not> is_space (hd (lit ''sk-'' @ strip_by is_space s)) \<and> \<not> is_space (last (lit ''sk-'' @ strip_by is_space s))"
      using s(1) by (simp add: strip_def lit_def is_space_def)
  qed
  with s show ?thesis by (auto simp: startswith_def)
qed

lemma create_remote_key_secret:
  assumes "create_remote_key env params lg = (lg', Inr info)"
  shows "\<exists>k. ki_key_secret info = Some k \<and> startswith k (lit ''sk-'') \<and> strip k = k \<and>
    ki_key_prefix info = take 12 k"
proof -
  from assms obtain k lg1 lg2 auth i where "get_full_key env auth i lg1 = (lg2, Inr k)"
    and info: "info = \<lparr>ki_key_id = i, ki_key_prefix = key_prefix k, ki_key_suffix = key_suffix k,
      ki_key_secret = Some k, ki_metadata = ki_metadata info\<rparr>"
    unfolding create_remote_key_def by (fastforce dest!: abind_Inr simp: alift_def)
  then obtain payload where "full_key_of payload = Inr k"
    unfolding get_full_key_def by (fastforce dest!: abind_Inr simp: alift_def)
  from full_key_sk [OF this] show ?thesis
    by (subst (1 2) info) (simp add: key_prefix_def)
qed

section \<open>The listing returns\<close>

lemma request_loop_payload:
  "request_loop env rq n attempt e lg = (lg', Inr payload) \<Longrightarrow>
   \<exists>lg1 response. kv_http env lg1 rq = Inr response \<and> rp_json response = Some payload"
proof (induction n arbitrary: attempt e lg)
  case (Suc n)
  from Suc.prems obtain response where r: "kv_http env lg rq = Inr response"
    by (auto simp: send_def dest!: abind_Inr)
  show ?case
  proof (cases "rp_status response = 429")
    case True
    with Suc.prems r have "\<exists>a e lg2. request_loop env rq n a e lg2 = (lg', Inr payload)"
      by (auto simp: abind_def send_def sleep_def)
    with Suc.IH show ?thesis by blast
  next
    case False
    with Suc.prems r have "request_result env response = Inr payload"
      by (auto simp: abind_def send_def alift_def)
    with r show ?thesis
      by (auto simp: request_result_def response_payload_def rbind_eq_Inr split: option.splits if_splits)
  qed
qed (simp add: alift_def)

text \<open>The upstream reports, on every page of tokens, a total of at most \<open>N\<close>.\<close>

definition reports_total :: "int \<Rightarrow> provider_env \<Rightarrow> bool" where
  "reports_total N env \<longleftrightarrow> (\<forall>lg rq response payload data.
     kv_http env lg rq = Inr response \<and> rp_json response = Some payload \<and> rr_method rq = lit ''GET'' \<and>
     data_of payload = Inr data \<longrightarrow>
     (\<exists>n. rule_get data (lit ''total'') JNull = Inr (JInt n) \<and> 0 < n \<and> n \<le> N))"

lemma list_pages_returns:
  assumes "reports_total N env"
  shows "\<exists>r. list_pages env auth pg items lg = Some r"
proof (induction "nat (N - (pg - 1) * PAGE_SIZE)" arbitrary: pg items lg rule: less_induct)
  case less
  let ?rq = "api_request (kv_config env) (lit ''GET'') (lit ''/api/token/'') auth None
    [(lit ''p'', pg), (lit ''size'', PAGE_SIZE)] False"
  obtain lg' r where run: "request_upstream env (lit ''GET'') (lit ''/api/token/'') auth None
      [(lit ''p'', pg), (lit ''size'', PAGE_SIZE)] False lg = (lg', r)" by fastforce
  show ?case
  proof (cases "\<exists>payload keys. r = Inr payload \<and> read_page env pg payload = Inr (keys, False)")
    case False
    then show ?thesis
      by (subst list_pages.simps) (auto simp: run split: sum.splits prod.splits)
  next
    case True
    then obtain payload keys where p: "r = Inr payload" "read_page env pg payload = Inr (keys, False)" by blast
    with run obtain lg1 response where "kv_http env lg1 ?rq = Inr response" "rp_json response = Some payload"
      by (auto simp: request_upstream_def dest: request_loop_payload)
    moreover from p(2) obtain data where data: "data_of payload = Inr data"
      by (auto simp: read_page_def rbind_eq_Inr)
    moreover have "rr_method ?rq = lit ''GET''" by (simp add: api_request_def)
    ultimately obtain n where n: "rule_get data (lit ''total'') JNull = Inr (JInt n)" "0 < n" "n \<le> N"
      using assms unfolding reports_total_def by blast
    from p(2) data n have "pg * PAGE_SIZE < n"
      by (auto simp: read_page_def rbind_eq_Inr Let_def or_else_def split: if_splits)
    with n(3) have "nat (N - (pg + 1 - 1) * PAGE_SIZE) < nat (N - (pg - 1) * PAGE_SIZE)"
      by (simp add: PAGE_SIZE_def)
    from less [OF this] p show ?thesis
      by (subst list_pages.simps) (simp add: run)
  qed
qed

lemma list_remote_keys_returns:
  "reports_total N env \<Longrightarrow> \<exists>r. list_remote_keys env lg = Some r"
  using list_pages_returns [of N env]
  by (auto simp: list_remote_keys_def split: prod.splits sum.splits)

end
