(* ===== verification/Runtime_State.thy ===== *)
theory Runtime_State
  imports Table Headers "HOL-Library.Word"
begin

text \<open>
  Small services with a state of their own: the runtime settings shared by the workers
  (\<open>storage/runtime_settings.py\<close>), the administration's cache of statistics
  (\<open>runtime/admin_cache.py\<close>), the limit on request bodies (\<open>middleware/request_limit.py\<close>), the
  request id (\<open>observability/request_id.py\<close>) and the readiness check (\<open>observability/health.py\<close>).
  Parameters: the clock, the database's failures, \<open>int\<close> of a header, UUIDs.
\<close>

section \<open>Runtime settings\<close>

record runtime_setting =
  rt_key :: str
  rt_value :: str
  rt_description :: str
  rt_updated_by :: str
  rt_created_at :: int
  rt_updated_at :: int

type_synonym settings_table = "runtime_setting list"

definition TRAINING_CAPTURE_ENABLED_KEY :: str where
  "TRAINING_CAPTURE_ENABLED_KEY = lit ''training_capture_enabled''"

text \<open>The description is Chinese text, given by its code points.\<close>

definition TRAINING_CAPTURE_ENABLED_DESCRIPTION :: str where
  "TRAINING_CAPTURE_ENABLED_DESCRIPTION =
     [25511, 21046, 26159, 21542, 35760, 24405, 36890, 36807, 35831, 27714, 30340, 35757,
      32451, 26679, 26412, 65292, 19981, 24433, 21709, 23433, 20840, 23457, 35745]"

definition TRUE_VALUES :: "str list" where
  "TRUE_VALUES = [lit ''1'', lit ''true'', lit ''yes'', lit ''on'', lit ''enabled'']"

definition value_to_bool :: "str \<Rightarrow> bool \<Rightarrow> bool" where
  "value_to_bool v dflt =
     (let normalized = lower (strip v) in
      if normalized = [] then dflt else normalized \<in> set TRUE_VALUES)"

definition bool_to_value :: "bool \<Rightarrow> str" where
  "bool_to_value v = (if v then lit ''true'' else lit ''false'')"

interpretation rsettings: keyed_table rt_key "tbl_get rt_key" tbl_add "tbl_update rt_key" tbl_delete
  by (rule keyed_table_list)

text \<open>The service's own state is the flag it caches. \<open>set_training_capture_enabled\<close> writes the row and,
  when the commit succeeds, the flag.\<close>

definition write_setting :: "bool \<Rightarrow> str \<Rightarrow> int \<Rightarrow> settings_table \<Rightarrow> settings_table" where
  "write_setting enabled updated_by now t =
     (case tbl_get rt_key TRAINING_CAPTURE_ENABLED_KEY t of
        None \<Rightarrow> tbl_add \<lparr>rt_key = TRAINING_CAPTURE_ENABLED_KEY, rt_value = bool_to_value enabled,
                  rt_description = TRAINING_CAPTURE_ENABLED_DESCRIPTION, rt_updated_by = updated_by,
                  rt_created_at = now, rt_updated_at = now\<rparr> t
      | Some r \<Rightarrow> tbl_update rt_key TRAINING_CAPTURE_ENABLED_KEY
                  (\<lambda>r. r\<lparr>rt_value := bool_to_value enabled, rt_description := TRAINING_CAPTURE_ENABLED_DESCRIPTION,
                         rt_updated_by := updated_by, rt_updated_at := now\<rparr>) t)"

definition set_training_capture_enabled ::
    "bool \<Rightarrow> bool \<Rightarrow> str \<Rightarrow> int \<Rightarrow> settings_table \<Rightarrow> bool \<Rightarrow> settings_table \<times> bool \<times> bool res" where
  "set_training_capture_enabled commit enabled updated_by now t flag =
     (if commit then (write_setting enabled updated_by now t, enabled, Inr enabled)
      else (t, flag, Inl (Other_Error (lit ''OperationalError''))))"

text \<open>\<open>refresh\<close>: \<open>None\<close> for a database that raises.\<close>

definition refresh_settings :: "settings_table option \<Rightarrow> bool \<Rightarrow> bool" where
  "refresh_settings db flag =
     (case db of
        None \<Rightarrow> flag
      | Some t \<Rightarrow>
          (case tbl_get rt_key TRAINING_CAPTURE_ENABLED_KEY t of
             None \<Rightarrow> True
           | Some r \<Rightarrow> value_to_bool (rt_value r) True))"

lemma value_bool_inverse: "value_to_bool (bool_to_value b) d = b"
proof -
  have "value_to_bool (lit ''true'') d" "\<not> value_to_bool (lit ''false'') d"
    by (simp_all add: value_to_bool_def Let_def TRUE_VALUES_def strip_def strip_by_def is_space_def lit_def
        lower_def lower1_def)
  then show ?thesis by (simp add: bool_to_value_def)
qed

lemma write_setting_get:
  "\<exists>r. tbl_get rt_key TRAINING_CAPTURE_ENABLED_KEY (write_setting enabled updated_by now t) = Some r \<and>
     rt_value r = bool_to_value enabled"
proof (cases "tbl_get rt_key TRAINING_CAPTURE_ENABLED_KEY t")
  case None
  then have "TRAINING_CAPTURE_ENABLED_KEY \<notin> rt_key ` set t" by (rule rsettings.get_None [THEN iffD1])
  with None show ?thesis by (simp add: write_setting_def rsettings.get_add)
qed (simp add: write_setting_def rsettings.get_upd)

lemma write_setting_other:
  assumes "k \<noteq> TRAINING_CAPTURE_ENABLED_KEY"
  shows "tbl_get rt_key k (write_setting enabled updated_by now t) = tbl_get rt_key k t"
proof (cases "tbl_get rt_key TRAINING_CAPTURE_ENABLED_KEY t")
  case None
  have "tbl_get rt_key k (tbl_add r t) = tbl_get rt_key k t" if "rt_key r \<noteq> k" for r
    using that by (induction t) (auto simp: tbl_get_def tbl_add_def)
  with None assms show ?thesis by (simp add: write_setting_def)
qed (use assms in \<open>simp add: write_setting_def rsettings.get_upd\<close>)

section \<open>The cache of statistics\<close>

text \<open>\<open>time.monotonic\<close> is read before the lock and again inside it; the clock starts at 0.\<close>

record 'v stats_cache =
  ch_ttl :: rat
  ch_expires_at :: rat
  ch_value :: "'v option"

definition new_stats_cache :: "rat option \<Rightarrow> rat \<Rightarrow> 'v stats_cache" where
  "new_stats_cache ttl_seconds admin_stats_cache_seconds =
     \<lparr>ch_ttl = max 0 (case ttl_seconds of Some t \<Rightarrow> t | None \<Rightarrow> admin_stats_cache_seconds),
      ch_expires_at = 0, ch_value = None\<rparr>"

definition cached :: "rat \<Rightarrow> 'v stats_cache \<Rightarrow> 'v option" where
  "cached now c = (if now < ch_expires_at c then ch_value c else None)"

text \<open>\<open>waited\<close> is what other callers did to the cache while this one waited for the lock.\<close>

definition get_or_set ::
    "rat \<Rightarrow> rat \<Rightarrow> ('v stats_cache \<Rightarrow> 'v stats_cache) \<Rightarrow> 'v res \<Rightarrow> 'v stats_cache \<Rightarrow> 'v stats_cache \<times> 'v res" where
  "get_or_set now1 now2 waited loaded c =
     (case cached now1 c of
        Some v \<Rightarrow> (c, Inr v)
      | None \<Rightarrow>
          (let c1 = waited c in
           (case cached now2 c1 of
              Some v \<Rightarrow> (c1, Inr v)
            | None \<Rightarrow>
                (case loaded of
                   Inl e \<Rightarrow> (c1, Inl e)
                 | Inr v \<Rightarrow> (c1\<lparr>ch_value := Some v, ch_expires_at := now2 + ch_ttl c1\<rparr>, Inr v)))))"

definition clear_stats_cache :: "'v stats_cache \<Rightarrow> 'v stats_cache" where
  "clear_stats_cache c = c\<lparr>ch_value := None, ch_expires_at := 0\<rparr>"

text \<open>What the cache holds was loaded at some time \<open>s\<close>, and expires when its time to live is over.
  \<open>hist s\<close> is what a load at the time \<open>s\<close> gives.\<close>

definition cache_holds :: "(rat \<Rightarrow> 'v) \<Rightarrow> rat \<Rightarrow> 'v stats_cache \<Rightarrow> bool" where
  "cache_holds hist now c \<longleftrightarrow>
     (\<forall>v. ch_value c = Some v \<longrightarrow> (\<exists>s\<le>now. v = hist s \<and> ch_expires_at c = s + ch_ttl c))"

lemma get_or_set_fresh:
  assumes "cache_holds hist now1 c" "cache_holds hist now2 (waited c)" "ch_ttl (waited c) = ch_ttl c"
    and "now1 \<le> now2" "0 \<le> ch_ttl c"
    and "get_or_set now1 now2 waited (Inr (hist now2)) c = (c', Inr v)"
  shows "cache_holds hist now2 c' \<and> (\<exists>s\<le>now2. v = hist s \<and> now1 \<le> s + ch_ttl c)"
proof (cases "cached now1 c")
  case (Some x)
  with assms(6) have eq: "c' = c" "v = x" by (simp_all add: get_or_set_def)
  from Some assms(1) obtain s where "s \<le> now1" "x = hist s" "ch_expires_at c = s + ch_ttl c" "now1 < s + ch_ttl c"
    by (auto simp: cached_def cache_holds_def split: if_splits)
  then have "\<exists>s\<le>now2. v = hist s \<and> now1 \<le> s + ch_ttl c"
    using assms(4) eq by (intro exI [of _ s]) simp
  moreover have "cache_holds hist now2 c"
    using assms(1,4) unfolding cache_holds_def by (meson order.trans)
  ultimately show ?thesis by (simp add: eq)
next
  case None
  show ?thesis
  proof (cases "cached now2 (waited c)")
    case (Some x)
    with None assms(6) have eq: "c' = waited c" "v = x" by (simp_all add: get_or_set_def Let_def)
    from Some assms(2) obtain s where "s \<le> now2" "x = hist s" "now2 < s + ch_ttl (waited c)"
      by (auto simp: cached_def cache_holds_def split: if_splits)
    with assms(2-4) eq show ?thesis by (auto intro!: exI [of _ s])
  next
    case N2: None
    with None assms(6) have "v = hist now2"
      "c' = (waited c)\<lparr>ch_value := Some v, ch_expires_at := now2 + ch_ttl (waited c)\<rparr>"
      by (auto simp: get_or_set_def Let_def)
    with assms(4,5) show ?thesis
      by (auto simp: cache_holds_def intro!: exI [of _ now2])
  qed
qed

section \<open>The limit on request bodies\<close>

text \<open>A message the server delivers: a piece of the body, or anything else (a disconnect).\<close>

datatype asgi_message = Http_Request "8 word list" | Other_Message

definition max_body_bytes :: "int \<Rightarrow> nat" where
  "max_body_bytes request_max_body_mb = nat (max 1 request_max_body_mb * 1024 * 1024)"

text \<open>\<open>limited_receive\<close>, called once per message: what the application gets, and whether the limit
  raised. \<open>received\<close> is the closure's counter.\<close>

fun limited_receive :: "nat \<Rightarrow> nat \<Rightarrow> asgi_message list \<Rightarrow> asgi_message list \<times> bool" where
  "limited_receive max_bytes received [] = ([], False)"
| "limited_receive max_bytes received (Other_Message # ms) =
     (case limited_receive max_bytes received ms of (got, over) \<Rightarrow> (Other_Message # got, over))"
| "limited_receive max_bytes received (Http_Request body # ms) =
     (let received' = received + length body in
      if received' > max_bytes then ([], True)
      else (case limited_receive max_bytes received' ms of (got, over) \<Rightarrow> (Http_Request body # got, over)))"

datatype limit_verdict = Too_Large | Handled "asgi_message list"

text \<open>\<open>dispatch\<close>, for an application that reads the messages there are; \<open>to_int\<close> is \<open>int\<close>. \<open>through\<close>
  says whether \<open>call_next\<close> reads through the request it is given, to which the limited \<open>receive\<close> is
  attached; the framework may read through the request it made itself.\<close>

definition limit_dispatch ::
    "bool \<Rightarrow> (str \<Rightarrow> int option) \<Rightarrow> int \<Rightarrow> str \<Rightarrow> asgi_message list \<Rightarrow> limit_verdict" where
  "limit_dispatch through to_int request_max_body_mb content_length messages =
     (let max_bytes = max_body_bytes request_max_body_mb in
      if content_length \<noteq> [] \<and>
         (case to_int content_length of Some n \<Rightarrow> n > int max_bytes | None \<Rightarrow> True) then Too_Large
      else if \<not> through then Handled messages
      else (case limited_receive max_bytes 0 messages of
              (got, True) \<Rightarrow> Too_Large
            | (got, False) \<Rightarrow> Handled got))"

fun body_bytes :: "asgi_message list \<Rightarrow> 8 word list" where
  "body_bytes [] = []"
| "body_bytes (Http_Request b # ms) = b @ body_bytes ms"
| "body_bytes (Other_Message # ms) = body_bytes ms"

lemma limited_receive_bound:
  "received \<le> max_bytes \<Longrightarrow> limited_receive max_bytes received ms = (got, over) \<Longrightarrow>
   received + length (body_bytes got) \<le> max_bytes \<and> (over \<longleftrightarrow> received + length (body_bytes ms) > max_bytes) \<and>
   (\<not> over \<longrightarrow> got = ms)"
proof (induction max_bytes received ms arbitrary: got over rule: limited_receive.induct)
  case (2 max_bytes received ms)
  then show ?case by (auto split: prod.splits)
next
  case (3 max_bytes received body ms)
  show ?case
  proof (cases "received + length body > max_bytes")
    case False
    obtain g b where gb: "limited_receive max_bytes (received + length body) ms = (g, b)" by fastforce
    with "3.prems"(2) False have eq: "got = Http_Request body # g" "over = b" by auto
    from False have "received + length body \<le> max_bytes" by simp
    from "3.IH" [OF refl False this gb] eq show ?thesis by auto
  qed (use "3.prems" in auto)
qed auto

text \<open>The body an application gets, when it reads through the limit or the server holds the client to
  its \<open>content-length\<close>.\<close>

lemma limit_dispatch_bound:
  assumes "limit_dispatch through to_int mb content_length messages = Handled got"
    and "through \<or> content_length \<noteq> [] \<and>
      (\<forall>n. to_int content_length = Some n \<longrightarrow> int (length (body_bytes messages)) \<le> n)"
  shows "got = messages \<and> length (body_bytes got) \<le> max_body_bytes mb"
proof (cases through)
  case True
  then obtain g where "limited_receive (max_body_bytes mb) 0 messages = (g, False)" "got = g"
    using assms(1) by (auto simp: limit_dispatch_def Let_def split: if_splits prod.splits bool.splits)
  with limited_receive_bound [of 0 "max_body_bytes mb" messages g False] show ?thesis by simp
next
  case False
  with assms show ?thesis
    by (auto simp: limit_dispatch_def Let_def split: if_splits option.splits)
qed

text \<open>Whatever the framework does, a request that passes has its whole body, and its \<open>content-length\<close>, if it
  has one, is a number within the limit. A body without one is not limited at all when the framework
  reads past the limited \<open>receive\<close>.\<close>

lemma limit_dispatch_declared:
  assumes "limit_dispatch through to_int mb content_length messages = Handled got"
  shows "got = messages" "content_length \<noteq> [] \<Longrightarrow> \<exists>n. to_int content_length = Some n \<and> n \<le> int (max_body_bytes mb)"
proof -
  show "got = messages"
  proof (cases through)
    case True
    with assms limit_dispatch_bound [OF assms] show ?thesis by simp
  qed (use assms in \<open>auto simp: limit_dispatch_def Let_def split: if_splits option.splits\<close>)
  show "content_length \<noteq> [] \<Longrightarrow> \<exists>n. to_int content_length = Some n \<and> n \<le> int (max_body_bytes mb)"
    using assms by (auto simp: limit_dispatch_def Let_def split: if_splits option.splits)
qed

lemma limit_bypassed: "limit_dispatch False to_int mb [] messages = Handled messages"
  by (simp add: limit_dispatch_def)

section \<open>Request ids and readiness\<close>

definition REQUEST_ID_HEADER :: str where
  "REQUEST_ID_HEADER = lit ''X-Request-ID''"

definition request_id_of :: "headers \<Rightarrow> str \<Rightarrow> str" where
  "request_id_of hs uuid_hex =
     (case find (\<lambda>(k, v). lower k = lower REQUEST_ID_HEADER) hs of
        Some (k, v) \<Rightarrow> if v \<noteq> [] then v else lit ''req_'' @ uuid_hex
      | None \<Rightarrow> lit ''req_'' @ uuid_hex)"

text \<open>\<open>dispatch\<close>: the application runs with the id, which the response carries.\<close>

definition request_id_dispatch :: "headers \<Rightarrow> str \<Rightarrow> (str \<Rightarrow> headers) \<Rightarrow> str \<times> headers" where
  "request_id_dispatch hs uuid_hex call_next =
     (let request_id = request_id_of hs uuid_hex
      in (request_id, override_header_case_insensitive (call_next request_id) REQUEST_ID_HEADER request_id))"

lemma request_id_nonempty: "request_id_of hs uuid_hex \<noteq> []"
  by (simp add: request_id_of_def lit_def split: option.splits)

text \<open>\<open>ready\<close>: the database answers 1 (\<open>None\<close> when it raises, which nothing catches) and the rules file
  exists.\<close>

definition ready :: "int option \<Rightarrow> bool \<Rightarrow> (nat \<times> str \<times> (str \<times> bool) list) res" where
  "ready database_scalar rules_exists =
     (case database_scalar of
        None \<Rightarrow> Inl (Other_Error (lit ''OperationalError''))
      | Some n \<Rightarrow>
          (let checks = [(lit ''database'', n = 1), (lit ''rules'', rules_exists)];
               is_ready = list_all snd checks
           in Inr (if is_ready then 200 else 503, if is_ready then lit ''ready'' else lit ''not_ready'', checks)))"

end
