(* ===== verification/Startup.thy ===== *)
theory Startup
  imports Database Concurrency Key_Provider Runtime_State Archive_Queue Identity Auth
begin

text \<open>
  The application as a whole (\<open>config.py\<close>, \<open>main.py\<close>): the settings and their validation, what happens at
  start-up and in which order, and the way of a request through the middlewares. Parameters: the
  environment, the \<open>.env\<close> files, \<open>str.lower\<close>, and those of the components.
\<close>

section \<open>Settings\<close>

text \<open>The fields of the class and their defaults.\<close>

datatype setting_value =
    S_Str str
  | S_Int int
  | S_Float rat
  | S_Bool bool
  | S_Path str
  | S_List "str list"

definition DEFAULT_SETTINGS :: "(string \<times> setting_value) list" where
  "DEFAULT_SETTINGS =
    [(''app_name'', S_Str (lit ''LLM-SafetyHub'')), (''environment'', S_Str (lit ''development'')),
     (''debug'', S_Bool True), (''upstream_url'', S_Str []), (''upstream_timeout_connect'', S_Int 10),
     (''upstream_timeout_read'', S_Int 120), (''upstream_timeout_pool'', S_Int 5),
     (''upstream_max_connections'', S_Int 200), (''upstream_max_keepalive_connections'', S_Int 150),
     (''upstream_keepalive_expiry'', S_Int 30), (''v1_max_inflight'', S_Int 150),
     (''v1_max_queue_size'', S_Int 200), (''v1_queue_timeout_seconds'', S_Float 15),
     (''admin_stats_cache_seconds'', S_Int 10), (''archive_queue_max_size'', S_Int 5000),
     (''archive_batch_size'', S_Int 50), (''archive_flush_interval_seconds'', S_Float 1),
     (''archive_max_payload_bytes'', S_Int 262144),
     (''rules_config_path'', S_Path (lit ''engine/rules_config.yaml'')), (''rules_reload_interval'', S_Int 5),
     (''scanner_order'', S_List [lit ''keyword'', lit ''regex'']), (''scanner_fail_open'', S_Bool False),
     (''db_url'', S_Str (lit ''sqlite+aiosqlite:///./data/safetyhub.db'')),
     (''archive_retention_days'', S_Int 180), (''audit_retention_days'', S_Int 365),
     (''data_governance_auto_coverage_enabled'', S_Bool False),
     (''data_governance_coverage_start_time'', S_Str (lit ''02:00'')),
     (''data_governance_coverage_max_seconds'', S_Int 600),
     (''data_governance_coverage_max_records'', S_Int 5000),
     (''data_governance_coverage_batch_size'', S_Int 200),
     (''data_governance_coverage_batch_sleep_ms'', S_Int 200),
     (''data_governance_cleanup_batch_size'', S_Int 1000), (''system_disk_monitor_path'', S_Path (lit ''/'')),
     (''system_disk_monitor_container_path'', S_Path (lit ''/mnt/system-disk'')),
     (''data_disk_monitor_path'', S_Path (lit ''data'')), (''reports_enabled'', S_Bool True),
     (''reports_dir'', S_Path (lit ''data/reports'')), (''reports_retention_days'', S_Int 90),
     (''reports_runtime_sample_interval_minutes'', S_Int 5),
     (''reports_daily_generate_time'', S_Str (lit ''02:00'')),
     (''reports_weekly_generate_time'', S_Str (lit ''03:00'')),
     (''reports_monthly_generate_time'', S_Str (lit ''04:00'')),
     (''reports_generation_timeout_seconds'', S_Int 600),
     (''image_asset_dir'', S_Path (lit ''data/image_assets'')), (''image_asset_max_size_mb'', S_Int 20),
     (''image_asset_download_timeout_seconds'', S_Int 10), (''data_encryption_enabled'', S_Bool False),
     (''data_encryption_key_env'', S_Str (lit ''SAFETYHUB_DATA_KEY'')),
     (''allow_empty_api_keys_passthrough'', S_Bool True), (''stream_archive_max_bytes'', S_Int (1024 * 1024)),
     (''key_provider_type'', S_Str (lit ''passthrough'')), (''key_provider_admin_token'', S_Str []),
     (''key_provider_base_url'', S_Str []), (''key_provider_username'', S_Str []),
     (''key_provider_password_env'', S_Str (lit ''KEY_PROVIDER_PASSWORD'')),
     (''key_provider_auth_version'', S_Str []), (''key_provider_default_remain_quota'', S_Int 1000000),
     (''key_provider_default_unlimited_quota'', S_Bool True), (''key_provider_timeout_seconds'', S_Int 30),
     (''key_provider_login_retries'', S_Int 3), (''key_provider_login_retry_delay_seconds'', S_Float 10),
     (''key_provider_request_retries'', S_Int 3), (''key_provider_request_retry_delay_seconds'', S_Float 2),
     (''admin_username'', S_Str (lit ''admin'')), (''admin_password'', S_Str []),
     (''admin_ip_whitelist'', S_List []), (''webhook_url'', S_Str []),
     (''webhook_type'', S_Str (lit ''wecom'')), (''approval_webhook_url'', S_Str []),
     (''approval_timeout_minutes'', S_Int 30), (''alert_silence_rule_minutes'', S_Int 5),
     (''alert_silence_user_minutes'', S_Int 2), (''alert_hourly_limit'', S_Int 50),
     (''request_max_body_mb'', S_Int 20), (''file_scan_enabled'', S_Bool False),
     (''file_max_size_mb'', S_Int 50),
     (''file_allowed_types'', S_List [lit ''txt'', lit ''md'', lit ''pdf'', lit ''docx'', lit ''xlsx'', lit ''csv'']),
     (''uvicorn_workers'', S_Int 4), (''uvicorn_host'', S_Str (lit ''0.0.0.0'')), (''uvicorn_port'', S_Int 8000)]"

text \<open>The settings that decide whether a production start is allowed, and those the start-up and the
  middlewares use, read from the fields.\<close>

record startup_settings =
  ss_environment :: str
  ss_upstream_url :: str
  ss_admin :: auth_settings
  ss_data_encryption_key_env :: str
  ss_allow_empty_api_keys_passthrough :: bool
  ss_key_provider_type :: str
  ss_key_provider_base_url :: str
  ss_key_provider_username :: str
  ss_key_provider_password_env :: str
  ss_key_provider_auth_version :: str
  ss_db_url :: str
  ss_scanner_fail_open :: bool
  ss_archive_queue_max_size :: int
  ss_archive_batch_size :: int
  ss_request_max_body_mb :: int

definition str_setting :: "(string \<times> setting_value) list \<Rightarrow> string \<Rightarrow> str" where
  "str_setting fs name = (case map_of fs name of Some (S_Str s) \<Rightarrow> s | _ \<Rightarrow> [])"

definition int_setting :: "(string \<times> setting_value) list \<Rightarrow> string \<Rightarrow> int" where
  "int_setting fs name = (case map_of fs name of Some (S_Int n) \<Rightarrow> n | _ \<Rightarrow> 0)"

definition bool_setting :: "(string \<times> setting_value) list \<Rightarrow> string \<Rightarrow> bool" where
  "bool_setting fs name = (case map_of fs name of Some (S_Bool b) \<Rightarrow> b | _ \<Rightarrow> False)"

definition list_setting :: "(string \<times> setting_value) list \<Rightarrow> string \<Rightarrow> str list" where
  "list_setting fs name = (case map_of fs name of Some (S_List l) \<Rightarrow> l | _ \<Rightarrow> [])"

definition settings_of :: "(string \<times> setting_value) list \<Rightarrow> startup_settings" where
  "settings_of fs =
     \<lparr>ss_environment = str_setting fs ''environment'', ss_upstream_url = str_setting fs ''upstream_url'',
      ss_admin = \<lparr>au_username = str_setting fs ''admin_username'', au_password = str_setting fs ''admin_password'',
                  au_app_name = str_setting fs ''app_name'', au_ip_whitelist = list_setting fs ''admin_ip_whitelist''\<rparr>,
      ss_data_encryption_key_env = str_setting fs ''data_encryption_key_env'',
      ss_allow_empty_api_keys_passthrough = bool_setting fs ''allow_empty_api_keys_passthrough'',
      ss_key_provider_type = str_setting fs ''key_provider_type'',
      ss_key_provider_base_url = str_setting fs ''key_provider_base_url'',
      ss_key_provider_username = str_setting fs ''key_provider_username'',
      ss_key_provider_password_env = str_setting fs ''key_provider_password_env'',
      ss_key_provider_auth_version = str_setting fs ''key_provider_auth_version'',
      ss_db_url = str_setting fs ''db_url'', ss_scanner_fail_open = bool_setting fs ''scanner_fail_open'',
      ss_archive_queue_max_size = int_setting fs ''archive_queue_max_size'',
      ss_archive_batch_size = int_setting fs ''archive_batch_size'',
      ss_request_max_body_mb = int_setting fs ''request_max_body_mb''\<rparr>"

definition default_settings :: startup_settings where
  "default_settings = settings_of DEFAULT_SETTINGS"

text \<open>The defaults the record reads, and the record written out, for evaluation.\<close>

lemma default_lookups:
  "map_of DEFAULT_SETTINGS ''environment'' = Some (S_Str (lit ''development''))"
  "map_of DEFAULT_SETTINGS ''upstream_url'' = Some (S_Str [])"
  "map_of DEFAULT_SETTINGS ''admin_username'' = Some (S_Str (lit ''admin''))"
  "map_of DEFAULT_SETTINGS ''admin_password'' = Some (S_Str [])"
  "map_of DEFAULT_SETTINGS ''app_name'' = Some (S_Str (lit ''LLM-SafetyHub''))"
  "map_of DEFAULT_SETTINGS ''admin_ip_whitelist'' = Some (S_List [])"
  "map_of DEFAULT_SETTINGS ''data_encryption_key_env'' = Some (S_Str (lit ''SAFETYHUB_DATA_KEY''))"
  "map_of DEFAULT_SETTINGS ''allow_empty_api_keys_passthrough'' = Some (S_Bool True)"
  "map_of DEFAULT_SETTINGS ''key_provider_type'' = Some (S_Str (lit ''passthrough''))"
  "map_of DEFAULT_SETTINGS ''key_provider_base_url'' = Some (S_Str [])"
  "map_of DEFAULT_SETTINGS ''key_provider_username'' = Some (S_Str [])"
  "map_of DEFAULT_SETTINGS ''key_provider_password_env'' = Some (S_Str (lit ''KEY_PROVIDER_PASSWORD''))"
  "map_of DEFAULT_SETTINGS ''key_provider_auth_version'' = Some (S_Str [])"
  "map_of DEFAULT_SETTINGS ''db_url'' = Some (S_Str (lit ''sqlite+aiosqlite:///./data/safetyhub.db''))"
  "map_of DEFAULT_SETTINGS ''scanner_fail_open'' = Some (S_Bool False)"
  "map_of DEFAULT_SETTINGS ''archive_queue_max_size'' = Some (S_Int 5000)"
  "map_of DEFAULT_SETTINGS ''archive_batch_size'' = Some (S_Int 50)"
  "map_of DEFAULT_SETTINGS ''request_max_body_mb'' = Some (S_Int 20)"
  unfolding DEFAULT_SETTINGS_def
  by (simp_all only: map_of_Cons_code fst_conv snd_conv list.inject char.inject simp_thms if_True if_False list.distinct)

lemma default_settings_eq [code]:
  "default_settings =
     \<lparr>ss_environment = lit ''development'', ss_upstream_url = [],
      ss_admin = \<lparr>au_username = lit ''admin'', au_password = [], au_app_name = lit ''LLM-SafetyHub'', au_ip_whitelist = []\<rparr>,
      ss_data_encryption_key_env = lit ''SAFETYHUB_DATA_KEY'', ss_allow_empty_api_keys_passthrough = True,
      ss_key_provider_type = lit ''passthrough'', ss_key_provider_base_url = [], ss_key_provider_username = [],
      ss_key_provider_password_env = lit ''KEY_PROVIDER_PASSWORD'', ss_key_provider_auth_version = [],
      ss_db_url = lit ''sqlite+aiosqlite:///./data/safetyhub.db'', ss_scanner_fail_open = False,
      ss_archive_queue_max_size = 5000, ss_archive_batch_size = 50, ss_request_max_body_mb = 20\<rparr>"
  by (simp add: default_settings_def settings_of_def str_setting_def int_setting_def bool_setting_def
      list_setting_def default_lookups)

definition normalize_environment :: "(str \<Rightarrow> str) \<Rightarrow> str \<Rightarrow> str" where
  "normalize_environment lower_text v = strip (lower_text v)"

definition is_production :: "startup_settings \<Rightarrow> bool" where
  "is_production st \<longleftrightarrow> ss_environment st = lit ''production''"

text \<open>A line of an environment file: \<open>None\<close> when the loop goes on.\<close>

definition env_line_value :: "str \<Rightarrow> str \<Rightarrow> str option" where
  "env_line_value env_name line =
     (let stripped = strip line in
      if stripped = [] \<or> startswith stripped (lit ''#'') \<or> 61 \<notin> set stripped then None
      else (let (key, _, raw_value) = partition_at 61 stripped in
            if strip key \<noteq> env_name then None
            else Some (strip_by (\<lambda>c. c = 39) (strip_by (\<lambda>c. c = 34) (strip raw_value)))))"

fun first_value :: "str \<Rightarrow> str list \<Rightarrow> str option" where
  "first_value env_name [] = None"
| "first_value env_name (l # ls) =
     (case env_line_value env_name l of None \<Rightarrow> first_value env_name ls | Some v \<Rightarrow> Some v)"

text \<open>\<open>read_env p\<close> is the text of the file \<open>p\<close>, when it exists.\<close>

fun secret_in_files :: "(path \<Rightarrow> str option) \<Rightarrow> str \<Rightarrow> path list \<Rightarrow> str" where
  "secret_in_files read_env env_name [] = []"
| "secret_in_files read_env env_name (p # ps) =
     (case read_env p of
        None \<Rightarrow> secret_in_files read_env env_name ps
      | Some content \<Rightarrow>
          (case first_value env_name (splitlines (replace_crlf content)) of
             None \<Rightarrow> secret_in_files read_env env_name ps
           | Some v \<Rightarrow> v))"

definition get_secret :: "(str \<Rightarrow> str) \<Rightarrow> (path \<Rightarrow> str option) \<Rightarrow> path \<Rightarrow> path \<Rightarrow> str \<Rightarrow> str" where
  "get_secret getenv read_env cwd here env_name =
     (let v = getenv env_name; configured_path = parse_path (lit ''.env'') in
      if v \<noteq> [] then v
      else secret_in_files read_env env_name
             (remdups [join_path cwd configured_path, join_path here configured_path]))"

definition missing_settings :: "(str \<Rightarrow> str) \<Rightarrow> startup_settings \<Rightarrow> str list" where
  "missing_settings secret st =
     (if ss_upstream_url st = [] then [lit ''UPSTREAM_URL''] else []) @
     (if length (au_password (ss_admin st)) < 12 then [lit ''ADMIN_PASSWORD''] else []) @
     (if secret (ss_data_encryption_key_env st) = [] then [ss_data_encryption_key_env st] else []) @
     (if ss_allow_empty_api_keys_passthrough st then [lit ''ALLOW_EMPTY_API_KEYS_PASSTHROUGH=false''] else []) @
     (if ss_key_provider_type st = lit ''oneapi_nanfu_yxai'' then
        (if ss_key_provider_base_url st = [] then [lit ''KEY_PROVIDER_BASE_URL''] else []) @
        (if ss_key_provider_username st = [] then [lit ''KEY_PROVIDER_USERNAME''] else []) @
        (if secret (ss_key_provider_password_env st) = [] then [ss_key_provider_password_env st] else []) @
        (if ss_key_provider_auth_version st = [] then [lit ''KEY_PROVIDER_AUTH_VERSION''] else [])
      else [])"

definition validate_startup_settings :: "(str \<Rightarrow> str) \<Rightarrow> startup_settings \<Rightarrow> unit res" where
  "validate_startup_settings secret st =
     (if \<not> is_production st then Inr ()
      else (let missing = missing_settings secret st in
            if missing \<noteq> [] then
              Inl (Runtime_Error (lit ''Missing or unsafe production settings: '' @ join (lit '', '') missing))
            else Inr ()))"

section \<open>The start\<close>

text \<open>What the start-up makes: the world after \<open>init_db\<close>, the engine, the provider, the flag of the
  runtime settings, the queue.\<close>

record 'w application =
  ap_world :: 'w
  ap_engine :: engine
  ap_provider :: provider_kind
  ap_capture :: bool
  ap_queue :: archive_queue

record 'w start_env =
  se_secret :: "str \<Rightarrow> str"
  se_mkdir :: "path \<Rightarrow> 'w \<Rightarrow> 'w res"
  se_exec :: "'w sql_exec"
  se_create_all :: "'w \<Rightarrow> 'w res"
  se_compile :: "str \<Rightarrow> bool \<Rightarrow> re option"
  se_rules_file :: rules_file
  se_settings_table :: "'w \<Rightarrow> settings_table option"
  se_provider_env :: provider_env

text \<open>The constructors of the two scanners read the rules file.\<close>

definition build_engine :: "(str \<Rightarrow> bool \<Rightarrow> re option) \<Rightarrow> rules_file \<Rightarrow> bool \<Rightarrow> engine res" where
  "build_engine compile rules_file fail =
     (case keyword_load_rules rules_file [] of
        (rs, Inl e) \<Rightarrow> Inl e
      | (rs, Inr u) \<Rightarrow>
          (case regex_load_rules compile rules_file \<lparr>rx_rules = [], rx_compiled = []\<rparr> of
             (sc, Inl e) \<Rightarrow> Inl e
           | (sc, Inr u) \<Rightarrow> Inr \<lparr>eng_rules = rs, eng_regex = sc, eng_fail_open = fail\<rparr>))"

text \<open>\<open>lifespan\<close> up to its \<open>yield\<close>. The runtime settings start with the flag set.\<close>

definition lifespan_start :: "'w start_env \<Rightarrow> startup_settings \<Rightarrow> 'w \<Rightarrow> 'w application res" where
  "lifespan_start se st w =
     rbind (validate_startup_settings (se_secret se) st) (\<lambda>_.
     rbind (init_db (se_mkdir se) (se_exec se) (se_create_all se) (ss_db_url st) w) (\<lambda>w.
     rbind (build_engine (se_compile se) (se_rules_file se) (ss_scanner_fail_open st)) (\<lambda>scanner.
     rbind (create_key_provider (ss_key_provider_type st) (ss_upstream_url st) (se_provider_env se)) (\<lambda>provider.
     Inr \<lparr>ap_world = w, ap_engine = scanner, ap_provider = provider,
          ap_capture = refresh_settings (se_settings_table se w) True,
          ap_queue = queue_start (new_archive_queue None None (ss_archive_queue_max_size st)
                       (ss_archive_batch_size st))\<rparr>))))"

section \<open>The way of a request\<close>

text \<open>The middlewares from the outside in: request id, concurrency limit, body limit, identity, static
  pages. A request is its path, headers and body messages; the clocks, the UUID and the limiter's
  answer belong to the moment it is handled. \<open>hq_cookie\<close> is the session cookie as Starlette parses it.\<close>

record http_request =
  hq_path :: str
  hq_headers :: headers
  hq_messages :: "asgi_message list"
  hq_client_host :: "str option"
  hq_cookie :: str
  hq_monotonic :: int
  hq_now :: int
  hq_uuid :: str

definition header_or_empty :: "str \<Rightarrow> headers \<Rightarrow> str" where
  "header_or_empty name hs = (case find (\<lambda>(k, v). lower k = name) hs of Some (k, v) \<Rightarrow> v | None \<Rightarrow> [])"

definition id_request_of :: "http_request \<Rightarrow> id_request" where
  "id_request_of rq =
     \<lparr>iq_path = hq_path rq, iq_authorization = header_or_empty (lit ''authorization'') (hq_headers rq),
      iq_monotonic = hq_monotonic rq, iq_now = hq_now rq\<rparr>"

definition admin_request_of :: "http_request \<Rightarrow> admin_request" where
  "admin_request_of rq =
     \<lparr>ad_path = hq_path rq, ad_client_host = hq_client_host rq, ad_session_cookie = hq_cookie rq,
      ad_authorization = header_or_empty (lit ''authorization'') (hq_headers rq), ad_now = hq_now rq\<rparr>"

text \<open>An answer of a middleware, or the request as the routes see it.\<close>

datatype outcome =
    Answered nat str
  | Redirected str
  | Waiting
  | Errored exn
  | Routed str "request_identity option" "str option" "asgi_message list"

record handling =
  hd_libs :: auth_libs
  hd_crypto :: crypto
  hd_to_int :: "str \<Rightarrow> int option"
  hd_through :: bool

definition static_stage :: "handling \<Rightarrow> startup_settings \<Rightarrow> http_request \<Rightarrow> str \<Rightarrow> request_identity option
    \<Rightarrow> asgi_message list \<Rightarrow> outcome" where
  "static_stage h st rq rid i body =
     (case static_dispatch (hd_libs h) (admin_request_of rq) (ss_admin st) of
        Admitted user \<Rightarrow> Routed rid i user body
      | Redirect url \<Rightarrow> Redirected url
      | Refused code detail \<Rightarrow> Answered code detail
      | Admin_Raised e \<Rightarrow> Errored e)"

definition identity_stage :: "handling \<Rightarrow> startup_settings \<Rightarrow> key_table \<Rightarrow> http_request \<Rightarrow> str
    \<Rightarrow> asgi_message list \<Rightarrow> count_cache \<Rightarrow> count_cache \<times> outcome" where
  "identity_stage h st t rq rid body cache =
     (case dispatch (hd_crypto h) (ss_allow_empty_api_keys_passthrough st) t (id_request_of rq) cache of
        (cache', Unauthorized detail) \<Rightarrow> (cache', Answered 401 detail)
      | (cache', Raised e) \<Rightarrow> (cache', Errored e)
      | (cache', Call_Next i) \<Rightarrow> (cache', static_stage h st rq rid i body))"

definition body_stage :: "handling \<Rightarrow> startup_settings \<Rightarrow> key_table \<Rightarrow> http_request \<Rightarrow> str
    \<Rightarrow> count_cache \<Rightarrow> count_cache \<times> outcome" where
  "body_stage h st t rq rid cache =
     (case limit_dispatch (hd_through h) (hd_to_int h) (ss_request_max_body_mb st)
             (header_or_empty (lit ''content-length'') (hq_headers rq)) (hq_messages rq) of
        Too_Large \<Rightarrow> (cache, Answered 413 (lit ''request body exceeds limit''))
      | Handled body \<Rightarrow> identity_stage h st t rq rid body cache)"

definition handle :: "handling \<Rightarrow> startup_settings \<Rightarrow> key_table \<Rightarrow> admission \<Rightarrow> http_request
    \<Rightarrow> count_cache \<Rightarrow> count_cache \<times> outcome" where
  "handle h st t limiter_answer rq cache =
     (let rid = request_id_of (hq_headers rq) (hq_uuid rq) in
      if \<not> limited (lit ''http'') (hq_path rq) then body_stage h st t rq rid cache
      else (case limiter_answer of
              Wait \<Rightarrow> (cache, Waiting)
            | Rejected reason wait_ms \<Rightarrow> (cache, Answered 429 reason)
            | Acquired wait_ms inflight queue_size \<Rightarrow> body_stage h st t rq rid cache))"

section \<open>Facts\<close>

text \<open>What a production start guarantees.\<close>

lemma production_settings:
  assumes "validate_startup_settings secret st = Inr ()" "is_production st"
  shows "ss_upstream_url st \<noteq> []" "12 \<le> length (au_password (ss_admin st))"
    "secret (ss_data_encryption_key_env st) \<noteq> []" "\<not> ss_allow_empty_api_keys_passthrough st"
  using assms
  by (auto simp: validate_startup_settings_def missing_settings_def Let_def not_less split: if_splits)

lemma lifespan_validates: "lifespan_start se st w = Inr app \<Longrightarrow> validate_startup_settings (se_secret se) st = Inr ()"
  by (auto simp: lifespan_start_def rbind_eq_Inr)

lemma lifespan_database:
  "lifespan_start se st w = Inr app \<Longrightarrow>
   init_db (se_mkdir se) (se_exec se) (se_create_all se) (ss_db_url st) w = Inr (ap_world app)"
  by (auto simp: lifespan_start_def rbind_eq_Inr)

text \<open>A request that is routed passed every stage.\<close>

lemma static_stage_Routed:
  "static_stage h st rq rid i body = Routed rid' i' user body' \<Longrightarrow>
   rid' = rid \<and> i' = i \<and> body' = body \<and>
   static_dispatch (hd_libs h) (admin_request_of rq) (ss_admin st) = Admitted user"
  by (auto simp: static_stage_def split: admin_answer.splits)

lemma handle_Routed:
  assumes "handle h st t a rq cache = (cache', Routed rid i user body)"
  shows "rid = request_id_of (hq_headers rq) (hq_uuid rq)"
    and "limit_dispatch (hd_through h) (hd_to_int h) (ss_request_max_body_mb st)
      (header_or_empty (lit ''content-length'') (hq_headers rq)) (hq_messages rq) = Handled body"
    and "dispatch (hd_crypto h) (ss_allow_empty_api_keys_passthrough st) t (id_request_of rq) cache =
      (cache', Call_Next i)"
    and "limited (lit ''http'') (hq_path rq) \<Longrightarrow> \<exists>w f q. a = Acquired w f q"
    and "static_dispatch (hd_libs h) (admin_request_of rq) (ss_admin st) = Admitted user"
  using assms
  by (auto simp: handle_def Let_def body_stage_def identity_stage_def dest!: static_stage_Routed
      split: if_splits admission.splits limit_verdict.splits prod.splits verdict.splits)

text \<open>The check of the production settings compares the provider's type as it is written, the choice
  of the provider without case and blanks: with another spelling the provider is used although
  its address, user, password and version were never checked.\<close>

lemma provider_settings_unchecked:
  assumes "lower (strip (ss_key_provider_type st)) = lit ''oneapi_nanfu_yxai''"
    and "ss_key_provider_type st \<noteq> lit ''oneapi_nanfu_yxai''"
    and "ss_upstream_url st \<noteq> []" "12 \<le> length (au_password (ss_admin st))"
    and "secret (ss_data_encryption_key_env st) \<noteq> []" "\<not> ss_allow_empty_api_keys_passthrough st"
  shows "validate_startup_settings secret (st\<lparr>ss_key_provider_base_url := [], ss_key_provider_username := [],
      ss_key_provider_auth_version := []\<rparr>) = Inr () \<and>
    create_key_provider (ss_key_provider_type st) (ss_upstream_url st) env = Inr (OneApi env)"
  using assms
  by (simp add: validate_startup_settings_def missing_settings_def create_key_provider_def is_production_def Let_def)

end
