(* ===== verification/Archive_Refinement.thy ===== *)
theory Archive_Refinement
  imports Archive_Queue
begin

text \<open>
  What the archive queue promises its callers: each accepted item is written, once and in order. The
  specification writes an item at once, without queue, batch or worker; what a row owes to the moment
  of the write (its number, UUID and times) is left out. While captures are on and the database commits, the
  queue of \<open>runtime/archive_queue.py\<close> refines it.
\<close>

section \<open>The specification\<close>

record archive_spec =
  sp_training :: "conversation list"
  sp_audit :: "audit_log list"

definition conversation_content :: "conversation \<Rightarrow> conversation" where
  "conversation_content c = c\<lparr>tc_id := 0, tc_conversation_id := [], tc_expires_at := None, tc_created_at := 0\<rparr>"

definition audit_content :: "audit_log \<Rightarrow> audit_log" where
  "audit_content l = l\<lparr>al_id := 0, al_created_at := 0\<rparr>"

definition store_view :: "store \<Rightarrow> archive_spec" where
  "store_view s = \<lparr>sp_training = map conversation_content (st_training s),
                    sp_audit = map audit_content (st_audit s)\<rparr>"

fun spec_write :: "codec \<Rightarrow> queue_item \<Rightarrow> archive_spec \<Rightarrow> archive_spec" where
  "spec_write cd (Archive_Item p) v =
     v\<lparr>sp_training := sp_training v @ (case conversation_from_payload cd 0 0 [] p of None \<Rightarrow> [] | Some c \<Rightarrow> [c])\<rparr>"
| "spec_write cd (Audit_Item p) v = v\<lparr>sp_audit := sp_audit v @ logs_from_payload (cd_sha cd) 0 p\<rparr>"

section \<open>Runs in which the database commits\<close>

inductive committed_run :: "codec \<Rightarrow> store \<Rightarrow> run \<Rightarrow> bool" for cd s where
  CR_init: "committed_run cd s (initial_run (new_archive_queue a b c d) s)"
| CR_write: "committed_run cd s r \<Longrightarrow> qu_task (rn_queue r) = In_Loop \<Longrightarrow> qu_batch (rn_queue r) \<noteq> [] \<Longrightarrow>
     we_codec w = cd \<Longrightarrow> we_training_commits w \<Longrightarrow> we_audit_commits w \<Longrightarrow>
     worker_write w True (rn_queue r) (rn_store r) = (q', s') \<Longrightarrow>
     committed_run cd s (r\<lparr>rn_queue := loop_test q', rn_store := s',
       rn_done := rn_done r @ qu_batch (rn_queue r),
       rn_skipped := rn_skipped r @ not_written w True (rn_store r) (qu_batch (rn_queue r))\<rparr>)"
| CR_other: "committed_run cd s r \<Longrightarrow> queue_step r r' \<Longrightarrow> rn_done r' = rn_done r \<Longrightarrow>
     rn_store r' = rn_store r \<Longrightarrow> committed_run cd s r'"

lemma committed_reachable: "committed_run cd s r \<Longrightarrow> queue_reachable r"
proof (induction rule: committed_run.induct)
  case (CR_write r w q' s')
  then show ?case using QR_step [OF _ Q_worker [OF W_write [of r w True q' s']]] by simp
qed (auto intro: QR_init QR_step)

section \<open>The refinement\<close>

text \<open>What a row says does not depend on the moment of the write.\<close>

lemma conversation_content_of:
  "map_option conversation_content (conversation_from_payload cd days now u p) = conversation_from_payload cd 0 0 [] p"
  by (simp add: conversation_from_payload_def conversation_content_def Let_def)

lemma conversations_content:
  "length us = length ps \<Longrightarrow>
   map conversation_content
     (List.map_filter (\<lambda>(u, p). conversation_from_payload cd days now u p) (zip us ps)) =
   List.map_filter (conversation_from_payload cd 0 0 []) ps"
proof (induction us ps rule: list_induct2)
  case (Cons u us p ps)
  then show ?case
    using conversation_content_of [of cd days now u p, symmetric]
    by (cases "conversation_from_payload cd days now u p") (simp_all add: List.map_filter_simps)
qed (simp add: List.map_filter_simps)

lemma logs_content: "map audit_content (logs_from_payload sha now p) = logs_from_payload sha 0 p"
  by (simp add: logs_from_payload_def log_of_def audit_content_def Let_def)

lemma logs_empty: "logs_from_payload sha now p = [] \<longleftrightarrow> logs_from_payload sha 0 p = []"
  using logs_content [of sha now p] by (metis map_is_Nil_conv)

lemma inserted_content:
  assumes "\<And>n x. content (upd n x) = content x"
  shows "map content (tbl_insert_all key upd rows t) = map content t @ map content rows"
  using number_from_field [of content upd, OF assms] by (simp add: tbl_insert_all_def)

lemma training_content:
  assumes "training_write_many cd days now True (zip us ps) t = Inr t'" "length us = length ps"
  shows "map conversation_content t' =
    map conversation_content t @ List.map_filter (conversation_from_payload cd 0 0 []) ps"
  using assms(1) conversations_content [OF assms(2), of cd days now]
    inserted_content [of conversation_content "\<lambda>n c. c\<lparr>tc_id := n\<rparr>"]
  by (auto simp: training_write_many_def Let_def conversation_content_def split: if_splits)

lemma audit_content_written:
  assumes "audit_write_many sha now True ps t = Inr t'"
  shows "map audit_content t' = map audit_content t @ concat (map (logs_from_payload sha 0) ps)"
proof -
  have "map audit_content (concat (map (logs_from_payload sha now) ps)) = concat (map (logs_from_payload sha 0) ps)"
    by (simp add: map_concat logs_content comp_def)
  then show ?thesis
    using assms inserted_content [of audit_content "\<lambda>n l. l\<lparr>al_id := n\<rparr>"]
    by (auto simp: audit_write_many_def write_logs_def audit_content_def logs_empty [of sha now] split: if_splits)
qed

lemma writes_commit:
  "\<exists>t'. training_write_many cd days now True ups t = Inr t'"
  "\<exists>t'. audit_write_many sha now True ps a = Inr t'"
  by (simp_all add: training_write_many_def audit_write_many_def write_logs_def Let_def)

text \<open>The specification, item by item, is the two writes of a batch.\<close>

lemma spec_write_batch:
  "fold (spec_write cd) b v =
   v\<lparr>sp_training := sp_training v @ List.map_filter (conversation_from_payload cd 0 0 []) (archives_of b),
     sp_audit := sp_audit v @ concat (map (logs_from_payload (cd_sha cd) 0) (audits_of b))\<rparr>"
  by (induction b arbitrary: v rule: archives_of.induct)
    (auto simp: List.map_filter_simps split: option.splits)

lemma process_batch_view:
  assumes "we_training_commits w" "we_audit_commits w" "process_batch w True b (s, n) = (s', n')"
  shows "store_view s' = fold (spec_write (we_codec w)) b (store_view s)"
proof -
  let ?ps = "archives_of b" and ?cd = "we_codec w"
  obtain s1 n1 where s1: "write_archives w True ?ps (s, n) = Inr (s1, n1)"
    and t1: "map conversation_content (st_training s1) = map conversation_content (st_training s) @
      List.map_filter (conversation_from_payload ?cd 0 0 []) ?ps" "st_audit s1 = st_audit s"
  proof (cases "?ps = []")
    case True
    with that [of s n] show thesis by (simp add: write_archives_def List.map_filter_simps)
  next
    case False
    obtain t where t: "training_write_many ?cd (we_retention_days w) (we_now w) True
        (zip (map (we_uuid w) [0..<length ?ps]) ?ps) (st_training s) = Inr t"
      using writes_commit(1) by blast
    with False assms(1) training_content [OF t] that [of "s\<lparr>st_training := t\<rparr>" "n + length ?ps"]
    show thesis by (simp add: write_archives_def with_uuids_def)
  qed
  obtain s2 n2 where s2: "write_audits w (audits_of b) (s1, n1) = Inr (s2, n2)"
    and t2: "map audit_content (st_audit s2) = map audit_content (st_audit s1) @
      concat (map (logs_from_payload (cd_sha ?cd) 0) (audits_of b))" "st_training s2 = st_training s1"
  proof (cases "audits_of b = []")
    case True
    with that [of s1 n1] show thesis by (simp add: write_audits_def)
  next
    case False
    obtain t where t: "audit_write_many (cd_sha ?cd) (we_now w) True (audits_of b) (st_audit s1) = Inr t"
      using writes_commit(2) by blast
    with False assms(2) audit_content_written [OF t] that [of "s1\<lparr>st_audit := t\<rparr>" "n1 + length (audits_of b)"]
    show thesis by (simp add: write_audits_def)
  qed
  from s1 s2 assms(3) have "s' = s2" by (simp add: process_batch_def)
  with t1 t2 show ?thesis by (simp add: store_view_def spec_write_batch)
qed

lemma committed_view: "committed_run cd s r \<Longrightarrow> store_view (rn_store r) = fold (spec_write cd) (rn_done r) (store_view s)"
proof (induction rule: committed_run.induct)
  case (CR_write r w q' s')
  then show ?case
    using process_batch_view [of w "qu_batch (rn_queue r)" "rn_store r" "qu_processed (rn_queue r)"]
    by (auto simp: worker_write_def split: prod.splits)
qed (simp_all add: initial_run_def)

end
