(* ===== verification/Operations.thy ===== *)
theory Operations
  imports Example Startup Archive_Refinement
begin

text \<open>
  The properties of the application as it is operated: what a start guarantees, the way of a request
  through the middlewares, the database set-up, the reports, the key provider's listing and the
  archive. Each has a witness where it has hypotheses; the concrete values come first.
\<close>

section \<open>Concrete values\<close>

definition ex_db_url :: str where
  "ex_db_url = lit ''postgresql+asyncpg://db''"

definition ex_settings :: startup_settings where
  "ex_settings = default_settings\<lparr>ss_environment := lit ''production'', ss_upstream_url := lit ''http://up'',
     ss_admin := ex_auth\<lparr>au_password := lit ''long-enough-pw''\<rparr>, ss_allow_empty_api_keys_passthrough := False,
     ss_db_url := ex_db_url\<rparr>"

definition ex_provider_env :: provider_env where
  "ex_provider_env = \<lparr>kv_config = \<lparr>kc_base_url = lit ''u'', kc_username = lit ''n'', kc_password = lit ''p'',
       kc_password_env = lit ''E'', kc_auth_version = lit ''v'', kc_login_retries = 1, kc_login_retry_delay = 0,
       kc_request_retries = 1, kc_request_retry_delay = 0, kc_default_remain_quota = JInt 1,
       kc_default_unlimited_quota = JBool True\<rparr>,
     kv_http = (\<lambda>lg rq. Inl (Other_Error [])), kv_str = (\<lambda>_. []), kv_int = (\<lambda>_. None)\<rparr>"

definition ex_start :: "mem_db start_env" where
  "ex_start = \<lparr>se_secret = (\<lambda>_. lit ''secret''), se_mkdir = (\<lambda>p d. Inr d), se_exec = mem_exec,
     se_create_all = (\<lambda>d. Inr (mem_create MODEL_COLUMNS d)), se_compile = (\<lambda>_ _. None), se_rules_file = Missing,
     se_settings_table = (\<lambda>_. None), se_provider_env = ex_provider_env\<rparr>"

definition ex_empty_db :: mem_db where
  "ex_empty_db = \<lparr>mb_tables = [], mb_versions = []\<rparr>"

text \<open>A database of an older version: a table of keys without \<open>created_at\<close>, with rows.\<close>

definition ex_old_db :: mem_db where
  "ex_old_db = \<lparr>mb_tables = [(''api_keys'', [''id'', ''key_hash''], True)], mb_versions = []\<rparr>"



definition ex_handling :: handling where
  "ex_handling = \<lparr>hd_libs = ex_auth_libs, hd_crypto = ex_crypto, hd_to_int = (\<lambda>_. None), hd_through = True\<rparr>"

definition ex_http :: http_request where
  "ex_http = \<lparr>hq_path = lit ''/v1/models'', hq_headers = [(lit ''Authorization'', lit ''Bearer sk-sh-token'')],
     hq_messages = [Http_Request [1, 2]], hq_client_host = None, hq_cookie = [], hq_monotonic = 4, hq_now = 6,
     hq_uuid = lit ''0f''\<rparr>"

definition ex_handled :: "count_cache \<times> outcome" where
  "ex_handled = handle ex_handling ex_settings ex_keys (Acquired 0 1 0) ex_http (new_cache 5)"

definition ex_identity :: request_identity where
  "ex_identity = \<lparr>ri_api_key_id = lit ''ak_01'', ri_user_id = lit ''u'', ri_upstream_api_key = lit ''upstream-key'',
     ri_key_prefix = ak_key_prefix ex_key\<rparr>"

lemma ex_handled_eq: "handle ex_handling ex_settings ex_keys (Acquired 0 1 0) ex_http (new_cache 5) =
    (fst ex_handled, Routed (lit ''req_0f'') (Some ex_identity) None [Http_Request [1, 2]])"
proof -
  have req: "request_id_of (hq_headers ex_http) (hq_uuid ex_http) = lit ''req_0f''"
    "limited (lit ''http'') (hq_path ex_http)"
    "header_or_empty (lit ''content-length'') (hq_headers ex_http) = []"
    "hd_through ex_handling" "hq_messages ex_http = [Http_Request [1, 2]]" "ss_request_max_body_mb ex_settings = 20"
    by code_simp+
  have id: "snd (dispatch (hd_crypto ex_handling) (ss_allow_empty_api_keys_passthrough ex_settings) ex_keys
      (id_request_of ex_http) (new_cache 5)) = Call_Next (Some ex_identity)"
    "static_dispatch (hd_libs ex_handling) (admin_request_of ex_http) (ss_admin ex_settings) = Admitted None"
    by code_simp+
  from req(3-6) have "limit_dispatch (hd_through ex_handling) (hd_to_int ex_handling) (ss_request_max_body_mb ex_settings)
      (header_or_empty (lit ''content-length'') (hq_headers ex_http)) (hq_messages ex_http) = Handled [Http_Request [1, 2]]"
    by (simp add: limit_dispatch_def max_body_bytes_def Let_def)
  moreover obtain cache' where "dispatch (hd_crypto ex_handling) (ss_allow_empty_api_keys_passthrough ex_settings) ex_keys
      (id_request_of ex_http) (new_cache 5) = (cache', Call_Next (Some ex_identity))"
    using id(1) by (cases "dispatch (hd_crypto ex_handling) (ss_allow_empty_api_keys_passthrough ex_settings) ex_keys
      (id_request_of ex_http) (new_cache 5)") simp
  ultimately have "snd ex_handled = Routed (lit ''req_0f'') (Some ex_identity) None [Http_Request [1, 2]]"
    using req(1,2) id(2)
    by (simp add: ex_handled_def handle_def body_stage_def identity_stage_def static_stage_def Let_def)
  then show ?thesis by (simp add: ex_handled_def [symmetric] prod_eq_iff)
qed

lemma ex_initialised:
  obtains d' where "init_db (\<lambda>p d. Inr d) mem_exec (\<lambda>d. Inr (mem_create MODEL_COLUMNS d)) ex_db_url d = Inr d'"
proof (rule mem.init_db_runs)
  have "\<not> startswith ex_db_url SQLITE_PREFIX" by code_simp
  then show "startswith ex_db_url SQLITE_PREFIX \<Longrightarrow> upgradable (mem_view d) (mem_filled d)" by blast
qed

lemma ex_started: obtains app where "lifespan_start ex_start ex_settings ex_empty_db = Inr app"
proof -
  obtain d where d: "init_db (\<lambda>p d. Inr d) mem_exec (\<lambda>d. Inr (mem_create MODEL_COLUMNS d)) ex_db_url ex_empty_db = Inr d"
    by (rule ex_initialised)
  have "validate_startup_settings (\<lambda>_. lit ''secret'') ex_settings = Inr ()"
    "lower (strip (ss_key_provider_type ex_settings)) = lit ''passthrough''"
    "ss_db_url ex_settings = ex_db_url"
    by code_simp+
  with d that show thesis
    by (simp add: lifespan_start_def ex_start_def build_engine_def create_key_provider_def
        keyword_load_rules_def regex_load_rules_def Let_def)
qed

section \<open>Requests\<close>

text \<open>C5. A request that a \<open>/v1/\<close> route sees has a request id, holds a slot of the limiter and passed the
  identity check; its body is what the client sent, and its \<open>Content-Length\<close>, if it has one, is a number
  within the limit. The body itself is within the limit when the server holds the client to that
  \<open>Content-Length\<close>, or when the framework reads through the limited request. Of a body without
  \<open>Content-Length\<close> nothing more is claimed: the pinned framework does not read through it.\<close>

theorem routed_request_checked:
  assumes "handle h st t a rq cache = (cache', Routed rid i user body)"
    and "startswith (hq_path rq) (lit ''/v1/'')"
  shows "rid \<noteq> [] \<and> (\<exists>wait_ms inflight queued. a = Acquired wait_ms inflight queued) \<and> i \<noteq> None \<and>
    body = hq_messages rq \<and>
    (header_or_empty (lit ''content-length'') (hq_headers rq) \<noteq> [] \<longrightarrow>
       (\<exists>n. hd_to_int h (header_or_empty (lit ''content-length'') (hq_headers rq)) = Some n \<and>
          n \<le> int (max_body_bytes (ss_request_max_body_mb st)) \<and>
          (int (length (body_bytes body)) \<le> n \<longrightarrow>
             length (body_bytes body) \<le> max_body_bytes (ss_request_max_body_mb st)))) \<and>
    (hd_through h \<longrightarrow> length (body_bytes body) \<le> max_body_bytes (ss_request_max_body_mb st))"
proof -
  note routed = handle_Routed [OF assms(1)]
  from assms(2) have "limited (lit ''http'') (hq_path rq)" by (simp add: limited_def)
  with routed(4) have slot: "\<exists>wait_ms inflight queued. a = Acquired wait_ms inflight queued" by blast
  from routed(3) assms(2) have "i \<noteq> None"
    by (cases i) (auto simp: dispatch_def id_request_of_def Let_def split: if_splits prod.splits)
  with slot routed(1) limit_dispatch_declared [OF routed(2)] limit_dispatch_bound [OF routed(2)] show ?thesis
    by (auto simp: request_id_nonempty)
qed

theorem routed_request_checked_witness:
  "length (body_bytes [Http_Request [1, 2]]) \<le> max_body_bytes 20 \<and> lit ''req_0f'' \<noteq> []"
proof -
  have "startswith (hq_path ex_http) (lit ''/v1/'')" "hd_through ex_handling" by code_simp+
  with routed_request_checked [OF ex_handled_eq]
  have "length (body_bytes [Http_Request [1, 2]]) \<le> max_body_bytes (ss_request_max_body_mb ex_settings) \<and>
    lit ''req_0f'' \<noteq> []" by blast
  moreover have "ss_request_max_body_mb ex_settings = 20" by code_simp
  ultimately show ?thesis by simp
qed

text \<open>C4. A production application lets nobody through without a key: once it has started, a request
  that reaches a \<open>/v1/\<close> route presented a key of the table that is active, and carries that key's
  upstream secret; and no administrator password is shorter than twelve characters.\<close>

theorem production_requires_key:
  assumes "lifespan_start se st w = Inr app" "is_production st"
    and "handle h st t a rq cache = (cache', Routed rid i user body)" "startswith (hq_path rq) (lit ''/v1/'')"
  shows "(\<exists>k\<in>set t. \<exists>ident. i = Some ident \<and> is_record_active k (hq_now rq) \<and> ri_api_key_id ident = ak_id k \<and>
      ak_key_hash k = hash_api_key (hd_crypto h)
        (extract_bearer_key (header_or_empty (lit ''authorization'') (hq_headers rq))) \<and>
      decrypt_upstream_key (hd_crypto h) k = Inr (ri_upstream_api_key ident)) \<and>
    (\<forall>user password. validate_admin_login user password (ss_admin st) = Inr True \<longrightarrow> 12 \<le> length password)"
proof
  note started = production_settings [OF lifespan_validates [OF assms(1)] assms(2)]
  from handle_Routed(3) [OF assms(3)] assms(4) started(4)
  have "check_key (hd_crypto h) t (hq_now rq) (header_or_empty (lit ''authorization'') (hq_headers rq)) = Call_Next i"
    by (auto simp: dispatch_def id_request_of_def Let_def split: if_splits prod.splits)
  moreover from this obtain ident where "i = Some ident" by (cases i) auto
  ultimately show "\<exists>k\<in>set t. \<exists>ident. i = Some ident \<and> is_record_active k (hq_now rq) \<and>
      ri_api_key_id ident = ak_id k \<and>
      ak_key_hash k = hash_api_key (hd_crypto h)
        (extract_bearer_key (header_or_empty (lit ''authorization'') (hq_headers rq))) \<and>
      decrypt_upstream_key (hd_crypto h) k = Inr (ri_upstream_api_key ident)"
    by (auto elim!: check_key_pass)
  show "\<forall>user password. validate_admin_login user password (ss_admin st) = Inr True \<longrightarrow> 12 \<le> length password"
    using started(2) by (auto simp: validate_admin_login_def rbind_eq_Inr dest: compare_digest_True split: if_splits)
qed

theorem production_requires_key_witness:
  "\<exists>k\<in>set ex_keys. is_record_active k 6 \<and> ak_id k = lit ''ak_01''"
proof -
  obtain app where app: "lifespan_start ex_start ex_settings ex_empty_db = Inr app" by (rule ex_started)
  have "is_production ex_settings" "startswith (hq_path ex_http) (lit ''/v1/'')" "hq_now ex_http = 6" by code_simp+
  with production_requires_key [OF app _ ex_handled_eq] show ?thesis by (auto simp: ex_identity_def)
qed

section \<open>The key provider\<close>

text \<open>C29. Listing the keys of the upstream returns: an upstream that states, on each page of tokens, a total of
  at most \<open>N\<close> is asked for finitely many pages, however many it would send.\<close>

theorem remote_listing_returns:
  assumes "reports_total N env"
  shows "\<exists>lg' r. list_remote_keys env lg = Some (lg', r)"
  using list_remote_keys_returns [OF assms, of lg] by auto

theorem remote_listing_returns_witness:
  "\<exists>lg' r. list_remote_keys (ex_provider_env\<lparr>kv_http := \<lambda>lg rq. Inr \<lparr>rp_status = 200,
     rp_json = Some (JDict [(lit ''data'', JDict [(lit ''id'', JInt 1), (lit ''total'', JInt 1)])]),
     rp_session = Some (lit ''s''), rp_error = []\<rparr>\<rparr>) [] = Some (lg', r)"
proof (rule remote_listing_returns)
  show "reports_total 1 (ex_provider_env\<lparr>kv_http := \<lambda>lg rq. Inr \<lparr>rp_status = 200,
     rp_json = Some (JDict [(lit ''data'', JDict [(lit ''id'', JInt 1), (lit ''total'', JInt 1)])]),
     rp_session = Some (lit ''s''), rp_error = []\<rparr>\<rparr>)"
    by (auto simp: reports_total_def data_of_def or_else_def get_or_def)
qed

section \<open>The database\<close>



text \<open>C38. Upgrading an older SQLite database fails when a table that has rows lacks a column whose
  default is the current time: the start-up raises.\<close>

theorem legacy_upgrade_fails:
  assumes "sqlite_database mkdir exec create_all view filled" "startswith db_url SQLITE_PREFIX"
    and "(t, c) \<in> set now_columns"
    and "t \<in> vw_tables (view w)" "t \<in> filled w" "(t, c) \<notin> vw_columns (view w)"
  shows "\<exists>e. init_db mkdir exec create_all db_url w = Inl e"
proof (cases "init_db mkdir exec create_all db_url w")
  case (Inr w')
  obtain cs d where cs: "(t, cs) \<in> set SQLITE_LEGACY_COLUMNS" "(c, d) \<in> set cs" "column_default d = D_Now"
    by (rule now_columns_legacy [OF assms(3)])
  from sqlite_database.upgrade_needs_column [OF assms(1,2) Inr assms(5,4) cs] assms(6) show ?thesis by simp
qed blast

theorem legacy_upgrade_fails_witness:
  "\<exists>e. init_db (\<lambda>p d. Inr d) mem_exec (\<lambda>d. Inr (mem_create MODEL_COLUMNS d)) (lit ''sqlite+aiosqlite:///x.db'') ex_old_db = Inl e"
proof (rule legacy_upgrade_fails [where t = "''api_keys''" and c = "''created_at''", OF mem.sqlite_database_axioms])
  show "startswith (lit ''sqlite+aiosqlite:///x.db'') SQLITE_PREFIX" by code_simp
qed (simp_all add: ex_old_db_def mem_view_def mem_filled_def now_columns_def)

section \<open>Archives\<close>



end
