(* ===== verification/Admin_Rules.thy ===== *)
theory Admin_Rules
  imports Engine
begin

text \<open>
  The rules as the administration sees and changes them (\<open>admin/router.py\<close>: \<open>_load_rules_config\<close>,
  \<open>_load_rules\<close>, \<open>_rule_to_item\<close>, \<open>_set_rule_enabled\<close>, \<open>_write_rules_config\<close>). The rules file is the
  value \<open>rules_file\<close> of theory Engine, which the scanners read as well; what is written is what
  the next reading finds. Parameter: \<open>str\<close> of a value.
\<close>

section \<open>Reading\<close>

record rule_item =
  ru_id :: str
  ru_name :: str
  ru_type :: str
  ru_level :: str
  ru_enabled :: bool
  ru_description :: str

definition str_or :: "(json \<Rightarrow> str) \<Rightarrow> (str \<times> json) list \<Rightarrow> str \<Rightarrow> str" where
  "str_or to_s d k = to_s (get_or d k (JStr []))"

fun rule_to_item :: "(json \<Rightarrow> str) \<Rightarrow> str \<Rightarrow> rule \<Rightarrow> rule_item res" where
  "rule_to_item to_s rule_type (JDict d) =
     Inr \<lparr>ru_id = str_or to_s d (lit ''id''), ru_name = str_or to_s d (lit ''name''), ru_type = rule_type,
          ru_level = str_or to_s d (lit ''level''), ru_enabled = truthy (get_or d (lit ''enabled'') (JBool False)),
          ru_description = str_or to_s d (lit ''description'')\<rparr>"
| "rule_to_item to_s rule_type _ = Inl Attribute_Error"

definition load_rules_config :: "rules_file \<Rightarrow> json res" where
  "load_rules_config file =
     (case file of
        Missing \<Rightarrow> Inr (JDict [])
      | Unreadable e \<Rightarrow> Inl e
      | Parsed data \<Rightarrow> Inr (if truthy data then data else JDict []))"

definition load_rules :: "(json \<Rightarrow> str) \<Rightarrow> rules_file \<Rightarrow> rule_item list res" where
  "load_rules to_s file =
     rbind (load_rules_config file) (\<lambda>data.
     rbind (rules_of (lit ''keyword_rules'') data) (\<lambda>ks.
     rbind (rmap (rule_to_item to_s (lit ''keyword'')) ks) (\<lambda>kitems.
     rbind (rules_of (lit ''regex_rules'') data) (\<lambda>rs.
     rbind (rmap (rule_to_item to_s (lit ''regex'')) rs) (\<lambda>ritems.
     Inr (kitems @ ritems))))))"

section \<open>Switching a rule\<close>

text \<open>The first rule with the id, changed in place; \<open>None\<close> when there is none. Only a list can hold
  dictionaries; the elements of any other iterable are strings, which have no \<open>get\<close>.\<close>

fun enable_first ::
    "(json \<Rightarrow> str) \<Rightarrow> str \<Rightarrow> bool \<Rightarrow> json list \<Rightarrow> (json list \<times> rule) option res" where
  "enable_first to_s rid enabled [] = Inr None"
| "enable_first to_s rid enabled (JDict d # rs) =
     (if str_or to_s d (lit ''id'') \<noteq> rid
        then rbind (enable_first to_s rid enabled rs) (\<lambda>found.
               Inr (map_option (\<lambda>(rs', r). (JDict d # rs', r)) found))
      else (let d' = dict_set d (lit ''enabled'') (JBool enabled) in Inr (Some (JDict d' # rs, JDict d'))))"
| "enable_first to_s rid enabled (_ # rs) = Inl Attribute_Error"

definition enable_in_section ::
    "(json \<Rightarrow> str) \<Rightarrow> str \<Rightarrow> bool \<Rightarrow> str \<Rightarrow> json \<Rightarrow> (json \<times> rule) option res" where
  "enable_in_section to_s rid enabled sect data =
     rbind (rules_of sect data) (\<lambda>rs.
     rbind (enable_first to_s rid enabled rs) (\<lambda>found.
     case (found, data) of
       (Some (rs', r), JDict d) \<Rightarrow> Inr (Some (JDict (dict_set d sect (JList rs')), r))
     | _ \<Rightarrow> Inr None))"

definition set_rule_enabled ::
    "(json \<Rightarrow> str) \<Rightarrow> str \<Rightarrow> bool \<Rightarrow> rules_file \<Rightarrow> rules_file \<times> rule_item res" where
  "set_rule_enabled to_s rid enabled file =
     (case rbind (load_rules_config file) (\<lambda>data.
            rbind (enable_in_section to_s rid enabled (lit ''keyword_rules'') data) (\<lambda>k.
            case k of
              Some (data', r) \<Rightarrow> Inr (data', r, lit ''keyword'')
            | None \<Rightarrow>
                rbind (enable_in_section to_s rid enabled (lit ''regex_rules'') data) (\<lambda>x.
                case x of
                  Some (data', r) \<Rightarrow> Inr (data', r, lit ''regex'')
                | None \<Rightarrow> Inl (Http_Error 404 (lit ''Rule not found''))))) of
        Inl e \<Rightarrow> (file, Inl e)
      | Inr (data', r, rule_type) \<Rightarrow> (Parsed data', rule_to_item to_s rule_type r))"

text \<open>\<open>_reload_scanners\<close> and \<open>_toggle_rule\<close> up to the record of the operation: \<open>None\<close> for an
  application without scanners. The file is written before the reload, so a reload that raises
  leaves it changed.\<close>

definition reload_scanners ::
    "(str \<Rightarrow> bool \<Rightarrow> re option) \<Rightarrow> rules_file \<Rightarrow> engine option \<Rightarrow> engine option \<times> bool res" where
  "reload_scanners compile file scanner =
     (case scanner of
        None \<Rightarrow> (None, Inr False)
      | Some e \<Rightarrow> (case reload_all compile file file e of
                    (e', Inl x) \<Rightarrow> (Some e', Inl x)
                  | (e', Inr u) \<Rightarrow> (Some e', Inr True)))"

definition switch_rule ::
    "(json \<Rightarrow> str) \<Rightarrow> (str \<Rightarrow> bool \<Rightarrow> re option) \<Rightarrow> str \<Rightarrow> bool \<Rightarrow> rules_file \<Rightarrow> engine option
     \<Rightarrow> rules_file \<times> engine option \<times> (rule_item \<times> bool) res" where
  "switch_rule to_s compile rid enabled file scanner =
     (case set_rule_enabled to_s rid enabled file of
        (file', Inl e) \<Rightarrow> (file', scanner, Inl e)
      | (file', Inr item) \<Rightarrow>
          (case reload_scanners compile file' scanner of
             (scanner', Inl e) \<Rightarrow> (file', scanner', Inl e)
           | (scanner', Inr reloaded) \<Rightarrow> (file', scanner', Inr (item, reloaded))))"

section \<open>Facts\<close>

definition rule_id_of :: "(json \<Rightarrow> str) \<Rightarrow> rule \<Rightarrow> str" where
  "rule_id_of to_s r = (case r of JDict d \<Rightarrow> str_or to_s d (lit ''id'') | _ \<Rightarrow> [])"

text \<open>What switching does to the list: exactly one rule changes, and only in \<open>enabled\<close>.\<close>

lemma enable_first_shape:
  assumes "enable_first to_s rid b rs = Inr (Some (rs', r))"
  shows "\<exists>pre d post. rs = pre @ JDict d # post \<and> rs' = pre @ r # post \<and>
    r = JDict (dict_set d (lit ''enabled'') (JBool b)) \<and> str_or to_s d (lit ''id'') = rid \<and>
    (\<forall>x\<in>set pre. is_dict x \<and> rule_id_of to_s x \<noteq> rid)"
  using assms
proof (induction to_s rid b rs arbitrary: rs' r rule: enable_first.induct)
  case (2 to_s rid b d rs)
  show ?case
  proof (cases "str_or to_s d (lit ''id'') = rid")
    case True
    with "2.prems" show ?thesis by (intro exI [of _ "[]"] exI [of _ d] exI [of _ rs]) (auto simp: Let_def)
  next
    case False
    with "2.prems" obtain rs1 where found: "enable_first to_s rid b rs = Inr (Some (rs1, r))" "rs' = JDict d # rs1"
      by (auto simp: rbind_eq_Inr)
    from "2.IH" [OF False found(1)] obtain pre d' post where
      "rs = pre @ JDict d' # post" "rs1 = pre @ r # post" "r = JDict (dict_set d' (lit ''enabled'') (JBool b))"
      "str_or to_s d' (lit ''id'') = rid" "\<forall>x\<in>set pre. is_dict x \<and> rule_id_of to_s x \<noteq> rid"
      by blast
    with False found(2) show ?thesis
      by (intro exI [of _ "JDict d # pre"]) (auto simp: rule_id_of_def)
  qed
qed auto

lemma enabled_rules_set:
  "enabled_rules rs = Inr es \<Longrightarrow> set es \<subseteq> set rs \<and>
   (\<forall>d. JDict d \<in> set es \<longrightarrow> truthy (get_or d (lit ''enabled'') (JBool True)))"
proof (induction rs arbitrary: es)
  case (Cons r rs)
  then obtain e es1 where e: "rule_get r (lit ''enabled'') (JBool True) = Inr e" "enabled_rules rs = Inr es1"
    "es = (if truthy e then r # es1 else es1)" by (auto simp: rbind_eq_Inr)
  have "truthy (get_or d (lit ''enabled'') (JBool True))" if "r = JDict d" "truthy e" for d
    using e(1) that by simp
  with Cons.IH [OF e(2)] e(3) show ?case by auto
qed simp

text \<open>A rule that was switched off is not among the enabled ones, if no other has its id.\<close>

lemma switched_off_not_enabled:
  assumes "enable_first to_s rid False rs = Inr (Some (rs', r))"
    and "distinct (map (rule_id_of to_s) rs)" "enabled_rules rs' = Inr es" "x \<in> set es" "is_dict x"
  shows "rule_id_of to_s x \<noteq> rid"
proof
  assume x: "rule_id_of to_s x = rid"
  obtain pre d post where sh: "rs = pre @ JDict d # post" "rs' = pre @ r # post"
    "r = JDict (dict_set d (lit ''enabled'') (JBool False))" "str_or to_s d (lit ''id'') = rid"
    using enable_first_shape [OF assms(1)] by blast
  have "rule_id_of to_s (JDict d) = rid" using sh(4) by (simp add: rule_id_of_def)
  with assms(2) have others: "rule_id_of to_s y \<noteq> rid" if "y \<in> set pre \<union> set post" for y
    unfolding sh(1) using that by (metis Un_iff disjoint_iff distinct.simps(2) distinct_append image_eqI
        list.set_intros(1) list.set_map list.simps(9) map_append)
  note en = enabled_rules_set [OF assms(3)]
  from en assms(4) have "x \<in> set rs'" by auto
  with sh(2) have "x = r \<or> x \<in> set pre \<union> set post" by auto
  with others x have "x = r" by metis
  with sh(3) assms(4) have "JDict (dict_set d (lit ''enabled'') (JBool False)) \<in> set es" by simp
  with en have "truthy (get_or (dict_set d (lit ''enabled'') (JBool False)) (lit ''enabled'') (JBool True))"
    by (simp del: dict_get_set)
  then show False by (simp add: get_or_def)
qed

lemma rules_of_dict:
  "rules_of s (JDict d) =
    (let v = get_or d s (JList []) in iter_json (if truthy v then v else JList []))"
  by (cases d) (simp_all add: rules_of_def)

text \<open>The file that is written, section by section.\<close>

lemma enable_in_section_keyword:
  assumes "enable_in_section to_s rid b sect data = Inr (Some (data', r))"
  shows "\<exists>rs rs'. rules_of sect data = Inr rs \<and> enable_first to_s rid b rs = Inr (Some (rs', r)) \<and>
    rules_of sect data' = Inr rs' \<and> (\<forall>s. s \<noteq> sect \<longrightarrow> rules_of s data' = rules_of s data)"
proof -
  from assms obtain rs rs' d where *: "rules_of sect data = Inr rs" "enable_first to_s rid b rs = Inr (Some (rs', r))"
    "data = JDict d" "data' = JDict (dict_set d sect (JList rs'))"
    by (cases data) (auto simp: enable_in_section_def rbind_eq_Inr split: option.splits)
  from enable_first_shape [OF *(2)] have "rs' \<noteq> []" by auto
  with *(4) have "rules_of sect data' = Inr rs'" by (simp add: rules_of_dict get_or_def)
  moreover have "rules_of s data' = rules_of s data" if "s \<noteq> sect" for s
    using that *(3,4) by (simp add: rules_of_dict get_or_def)
  ultimately show ?thesis using *(1,2) by blast
qed

end
