(* ===== verification/Admin_Router.thy ===== *)
theory Admin_Router
  imports Admin_Rules Runtime_State Api_Keys Governance Image_Assets Auth
begin

text \<open>
  The administration's interface (\<open>admin/router.py\<close>, \<open>admin/schemas.py\<close>) and its log of operations
  (\<open>storage/admin_ops.py\<close>): each handler over the state of the services it calls, the exceptions it
  turns into HTTP errors, what it answers and what it logs. A handler maps the state to the state and
  a result; \<open>None\<close>-able columns of the database that the services never leave empty are plain strings.
  Access control is theory Auth's: it runs before any handler.
\<close>

section \<open>The log of operations\<close>

record admin_operation =
  ao_id :: int
  ao_request_id :: str
  ao_admin_user :: str
  ao_operation :: str
  ao_resource_type :: str
  ao_resource_id :: str
  ao_created_at :: int

record operation_query =
  oq_limit :: int
  oq_offset :: int
  oq_operation :: "str option"
  oq_resource_type :: "str option"

record operation_page =
  op_items :: "admin_operation list"
  op_total :: nat
  op_limit :: int
  op_offset :: int

interpretation ops: keyed_table ao_id "tbl_get ao_id" tbl_add "tbl_update ao_id" tbl_delete
  by (rule keyed_table_list)

definition write_operation :: "bool \<Rightarrow> admin_operation \<Rightarrow> admin_operation list \<Rightarrow> admin_operation list res" where
  "write_operation commit row t =
     (if commit then Inr (tbl_insert_all ao_id (\<lambda>n r. r\<lparr>ao_id := n\<rparr>) [row] t)
      else Inl (Other_Error (lit ''OperationalError'')))"

definition list_operations :: "operation_query \<Rightarrow> admin_operation list \<Rightarrow> operation_page" where
  "list_operations q t =
     (let lim = safe_limit 100 (oq_limit q);
          off = max (oq_offset q) 0;
          rows = filter (\<lambda>r. str_filter (oq_operation q) ao_operation r \<and>
                             str_filter (oq_resource_type q) ao_resource_type r) t
      in \<lparr>op_items = page lim off (latest_first ao_created_at ao_id rows), op_total = length rows,
          op_limit = lim, op_offset = off\<rparr>)"

section \<open>State and environment\<close>

record admin_state =
  as_keys :: key_table
  as_provider_calls :: "provider_call list"
  as_training :: training_table
  as_audit :: "audit_log list"
  as_images :: "image_asset list"
  as_operations :: "admin_operation list"
  as_settings :: settings_table
  as_capture :: bool
  as_jobs :: "gov_job list"
  as_rules :: rules_file
  as_scanner :: "engine option"

text \<open>What a request brings and the services use: its id and user, the clock, whether the log and the
  settings can be written, the key service's parameters, the database's \<open>LIKE\<close> and \<open>ILIKE\<close>, the
  retention settings, \<open>json.loads\<close>, \<open>str\<close> of a value, the regex compiler.\<close>

record admin_env =
  ae_request_id :: str
  ae_admin_user :: str
  ae_now :: int
  ae_log_commits :: bool
  ae_settings_commit :: bool
  ae_crypto :: crypto
  ae_draws :: draws
  ae_provider :: "key_provider option"
  ae_between :: "key_table \<Rightarrow> key_table"
  ae_ilike :: "str \<Rightarrow> str \<Rightarrow> bool"
  ae_like :: "str \<Rightarrow> str \<Rightarrow> bool"
  ae_audit_retention :: int
  ae_coverage :: coverage_env
  ae_loads :: "str \<Rightarrow> json option"
  ae_str :: "json \<Rightarrow> str"
  ae_compile :: "str \<Rightarrow> bool \<Rightarrow> re option"

type_synonym 'a handler = "admin_state \<Rightarrow> admin_state \<times> 'a res"

text \<open>\<open>_write_admin_operation\<close>: a failure is suppressed.\<close>

definition write_admin_operation :: "admin_env \<Rightarrow> str \<Rightarrow> str \<Rightarrow> str \<Rightarrow> admin_state \<Rightarrow> admin_state" where
  "write_admin_operation env operation resource_type resource_id s =
     (case write_operation (ae_log_commits env)
             \<lparr>ao_id = 0, ao_request_id = ae_request_id env, ao_admin_user = ae_admin_user env,
              ao_operation = operation, ao_resource_type = resource_type, ao_resource_id = resource_id,
              ao_created_at = ae_now env\<rparr> (as_operations s) of
        Inr t \<Rightarrow> s\<lparr>as_operations := t\<rparr>
      | Inl e \<Rightarrow> s)"

text \<open>The end of a handler: log the operation when there is a result, and answer.\<close>

definition logged :: "admin_env \<Rightarrow> str \<Rightarrow> str \<Rightarrow> str \<Rightarrow> admin_state \<Rightarrow> 'a res \<Rightarrow> admin_state \<times> 'a res" where
  "logged env operation resource_type resource_id s r =
     (case r of
        Inl e \<Rightarrow> (s, Inl e)
      | Inr a \<Rightarrow> (write_admin_operation env operation resource_type resource_id s, Inr a))"

text \<open>\<open>if record is None: raise HTTPException(404, ...)\<close>.\<close>

definition found :: "string \<Rightarrow> 'a option \<Rightarrow> 'a res" where
  "found detail r = (case r of None \<Rightarrow> Inl (Http_Error 404 (lit detail)) | Some a \<Rightarrow> Inr a)"

text \<open>\<open>except ValueError\<close>, \<open>except KeyProviderError\<close>.\<close>

fun value_error_400 :: "exn \<Rightarrow> exn" where
  "value_error_400 (Value_Error m) = Http_Error 400 m"
| "value_error_400 e = e"

fun provider_error_502 :: "exn \<Rightarrow> exn" where
  "provider_error_502 (Key_Provider_Error m) = Http_Error 502 m"
| "provider_error_502 e = e"

definition map_exn :: "(exn \<Rightarrow> exn) \<Rightarrow> 'a res \<Rightarrow> 'a res" where
  "map_exn f r = (case r of Inl e \<Rightarrow> Inl (f e) | Inr a \<Rightarrow> Inr a)"

section \<open>What is shown\<close>

record key_item =
  it_id :: str
  it_name :: str
  it_owner_user_id :: str
  it_owner_department :: "str option"
  it_cost_center :: "str option"
  it_key_prefix :: str
  it_key_suffix :: str
  it_upstream_key_prefix :: "str option"
  it_provider_name :: str
  it_status :: str
  it_is_decoupled :: bool
  it_created_at :: int
  it_expires_at :: "int option"
  it_revoked_at :: "int option"

definition api_key_to_item :: "api_key \<Rightarrow> key_item" where
  "api_key_to_item r =
     \<lparr>it_id = ak_id r, it_name = ak_name r, it_owner_user_id = ak_owner_user_id r,
      it_owner_department = ak_owner_department r, it_cost_center = ak_cost_center r,
      it_key_prefix = ak_key_prefix r, it_key_suffix = ak_key_suffix r,
      it_upstream_key_prefix = ak_upstream_key_prefix r, it_provider_name = ak_provider_name r,
      it_status = ak_status r, it_is_decoupled = ak_is_decoupled r, it_created_at = ak_created_at r,
      it_expires_at = ak_expires_at r, it_revoked_at = ak_revoked_at r\<rparr>"

record archive_summary =
  sm_id :: int
  sm_request_id :: str
  sm_user_id :: str
  sm_api_key_id :: str
  sm_model :: json
  sm_capability :: str
  sm_action_taken :: str
  sm_is_stream :: bool
  sm_is_blocked :: bool
  sm_is_desensitized :: bool
  sm_blocked_rule_id :: str
  sm_matched_rule_ids :: "str list"
  sm_created_at :: int
  sm_completed_at :: int
  sm_latency_ms :: int

record archive_detail = archive_summary +
  dt_messages_original :: json
  dt_messages_desensitized :: json
  dt_response :: json
  dt_image_metadata :: json
  dt_prompt_tokens :: nat
  dt_completion_tokens :: nat

definition conversation_to_summary :: "conversation \<Rightarrow> archive_summary" where
  "conversation_to_summary c =
     \<lparr>sm_id = tc_id c, sm_request_id = tc_request_id c, sm_user_id = tc_user_id c,
      sm_api_key_id = tc_api_key_id c, sm_model = tc_model c, sm_capability = tc_capability c,
      sm_action_taken = lit ''passed'', sm_is_stream = False, sm_is_blocked = False,
      sm_is_desensitized = tc_is_desensitized c, sm_blocked_rule_id = [], sm_matched_rule_ids = [],
      sm_created_at = tc_created_at c, sm_completed_at = tc_created_at c, sm_latency_ms = 0\<rparr>"

text \<open>\<open>_parse_json\<close>.\<close>

definition parse_json :: "(str \<Rightarrow> json option) \<Rightarrow> str \<Rightarrow> json \<Rightarrow> json" where
  "parse_json loads v fallback =
     (if v = [] then fallback else (case loads v of Some j \<Rightarrow> j | None \<Rightarrow> fallback))"

definition conversation_to_detail :: "(str \<Rightarrow> json option) \<Rightarrow> conversation \<Rightarrow> archive_detail" where
  "conversation_to_detail loads c =
     archive_summary.extend (conversation_to_summary c)
       (archive_detail.fields (parse_json loads (tc_messages c) (JList []))
          (parse_json loads (tc_messages c) (JList []))
          (JDict [(lit ''message_content'', JStr (tc_assistant_response c))]) (JDict []) 0 0)"

record audit_summary =
  us_id :: int
  us_request_id :: str
  us_user_id :: str
  us_rule_id :: json
  us_rule_name :: json
  us_rule_level :: json
  us_scanner_type :: str
  us_action_taken :: str
  us_created_at :: int

record audit_detail = audit_summary +
  ud_matched_snippet :: str
  ud_context_snippet :: str
  ud_desensitized_snippet :: str
  ud_full_text_hash :: str

definition audit_to_summary :: "audit_log \<Rightarrow> audit_summary" where
  "audit_to_summary a =
     \<lparr>us_id = al_id a, us_request_id = al_request_id a, us_user_id = al_user_id a,
      us_rule_id = al_rule_id a, us_rule_name = al_rule_name a, us_rule_level = al_rule_level a,
      us_scanner_type = al_scanner_type a, us_action_taken = al_action_taken a, us_created_at = al_created_at a\<rparr>"

definition audit_to_detail :: "audit_log \<Rightarrow> audit_detail" where
  "audit_to_detail a =
     audit_summary.extend (audit_to_summary a)
       (audit_detail.fields (al_matched_snippet a) (al_context_snippet a) (al_desensitized_snippet a)
          (al_full_text_hash a))"

record 'i listing =
  ls_items :: "'i list"
  ls_total :: nat
  ls_limit :: int
  ls_offset :: int

section \<open>Conversations, audits, images\<close>

definition recent_observations :: "admin_env \<Rightarrow> int \<Rightarrow> archive_detail list handler" where
  "recent_observations env limit s =
     (s, Inr (map (conversation_to_detail (ae_loads env)) (training_recent limit (as_training s))))"

definition list_archives :: "admin_env \<Rightarrow> training_query \<Rightarrow> archive_summary listing handler" where
  "list_archives env q s =
     (let p = training_list (ae_like env) q (as_training s)
      in (s, Inr \<lparr>ls_items = map conversation_to_summary (tp_items p), ls_total = tp_total p,
                  ls_limit = tp_limit p, ls_offset = tp_offset p\<rparr>))"

definition archive_stats :: "admin_env \<Rightarrow> training_query \<Rightarrow> training_stats handler" where
  "archive_stats env q s = (s, Inr (training_stats_of (ae_like env) q (as_training s)))"

definition get_archive :: "admin_env \<Rightarrow> str \<Rightarrow> int \<Rightarrow> archive_detail handler" where
  "get_archive env shown_id archive_id s =
     logged env (lit ''training_conversation.view_detail'') (lit ''training_conversation'') shown_id s
       (rbind (found ''Training conversation not found'' (training_get archive_id (as_training s)))
          (\<lambda>c. Inr (conversation_to_detail (ae_loads env) c)))"

definition list_audits :: "admin_env \<Rightarrow> audit_query \<Rightarrow> audit_summary listing handler" where
  "list_audits env q s =
     (let p = audit_list q (as_audit s)
      in (s, Inr \<lparr>ls_items = map audit_to_summary (au_items p), ls_total = au_total p,
                  ls_limit = au_limit p, ls_offset = au_offset p\<rparr>))"

definition get_audit :: "admin_env \<Rightarrow> str \<Rightarrow> int \<Rightarrow> audit_detail handler" where
  "get_audit env shown_id audit_id s =
     logged env (lit ''audit.view_detail'') (lit ''audit'') shown_id s
       (rbind (found ''Audit not found'' (audit_get audit_id (as_audit s))) (\<lambda>a. Inr (audit_to_detail a)))"

definition list_image_assets :: "admin_env \<Rightarrow> str option \<Rightarrow> int \<Rightarrow> int \<Rightarrow> image_asset list handler" where
  "list_image_assets env request_id limit offset s =
     logged env (lit ''image_asset.list'') (lit ''image_asset'')
       (case request_id of Some r \<Rightarrow> if r \<noteq> [] then r else lit ''all'' | None \<Rightarrow> lit ''all'') s
       (Inr (image_list request_id limit offset (as_images s)))"

definition list_admin_operations :: "operation_query \<Rightarrow> operation_page handler" where
  "list_admin_operations q s = (s, Inr (list_operations q (as_operations s)))"

section \<open>Data governance\<close>

definition data_governance_summary :: "admin_env \<Rightarrow> gov_summary handler" where
  "data_governance_summary env s =
     (s, Inr (governance_summary (ae_audit_retention env) (ae_now env) (as_training s) (as_audit s) (as_jobs s)))"

text \<open>\<open>shown\<close> is the text \<open>job=...;status=...\<close> of the log. A run that is refused answers with the
  running job.\<close>

definition run_data_governance_coverage ::
    "admin_env \<Rightarrow> str \<Rightarrow> coverage_config \<Rightarrow> (gov_job + coverage_state \<times> str) handler" where
  "run_data_governance_coverage env shown cfg s =
     (case run_coverage_analysis (ae_coverage env) cfg (ae_admin_user env) (as_training s) (as_jobs s) of
        (t, jobs, r) \<Rightarrow>
          logged env (lit ''data_governance.coverage_run'') (lit ''data_governance'') shown
            (s\<lparr>as_training := t, as_jobs := jobs\<rparr>) (Inr r))"

definition data_governance_coverage_status :: "gov_job option handler" where
  "data_governance_coverage_status s = (s, Inr (coverage_status (as_jobs s)))"

record cleanup_request =
  cq_include_training_covered :: bool
  cq_include_training_expired :: bool
  cq_include_audit_expired :: bool
  cq_limit :: int

definition preview_data_governance_cleanup :: "admin_env \<Rightarrow> cleanup_request \<Rightarrow> ((nat \<times> nat) \<times> nat) handler" where
  "preview_data_governance_cleanup env q s =
     logged env (lit ''data_governance.preview_cleanup'') (lit ''data_governance'') (lit ''preview'') s
       (Inr (governance_preview_cleanup (ae_audit_retention env) (ae_now env) (cq_include_training_covered q)
          (cq_include_training_expired q) (cq_include_audit_expired q) (cq_limit q) (as_training s) (as_audit s)))"

definition run_data_governance_cleanup ::
    "admin_env \<Rightarrow> str \<Rightarrow> cleanup_request \<Rightarrow> ((nat \<times> nat) \<times> nat) handler" where
  "run_data_governance_cleanup env shown q s =
     (case governance_cleanup (ae_audit_retention env) (ae_now env) (cq_include_training_covered q)
             (cq_include_training_expired q) (cq_include_audit_expired q) (cq_limit q)
             (as_training s) (as_audit s) of
        ((t, a), counts) \<Rightarrow>
          logged env (lit ''data_governance.cleanup'') (lit ''data_governance'') shown
            (s\<lparr>as_training := t, as_audit := a\<rparr>) (Inr counts))"

section \<open>Rules and settings\<close>

definition list_rules :: "admin_env \<Rightarrow> rule_item list handler" where
  "list_rules env s = (s, load_rules (ae_str env) (as_rules s))"

definition toggle_rule :: "admin_env \<Rightarrow> str \<Rightarrow> bool \<Rightarrow> (rule_item \<times> bool) handler" where
  "toggle_rule env rid enabled s =
     (case switch_rule (ae_str env) (ae_compile env) rid enabled (as_rules s) (as_scanner s) of
        (file, scanner, r) \<Rightarrow>
          logged env (lit ''rule.toggle'') (lit ''rule'') rid
            (s\<lparr>as_rules := file, as_scanner := scanner\<rparr>) r)"

definition reload_rules :: "admin_env \<Rightarrow> bool handler" where
  "reload_rules env s =
     (case reload_scanners (ae_compile env) (as_rules s) (as_scanner s) of
        (scanner, r) \<Rightarrow>
          logged env (lit ''rule.reload'') (lit ''rule'') (lit ''all'') (s\<lparr>as_scanner := scanner\<rparr>) r)"

definition get_admin_settings :: "bool \<Rightarrow> bool handler" where
  "get_admin_settings readable s =
     (let flag = refresh_settings (if readable then Some (as_settings s) else None) (as_capture s)
      in (s\<lparr>as_capture := flag\<rparr>, Inr flag))"

definition update_training_capture :: "admin_env \<Rightarrow> bool \<Rightarrow> bool handler" where
  "update_training_capture env enabled s =
     (case set_training_capture_enabled (ae_settings_commit env) enabled (ae_admin_user env) (ae_now env)
             (as_settings s) (as_capture s) of
        (t, flag, r) \<Rightarrow>
          logged env (lit ''settings.update_training_capture'') (lit ''runtime_settings'')
            (if enabled then lit ''true'' else lit ''false'') (s\<lparr>as_settings := t, as_capture := flag\<rparr>) r)"

section \<open>Statistics\<close>

record trend_point =
  td_day_start :: int
  td_requests :: nat
  td_hits :: nat
  td_blocked :: nat

record admin_stats =
  ad_today_requests :: nat
  ad_today_hits :: nat
  ad_today_blocks :: nat
  ad_total_requests :: nat
  ad_total_hits :: nat
  ad_total_blocks :: nat
  ad_recent_trend :: "trend_point list"

definition any_training_query :: training_query where
  "any_training_query =
     \<lparr>tq_limit = 20, tq_offset = 0, tq_user_id = None, tq_model = None, tq_action_taken = None,
      tq_is_blocked = None, tq_keyword = None, tq_start_time = None, tq_end_time = None\<rparr>"

definition requests_between :: "admin_env \<Rightarrow> int \<Rightarrow> int \<Rightarrow> training_table \<Rightarrow> nat" where
  "requests_between env start stop t =
     ts_total (training_stats_of (ae_like env)
       (any_training_query\<lparr>tq_start_time := Some start, tq_end_time := Some stop\<rparr>) t)"

text \<open>\<open>_load_admin_stats\<close>. Midnight UTC of a time counted from the epoch; \<open>earliest\<close> is
  \<open>datetime.min\<close>. Days are given by their start.\<close>

definition load_admin_stats :: "admin_env \<Rightarrow> int \<Rightarrow> admin_state \<Rightarrow> admin_stats" where
  "load_admin_stats env earliest s =
     (let today_start = ae_now env - ae_now env mod day;
          tomorrow_start = today_start + day;
          blocks = Some (lit ''block'');
          audits = as_audit s;
          point = (\<lambda>days_ago. let day_start = today_start - days_ago * day; day_end = day_start + day in
             \<lparr>td_day_start = day_start, td_requests = requests_between env day_start day_end (as_training s),
              td_hits = count_between day_start day_end None audits,
              td_blocked = count_between day_start day_end blocks audits\<rparr>)
      in \<lparr>ad_today_requests = requests_between env today_start tomorrow_start (as_training s),
          ad_today_hits = count_between today_start tomorrow_start None audits,
          ad_today_blocks = count_between today_start tomorrow_start blocks audits,
          ad_total_requests = ts_total (training_stats_of (ae_like env) any_training_query (as_training s)),
          ad_total_hits = count_between earliest (ae_now env + day) None audits,
          ad_total_blocks = count_between earliest (ae_now env + day) blocks audits,
          ad_recent_trend = map point [6, 5, 4, 3, 2, 1, 0]\<rparr>)"

section \<open>Logging in\<close>

text \<open>The answer carries the cookie that was set: its name, value and age.\<close>

definition admin_login ::
    "auth_libs \<Rightarrow> auth_settings \<Rightarrow> int \<Rightarrow> str \<Rightarrow> str \<Rightarrow> (str \<times> str \<times> int) handler" where
  "admin_login li st now username password s =
     (s, rbind (validate_admin_login username password st) (\<lambda>ok.
         if \<not> ok then Inl (Http_Error 401 (lit ''Invalid admin credentials''))
         else Inr (lit ''safetyhub_admin_session'', create_admin_session_cookie li now username st,
                   ADMIN_SESSION_MAX_AGE)))"

section \<open>API keys\<close>

definition list_api_keys ::
    "admin_env \<Rightarrow> int \<Rightarrow> int \<Rightarrow> str option \<Rightarrow> str option \<Rightarrow> key_item listing handler" where
  "list_api_keys env limit offset status search s =
     (let p = list_keys (ae_ilike env) (as_keys s) limit offset status search
      in (s, Inr \<lparr>ls_items = map api_key_to_item (pg_items p), ls_total = pg_total p,
                  ls_limit = pg_limit p, ls_offset = pg_offset p\<rparr>))"

definition create_api_key :: "admin_env \<Rightarrow> api_key_create \<Rightarrow> (key_item \<times> str option) handler" where
  "create_api_key env payload s =
     (case create_key (ae_crypto env) (ae_draws env) (ae_provider env) (as_keys s) payload of
        (t, calls, r) \<Rightarrow>
          (let s1 = s\<lparr>as_keys := t, as_provider_calls := as_provider_calls s @ calls\<rparr> in
           (case r of
              Inl e \<Rightarrow> (s1, Inl (value_error_400 (provider_error_502 e)))
            | Inr (record, k) \<Rightarrow>
                logged env (lit ''api_key.create'') (lit ''api_key'') (ak_id record) s1
                  (Inr (api_key_to_item record, k)))))"

definition get_api_key :: "admin_env \<Rightarrow> str \<Rightarrow> key_item handler" where
  "get_api_key env api_key_id s =
     logged env (lit ''api_key.view_detail'') (lit ''api_key'') api_key_id s
       (rbind (found ''APIKey not found'' (get_key (as_keys s) api_key_id)) (\<lambda>r. Inr (api_key_to_item r)))"

definition update_api_key :: "admin_env \<Rightarrow> str \<Rightarrow> field list \<Rightarrow> key_item handler" where
  "update_api_key env api_key_id flds s =
     (if flds = [] then (s, Inl (Http_Error 400 (lit ''No editable fields provided'')))
      else (case update_key (as_keys s) api_key_id flds of
              (t, r) \<Rightarrow>
                logged env (lit ''api_key.update'') (lit ''api_key'') api_key_id (s\<lparr>as_keys := t\<rparr>)
                  (rbind (found ''APIKey not found'' r) (\<lambda>r. Inr (api_key_to_item r)))))"

text \<open>The key in clear, with its prefix and suffix; the answer is marked \<open>no-store\<close>.\<close>

definition reveal_api_key :: "admin_env \<Rightarrow> str \<Rightarrow> (str \<times> str \<times> str) handler" where
  "reveal_api_key env api_key_id s =
     logged env (lit ''api_key.reveal'') (lit ''api_key'') api_key_id s
       (rbind (reveal_safetyhub_key (ae_crypto env) (as_keys s) api_key_id) (\<lambda>r.
        rbind (found ''APIKey not found'' r) (\<lambda>raw_key.
        if raw_key = [] then Inl (Http_Error 400 (lit ''APIKey secret is not available''))
        else Inr (raw_key, key_prefix raw_key, key_suffix raw_key))))"

definition revoke_api_key :: "admin_env \<Rightarrow> str \<Rightarrow> key_item handler" where
  "revoke_api_key env api_key_id s =
     (case revoke_key (ae_now env) (ae_provider env) (ae_between env) (as_keys s) api_key_id of
        (t, calls, r) \<Rightarrow>
          logged env (lit ''api_key.revoke'') (lit ''api_key'') api_key_id
            (s\<lparr>as_keys := t, as_provider_calls := as_provider_calls s @ calls\<rparr>)
            (rbind (map_exn provider_error_502 r) (\<lambda>r.
             rbind (found ''APIKey not found'' r) (\<lambda>r. Inr (api_key_to_item r)))))"

definition delete_api_key :: "admin_env \<Rightarrow> str \<Rightarrow> str handler" where
  "delete_api_key env api_key_id s =
     (case delete_revoked (as_keys s) api_key_id of
        (t, r) \<Rightarrow>
          logged env (lit ''api_key.delete'') (lit ''api_key'') api_key_id (s\<lparr>as_keys := t\<rparr>)
            (rbind (map_exn value_error_400 r) (\<lambda>r.
             rbind (found ''APIKey not found'' r) (\<lambda>_. Inr api_key_id))))"

definition replace_api_upstream_key :: "admin_env \<Rightarrow> str \<Rightarrow> str \<Rightarrow> key_item handler" where
  "replace_api_upstream_key env api_key_id new_key s =
     (case replace_upstream_key (ae_crypto env) (as_keys s) api_key_id new_key of
        (t, r) \<Rightarrow>
          logged env (lit ''api_key.replace_upstream_key'') (lit ''api_key'') api_key_id (s\<lparr>as_keys := t\<rparr>)
            (rbind (map_exn value_error_400 r) (\<lambda>r.
             rbind (found ''APIKey not found'' r) (\<lambda>r. Inr (api_key_to_item r)))))"

definition bulk_replace_upstream_keys ::
    "admin_env \<Rightarrow> (str \<times> str option) list list \<Rightarrow> (str \<times> bulk_outcome) list handler" where
  "bulk_replace_upstream_keys env items s =
     (case bulk_replace (ae_crypto env) (as_keys s) (parse_bulk_replace_csv items) of
        (t, outcomes) \<Rightarrow>
          logged env (lit ''api_key.bulk_replace_upstream_key'') (lit ''api_key'') (lit ''bulk'')
            (s\<lparr>as_keys := t\<rparr>) (Inr outcomes))"

end
