(* ===== verification/Calendar.thy ===== *)
theory Calendar
  imports Table
begin

text \<open>
  What the report code uses of Python's \<open>datetime\<close> and \<open>int\<close>: the proleptic Gregorian calendar by day
  ordinals (1 is Monday, 1 January of year 1), ISO weeks, decimal numbers as text. A \<open>datetime\<close> is
  its number of microseconds since 1970. The time zone \<open>Asia/Shanghai\<close> is UTC+8 with no summer time
  since September 1991, which is the time the model is about.
\<close>

section \<open>Decimal numbers\<close>

fun decimal :: "nat \<Rightarrow> str" where
  "decimal n = (if n < 10 then [48 + n] else decimal (n div 10) @ [48 + n mod 10])"

declare decimal.simps [simp del]

text \<open>\<open>f"{n:0wd}"\<close>.\<close>

definition padded :: "nat \<Rightarrow> nat \<Rightarrow> str" where
  "padded w n = replicate (w - length (decimal n)) 48 @ decimal n"

definition digit_of :: "nat \<Rightarrow> nat option" where
  "digit_of c = map_option (\<lambda>s. c - s) (find (\<lambda>s. s \<le> c \<and> c < s + 10) nd_starts)"

text \<open>The digits \<open>int\<close> reads, with single underscores between them; the flag says that a digit came
  last.\<close>

fun digits_value :: "bool \<Rightarrow> nat \<Rightarrow> str \<Rightarrow> nat option" where
  "digits_value d acc [] = (if d then Some acc else None)"
| "digits_value d acc (c # s) =
     (if c = 95 then (if d then digits_value False acc s else None)
      else (case digit_of c of None \<Rightarrow> None | Some v \<Rightarrow> digits_value True (10 * acc + v) s))"

definition int_of_text :: "str \<Rightarrow> int option" where
  "int_of_text text =
     (case strip text of
        [] \<Rightarrow> None
      | c # s \<Rightarrow>
          if c = 45 then map_option (\<lambda>n. - int n) (digits_value False 0 s)
          else if c = 43 then map_option int (digits_value False 0 s)
          else map_option int (digits_value False 0 (c # s)))"

text \<open>\<open>text.split(sep, 1)\<close> into two parts.\<close>

definition split_once :: "str \<Rightarrow> str \<Rightarrow> (str \<times> str) option" where
  "split_once sep text =
     map_option (\<lambda>i. (take i text, drop (i + length sep) text)) (find_str text sep)"

lemma digit_of_ascii: "d < 10 \<Longrightarrow> digit_of (48 + d) = Some d"
  by (simp add: digit_of_def nd_starts_def)

lemma digits_value_append:
  "(\<And>c. c \<in> set s \<Longrightarrow> 48 \<le> c \<and> c < 58) \<Longrightarrow> s \<noteq> [] \<Longrightarrow>
   digits_value d acc (s @ t) = digits_value True (foldl (\<lambda>a c. 10 * a + (c - 48)) acc s) t"
proof (induction s arbitrary: d acc)
  case (Cons c s)
  have c: "48 \<le> c \<and> c < 58" by (rule Cons.prems(1)) simp
  then have "digit_of c = Some (c - 48)" using digit_of_ascii [of "c - 48"] by (simp add: less_diff_conv2)
  with c have "digits_value d acc ((c # s) @ t) = digits_value True (10 * acc + (c - 48)) (s @ t)" by auto
  with Cons.IH [of True "10 * acc + (c - 48)"] Cons.prems(1) show ?case by (cases "s = []") auto
qed simp

lemma dec_digits: "c \<in> set (decimal n) \<Longrightarrow> 48 \<le> c \<and> c < 58"
proof (induction n rule: decimal.induct)
  case (1 n)
  then show ?case by (subst (asm) (2) decimal.simps) (auto split: if_splits)
qed

lemma dec_nonempty [simp]: "decimal n \<noteq> []"
  by (subst decimal.simps) simp

lemma dec_value: "foldl (\<lambda>a c. 10 * a + (c - 48)) 0 (decimal n) = n"
proof (induction n rule: decimal.induct)
  case (1 n)
  then show ?case by (subst decimal.simps) simp
qed

lemma padded_digits: "c \<in> set (padded w n) \<Longrightarrow> 48 \<le> c \<and> c < 58"
  by (auto simp: padded_def dest: dec_digits split: if_splits)

lemma padded_nonempty [simp]: "padded w n \<noteq> []"
  by (simp add: padded_def)

lemma padded_value: "foldl (\<lambda>a c. 10 * a + (c - 48)) 0 (padded w n) = n"
proof -
  have "foldl (\<lambda>a c. 10 * a + (c - 48)) 0 (replicate k 48) = (0::nat)" for k
    by (induction k) auto
  then show ?thesis by (simp add: padded_def dec_value)
qed

lemma dec_as_pad: "decimal n = padded 0 n"
  by (simp add: padded_def)

lemma length_padded: "length (decimal n) \<le> w \<Longrightarrow> length (padded w n) = w"
  by (simp add: padded_def)

lemma length_dec: "n < 10 ^ k \<Longrightarrow> 0 < k \<Longrightarrow> length (decimal n) \<le> k"
proof (induction k arbitrary: n)
  case (Suc k)
  show ?case
  proof (cases "n < 10")
    case False
    with Suc.prems have "k \<noteq> 0" by (cases k) auto
    moreover have "n div 10 < 10 ^ k" using Suc.prems(1) by (simp add: div_less_iff_less_mult mult.commute)
    ultimately have "length (decimal (n div 10)) \<le> k" by (intro Suc.IH) auto
    with False show ?thesis by (subst decimal.simps) simp
  qed (subst decimal.simps, simp)
qed simp

lemma int_of_padded [simp]: "int_of_text (padded w n) = Some (int n)"
proof -
  have nsp: "\<not> is_space c" if "c \<in> set (padded w n)" for c
    using padded_digits [OF that] by (auto simp: is_space_code)
  have "strip (padded w n) = padded w n"
    unfolding strip_def by (rule strip_by_fix) (simp add: nsp)
  moreover obtain c s where cs: "padded w n = c # s" by (cases "padded w n") auto
  then have "c \<noteq> 45" "c \<noteq> 43" using padded_digits [of c w n] by auto
  moreover have "digits_value False 0 (padded w n) = Some n"
    using digits_value_append [of "padded w n" False 0 "[]"] padded_digits [of _ w n]
    by (auto simp: padded_value)
  ultimately show ?thesis using cs by (simp add: int_of_text_def)
qed

lemma int_of_dec [simp]: "int_of_text (decimal n) = Some (int n)"
  by (simp add: dec_as_pad)

lemma find_str_skip: "c \<notin> set s \<Longrightarrow> find_str (s @ (c # r) @ t) (c # r) = Some (length s)"
proof (induction s)
  case Nil
  then show ?case using startswith_append [of "c # r" t] by simp
next
  case (Cons x s)
  then show ?case by (simp add: startswith_def)
qed

lemma split_once_append: "c \<notin> set s \<Longrightarrow> split_once (c # r) (s @ c # r @ t) = Some (s, t)"
  using find_str_skip [of c s r t] by (simp add: split_once_def)

section \<open>Dates\<close>

record date =
  dt_year :: int
  dt_month :: int
  dt_day :: int

definition is_leap :: "int \<Rightarrow> bool" where
  "is_leap y \<longleftrightarrow> y mod 4 = 0 \<and> (y mod 100 \<noteq> 0 \<or> y mod 400 = 0)"

definition days_before_year :: "int \<Rightarrow> int" where
  "days_before_year y = (y - 1) * 365 + (y - 1) div 4 - (y - 1) div 100 + (y - 1) div 400"

definition days_before_month :: "int \<Rightarrow> int \<Rightarrow> int" where
  "days_before_month y m =
     [0, 31, 59, 90, 120, 151, 181, 212, 243, 273, 304, 334, 365] ! nat (m - 1) + (if m > 2 \<and> is_leap y then 1 else 0)"

definition ordinal :: "int \<Rightarrow> int \<Rightarrow> int \<Rightarrow> int" where
  "ordinal y m d = days_before_year y + days_before_month y m + d"

definition year_of_ordinal :: "int \<Rightarrow> int" where
  "year_of_ordinal ord =
     (let n0 = ord - 1; n400 = n0 div 146097; r400 = n0 mod 146097; n100 = r400 div 36524; r100 = r400 mod 36524;
          n4 = r100 div 1461; r4 = r100 mod 1461; n1 = r4 div 365;
          year = n400 * 400 + n100 * 100 + n4 * 4 + n1 + 1
      in if n1 = 4 \<or> n100 = 4 then year - 1 else year)"

definition month_of_day :: "int \<Rightarrow> int \<Rightarrow> int" where
  "month_of_day y n = int (length (filter (\<lambda>m. days_before_month y m \<le> n) [1, 2, 3, 4, 5, 6, 7, 8, 9, 10, 11, 12]))"

definition date_of_ordinal :: "int \<Rightarrow> date" where
  "date_of_ordinal ord =
     (let y = year_of_ordinal ord; n = ord - 1 - days_before_year y; m = month_of_day y n
      in \<lparr>dt_year = y, dt_month = m, dt_day = n - days_before_month y m + 1\<rparr>)"

lemma div_pred: "0 < k \<Longrightarrow> (y - 1) div k = (if y mod k = 0 then y div k - 1 else y div k)" for k :: int
proof -
  assume k: "0 < k"
  have e: "y = k * (y div k) + y mod k" by simp
  have m: "0 \<le> y mod k" "y mod k < k" using k by simp_all
  show ?thesis
  proof (cases "y mod k = 0")
    case True
    then have "y - 1 = k * (y div k - 1) + (k - 1)" using e by (simp add: algebra_simps)
    then have "(y - 1) div k = y div k - 1" using k by (intro int_div_pos_eq [where r = "k - 1"]) auto
    with True show ?thesis by simp
  next
    case False
    then have "(y - 1) div k = y div k"
      using e m by (intro int_div_pos_eq [where r = "y mod k - 1"]) auto
    with False show ?thesis by simp
  qed
qed

lemma year_days: "days_before_year (y + 1) = days_before_year y + (if is_leap y then 366 else 365)"
proof -
  have d: "y div k = (y - 1) div k + (if y mod k = 0 then 1 else 0)" if "0 < k" for k :: int
    using div_pred [OF that, of y] by (cases "y mod k = 0") simp_all
  have c: "y mod 400 = 0 \<Longrightarrow> y mod 100 = 0" "y mod 100 = 0 \<Longrightarrow> y mod 4 = 0"
    using mod_mod_cancel [of 100 400 y] mod_mod_cancel [of 4 100 y] by simp_all
  define a b e where abe: "a = (y - 1) div 4" "b = (y - 1) div 100" "e = (y - 1) div 400"
  have n: "days_before_year (y + 1) = y * 365 + (a + (if y mod 4 = 0 then 1 else 0)) -
      (b + (if y mod 100 = 0 then 1 else 0)) + (e + (if y mod 400 = 0 then 1 else 0))"
    unfolding abe days_before_year_def using d [of 4] d [of 100] d [of 400] by (simp only: add_diff_cancel_right')
  have "days_before_year y = (y - 1) * 365 + a - b + e" by (simp add: days_before_year_def abe)
  with n c show ?thesis
    by (cases "y mod 400 = 0"; cases "y mod 100 = 0"; cases "y mod 4 = 0") (simp_all add: is_leap_def)
qed

lemma year_strict_mono: "y < z \<Longrightarrow> days_before_year y < days_before_year z"
proof (induction "nat (z - y)" arbitrary: z)
  case (Suc k)
  have lt: "days_before_year (z - 1) < days_before_year z" using year_days [of "z - 1"] by simp
  show ?case
  proof (cases "y = z - 1")
    case False
    with Suc have "days_before_year y < days_before_year (z - 1)" by (intro Suc.hyps(1)) auto
    with lt show ?thesis by simp
  qed (use lt in simp)
qed simp

lemma year_unique:
  assumes "days_before_year y \<le> n" "n < days_before_year (y + 1)"
    and "days_before_year z \<le> n" "n < days_before_year (z + 1)"
  shows "y = z"
proof (rule ccontr)
  assume "y \<noteq> z"
  then consider "y + 1 \<le> z" | "z + 1 \<le> y" by linarith
  then show False
  proof cases
    case 1
    then have "days_before_year (y + 1) \<le> days_before_year z"
      using year_strict_mono [of "y + 1" z] by (cases "y + 1 = z") auto
    with assms show False by simp
  next
    case 2
    then have "days_before_year (z + 1) \<le> days_before_year y"
      using year_strict_mono [of "z + 1" y] by (cases "z + 1 = y") auto
    with assms show False by simp
  qed
qed

text \<open>The days before a year of the 400-year cycle.\<close>

lemma days_before_cycle:
  assumes "0 \<le> b" "b < 4" "0 \<le> c" "c < 25" "0 \<le> d" "d < 4"
  shows "days_before_year (400 * a + 100 * b + 4 * c + d + 1) = 146097 * a + 36524 * b + 1461 * c + 365 * d"
proof -
  have "(400 * a + 100 * b + 4 * c + d) div 4 = 100 * a + 25 * b + c"
    "(400 * a + 100 * b + 4 * c + d) div 100 = 4 * a + b" "(400 * a + 100 * b + 4 * c + d) div 400 = a"
    using assms by (auto intro!: int_div_pos_eq [where r = d] int_div_pos_eq [where r = "4 * c + d"]
        int_div_pos_eq [where r = "100 * b + 4 * c + d"])
  then show ?thesis by (simp add: days_before_year_def)
qed

lemma year_of_ordinal_bounds:
  "days_before_year (year_of_ordinal ord) \<le> ord - 1 \<and> ord - 1 < days_before_year (year_of_ordinal ord + 1)"
proof -
  define a r400 b r100 c r4 d r where defs: "a = (ord - 1) div 146097" "r400 = (ord - 1) mod 146097"
    "b = r400 div 36524" "r100 = r400 mod 36524" "c = r100 div 1461" "r4 = r100 mod 1461" "d = r4 div 365"
    "r = r4 mod 365"
  have n: "ord - 1 = 146097 * a + r400" and r400: "r400 = 36524 * b + r100" and r100: "r100 = 1461 * c + r4"
    and r4: "r4 = 365 * d + r" by (simp_all add: defs)
  have bounds: "0 \<le> r400" "r400 < 146097" "0 \<le> r100" "r100 < 36524" "0 \<le> r4" "r4 < 1461" "0 \<le> r" "r < 365"
    by (simp_all add: defs)
  have nn: "0 \<le> b" "0 \<le> c" "0 \<le> d"
    using bounds(1,3,5) unfolding defs(3,5,7) by (simp_all add: pos_imp_zdiv_nonneg_iff)
  have le: "b \<le> 4" "c < 25" "d \<le> 4" using bounds r400 r100 r4 by linarith+
  have y: "year_of_ordinal ord = (if d = 4 \<or> b = 4 then 400 * a + 100 * b + 4 * c + d else 400 * a + 100 * b + 4 * c + d + 1)"
    unfolding year_of_ordinal_def Let_def defs by simp
  show ?thesis
  proof (cases "b = 4")
    case True
    with r400 bounds r100 r4 nn have z: "c = 0" "d = 0" "r100 = r" "r = 0" by auto
    have "days_before_year (400 * a + 400) = 146097 * a + 36524 * 3 + 1461 * 24 + 365 * 3"
      using days_before_cycle [of 3 24 3 a] by (simp add: add.commute)
    moreover have "days_before_year (400 * a + 401) = 146097 * (a + 1)"
      using days_before_cycle [of 0 0 0 "a + 1"] by (simp add: algebra_simps)
    moreover have "ord - 1 = 146097 * a + 146096" using True z n r400 by simp
    moreover have "year_of_ordinal ord = 400 * a + 400" using True z y by simp
    moreover have "400 * a + 400 + 1 = 400 * a + 401" by simp
    ultimately show ?thesis by (simp only:) simp
  next
    case False
    with le have b: "b < 4" by simp
    show ?thesis
    proof (cases "d = 4")
      case True
      with r4 bounds have r: "r = 0" by auto
      have "days_before_year (400 * a + 100 * b + 4 * c + 3 + 1) = 146097 * a + 36524 * b + 1461 * c + 365 * 3"
        using nn b le by (intro days_before_cycle) auto
      moreover have "ord - 1 = 146097 * a + 36524 * b + 1461 * c + 1460" using n r400 r100 r4 True r by simp
      moreover have "days_before_year (400 * a + 100 * b + 4 * c + 3 + 1 + 1) \<ge> 146097 * a + 36524 * b + 1461 * (c + 1)"
      proof (cases "c = 24")
        case c: False
        then have "days_before_year (400 * a + 100 * b + 4 * (c + 1) + 0 + 1) = 146097 * a + 36524 * b + 1461 * (c + 1)"
          using nn b le by (subst days_before_cycle) auto
        then show ?thesis by (simp add: algebra_simps)
      next
        case c: True
        with r100 r4 True r bounds show ?thesis by simp
      qed
      moreover have "year_of_ordinal ord = 400 * a + 100 * b + 4 * c + 3 + 1" using True y by simp
      ultimately show ?thesis by (simp only:) simp
    next
      case False
      with le have d: "d < 4" by simp
      let ?y = "400 * a + 100 * b + 4 * c + d + 1"
      have "days_before_year ?y = 146097 * a + 36524 * b + 1461 * c + 365 * d"
        using nn b d le by (intro days_before_cycle) auto
      moreover have "days_before_year (?y + 1) \<ge> days_before_year ?y + 365" using year_days [of ?y] by simp
      moreover have "year_of_ordinal ord = ?y" using False b y by simp
      moreover have "ord - 1 = 146097 * a + 36524 * b + 1461 * c + 365 * d + r" using n r400 r100 r4 by simp
      ultimately show ?thesis using bounds by (simp only:) simp
    qed
  qed
qed

lemma year_of_ordinal_eq:
  "days_before_year y \<le> ord - 1 \<Longrightarrow> ord - 1 < days_before_year (y + 1) \<Longrightarrow> year_of_ordinal ord = y"
  using year_unique [of "year_of_ordinal ord" "ord - 1" y] year_of_ordinal_bounds [of ord] by simp

definition days_in_month :: "int \<Rightarrow> int \<Rightarrow> int" where
  "days_in_month y m = days_before_month y (m + 1) - days_before_month y m"

lemma months_cases: "1 \<le> m \<Longrightarrow> m \<le> 12 \<Longrightarrow> m \<in> {1, 2, 3, 4, 5, 6, 7, 8, 9, 10, 11, 12}" for m :: int
  by (simp only: insert_iff empty_iff) presburger

lemma month_starts:
  "days_before_month y 1 = 0" "days_before_month y 2 = 31"
  "days_before_month y 3 = 59 + (if is_leap y then 1 else 0)" "days_before_month y 4 = 90 + (if is_leap y then 1 else 0)"
  "days_before_month y 5 = 120 + (if is_leap y then 1 else 0)" "days_before_month y 6 = 151 + (if is_leap y then 1 else 0)"
  "days_before_month y 7 = 181 + (if is_leap y then 1 else 0)" "days_before_month y 8 = 212 + (if is_leap y then 1 else 0)"
  "days_before_month y 9 = 243 + (if is_leap y then 1 else 0)" "days_before_month y 10 = 273 + (if is_leap y then 1 else 0)"
  "days_before_month y 11 = 304 + (if is_leap y then 1 else 0)" "days_before_month y 12 = 334 + (if is_leap y then 1 else 0)"
  "days_before_month y 13 = 365 + (if is_leap y then 1 else 0)"
  by (simp_all add: days_before_month_def)

lemma month_of_day_eq:
  assumes "1 \<le> m" "m \<le> 12" "days_before_month y m \<le> n" "n < days_before_month y (m + 1)"
  shows "month_of_day y n = m"
  using assms(3,4) months_cases [OF assms(1,2)]
  by (cases "is_leap y") (auto simp: month_of_day_def month_starts)

lemma month_of_day_bounds:
  assumes "0 \<le> n" "n < days_before_month y 13"
  shows "1 \<le> month_of_day y n \<and> month_of_day y n \<le> 12 \<and> days_before_month y (month_of_day y n) \<le> n \<and>
    n < days_before_month y (month_of_day y n + 1)"
proof -
  have "\<exists>m\<in>{1, 2, 3, 4, 5, 6, 7, 8, 9, 10, 11, 12}. days_before_month y m \<le> n \<and> n < days_before_month y (m + 1)"
    using assms by (cases "is_leap y"; simp add: month_starts; linarith)
  then obtain m where m: "m \<in> {1, 2, 3, 4, 5, 6, 7, 8, 9, 10, 11, 12}"
    "days_before_month y m \<le> n" "n < days_before_month y (m + 1)" by blast
  from m(1) have "1 \<le> m" "m \<le> 12" by auto
  with m(2,3) month_of_day_eq [of m y n] show ?thesis by simp
qed

lemma year_days': "days_before_year (y + 1) = days_before_year y + days_before_month y 13"
  by (simp add: year_days month_starts)

text \<open>Ordinals and dates are the same thing.\<close>

lemma date_of_ordinal_date:
  assumes "1 \<le> m" "m \<le> 12" "1 \<le> d" "d \<le> days_in_month y m"
  shows "date_of_ordinal (ordinal y m d) = \<lparr>dt_year = y, dt_month = m, dt_day = d\<rparr>"
proof -
  have "0 \<le> days_before_month y m" "days_before_month y (m + 1) \<le> days_before_month y 13"
    using months_cases [OF assms(1,2)] by (cases "is_leap y"; auto simp: month_starts)+
  then have y: "year_of_ordinal (ordinal y m d) = y"
    using assms by (intro year_of_ordinal_eq) (auto simp: ordinal_def days_in_month_def year_days')
  moreover have "month_of_day y (days_before_month y m + d - 1) = m"
    using assms by (intro month_of_day_eq) (auto simp: days_in_month_def)
  ultimately show ?thesis by (simp add: date_of_ordinal_def Let_def ordinal_def algebra_simps)
qed

lemma ordinal_of_date:
  assumes "date_of_ordinal n = \<lparr>dt_year = y, dt_month = m, dt_day = d\<rparr>"
  shows "ordinal y m d = n \<and> 1 \<le> m \<and> m \<le> 12 \<and> 1 \<le> d \<and> d \<le> days_in_month y m"
proof -
  let ?k = "n - 1 - days_before_year y"
  from assms have y: "y = year_of_ordinal n" and m: "m = month_of_day y ?k" and d: "d = ?k - days_before_month y m + 1"
    by (auto simp: date_of_ordinal_def Let_def)
  have "0 \<le> ?k" "?k < days_before_month y 13" using year_of_ordinal_bounds [of n] y year_days' [of y] by auto
  from month_of_day_bounds [OF this] m d show ?thesis by (auto simp: ordinal_def days_in_month_def)
qed

lemma date_of_ordinal_valid:
  "1 \<le> dt_month (date_of_ordinal n)" "dt_month (date_of_ordinal n) \<le> 12"
  "ordinal (dt_year (date_of_ordinal n)) (dt_month (date_of_ordinal n)) (dt_day (date_of_ordinal n)) = n"
  "1 \<le> dt_day (date_of_ordinal n)"
  "dt_day (date_of_ordinal n) \<le> days_in_month (dt_year (date_of_ordinal n)) (dt_month (date_of_ordinal n))"
  using ordinal_of_date [of n "dt_year (date_of_ordinal n)" "dt_month (date_of_ordinal n)" "dt_day (date_of_ordinal n)"]
  by auto

section \<open>ISO weeks\<close>

text \<open>\<open>weekday()\<close> counts from Monday.\<close>

definition weekday :: "int \<Rightarrow> int" where
  "weekday n = (n + 6) mod 7"

definition iso_week1_monday :: "int \<Rightarrow> int" where
  "iso_week1_monday y =
     (let firstday = ordinal y 1 1; firstweekday = weekday firstday; week1 = firstday - firstweekday
      in if firstweekday > 3 then week1 + 7 else week1)"

text \<open>The year and the week of \<open>isocalendar()\<close>.\<close>

definition iso_calendar :: "int \<Rightarrow> int \<times> int" where
  "iso_calendar n =
     (let y = dt_year (date_of_ordinal n); w = (n - iso_week1_monday y) div 7
      in if w < 0 then (y - 1, (n - iso_week1_monday (y - 1)) div 7 + 1)
         else if w \<ge> 52 \<and> n \<ge> iso_week1_monday (y + 1) then (y + 1, 1)
         else (y, w + 1))"

text \<open>\<open>fromisocalendar(y, w, 1)\<close>, which raises for a week the year does not have.\<close>

definition long_iso_year :: "int \<Rightarrow> bool" where
  "long_iso_year y \<longleftrightarrow>
     (let first_weekday = ordinal y 1 1 mod 7 in first_weekday = 4 \<or> first_weekday = 3 \<and> is_leap y)"

definition monday_of_week :: "int \<Rightarrow> int \<Rightarrow> int res" where
  "monday_of_week y w =
     (if \<not> (1 \<le> y \<and> y \<le> 9999) then Inl (Value_Error (lit ''Year is out of range''))
      else if 0 < w \<and> w < 53 \<or> w = 53 \<and> long_iso_year y then Inr (iso_week1_monday y + (w - 1) * 7)
      else Inl (Value_Error (lit ''Invalid week'')))"

lemma week1_near: "ordinal y 1 1 - 3 \<le> iso_week1_monday y \<and> iso_week1_monday y \<le> ordinal y 1 1 + 3"
proof -
  have "0 \<le> weekday (ordinal y 1 1)" "weekday (ordinal y 1 1) < 7" by (simp_all add: weekday_def)
  then show ?thesis by (simp add: iso_week1_monday_def Let_def)
qed

lemma weekday_week1: "weekday (iso_week1_monday y) = 0"
proof -
  have "weekday (k - weekday k) = 0" "weekday (k - weekday k + 7) = 0" for k
    unfolding weekday_def by presburger+
  then show ?thesis by (simp add: iso_week1_monday_def Let_def)
qed

lemma first_of_next_year: "ordinal (y + 1) 1 1 = ordinal y 1 1 + (if is_leap y then 366 else 365)"
  by (simp add: ordinal_def year_days month_starts)

lemma week1_form:
  assumes "ordinal y 1 1 = 7 * q + r" "0 \<le> r" "r < 7"
  shows "iso_week1_monday y = 7 * q + (if r \<le> 4 then 1 else 8)"
proof -
  have "weekday (7 * q + r) = (if r = 0 then 6 else r - 1)"
  proof -
    have "weekday (7 * q + r) = (r + 6) mod 7"
      unfolding weekday_def using mod_mult_self2 [of "r + 6" 7 q] by (simp add: algebra_simps)
    moreover have "r = 0 \<or> r = 1 \<or> r = 2 \<or> r = 3 \<or> r = 4 \<or> r = 5 \<or> r = 6" using assms(2,3) by linarith
    ultimately show ?thesis by auto
  qed
  with assms show ?thesis by (simp add: iso_week1_monday_def Let_def)
qed

lemma long_year_weeks: "iso_week1_monday (y + 1) = iso_week1_monday y + (if long_iso_year y then 371 else 364)"
proof -
  obtain q r where f: "ordinal y 1 1 = 7 * q + r" "0 \<le> r" "r < 7"
    by (metis mult_div_mod_eq pos_mod_bound pos_mod_sign zero_less_numeral)
  have long: "long_iso_year y \<longleftrightarrow> r = 4 \<or> r = 3 \<and> is_leap y" using f by (simp add: long_iso_year_def)
  define s where "s = r + (if is_leap y then 2 else 1)"
  have n: "ordinal (y + 1) 1 1 = (if s < 7 then 7 * (q + 52) + s else 7 * (q + 53) + (s - 7))"
    using f(1) by (simp add: first_of_next_year s_def)
  have "iso_week1_monday (y + 1) =
      (if s < 7 then 7 * (q + 52) + (if s \<le> 4 then 1 else 8) else 7 * (q + 53) + (if s - 7 \<le> 4 then 1 else 8))"
  proof (cases "s < 7")
    case True
    have "iso_week1_monday (y + 1) = 7 * (q + 52) + (if s \<le> 4 then 1 else 8)"
      by (rule week1_form) (use True n f in \<open>auto simp: s_def\<close>)
    with True show ?thesis by simp
  next
    case False
    have "iso_week1_monday (y + 1) = 7 * (q + 53) + (if s - 7 \<le> 4 then 1 else 8)"
      by (rule week1_form) (use False n f in \<open>auto simp: s_def\<close>)
    with False show ?thesis by simp
  qed
  with week1_form [OF f] f(2,3) show ?thesis by (auto simp: long s_def)
qed

text \<open>The week of a Monday leads back to it.\<close>

lemma mondays_apart: "weekday a = 0 \<Longrightarrow> weekday b = 0 \<Longrightarrow> a - b = 7 * ((a - b) div 7)"
  unfolding weekday_def by presburger

lemma monday_of_iso_calendar:
  assumes "weekday n = 0" "iso_calendar n = (y, w)" "1 \<le> y" "y \<le> 9999"
  shows "monday_of_week y w = Inr n"
proof -
  let ?Y = "dt_year (date_of_ordinal n)"
  have Y: "days_before_year ?Y \<le> n - 1" "n - 1 < days_before_year (?Y + 1)"
    using year_of_ordinal_bounds [of n] by (simp_all add: date_of_ordinal_def Let_def)
  have jan1: "ordinal z 1 1 = days_before_year z + 1" for z by (simp add: ordinal_def month_starts)
  define k where "k = (n - iso_week1_monday ?Y) div 7"
  define k' where "k' = (n - iso_week1_monday (?Y + 1)) div 7"
  have k: "n = iso_week1_monday ?Y + 7 * k" using mondays_apart [OF assms(1) weekday_week1 [of ?Y]] by (simp add: k_def)
  have k': "n = iso_week1_monday (?Y + 1) + 7 * k'"
    using mondays_apart [OF assms(1) weekday_week1 [of "?Y + 1"]] by (simp add: k'_def)
  have pos: "0 \<le> k" using k week1_near [of ?Y] Y(1) jan1 [of ?Y] by linarith
  have small: "k' \<le> 0" using k' week1_near [of "?Y + 1"] Y(2) jan1 [of "?Y + 1"] by linarith
  have cal: "iso_calendar n = (if 52 \<le> k \<and> iso_week1_monday (?Y + 1) \<le> n then (?Y + 1, 1) else (?Y, k + 1))"
    using pos by (simp add: iso_calendar_def Let_def k_def)
  show ?thesis
  proof (cases "iso_week1_monday (?Y + 1) \<le> n")
    case True
    with k' small have "k' = 0" by linarith
    moreover have "52 \<le> k" using True k long_year_weeks [of ?Y] by (auto split: if_splits)
    ultimately show ?thesis using True k' assms(2-4) cal by (auto simp: monday_of_week_def)
  next
    case False
    with k k' small have "7 * k < (if long_iso_year ?Y then 371 else 364)"
      using long_year_weeks [of ?Y] by (auto split: if_splits)
    then have "k + 1 < 53 \<or> k + 1 = 53 \<and> long_iso_year ?Y" by (auto split: if_splits)
    with False pos k assms(2-4) cal show ?thesis by (auto simp: monday_of_week_def)
  qed
qed

section \<open>Local days\<close>

text \<open>The zone's offset, the ordinal of 1 January 1970, the last ordinal there is.\<close>

definition LOCAL_OFFSET :: int where
  "LOCAL_OFFSET = 28800000000"

definition EPOCH_ORDINAL :: int where
  "EPOCH_ORDINAL = 719163"

definition MAX_ORDINAL :: int where
  "MAX_ORDINAL = 3652059"

definition local_ordinal :: "int \<Rightarrow> int" where
  "local_ordinal t = (t + LOCAL_OFFSET) div day + EPOCH_ORDINAL"

text \<open>What a \<open>date\<close> or \<open>datetime\<close> can hold; beyond it arithmetic raises \<open>OverflowError\<close>.\<close>

definition check_ordinal :: "int \<Rightarrow> int res" where
  "check_ordinal n =
     (if 1 \<le> n \<and> n \<le> MAX_ORDINAL then Inr n else Inl (Other_Error (lit ''OverflowError'')))"

text \<open>A local wall-clock time, in microseconds since local midnight of 1 January 1970, and its instant.\<close>

definition wall_ordinal :: "int \<Rightarrow> int" where
  "wall_ordinal w = w div day + EPOCH_ORDINAL"

definition midnight :: "int \<Rightarrow> int" where
  "midnight n = (n - EPOCH_ORDINAL) * day"

definition instant_of_wall :: "int \<Rightarrow> int res" where
  "instant_of_wall w =
     rbind (check_ordinal (wall_ordinal w)) (\<lambda>_.
     rbind (check_ordinal (wall_ordinal (w - LOCAL_OFFSET))) (\<lambda>_. Inr (w - LOCAL_OFFSET)))"

definition iso_date :: "int \<Rightarrow> str" where
  "iso_date n =
     (let d = date_of_ordinal n
      in padded 4 (nat (dt_year d)) @ lit ''-'' @ padded 2 (nat (dt_month d)) @ lit ''-'' @ padded 2 (nat (dt_day d)))"

text \<open>\<open>datetime.fromisoformat\<close>: a date alone is read here; \<open>other\<close> reads the forms with a time.\<close>

definition ascii_digits :: "str \<Rightarrow> bool" where
  "ascii_digits s \<longleftrightarrow> list_all (\<lambda>c. 48 \<le> c \<and> c < 58) s"

definition digits_nat :: "str \<Rightarrow> nat" where
  "digits_nat s = foldl (\<lambda>a c. 10 * a + (c - 48)) 0 s"

definition valid_date :: "int \<Rightarrow> int \<Rightarrow> int \<Rightarrow> bool" where
  "valid_date y m d \<longleftrightarrow> 1 \<le> y \<and> y \<le> 9999 \<and> 1 \<le> m \<and> m \<le> 12 \<and> 1 \<le> d \<and> d \<le> days_in_month y m"

definition from_iso_format :: "(str \<Rightarrow> int option) \<Rightarrow> str \<Rightarrow> int res" where
  "from_iso_format other s =
     (let y = take 4 s; m = take 2 (drop 5 s); d = drop 8 s in
      if length s = 10 \<and> s ! 4 = 45 \<and> s ! 7 = 45 \<and> ascii_digits (y @ m @ d) then
        (if valid_date (digits_nat y) (digits_nat m) (digits_nat d)
           then Inr (midnight (ordinal (digits_nat y) (digits_nat m) (digits_nat d)))
         else Inl (Value_Error (lit ''Invalid isoformat string'')))
      else (case other s of Some w \<Rightarrow> Inr w | None \<Rightarrow> Inl (Value_Error (lit ''Invalid isoformat string''))))"

section \<open>Facts about days\<close>

lemma div_ge_iff: "0 < k \<Longrightarrow> n \<le> x div k \<longleftrightarrow> n * k \<le> x" for k :: int
proof -
  assume k: "0 < k"
  have e: "x = k * (x div k) + x mod k" and m: "0 \<le> x mod k" "x mod k < k" using k by simp_all
  show ?thesis
  proof
    assume "n \<le> x div k"
    with k have "k * n \<le> k * (x div k)" by simp
    with e m(1) have "k * n \<le> x" by linarith
    then show "n * k \<le> x" by (simp add: mult.commute)
  next
    assume n: "n * k \<le> x"
    show "n \<le> x div k"
    proof (rule ccontr)
      assume "\<not> n \<le> x div k"
      then have "k * (x div k + 1) \<le> k * n" using k by (intro mult_left_mono) auto
      then have "k * (x div k) + k \<le> n * k" by (simp add: algebra_simps)
      with n e m(2) show False by linarith
    qed
  qed
qed

lemma after_midnight: "midnight n - LOCAL_OFFSET \<le> t \<longleftrightarrow> n \<le> local_ordinal t"
  using div_ge_iff [of day "n - EPOCH_ORDINAL" "t + LOCAL_OFFSET"]
  by (auto simp: midnight_def local_ordinal_def day_def)

lemma wall_midnight [simp]: "wall_ordinal (midnight n) = n" "wall_ordinal (midnight n - LOCAL_OFFSET) = n - 1"
proof -
  show "wall_ordinal (midnight n) = n" by (simp add: wall_ordinal_def midnight_def day_def)
  have "midnight n - LOCAL_OFFSET = (n - 1 - EPOCH_ORDINAL) * day + (day - LOCAL_OFFSET)"
    by (simp add: midnight_def algebra_simps)
  then have "(midnight n - LOCAL_OFFSET) div day = n - 1 - EPOCH_ORDINAL"
    by (intro int_div_pos_eq [where r = "day - LOCAL_OFFSET"]) (simp_all add: day_def LOCAL_OFFSET_def mult.commute)
  then show "wall_ordinal (midnight n - LOCAL_OFFSET) = n - 1" by (simp add: wall_ordinal_def)
qed

lemma midnight_add: "midnight n + k * day = midnight (n + k)"
  by (simp add: midnight_def algebra_simps)

lemma instant_of_midnight:
  "instant_of_wall (midnight n) = (if 2 \<le> n \<and> n \<le> MAX_ORDINAL then Inr (midnight n - LOCAL_OFFSET)
     else Inl (Other_Error (lit ''OverflowError'')))"
  by (auto simp: instant_of_wall_def check_ordinal_def)

lemma year_range: "1 \<le> n \<Longrightarrow> n \<le> MAX_ORDINAL \<Longrightarrow> 1 \<le> dt_year (date_of_ordinal n) \<and> dt_year (date_of_ordinal n) \<le> 9999"
proof -
  assume n: "1 \<le> n" "n \<le> MAX_ORDINAL"
  let ?y = "year_of_ordinal n"
  note b = year_of_ordinal_bounds [of n]
  have "1 \<le> ?y"
  proof (rule ccontr)
    assume "\<not> 1 \<le> ?y"
    then have "days_before_year (?y + 1) \<le> days_before_year 1"
      using year_strict_mono [of "?y + 1" 1] by (cases "?y + 1 = 1") auto
    with b n show False by (simp add: days_before_year_def [of 1])
  qed
  moreover have "?y \<le> 9999"
  proof (rule ccontr)
    assume "\<not> ?y \<le> 9999"
    then have "days_before_year 10000 \<le> days_before_year ?y"
      using year_strict_mono [of 10000 ?y] by (cases "10000 = ?y") auto
    with b n show False by (simp add: days_before_year_def [of 10000] MAX_ORDINAL_def)
  qed
  ultimately show ?thesis by (simp add: date_of_ordinal_def Let_def)
qed

lemma digits_nat_pad [simp]: "digits_nat (padded w n) = n"
  by (simp add: digits_nat_def padded_value)

lemma ascii_digits_pad [simp]: "ascii_digits (padded w n)"
  by (auto simp: ascii_digits_def list_all_iff dest: padded_digits)

lemma from_iso_date:
  assumes "1 \<le> n" "n \<le> MAX_ORDINAL"
  shows "from_iso_format other (iso_date n) = Inr (midnight n)"
proof -
  obtain y m d where ymd: "date_of_ordinal n = \<lparr>dt_year = y, dt_month = m, dt_day = d\<rparr>" by (cases "date_of_ordinal n")
  have v: "ordinal y m d = n" "1 \<le> m" "m \<le> 12" "1 \<le> d" "d \<le> days_in_month y m"
    using ordinal_of_date [OF ymd] by simp_all
  have y: "1 \<le> y" "y \<le> 9999" using year_range [OF assms] by (simp_all add: ymd)
  have "days_in_month y m \<le> 31"
    using months_cases [OF v(2,3)] by (cases "is_leap y") (auto simp: days_in_month_def month_starts)
  with v(5) have "d \<le> 31" by simp
  then have len: "length (padded 4 (nat y)) = 4" "length (padded 2 (nat m)) = 2" "length (padded 2 (nat d)) = 2"
    using y v by (auto intro!: length_padded length_dec)
  have iso: "iso_date n = padded 4 (nat y) @ 45 # padded 2 (nat m) @ 45 # padded 2 (nat d)"
    by (simp add: iso_date_def ymd Let_def lit_def)
  have parts: "take 4 (iso_date n) = padded 4 (nat y)" "take 2 (drop 5 (iso_date n)) = padded 2 (nat m)"
    "drop 8 (iso_date n) = padded 2 (nat d)" "iso_date n ! 4 = 45" "iso_date n ! 7 = 45" "length (iso_date n) = 10"
    unfolding iso using len by (simp_all add: nth_append)
  have "ascii_digits (padded 4 (nat y) @ padded 2 (nat m) @ padded 2 (nat d))"
    using ascii_digits_pad by (simp add: ascii_digits_def)
  with parts y v show ?thesis by (simp add: from_iso_format_def Let_def valid_date_def)
qed
end
