(* ===== verification/Report_Period.thy ===== *)
theory Report_Period
  imports Calendar
begin

text \<open>
  The periods reports are about (\<open>storage/reports.py\<close>: \<open>period_for\<close>, \<open>period_from_values\<close>): the last full
  day, week or month before a moment, or the one a label names. The texts of the exceptions
  of the standard library are shortened.
\<close>

section \<open>Periods\<close>

record report_period =
  pe_type :: str
  pe_start :: int
  pe_end :: int
  pe_label :: str

definition REPORT_TYPES :: "str list" where
  "REPORT_TYPES = [lit ''daily'', lit ''weekly'', lit ''monthly'']"

text \<open>From local wall-clock times; the instants are kept in UTC.\<close>

definition make_period :: "str \<Rightarrow> int \<Rightarrow> int \<Rightarrow> str \<Rightarrow> report_period res" where
  "make_period report_type start_local end_local label =
     rbind (instant_of_wall start_local) (\<lambda>s.
     rbind (instant_of_wall end_local) (\<lambda>e.
     Inr \<lparr>pe_type = report_type, pe_start = s, pe_end = e, pe_label = label\<rparr>))"

definition week_label :: "int \<times> int \<Rightarrow> str" where
  "week_label yw = decimal (nat (fst yw)) @ lit ''-W'' @ padded 2 (nat (snd yw))"

definition month_label :: "int \<Rightarrow> int \<Rightarrow> str" where
  "month_label y m = decimal (nat y) @ lit ''-'' @ padded 2 (nat m)"

text \<open>\<open>datetime(year, month, 1)\<close>.\<close>

definition first_of_month :: "int \<Rightarrow> int \<Rightarrow> int res" where
  "first_of_month y m =
     (if valid_date y m 1 then Inr (ordinal y m 1) else Inl (Value_Error (lit ''out of range'')))"

definition period_for :: "str \<Rightarrow> int \<Rightarrow> report_period res" where
  "period_for report_type reference =
     (let today = local_ordinal reference in
      if report_type \<notin> set REPORT_TYPES then Inl (Value_Error (lit ''invalid report_type''))
      else if report_type = lit ''daily'' then
        rbind (check_ordinal (today - 1)) (\<lambda>n.
        make_period report_type (midnight n) (midnight n + day) (iso_date n))
      else if report_type = lit ''weekly'' then
        rbind (check_ordinal (today - (weekday today + 7))) (\<lambda>monday.
        make_period report_type (midnight monday) (midnight monday + 7 * day) (week_label (iso_calendar monday)))
      else
        (let d = date_of_ordinal today;
             last_month_end = midnight (ordinal (dt_year d) (dt_month d) 1);
             year = (if dt_month d > 1 then dt_year d else dt_year d - 1);
             month = (if dt_month d - 1 = 0 then 12 else dt_month d - 1)
         in rbind (first_of_month year month) (\<lambda>n.
            make_period report_type (midnight n) last_month_end (month_label year month))))"

definition int_res :: "str \<Rightarrow> int res" where
  "int_res s = (case int_of_text s of Some n \<Rightarrow> Inr n | None \<Rightarrow> Inl (Value_Error (lit ''invalid literal for int()'')))"

text \<open>\<open>a, b = text.split(sep, 1)\<close>.\<close>

definition unpack_two :: "(str \<times> str) option \<Rightarrow> (str \<times> str) res" where
  "unpack_two r = (case r of Some p \<Rightarrow> Inr p | None \<Rightarrow> Inl (Value_Error (lit ''not enough values to unpack'')))"

definition period_from_values :: "(str \<Rightarrow> int option) \<Rightarrow> str \<Rightarrow> str \<Rightarrow> report_period res" where
  "period_from_values other report_type period_value =
     (if report_type = lit ''daily'' then
        rbind (from_iso_format other period_value) (\<lambda>start_local.
        make_period report_type start_local (start_local + day) (iso_date (wall_ordinal start_local)))
      else if report_type = lit ''weekly'' then
        rbind (unpack_two (split_once (lit ''-W'') period_value)) (\<lambda>(ys, ws).
        rbind (int_res ys) (\<lambda>y.
        rbind (int_res ws) (\<lambda>w.
        rbind (monday_of_week y w) (\<lambda>monday.
        make_period report_type (midnight monday) (midnight monday + 7 * day) (week_label (y, w))))))
      else if report_type = lit ''monthly'' then
        rbind (unpack_two (split_once (lit ''-'') period_value)) (\<lambda>(ys, ms).
        rbind (int_res ys) (\<lambda>y.
        rbind (int_res ms) (\<lambda>m.
        rbind (first_of_month y m) (\<lambda>n.
        rbind (first_of_month (if m = 12 then y + 1 else y) (if m = 12 then 1 else m + 1)) (\<lambda>n'.
        make_period report_type (midnight n) (midnight n') (month_label y m))))))
      else Inl (Value_Error (lit ''invalid report_type'')))"

section \<open>Slots\<close>

text \<open>Local days, ISO weeks and months are numbered; a report type cuts the time line into them.\<close>

definition slot_of :: "str \<Rightarrow> int \<Rightarrow> int" where
  "slot_of report_type t =
     (let n = local_ordinal t; d = date_of_ordinal n in
      if report_type = lit ''daily'' then n
      else if report_type = lit ''weekly'' then (n - 1) div 7
      else 12 * dt_year d + dt_month d - 1)"

lemma make_period_Inr:
  "make_period typ (midnight a) (midnight b) label = Inr p \<longleftrightarrow>
     2 \<le> a \<and> a \<le> MAX_ORDINAL \<and> 2 \<le> b \<and> b \<le> MAX_ORDINAL \<and>
     p = \<lparr>pe_type = typ, pe_start = midnight a - LOCAL_OFFSET, pe_end = midnight b - LOCAL_OFFSET, pe_label = label\<rparr>"
  by (auto simp: make_period_def rbind_eq_Inr instant_of_midnight split: if_splits)

text \<open>The instants of a period between two local midnights.\<close>

lemma make_period_times:
  "make_period typ (midnight a) (midnight b) label = Inr p \<Longrightarrow>
   pe_start p \<le> t \<and> t < pe_end p \<longleftrightarrow> a \<le> local_ordinal t \<and> local_ordinal t < b"
  using after_midnight [of a t] after_midnight [of b t] by (auto simp: make_period_Inr)

lemma next_month_first:
  "1 \<le> m \<Longrightarrow> m \<le> 12 \<Longrightarrow>
   ordinal (if m = 12 then y + 1 else y) (if m = 12 then 1 else m + 1) 1 = ordinal y m 1 + days_in_month y m"
  by (auto simp: ordinal_def days_in_month_def year_days' month_starts)

lemma in_month_iff:
  assumes "1 \<le> m" "m \<le> 12"
  shows "ordinal y m 1 \<le> n \<and> n < ordinal y m 1 + days_in_month y m \<longleftrightarrow>
    dt_year (date_of_ordinal n) = y \<and> dt_month (date_of_ordinal n) = m"
proof
  assume n: "ordinal y m 1 \<le> n \<and> n < ordinal y m 1 + days_in_month y m"
  let ?d = "n - ordinal y m 1 + 1"
  have "ordinal y m ?d = n" by (simp add: ordinal_def)
  with date_of_ordinal_date [of m ?d y] n assms
  show "dt_year (date_of_ordinal n) = y \<and> dt_month (date_of_ordinal n) = m" by simp
next
  assume d: "dt_year (date_of_ordinal n) = y \<and> dt_month (date_of_ordinal n) = m"
  with date_of_ordinal_valid [of n] have "ordinal y m (dt_day (date_of_ordinal n)) = n"
    "1 \<le> dt_day (date_of_ordinal n)" "dt_day (date_of_ordinal n) \<le> days_in_month y m" by simp_all
  then show "ordinal y m 1 \<le> n \<and> n < ordinal y m 1 + days_in_month y m" by (simp add: ordinal_def)
qed

lemma month_index_eq:
  "1 \<le> m \<Longrightarrow> m \<le> 12 \<Longrightarrow> 1 \<le> m' \<Longrightarrow> m' \<le> 12 \<Longrightarrow> 12 * y + m = 12 * y' + m' \<longleftrightarrow> y = y' \<and> m = m'" for m m' y y' :: int
  by (cases "y < y'"; cases "y' < y"; auto)

text \<open>What a period is, report type by report type.\<close>

lemma check_ordinal_Inr: "check_ordinal n = Inr k \<longleftrightarrow> k = n \<and> 1 \<le> n \<and> n \<le> MAX_ORDINAL"
  by (auto simp: check_ordinal_def)

lemma period_daily:
  assumes "period_for (lit ''daily'') t = Inr p"
  defines "n \<equiv> local_ordinal t - 1"
  shows "make_period (lit ''daily'') (midnight n) (midnight (n + 1)) (iso_date n) = Inr p \<and> 1 \<le> n \<and> n \<le> MAX_ORDINAL"
proof -
  have "midnight n + day = midnight (n + 1)" using midnight_add [of n 1] by simp
  moreover from assms(1) have "rbind (check_ordinal n) (\<lambda>n. make_period (lit ''daily'') (midnight n) (midnight n + day) (iso_date n)) = Inr p"
    by (simp add: period_for_def REPORT_TYPES_def n_def)
  ultimately show ?thesis by (simp only: rbind_eq_Inr check_ordinal_Inr) metis
qed

lemma period_weekly:
  assumes "period_for (lit ''weekly'') t = Inr p"
  defines "n \<equiv> 7 * ((local_ordinal t - 1) div 7 - 1) + 1"
  shows "make_period (lit ''weekly'') (midnight n) (midnight (n + 7)) (week_label (iso_calendar n)) = Inr p \<and>
    weekday n = 0 \<and> 1 \<le> n \<and> n \<le> MAX_ORDINAL"
proof -
  have n: "local_ordinal t - (weekday (local_ordinal t) + 7) = n" unfolding n_def weekday_def by presburger
  have "weekday n = 0" unfolding n_def weekday_def by presburger
  moreover have "midnight n + 7 * day = midnight (n + 7)" by (rule midnight_add)
  moreover from assms(1) have "rbind (check_ordinal n) (\<lambda>n. make_period (lit ''weekly'') (midnight n) (midnight n + 7 * day)
      (week_label (iso_calendar n))) = Inr p"
    by (simp add: period_for_def REPORT_TYPES_def Let_def n)
  ultimately show ?thesis by (simp only: rbind_eq_Inr check_ordinal_Inr) metis
qed

lemma period_monthly:
  assumes "period_for (lit ''monthly'') t = Inr p"
  obtains y m where "make_period (lit ''monthly'') (midnight (ordinal y m 1)) (midnight (ordinal y m 1 + days_in_month y m))
      (month_label y m) = Inr p" "valid_date y m 1"
    "slot_of (lit ''monthly'') t = 12 * y + m"
proof -
  let ?d = "date_of_ordinal (local_ordinal t)"
  define y where "y = (if dt_month ?d > 1 then dt_year ?d else dt_year ?d - 1)"
  define m where "m = (if dt_month ?d - 1 = 0 then 12 else dt_month ?d - 1)"
  have dm: "1 \<le> dt_month ?d" "dt_month ?d \<le> 12" using date_of_ordinal_valid by auto
  then have m: "1 \<le> m" "m \<le> 12" by (auto simp: m_def)
  have nxt: "(if m = 12 then y + 1 else y) = dt_year ?d" "(if m = 12 then 1 else m + 1) = dt_month ?d"
    using dm by (auto simp: m_def y_def)
  have e: "ordinal (dt_year ?d) (dt_month ?d) 1 = ordinal y m 1 + days_in_month y m"
    using next_month_first [OF m, of y] by (simp only: nxt)
  have "slot_of (lit ''monthly'') t = 12 * y + m"
    using dm by (simp add: slot_of_def Let_def y_def m_def)
  moreover from assms have "rbind (first_of_month y m) (\<lambda>n. make_period (lit ''monthly'') (midnight n)
      (midnight (ordinal (dt_year ?d) (dt_month ?d) 1)) (month_label y m)) = Inr p"
    by (simp add: period_for_def REPORT_TYPES_def Let_def y_def m_def)
  then have "valid_date y m 1" "make_period (lit ''monthly'') (midnight (ordinal y m 1))
      (midnight (ordinal y m 1 + days_in_month y m)) (month_label y m) = Inr p"
    by (auto simp: first_of_month_def e split: if_splits)
  ultimately show thesis using that by blast
qed

lemma period_for_types: "period_for typ t = Inr p \<Longrightarrow> typ \<in> {lit ''daily'', lit ''weekly'', lit ''monthly''} \<and> pe_type p = typ"
  by (auto simp: period_for_def REPORT_TYPES_def Let_def rbind_eq_Inr make_period_def split: if_splits)

text \<open>A scheduled report is about the slot before the one it is made in.\<close>

lemma period_for_slot:
  assumes "period_for report_type reference = Inr p"
  shows "pe_start p \<le> t \<and> t < pe_end p \<longleftrightarrow> slot_of report_type t = slot_of report_type reference - 1"
proof -
  from period_for_types [OF assms]
  consider "report_type = lit ''daily''" | "report_type = lit ''weekly''" | "report_type = lit ''monthly''" by blast
  then show ?thesis
  proof cases
    case 1
    let ?n = "local_ordinal reference - 1"
    have "make_period (lit ''daily'') (midnight ?n) (midnight (?n + 1)) (iso_date ?n) = Inr p"
      using period_daily [of reference p] assms 1 by simp
    from make_period_times [OF this, of t] 1 show ?thesis by (auto simp: slot_of_def Let_def)
  next
    case 2
    define k where "k = (local_ordinal reference - 1) div 7"
    let ?n = "7 * (k - 1) + 1"
    have "make_period (lit ''weekly'') (midnight ?n) (midnight (?n + 7)) (week_label (iso_calendar ?n)) = Inr p"
      using period_weekly [of reference p] assms 2 unfolding k_def by blast
    from make_period_times [OF this, of t]
    have "pe_start p \<le> t \<and> t < pe_end p \<longleftrightarrow> ?n \<le> local_ordinal t \<and> local_ordinal t < ?n + 7" .
    moreover have "7 * (k - 1) + 1 \<le> n \<and> n < 7 * (k - 1) + 1 + 7 \<longleftrightarrow> (n - 1) div 7 = k - 1" for n by presburger
    ultimately show ?thesis using 2 by (simp add: slot_of_def Let_def k_def)
  next
    case 3
    with assms obtain y m where p: "make_period (lit ''monthly'') (midnight (ordinal y m 1))
        (midnight (ordinal y m 1 + days_in_month y m)) (month_label y m) = Inr p"
      "valid_date y m 1" "slot_of (lit ''monthly'') reference = 12 * y + m" by (auto elim: period_monthly)
    let ?d = "date_of_ordinal (local_ordinal t)"
    from p(2) have m: "1 \<le> m" "m \<le> 12" by (simp_all add: valid_date_def)
    have "pe_start p \<le> t \<and> t < pe_end p \<longleftrightarrow> dt_year ?d = y \<and> dt_month ?d = m"
      using make_period_times [OF p(1), of t] in_month_iff [OF m, of y "local_ordinal t"] by simp
    also have "\<dots> \<longleftrightarrow> slot_of (lit ''monthly'') t = 12 * y + m - 1"
    proof -
      have "slot_of (lit ''monthly'') t = 12 * dt_year ?d + dt_month ?d - 1" by (simp add: slot_of_def Let_def)
      moreover have "12 * dt_year ?d + dt_month ?d - 1 = 12 * y + m - 1 \<longleftrightarrow> 12 * dt_year ?d + dt_month ?d = 12 * y + m"
        by linarith
      moreover have "12 * dt_year ?d + dt_month ?d = 12 * y + m \<longleftrightarrow> dt_year ?d = y \<and> dt_month ?d = m"
        by (rule month_index_eq) (simp_all add: date_of_ordinal_valid m)
      ultimately show ?thesis by simp
    qed
    finally show ?thesis using 3 p(3) by simp
  qed
qed

text \<open>A label leads back to its period.\<close>

lemma unpack_week: "split_once (lit ''-W'') (week_label (y, w)) = Some (decimal (nat y), padded 2 (nat w))"
proof -
  have "45 \<notin> set (decimal (nat y))" using dec_digits by fastforce
  then show ?thesis using split_once_append [of 45 "decimal (nat y)" "[87]" "padded 2 (nat w)"]
    by (simp add: week_label_def lit_def)
qed

lemma unpack_month: "split_once (lit ''-'') (month_label y m) = Some (decimal (nat y), padded 2 (nat m))"
proof -
  have "45 \<notin> set (decimal (nat y))" using dec_digits by fastforce
  then show ?thesis using split_once_append [of 45 "decimal (nat y)" "[]" "padded 2 (nat m)"]
    by (simp add: month_label_def lit_def)
qed

lemma days_in_month_pos: "1 \<le> m \<Longrightarrow> m \<le> 12 \<Longrightarrow> 1 \<le> days_in_month y m"
  using months_cases [of m] by (cases "is_leap y") (auto simp: days_in_month_def month_starts)

lemma first_of_next_month:
  assumes "valid_date y m 1" "ordinal y m 1 + days_in_month y m \<le> MAX_ORDINAL"
  shows "first_of_month (if m = 12 then y + 1 else y) (if m = 12 then 1 else m + 1) =
    Inr (ordinal y m 1 + days_in_month y m)"
proof -
  define y' where "y' = (if m = 12 then y + 1 else y)"
  define m' where "m' = (if m = 12 then 1 else m + 1)"
  have m: "1 \<le> m" "m \<le> 12" using assms(1) by (simp_all add: valid_date_def)
  have e: "ordinal y' m' 1 = ordinal y m 1 + days_in_month y m"
    unfolding y'_def m'_def by (rule next_month_first [OF m])
  have m': "1 \<le> m'" "m' \<le> 12" using m by (auto simp: m'_def)
  have "y' \<le> 9999"
  proof (rule ccontr)
    assume "\<not> y' \<le> 9999"
    then have "y' = 10000" "m' = 1" using assms(1) by (auto simp: valid_date_def y'_def m'_def split: if_splits)
    then have "ordinal y' m' 1 = MAX_ORDINAL + 1"
      by (simp add: ordinal_def days_before_year_def month_starts MAX_ORDINAL_def)
    with e assms(2) show False by simp
  qed
  moreover have "1 \<le> y'" using assms(1) by (auto simp: valid_date_def y'_def)
  ultimately have "valid_date y' m' 1" using m' days_in_month_pos [OF m', of y'] by (simp add: valid_date_def)
  then show ?thesis unfolding y'_def [symmetric] m'_def [symmetric] by (simp add: first_of_month_def e)
qed

lemma iso_year_range:
  assumes "weekday n = 0" "1 \<le> n" "n \<le> MAX_ORDINAL" "iso_calendar n = (y, w)"
  shows "1 \<le> y \<and> y \<le> 9999"
proof -
  let ?Y = "dt_year (date_of_ordinal n)"
  note Y = year_range [OF assms(2,3)]
  have "days_before_year ?Y \<le> n - 1"
    using year_of_ordinal_bounds [of n] by (simp add: date_of_ordinal_def Let_def)
  then have j: "ordinal ?Y 1 1 \<le> n" by (simp add: ordinal_def month_starts)
  define k where "k = (n - iso_week1_monday ?Y) div 7"
  have "n = iso_week1_monday ?Y + 7 * k" using mondays_apart [OF assms(1) weekday_week1 [of ?Y]] by (simp add: k_def)
  with j week1_near [of ?Y] have "0 \<le> k" by linarith
  with assms(4) have y: "y = ?Y \<or> y = ?Y + 1 \<and> iso_week1_monday (?Y + 1) \<le> n"
    by (auto simp: iso_calendar_def Let_def k_def split: if_splits)
  have "iso_week1_monday 10000 = MAX_ORDINAL + 3"
    using week1_form [of 10000 521722 6] by (simp add: ordinal_def days_before_year_def month_starts MAX_ORDINAL_def)
  with y Y assms(3) show ?thesis by (cases "?Y = 9999") auto
qed

text \<open>The operation, report type by report type.\<close>

lemma from_values_daily: "period_from_values other (lit ''daily'') v =
    rbind (from_iso_format other v) (\<lambda>start_local.
    make_period (lit ''daily'') start_local (start_local + day) (iso_date (wall_ordinal start_local)))"
  by (simp add: period_from_values_def)

lemma from_values_weekly:
  "split_once (lit ''-W'') v = Some (ys, ws) \<Longrightarrow> int_of_text ys = Some y \<Longrightarrow> int_of_text ws = Some w \<Longrightarrow>
   period_from_values other (lit ''weekly'') v = rbind (monday_of_week y w) (\<lambda>monday.
     make_period (lit ''weekly'') (midnight monday) (midnight monday + 7 * day) (week_label (y, w)))"
  by (simp add: period_from_values_def unpack_two_def int_res_def)

lemma from_values_monthly:
  "split_once (lit ''-'') v = Some (ys, ms) \<Longrightarrow> int_of_text ys = Some y \<Longrightarrow> int_of_text ms = Some m \<Longrightarrow>
   period_from_values other (lit ''monthly'') v = rbind (first_of_month y m) (\<lambda>n.
     rbind (first_of_month (if m = 12 then y + 1 else y) (if m = 12 then 1 else m + 1)) (\<lambda>n'.
     make_period (lit ''monthly'') (midnight n) (midnight n') (month_label y m)))"
  by (simp add: period_from_values_def unpack_two_def int_res_def)

lemma period_label_round_trip:
  assumes "period_for report_type reference = Inr p"
  shows "period_from_values other report_type (pe_label p) = Inr p"
proof -
  from period_for_types [OF assms]
  consider "report_type = lit ''daily''" | "report_type = lit ''weekly''" | "report_type = lit ''monthly''" by blast
  then show ?thesis
  proof cases
    case 1
    define n where "n = local_ordinal reference - 1"
    have p: "make_period (lit ''daily'') (midnight n) (midnight (n + 1)) (iso_date n) = Inr p" "1 \<le> n" "n \<le> MAX_ORDINAL"
      using period_daily [of reference p] assms 1 unfolding n_def by simp_all
    have "pe_label p = iso_date n" using p(1) unfolding make_period_Inr by auto
    moreover have "midnight n + day = midnight (n + 1)" using midnight_add [of n 1] by simp
    ultimately show ?thesis
      using 1 p(1) from_iso_date [OF p(2,3), of other] by (simp add: from_values_daily)
  next
    case 2
    define n where "n = 7 * ((local_ordinal reference - 1) div 7 - 1) + 1"
    have p: "make_period (lit ''weekly'') (midnight n) (midnight (n + 7)) (week_label (iso_calendar n)) = Inr p"
      "weekday n = 0" "1 \<le> n" "n \<le> MAX_ORDINAL"
      using period_weekly [of reference p] assms 2 unfolding n_def by auto
    obtain y w where yw: "iso_calendar n = (y, w)" by (cases "iso_calendar n")
    have y: "1 \<le> y" "y \<le> 9999" using iso_year_range [OF p(2-4) yw] by simp_all
    note m = monday_of_iso_calendar [OF p(2) yw y]
    then have w: "0 \<le> w" by (auto simp: monday_of_week_def split: if_splits)
    have "pe_label p = week_label (y, w)" using p(1) unfolding make_period_Inr yw by auto
    moreover have "midnight n + 7 * day = midnight (n + 7)" by (rule midnight_add)
    ultimately show ?thesis
      using 2 p(1) y w from_values_weekly [OF unpack_week int_of_dec int_of_padded, where other = other] m yw by simp
  next
    case 3
    then obtain y m where p: "make_period (lit ''monthly'') (midnight (ordinal y m 1))
        (midnight (ordinal y m 1 + days_in_month y m)) (month_label y m) = Inr p" "valid_date y m 1"
      using assms by (auto elim: period_monthly)
    have y: "0 \<le> y" "0 \<le> m" using p(2) by (simp_all add: valid_date_def)
    have "pe_label p = month_label y m" "ordinal y m 1 + days_in_month y m \<le> MAX_ORDINAL"
      using p(1) unfolding make_period_Inr by auto
    moreover have "period_from_values other (lit ''monthly'') (month_label y m) = rbind (first_of_month y m) (\<lambda>n.
        rbind (first_of_month (if m = 12 then y + 1 else y) (if m = 12 then 1 else m + 1)) (\<lambda>n'.
        make_period (lit ''monthly'') (midnight n) (midnight n') (month_label y m)))"
      by (rule from_values_monthly [OF unpack_month]) (simp_all add: y)
    moreover have "first_of_month y m = Inr (ordinal y m 1)" using p(2) by (simp add: first_of_month_def)
    ultimately show ?thesis
      using 3 p(1) first_of_next_month [OF p(2)] by (simp only: rbind_simps simp_thms)
  qed
qed

lemma padded_head: "\<exists>c l. padded w n @ r = c # l \<and> 48 \<le> c \<and> c < 58"
  by (cases "padded w n") (use padded_digits [of _ w n] in auto)

lemma period_label_head:
  assumes "period_for report_type reference = Inr p"
  shows "\<exists>c l. pe_label p = c # l \<and> 48 \<le> c \<and> c < 58"
proof -
  have iso: "\<exists>c l. iso_date n = c # l \<and> 48 \<le> c \<and> c < 58" for n
    unfolding iso_date_def Let_def by (rule padded_head)
  have week: "\<exists>c l. week_label yw = c # l \<and> 48 \<le> c \<and> c < 58" for yw
    unfolding week_label_def dec_as_pad by (rule padded_head)
  have month: "\<exists>c l. month_label y m = c # l \<and> 48 \<le> c \<and> c < 58" for y m
    unfolding month_label_def dec_as_pad by (rule padded_head)
  have "pe_label p \<in> range iso_date \<union> range week_label \<union> range (\<lambda>(y, m). month_label y m)"
  proof -
    have mk: "make_period rt a b l = Inr p \<Longrightarrow> pe_label p = l" for rt a b l
      by (auto simp: make_period_def rbind_eq_Inr)
    from period_for_types [OF assms]
    consider "report_type = lit ''daily''" | "report_type = lit ''weekly''" | "report_type = lit ''monthly''" by blast
    then show ?thesis
    proof cases
      case 1
      with assms period_daily mk show ?thesis by blast
    next
      case 2
      with assms period_weekly mk show ?thesis by blast
    next
      case 3
      with assms obtain y m a b where "make_period (lit ''monthly'') a b (month_label y m) = Inr p"
        by (auto elim: period_monthly)
      from mk [OF this] show ?thesis by auto
    qed
  qed
  with iso week month show ?thesis by auto
qed

end
