(* ===== verification/Reports.thy ===== *)
theory Reports
  imports Report_Period Training Audit_Log
begin

text \<open>
  Reports: the table of generated reports and the aggregation of a period
  (\<open>storage/reports.py\<close>, \<open>storage/models.py\<close>). Times are microseconds; floating-point numbers are the
  rationals they denote and \<open>round2\<close>, a parameter, is \<open>round(x, 2)\<close> of a quotient computed in floating
  point. Parameters: \<open>json.dumps\<close>, \<open>isoformat\<close>, the clock.
\<close>

section \<open>Rows\<close>

record generated_report =
  gr_id :: int
  gr_report_type :: str
  gr_period_start :: int
  gr_period_end :: int
  gr_timezone :: str
  gr_status :: str
  gr_generation_mode :: str
  gr_include_sensitive :: bool
  gr_pdf_path :: str
  gr_xlsx_path :: str
  gr_csv_path :: str
  gr_pdf_sha256 :: str
  gr_xlsx_sha256 :: str
  gr_csv_sha256 :: str
  gr_summary_json :: str
  gr_runtime_summary_json :: str
  gr_error_message :: str
  gr_generated_by :: str
  gr_generated_at :: "int option"
  gr_expires_at :: "int option"
  gr_created_at :: int
  gr_updated_at :: int

record runtime_sample =
  sa_id :: int
  sa_sampled_at :: int
  sa_worker_pid :: int
  sa_health_status :: str
  sa_cpu_percent :: rat
  sa_memory_percent :: rat
  sa_data_disk_total :: int
  sa_data_disk_used :: int
  sa_data_disk_free :: int
  sa_system_disk_total :: int
  sa_system_disk_used :: int
  sa_system_disk_free :: int
  sa_v1_inflight :: int
  sa_v1_queued :: int
  sa_archive_queue_size :: int
  sa_archive_processed_total :: int
  sa_archive_dropped_total :: int
  sa_raw_json :: str

type_synonym report_table = "generated_report list"

interpretation reports: keyed_table gr_id "tbl_get gr_id" tbl_add "tbl_update gr_id" tbl_delete
  by (rule keyed_table_list)

section \<open>The repository\<close>

definition RUNNING :: str where "RUNNING = lit ''running''"
definition SUCCEEDED :: str where "SUCCEEDED = lit ''succeeded''"
definition FAILED :: str where "FAILED = lit ''failed''"

definition list_reports ::
    "str option \<Rightarrow> str option \<Rightarrow> int \<Rightarrow> int \<Rightarrow> report_table \<Rightarrow> generated_report list \<times> nat" where
  "list_reports report_type status limit offset t =
     (let rows = filter (\<lambda>r. str_filter report_type gr_report_type r \<and> str_filter status gr_status r) t
      in (page (safe_limit 100 limit) (max offset 0) (latest_first gr_period_start gr_id rows), length rows))"

definition get_report :: "int \<Rightarrow> report_table \<Rightarrow> generated_report option" where
  "get_report i t = tbl_get gr_id i t"

definition report_key :: "generated_report \<Rightarrow> str \<times> int \<times> int" where
  "report_key r = (gr_report_type r, gr_period_start r, gr_period_end r)"

definition period_key :: "report_period \<Rightarrow> str \<times> int \<times> int" where
  "period_key p = (pe_type p, pe_start p, pe_end p)"

text \<open>The row as the column defaults make it.\<close>

definition new_report :: "int \<Rightarrow> report_period \<Rightarrow> generated_report" where
  "new_report now p =
     \<lparr>gr_id = 0, gr_report_type = pe_type p, gr_period_start = pe_start p, gr_period_end = pe_end p,
      gr_timezone = lit ''Asia/Shanghai'', gr_status = lit ''pending'', gr_generation_mode = lit ''manual'',
      gr_include_sensitive = False, gr_pdf_path = [], gr_xlsx_path = [], gr_csv_path = [],
      gr_pdf_sha256 = [], gr_xlsx_sha256 = [], gr_csv_sha256 = [], gr_summary_json = lit ''{}'',
      gr_runtime_summary_json = lit ''{}'', gr_error_message = [], gr_generated_by = [],
      gr_generated_at = None, gr_expires_at = None, gr_created_at = now, gr_updated_at = now\<rparr>"

definition report_retention :: "int \<Rightarrow> int" where
  "report_retention reports_retention_days = max 1 reports_retention_days * day"

definition set_running :: "int \<Rightarrow> int \<Rightarrow> str \<Rightarrow> bool \<Rightarrow> str \<Rightarrow> generated_report \<Rightarrow> generated_report" where
  "set_running now retention_days mode include_sensitive generated_by r =
     r\<lparr>gr_timezone := lit ''Asia/Shanghai'', gr_status := RUNNING, gr_generation_mode := mode,
       gr_include_sensitive := include_sensitive, gr_error_message := [], gr_generated_by := generated_by,
       gr_expires_at := Some (now + report_retention retention_days), gr_updated_at := now\<rparr>"

definition create_or_mark_running ::
    "int \<Rightarrow> int \<Rightarrow> report_period \<Rightarrow> str \<Rightarrow> bool \<Rightarrow> str \<Rightarrow> report_table \<Rightarrow> report_table \<times> generated_report res" where
  "create_or_mark_running now retention_days p mode include_sensitive generated_by t =
     (let mark = set_running now retention_days mode include_sensitive generated_by in
      case find (\<lambda>r. report_key r = period_key p) t of
        None \<Rightarrow>
          (let r = (mark (new_report now p))\<lparr>gr_id := next_id gr_id t\<rparr> in (tbl_add r t, Inr r))
      | Some r \<Rightarrow>
          if gr_status r = RUNNING then (t, Inl (Value_Error (lit ''report is already running'')))
          else (tbl_update gr_id (gr_id r) mark t, Inr (mark r)))"

text \<open>The paths, or the hashes, of the three documents; \<open>paths.get("pdf", "")\<close>.\<close>

type_synonym doc_map = "(str \<times> str) list"

definition set_succeeded ::
    "(json \<Rightarrow> str) \<Rightarrow> int \<Rightarrow> doc_map \<Rightarrow> doc_map \<Rightarrow> json \<Rightarrow> json \<Rightarrow> generated_report \<Rightarrow> generated_report" where
  "set_succeeded dumps now paths hashes summary runtime r =
     r\<lparr>gr_status := SUCCEEDED,
       gr_pdf_path := get_or paths (lit ''pdf'') [], gr_xlsx_path := get_or paths (lit ''xlsx'') [],
       gr_csv_path := get_or paths (lit ''csv'') [],
       gr_pdf_sha256 := get_or hashes (lit ''pdf'') [], gr_xlsx_sha256 := get_or hashes (lit ''xlsx'') [],
       gr_csv_sha256 := get_or hashes (lit ''csv'') [],
       gr_summary_json := dumps summary, gr_runtime_summary_json := dumps runtime,
       gr_generated_at := Some now, gr_updated_at := now\<rparr>"

definition mark_succeeded ::
    "(json \<Rightarrow> str) \<Rightarrow> int \<Rightarrow> int \<Rightarrow> doc_map \<Rightarrow> doc_map \<Rightarrow> json \<Rightarrow> json \<Rightarrow> report_table
     \<Rightarrow> report_table \<times> generated_report res" where
  "mark_succeeded dumps now report_id paths hashes summary runtime t =
     (case tbl_get gr_id report_id t of
        None \<Rightarrow> (t, Inl (Value_Error (lit ''report not found'')))
      | Some r \<Rightarrow>
          (let f = set_succeeded dumps now paths hashes summary runtime
           in (tbl_update gr_id report_id f t, Inr (f r))))"

definition set_failed :: "int \<Rightarrow> str \<Rightarrow> generated_report \<Rightarrow> generated_report" where
  "set_failed now error_message r =
     r\<lparr>gr_status := FAILED, gr_error_message := take 2000 error_message, gr_updated_at := now\<rparr>"

definition mark_failed :: "int \<Rightarrow> int \<Rightarrow> str \<Rightarrow> report_table \<Rightarrow> report_table" where
  "mark_failed now report_id error_message t =
     (case tbl_get gr_id report_id t of
        None \<Rightarrow> t
      | Some r \<Rightarrow> tbl_update gr_id report_id (set_failed now error_message) t)"

definition save_runtime_sample :: "runtime_sample \<Rightarrow> runtime_sample list \<Rightarrow> runtime_sample list" where
  "save_runtime_sample sample samples = tbl_insert_all sa_id (\<lambda>n r. r\<lparr>sa_id := n\<rparr>) [sample] samples"

definition report_expired :: "int \<Rightarrow> generated_report \<Rightarrow> bool" where
  "report_expired now r \<longleftrightarrow> (case gr_expires_at r of Some e \<Rightarrow> e \<le> now | None \<Rightarrow> False)"

definition cleanup_expired_rows ::
    "int \<Rightarrow> int \<Rightarrow> report_table \<Rightarrow> runtime_sample list \<Rightarrow> report_table \<times> runtime_sample list \<times> nat" where
  "cleanup_expired_rows now retention_days t samples =
     (tbl_delete (report_expired now) t,
      tbl_delete (\<lambda>s. sa_sampled_at s \<le> now - report_retention retention_days) samples,
      length (filter (report_expired now) t))"

section \<open>Aggregation\<close>

definition in_period :: "report_period \<Rightarrow> ('r \<Rightarrow> int) \<Rightarrow> 'r list \<Rightarrow> 'r list" where
  "in_period p created rows = filter (\<lambda>r. pe_start p \<le> created r \<and> created r < pe_end p) rows"

text \<open>\<open>_bucket_label\<close>: ten minutes of a day, two hours of a week, a day of a month.\<close>

definition bucket_label :: "report_period \<Rightarrow> int \<Rightarrow> str" where
  "bucket_label p value =
     (let local = value + LOCAL_OFFSET;
          hour = local mod day div 3600000000;
          minute = local mod 3600000000 div 60000000
      in if pe_type p = lit ''daily'' then
           padded 2 (nat hour) @ lit '':'' @ padded 2 (nat (minute - minute mod 10))
         else if pe_type p = lit ''weekly'' then
           iso_date (local_ordinal value) @ lit '' '' @ padded 2 (nat (hour - hour mod 2)) @ lit '':00''
         else iso_date (local_ordinal value))"

record trend_bucket =
  bk_security_events :: nat
  bk_blocked :: nat
  bk_cpu_values :: "rat list"
  bk_queue_values :: "rat list"
  bk_archive_values :: "rat list"

definition empty_bucket :: trend_bucket where
  "empty_bucket = \<lparr>bk_security_events = 0, bk_blocked = 0, bk_cpu_values = [], bk_queue_values = [], bk_archive_values = []\<rparr>"

text \<open>A change of \<open>buckets[label]\<close> in the \<open>defaultdict\<close>.\<close>

definition update_bucket ::
    "(trend_bucket \<Rightarrow> trend_bucket) \<Rightarrow> str \<Rightarrow> (str, trend_bucket) dict \<Rightarrow> (str, trend_bucket) dict" where
  "update_bucket f label d = dict_set d label (f (get_or d label empty_bucket))"

definition count_audit :: "report_period \<Rightarrow> (str, trend_bucket) dict \<Rightarrow> audit_log \<Rightarrow> (str, trend_bucket) dict" where
  "count_audit p d a =
     update_bucket (\<lambda>b. b\<lparr>bk_security_events := bk_security_events b + 1,
         bk_blocked := bk_blocked b + (if al_action_taken a = lit ''blocked'' then 1 else 0)\<rparr>)
       (bucket_label p (al_created_at a)) d"

definition add_sample :: "report_period \<Rightarrow> (str, trend_bucket) dict \<Rightarrow> runtime_sample \<Rightarrow> (str, trend_bucket) dict" where
  "add_sample p d s =
     update_bucket (\<lambda>b. b\<lparr>bk_cpu_values := bk_cpu_values b @ [sa_cpu_percent s],
         bk_queue_values := bk_queue_values b @ [of_int (sa_v1_queued s)],
         bk_archive_values := bk_archive_values b @ [of_int (sa_archive_queue_size s)]\<rparr>)
       (bucket_label p (sa_sampled_at s)) d"

text \<open>Average, minimum and peak.\<close>

definition smallest :: "('a::linorder) list \<Rightarrow> 'a" where
  "smallest xs = foldl min (hd xs) (tl xs)"

definition largest :: "('a::linorder) list \<Rightarrow> 'a" where
  "largest xs = foldl max (hd xs) (tl xs)"

definition series_stats :: "(rat \<Rightarrow> rat) \<Rightarrow> rat list \<Rightarrow> rat \<times> rat \<times> rat" where
  "series_stats round2 xs =
     (if xs = [] then (0, 0, 0)
      else (round2 (sum_list xs / of_nat (length xs)), round2 (smallest xs), round2 (largest xs)))"

record trend_row =
  tr_label :: str
  tr_security_events :: nat
  tr_blocked :: nat
  tr_cpu :: "rat \<times> rat \<times> rat"
  tr_queue :: "rat \<times> rat \<times> rat"
  tr_archive :: "rat \<times> rat \<times> rat"

definition trend_row_of :: "(rat \<Rightarrow> rat) \<Rightarrow> str \<times> trend_bucket \<Rightarrow> trend_row" where
  "trend_row_of round2 lb =
     (let b = snd lb in
      \<lparr>tr_label = fst lb, tr_security_events = bk_security_events b, tr_blocked = bk_blocked b,
       tr_cpu = series_stats round2 (bk_cpu_values b), tr_queue = series_stats round2 (bk_queue_values b),
       tr_archive = series_stats round2 (bk_archive_values b)\<rparr>)"

definition build_trend ::
    "(rat \<Rightarrow> rat) \<Rightarrow> report_period \<Rightarrow> audit_log list \<Rightarrow> runtime_sample list \<Rightarrow> trend_row list" where
  "build_trend round2 p audits samples =
     map (trend_row_of round2)
       (sort_key fst (foldl (add_sample p) (foldl (count_audit p) [] audits) samples))"

definition avg_of :: "(rat \<Rightarrow> rat) \<Rightarrow> rat list \<Rightarrow> json" where
  "avg_of round2 xs = JFloat (round2 (sum_list xs / of_nat (length xs)))"

definition runtime_summary :: "(rat \<Rightarrow> rat) \<Rightarrow> runtime_sample list \<Rightarrow> (str \<times> json) list" where
  "runtime_summary round2 samples =
     (if samples = [] then [(lit ''sample_count'', JInt 0), (lit ''series'', JList [])]
      else (let cpu = map sa_cpu_percent samples; mem = map sa_memory_percent samples;
                queued = map sa_v1_queued samples; archived = map sa_archive_queue_size samples in
        [(lit ''sample_count'', JInt (int (length samples))),
         (lit ''cpu_avg'', avg_of round2 cpu), (lit ''cpu_min'', JFloat (round2 (smallest cpu))),
         (lit ''cpu_peak'', JFloat (round2 (largest cpu))),
         (lit ''memory_avg'', avg_of round2 mem), (lit ''memory_min'', JFloat (round2 (smallest mem))),
         (lit ''memory_peak'', JFloat (round2 (largest mem))),
         (lit ''queue_avg'', avg_of round2 (map of_int queued)), (lit ''queue_min'', JInt (smallest queued)),
         (lit ''queue_peak'', JInt (largest queued)),
         (lit ''archive_queue_avg'', avg_of round2 (map of_int archived)),
         (lit ''archive_queue_min'', JInt (smallest archived)), (lit ''archive_queue_peak'', JInt (largest archived)),
         (lit ''data_disk_min_free'', JInt (smallest (map sa_data_disk_free samples))),
         (lit ''system_disk_min_free'', JInt (smallest (map sa_system_disk_free samples))),
         (lit ''unhealthy_samples'', JInt (int (length (filter (\<lambda>s. sa_health_status s \<noteq> lit ''healthy'') samples))))]))"

definition high_risk :: "audit_log \<Rightarrow> bool" where
  "high_risk a \<longleftrightarrow> al_rule_level a = JStr (lit ''block'') \<or> al_action_taken a = lit ''blocked''"

text \<open>A row of the list of high risks, as the dictionary it is.\<close>

definition high_risk_row :: "(int \<Rightarrow> str) \<Rightarrow> bool \<Rightarrow> audit_log \<Rightarrow> (str \<times> json) list" where
  "high_risk_row isoformat include_sensitive a =
     [(lit ''id'', JInt (al_id a)), (lit ''created_at'', JStr (isoformat (al_created_at a))),
      (lit ''user_id'', JStr (al_user_id a)), (lit ''rule_id'', al_rule_id a), (lit ''rule_level'', al_rule_level a),
      (lit ''action_taken'', JStr (al_action_taken a))] @
     (if include_sensitive then
        [(lit ''matched_snippet'', JStr (al_matched_snippet a)),
         (lit ''desensitized_snippet'', JStr (al_desensitized_snippet a)),
         (lit ''context_snippet'', JStr (al_context_snippet a))]
      else [])"

definition high_risk_rows :: "(int \<Rightarrow> str) \<Rightarrow> bool \<Rightarrow> audit_log list \<Rightarrow> (str \<times> json) list list" where
  "high_risk_rows isoformat include_sensitive audits =
     map (high_risk_row isoformat include_sensitive) (take 50 (filter high_risk audits))"

text \<open>\<open>GROUP BY\<close> with the largest groups first; groups of one size in the order of their first row,
  which the database leaves open.\<close>

definition top_groups :: "('r \<Rightarrow> 'k) \<Rightarrow> nat \<Rightarrow> 'r list \<Rightarrow> ('k \<times> nat) list" where
  "top_groups key n rows = take n (sort_key (\<lambda>g. - int (snd g)) (count_by key rows))"

definition str_or_else :: "str \<Rightarrow> str \<Rightarrow> str" where
  "str_or_else s d = (if s = [] then d else s)"

definition json_or_else :: "json \<Rightarrow> str \<Rightarrow> json" where
  "json_or_else v d = (if truthy v then v else JStr d)"

definition action_counts :: "audit_log list \<Rightarrow> (str, nat) dict" where
  "action_counts audits =
     foldl (\<lambda>d (a, n). dict_set d (str_or_else a (lit ''unknown'')) n) [] (count_by al_action_taken audits)"

definition report_summary :: "(rat \<Rightarrow> rat) \<Rightarrow> nat \<Rightarrow> audit_log list \<Rightarrow> (str \<times> json) list" where
  "report_summary round2 total_requests audits =
     (let actions = action_counts audits;
          security_events = sum_list (map snd actions);
          count = (\<lambda>a. JInt (int (get_or actions (lit a) 0)))
      in [(lit ''total_requests'', JInt (int total_requests)), (lit ''security_events'', JInt (int security_events)),
          (lit ''blocked'', count ''blocked''), (lit ''warn'', count ''warn''),
          (lit ''desensitized'', count ''desensitized''), (lit ''passed'', JInt (int total_requests)),
          (lit ''event_rate'', if total_requests \<noteq> 0
             then JFloat (round2 (of_nat security_events / of_nat total_requests * 100)) else JInt 0)])"

record report_build_data =
  bd_period :: report_period
  bd_summary :: "(str \<times> json) list"
  bd_trend :: "trend_row list"
  bd_rules :: "(str \<times> json) list list"
  bd_api_keys :: "(str \<times> json) list list"
  bd_runtime :: "(str \<times> json) list"
  bd_high_risk :: "(str \<times> json) list list"
  bd_include_sensitive :: bool

definition build_data ::
    "(rat \<Rightarrow> rat) \<Rightarrow> (int \<Rightarrow> str) \<Rightarrow> report_period \<Rightarrow> bool \<Rightarrow> training_table \<Rightarrow> audit_log list
     \<Rightarrow> runtime_sample list \<Rightarrow> report_build_data" where
  "build_data round2 isoformat p include_sensitive training audits samples =
     (let total = length (in_period p tc_created_at training);
          rows = in_period p al_created_at audits;
          runtime_rows = sort_key sa_sampled_at (in_period p sa_sampled_at samples);
          risky = take 50 (newest_first al_created_at (filter high_risk rows))
      in \<lparr>bd_period = p, bd_summary = report_summary round2 total rows,
          bd_trend = build_trend round2 p rows runtime_rows,
          bd_rules = map (\<lambda>((i, l, s, a), n).
              [(lit ''rule_id'', json_or_else i (lit ''unknown'')), (lit ''rule_level'', json_or_else l []),
               (lit ''scanner_type'', JStr s), (lit ''action_taken'', JStr a), (lit ''count'', JInt (int n))])
            (top_groups (\<lambda>a. (al_rule_id a, al_rule_level a, al_scanner_type a, al_action_taken a)) 10 rows),
          bd_api_keys = map (\<lambda>(u, n). [(lit ''user_id'', JStr (str_or_else u (lit ''unknown''))),
              (lit ''security_events'', JInt (int n))]) (top_groups al_user_id 10 rows),
          bd_runtime = runtime_summary round2 runtime_rows,
          bd_high_risk = high_risk_rows isoformat include_sensitive risky,
          bd_include_sensitive = include_sensitive\<rparr>)"

section \<open>Facts about the aggregation\<close>

text \<open>The trend adds up: every audit of the period is in one bucket.\<close>

lemma update_bucket_sum:
  assumes "\<And>b. g (f b) = g b + n" "g empty_bucket = (0::nat)"
  shows "sum_list (map (\<lambda>lb. g (snd lb)) (update_bucket f label d)) = sum_list (map (\<lambda>lb. g (snd lb)) d) + n"
  unfolding update_bucket_def
proof (induction d)
  case (Cons lb d)
  then show ?case using assms by (cases lb) (auto simp: get_or_def)
qed (simp add: get_or_def assms)

lemma update_bucket_distinct:
  "distinct (map fst d) \<Longrightarrow> distinct (map fst (update_bucket f label d))"
  unfolding update_bucket_def by (rule distinct_dict_set)

lemma foldl_bucket_sum:
  assumes "\<And>d x. sum_list (map (\<lambda>lb. g (snd lb)) (step d x)) = sum_list (map (\<lambda>lb. g (snd lb)) d) + (h x :: nat)"
  shows "sum_list (map (\<lambda>lb. g (snd lb)) (foldl step d xs)) = sum_list (map (\<lambda>lb. g (snd lb)) d) + sum_list (map h xs)"
  by (induction xs arbitrary: d) (simp_all add: assms)

lemma foldl_bucket_distinct:
  assumes "\<And>d x. distinct (map fst d) \<Longrightarrow> distinct (map fst (step d x))"
  shows "distinct (map fst d) \<Longrightarrow> distinct (map fst (foldl step d xs))"
  by (induction xs arbitrary: d) (simp_all add: assms)

lemma sum_sort_key: "sum_list (map g (sort_key k xs)) = (sum_list (map g xs) :: nat)"
  by (metis mset_map mset_sort sum_mset_sum_list)

lemma sum_count_filter: "sum_list (map (\<lambda>x. if P x then 1 else 0) xs) = length (filter P xs)"
  by (induction xs) auto

lemma build_trend_events:
  "sum_list (map tr_security_events (build_trend round2 p audits samples)) = length audits"
proof -
  let ?g = bk_security_events
  have c: "sum_list (map (\<lambda>lb. ?g (snd lb)) (count_audit p d a)) = sum_list (map (\<lambda>lb. ?g (snd lb)) d) + 1" for d a
    unfolding count_audit_def by (rule update_bucket_sum) (simp_all add: empty_bucket_def)
  have s: "sum_list (map (\<lambda>lb. ?g (snd lb)) (add_sample p d x)) = sum_list (map (\<lambda>lb. ?g (snd lb)) d) + 0" for d x
    unfolding add_sample_def by (rule update_bucket_sum) (simp_all add: empty_bucket_def)
  show ?thesis
    by (simp add: build_trend_def trend_row_of_def Let_def comp_def sum_sort_key
        foldl_bucket_sum [of ?g, OF c] foldl_bucket_sum [of ?g, OF s] sum_list_triv)
qed

lemma build_trend_blocked:
  "sum_list (map tr_blocked (build_trend round2 p audits samples)) =
   length (filter (\<lambda>a. al_action_taken a = lit ''blocked'') audits)"
proof -
  let ?g = bk_blocked and ?b = "\<lambda>a. al_action_taken a = lit ''blocked''"
  have c: "sum_list (map (\<lambda>lb. ?g (snd lb)) (count_audit p d a)) =
      sum_list (map (\<lambda>lb. ?g (snd lb)) d) + (if ?b a then 1 else 0)" for d a
    unfolding count_audit_def by (rule update_bucket_sum) (simp_all add: empty_bucket_def)
  have s: "sum_list (map (\<lambda>lb. ?g (snd lb)) (add_sample p d x)) = sum_list (map (\<lambda>lb. ?g (snd lb)) d) + 0" for d x
    unfolding add_sample_def by (rule update_bucket_sum) (simp_all add: empty_bucket_def)
  show ?thesis
    by (simp add: build_trend_def trend_row_of_def Let_def comp_def sum_sort_key
        foldl_bucket_sum [of ?g, OF c] foldl_bucket_sum [of ?g, OF s] sum_count_filter)
qed

lemma build_trend_labels:
  "sorted (map tr_label (build_trend round2 p audits samples)) \<and>
   distinct (map tr_label (build_trend round2 p audits samples))"
proof -
  let ?d = "foldl (add_sample p) (foldl (count_audit p) [] audits) samples"
  have "distinct (map fst (foldl (count_audit p) [] audits))"
    by (rule foldl_bucket_distinct) (simp_all add: count_audit_def update_bucket_distinct)
  then have "distinct (map fst ?d)"
    by (rule foldl_bucket_distinct [rotated]) (simp add: add_sample_def update_bucket_distinct)
  then have "distinct (map fst (sort_key fst ?d))"
    by (metis mset_map mset_sort mset_eq_imp_distinct_iff)
  then show ?thesis by (simp add: build_trend_def trend_row_of_def Let_def comp_def)
qed

text \<open>The groups of \<open>GROUP BY\<close> add up to the rows, and so do the counts of the actions, as long as
  the empty action and the literal \<open>unknown\<close> are not both there.\<close>

lemma distinct_filter_one: "distinct ks \<Longrightarrow> x \<in> set ks \<Longrightarrow> length (filter (\<lambda>k. x = k) ks) = 1"
proof (induction ks)
  case (Cons k ks)
  then show ?case by (cases "x = k") (auto simp: filter_empty_conv)
qed simp

lemma sum_groups:
  "distinct ks \<Longrightarrow> key ` set rs \<subseteq> set ks \<Longrightarrow>
   sum_list (map (\<lambda>k. length (filter (\<lambda>r. key r = k) rs)) ks) = length rs"
proof (induction rs)
  case (Cons r rs)
  have "(\<lambda>k. length (filter (\<lambda>x. key x = k) (r # rs))) =
      (\<lambda>k. (if key r = k then 1 else 0) + length (filter (\<lambda>x. key x = k) rs))" by auto
  moreover have "sum_list (map (\<lambda>k. if key r = k then 1 else (0::nat)) ks) = 1"
    using Cons.prems distinct_filter_one [of ks "key r"] by (simp add: sum_count_filter)
  ultimately show ?case using Cons by (simp add: sum_list_addf)
qed simp

lemma count_by_sum: "sum_list (map snd (count_by key rs)) = length rs"
  using sum_groups [of "rev (remdups (rev (map key rs)))" key rs] by (simp add: count_by_def comp_def)

lemma count_by_keys: "distinct (map fst (count_by key rs))" "set (map fst (count_by key rs)) = key ` set rs"
  by (simp_all add: count_by_def comp_def)

lemma count_by_get: "k \<in> key ` set rs \<Longrightarrow> (k, length (filter (\<lambda>r. key r = k) rs)) \<in> set (count_by key rs)"
  by (auto simp: count_by_def)

lemma dict_set_fresh: "k \<notin> fst ` set d \<Longrightarrow> dict_set d k v = d @ [(k, v)]"
  by (induction d k v rule: dict_set.induct) auto

lemma foldl_dict_set_fresh:
  "distinct (map fst d @ map (\<lambda>g. f (fst g)) gs) \<Longrightarrow>
   foldl (\<lambda>d (a, n). dict_set d (f a) n) d gs = d @ map (\<lambda>(a, n). (f a, n)) gs"
proof (induction gs arbitrary: d)
  case (Cons g gs)
  then show ?case by (cases g) (auto simp: dict_set_fresh)
qed simp

definition unknown_clash :: "audit_log list \<Rightarrow> bool" where
  "unknown_clash audits \<longleftrightarrow> [] \<in> al_action_taken ` set audits \<and> lit ''unknown'' \<in> al_action_taken ` set audits"

lemma action_counts_eq:
  assumes "\<not> unknown_clash audits"
  shows "action_counts audits = map (\<lambda>(a, n). (str_or_else a (lit ''unknown''), n)) (count_by al_action_taken audits)"
proof -
  let ?f = "\<lambda>a. str_or_else a (lit ''unknown'')" and ?gs = "count_by al_action_taken audits"
  have "inj_on ?f (al_action_taken ` set audits)"
    using assms unfolding inj_on_def str_or_else_def unknown_clash_def by metis
  then have "inj_on ?f (set (map fst ?gs))" by (simp only: count_by_keys(2))
  then have "distinct (map ?f (map fst ?gs))"
    by (simp only: distinct_map [of ?f "map fst ?gs"] count_by_keys(1) simp_thms)
  then show ?thesis using foldl_dict_set_fresh [of "[]" ?f ?gs] by (simp add: action_counts_def comp_def)
qed

lemma action_counts_sum: "\<not> unknown_clash audits \<Longrightarrow> sum_list (map snd (action_counts audits)) = length audits"
  using count_by_sum [of al_action_taken audits] by (simp add: action_counts_eq comp_def case_prod_beta)

lemma action_counts_get:
  assumes "\<not> unknown_clash audits" "a \<noteq> []" "a \<noteq> lit ''unknown''"
  shows "get_or (action_counts audits) a 0 = length (filter (\<lambda>r. al_action_taken r = a) audits)"
proof -
  let ?f = "\<lambda>a. str_or_else a (lit ''unknown'')" and ?gs = "count_by al_action_taken audits"
  have f: "?f x = a \<longleftrightarrow> x = a" for x using assms(2,3) by (auto simp: str_or_else_def)
  have d: "distinct (map fst (action_counts audits))"
    unfolding action_counts_def
  proof -
    have "distinct (map fst d) \<Longrightarrow> distinct (map fst (foldl (\<lambda>d (a, n). dict_set d (?f a) n) d gs))" for d and gs :: "(str \<times> nat) list"
      by (induction gs arbitrary: d) (auto simp: distinct_dict_set)
    then show "distinct (map fst (foldl (\<lambda>d (a, n). dict_set d (?f a) n) [] ?gs))" by simp
  qed
  show ?thesis
  proof (cases "a \<in> al_action_taken ` set audits")
    case True
    have "(a, length (filter (\<lambda>r. al_action_taken r = a) audits)) \<in> set (action_counts audits)"
      using count_by_get [OF True] f [of a] unfolding action_counts_eq [OF assms(1)]
      by (metis (no_types, lifting) image_eqI list.set_map prod.case)
    then have "map_of (action_counts audits) a = Some (length (filter (\<lambda>r. al_action_taken r = a) audits))"
      using d by simp
    then show ?thesis by (simp add: get_or_def)
  next
    case False
    have "fst ` set (action_counts audits) = ?f ` al_action_taken ` set audits"
      using count_by_keys(2) [of al_action_taken audits, symmetric]
      by (simp add: action_counts_eq [OF assms(1)] image_image case_prod_beta)
    moreover have "a \<notin> ?f ` al_action_taken ` set audits"
    proof
      assume "a \<in> ?f ` al_action_taken ` set audits"
      then obtain k where "k \<in> al_action_taken ` set audits" "?f k = a" by blast
      with False f [of k] show False by simp
    qed
    ultimately have "a \<notin> fst ` set (action_counts audits)" by simp
    then have "map_of (action_counts audits) a = None" by (simp add: map_of_eq_None_iff)
    moreover from False have "filter (\<lambda>r. al_action_taken r = a) audits = []" by (auto simp: filter_empty_conv)
    ultimately show ?thesis by (simp add: get_or_def)
  qed
qed

text \<open>Without the sensitive fields a report does not depend on the snippets.\<close>

definition erase_snippets :: "audit_log \<Rightarrow> audit_log" where
  "erase_snippets a = a\<lparr>al_matched_snippet := [], al_context_snippet := [], al_desensitized_snippet := []\<rparr>"

lemma erase_fields [simp]:
  "al_id (erase_snippets a) = al_id a" "al_user_id (erase_snippets a) = al_user_id a"
  "al_rule_id (erase_snippets a) = al_rule_id a" "al_rule_level (erase_snippets a) = al_rule_level a"
  "al_scanner_type (erase_snippets a) = al_scanner_type a" "al_action_taken (erase_snippets a) = al_action_taken a"
  "al_created_at (erase_snippets a) = al_created_at a"
  by (simp_all add: erase_snippets_def)

lemma insort_key_map: "insort_key f (g x) (map g xs) = map g (insort_key (\<lambda>x. f (g x)) x xs)"
  by (induction xs) auto

lemma sort_key_map: "sort_key f (map g xs) = map g (sort_key (\<lambda>x. f (g x)) xs)"
  by (induction xs) (simp_all add: insort_key_map)

lemma in_period_map: "(\<And>x. f (g x) = f x) \<Longrightarrow> in_period p f (map g xs) = map g (in_period p f xs)"
  by (simp add: in_period_def filter_map comp_def)

lemma count_by_map: "(\<And>x. key (g x) = key x) \<Longrightarrow> count_by key (map g xs) = count_by key xs"
  by (simp add: count_by_def comp_def filter_map)

lemma build_data_erased:
  "build_data round2 isoformat p False training (map erase_snippets audits) samples =
   build_data round2 isoformat p False training audits samples"
proof -
  have trend: "foldl (count_audit p) d (map erase_snippets rows) = foldl (count_audit p) d rows" for d rows
    by (induction rows arbitrary: d) (simp_all add: count_audit_def)
  have high: "high_risk (erase_snippets a) = high_risk a" for a by (simp add: high_risk_def)
  have hr: "high_risk_rows isoformat False (map erase_snippets rows) = high_risk_rows isoformat False rows" for rows
    by (simp add: high_risk_rows_def high_risk_row_def filter_map take_map comp_def high)
  have risky: "take 50 (newest_first al_created_at (filter high_risk (map erase_snippets rows))) =
      map erase_snippets (take 50 (newest_first al_created_at (filter high_risk rows)))" for rows
    by (simp add: newest_first_def filter_map take_map sort_key_map comp_def high)
  show ?thesis
    by (simp add: build_data_def Let_def in_period_map report_summary_def action_counts_def count_by_map
        build_trend_def trend top_groups_def risky hr)
qed

section \<open>Facts about the repository\<close>

text \<open>One row per id and per period, a status of the life cycle, and documents for every success.\<close>

definition complete_paths :: "doc_map \<Rightarrow> bool" where
  "complete_paths paths \<longleftrightarrow> (\<forall>k\<in>{lit ''pdf'', lit ''xlsx'', lit ''csv''}. get_or paths k [] \<noteq> [])"

definition report_row_ok :: "generated_report \<Rightarrow> bool" where
  "report_row_ok r \<longleftrightarrow>
     gr_status r \<in> {RUNNING, SUCCEEDED, FAILED} \<and> gr_expires_at r \<noteq> None \<and>
     (gr_status r = SUCCEEDED \<longrightarrow>
        gr_pdf_path r \<noteq> [] \<and> gr_xlsx_path r \<noteq> [] \<and> gr_csv_path r \<noteq> [] \<and> gr_generated_at r \<noteq> None)"

definition reports_ok :: "report_table \<Rightarrow> bool" where
  "reports_ok t \<longleftrightarrow> distinct (map gr_id t) \<and> distinct (map report_key t) \<and> (\<forall>r\<in>set t. report_row_ok r)"

inductive report_step :: "report_table \<Rightarrow> report_table \<Rightarrow> bool" where
  Started: "create_or_mark_running now d p mode incl by t = (t', Inr r) \<Longrightarrow> report_step t t'"
| Succeeded: "complete_paths paths \<Longrightarrow> mark_succeeded dumps now i paths hashes su ru t = (t', Inr r) \<Longrightarrow> report_step t t'"
| Failed: "report_step t (mark_failed now i msg t)"
| Cleaned: "report_step t (fst (cleanup_expired_rows now d t samples))"

inductive reports_reachable :: "report_table \<Rightarrow> bool" where
  Empty: "reports_reachable []"
| Step: "reports_reachable t \<Longrightarrow> report_step t t' \<Longrightarrow> reports_reachable t'"

lemma statuses [simp]: "RUNNING \<noteq> SUCCEEDED" "RUNNING \<noteq> FAILED" "SUCCEEDED \<noteq> RUNNING" "FAILED \<noteq> RUNNING"
  "SUCCEEDED \<noteq> FAILED" "FAILED \<noteq> SUCCEEDED"
  by (simp_all add: RUNNING_def SUCCEEDED_def FAILED_def)

lemma set_running_fields [simp]:
  "gr_id (set_running now d mode incl by r) = gr_id r" "report_key (set_running now d mode incl by r) = report_key r"
  "gr_status (set_running now d mode incl by r) = RUNNING" "report_row_ok (set_running now d mode incl by r)"
  by (simp_all add: set_running_def report_key_def report_row_ok_def)

lemma set_succeeded_fields [simp]:
  "gr_id (set_succeeded dumps now ps hs su ru r) = gr_id r"
  "report_key (set_succeeded dumps now ps hs su ru r) = report_key r"
  by (simp_all add: set_succeeded_def report_key_def)

lemma set_succeeded_ok: "complete_paths ps \<Longrightarrow> report_row_ok r \<Longrightarrow> report_row_ok (set_succeeded dumps now ps hs su ru r)"
  by (simp add: set_succeeded_def report_row_ok_def complete_paths_def)

lemma set_failed_fields [simp]:
  "gr_id (set_failed now msg r) = gr_id r" "report_key (set_failed now msg r) = report_key r"
  "gr_status (set_failed now msg r) = FAILED" "gr_error_message (set_failed now msg r) = take 2000 msg"
  by (simp_all add: set_failed_def report_key_def)

lemma set_failed_ok: "report_row_ok r \<Longrightarrow> report_row_ok (set_failed now msg r)"
  by (simp add: set_failed_def report_row_ok_def)

lemma reports_ok_Nil [simp]: "reports_ok []"
  by (simp add: reports_ok_def)

lemma reports_ok_update:
  assumes "reports_ok t" "\<And>r. gr_id (f r) = gr_id r" "\<And>r. report_key (f r) = report_key r"
    and "\<And>r. r \<in> set t \<Longrightarrow> gr_id r = i \<Longrightarrow> report_row_ok (f r)"
  shows "reports_ok (tbl_update gr_id i f t)"
  using assms reports.map_upd [where g = gr_id and f = f] reports.map_upd [where g = report_key and f = f]
  by (auto simp: reports_ok_def reports.set_upd)

lemma reports_ok_delete: "reports_ok t \<Longrightarrow> reports_ok (tbl_delete p t)"
  by (auto simp: reports_ok_def reports.set_del reports.distinct_del)

lemma reports_ok_row: "reports_ok t \<Longrightarrow> r \<in> set t \<Longrightarrow> report_row_ok r"
  by (simp add: reports_ok_def)

lemma tbl_get_add: "tbl_get key i (tbl_add r t) =
    (case tbl_get key i t of Some x \<Rightarrow> Some x | None \<Rightarrow> if key r = i then Some r else None)"
  by (induction t) (auto simp: tbl_get_def tbl_add_def)

lemma find_report_None: "find (\<lambda>r. report_key r = k) t = None \<longleftrightarrow> k \<notin> report_key ` set t"
  by (auto simp: find_None_iff)

lemma find_report_Some: "find (\<lambda>r. report_key r = k) t = Some r \<Longrightarrow> r \<in> set t \<and> report_key r = k"
  by (auto simp: find_Some_iff)

lemma create_or_mark_running_ok:
  assumes "reports_ok t"
  shows "reports_ok (fst (create_or_mark_running now d p mode incl by t))"
proof (cases "find (\<lambda>r. report_key r = period_key p) t")
  case None
  define r where "r = (set_running now d mode incl by (new_report now p))\<lparr>gr_id := next_id gr_id t\<rparr>"
  have key: "report_key r = period_key p"
    by (simp add: r_def report_key_def set_running_def new_report_def period_key_def)
  have "next_id gr_id t \<notin> gr_id ` set t" using next_id_gt [of _ t gr_id] by force
  then have "distinct (map gr_id (tbl_add r t))"
    using assms by (intro reports.distinct_add) (simp_all add: reports_ok_def r_def)
  moreover have "distinct (map report_key (tbl_add r t))"
    using assms None by (intro reports.distinct_add) (simp_all add: reports_ok_def key find_report_None)
  moreover have "report_row_ok r" by (simp add: r_def report_row_ok_def set_running_def)
  ultimately show ?thesis
    using None assms by (auto simp: create_or_mark_running_def r_def [symmetric] Let_def reports_ok_def reports.set_add)
next
  case (Some r)
  with assms show ?thesis
    by (auto simp: create_or_mark_running_def Let_def intro!: reports_ok_update)
qed

lemma report_step_ok:
  assumes "report_step t t'" "reports_ok t"
  shows "reports_ok t'"
  using assms
proof (cases rule: report_step.cases)
  case (Started now d p mode incl "by" r)
  with create_or_mark_running_ok [OF assms(2), of now d p mode incl "by"] show ?thesis by simp
next
  case (Succeeded paths dumps now i hashes su ru r)
  with assms(2) show ?thesis
    by (auto simp: mark_succeeded_def Let_def split: option.splits
        intro!: reports_ok_update set_succeeded_ok intro: reports_ok_row)
next
  case (Failed now i msg)
  with assms(2) show ?thesis
    by (auto simp: mark_failed_def split: option.splits
        intro!: reports_ok_update set_failed_ok intro: reports_ok_row)
next
  case (Cleaned now d samples)
  with assms(2) show ?thesis by (simp add: cleanup_expired_rows_def reports_ok_delete)
qed

lemma reports_reachable_ok: "reports_reachable t \<Longrightarrow> reports_ok t"
  by (induction rule: reports_reachable.induct) (auto intro: report_step_ok)

inductive_cases report_stepE: "report_step t t'"

text \<open>What starting a report leaves behind.\<close>

lemma create_or_mark_running_result:
  assumes "reports_ok t" "create_or_mark_running now d p mode incl by t = (t', Inr r)"
  shows "get_report (gr_id r) t' = Some r \<and> gr_status r = RUNNING \<and> report_key r = period_key p \<and>
    gr_include_sensitive r = incl \<and> (\<forall>i. i \<noteq> gr_id r \<longrightarrow> get_report i t' = get_report i t)"
proof (cases "find (\<lambda>r. report_key r = period_key p) t")
  case None
  with assms(2) have r: "r = (set_running now d mode incl by (new_report now p))\<lparr>gr_id := next_id gr_id t\<rparr>"
    "t' = tbl_add r t" by (auto simp: create_or_mark_running_def Let_def)
  have "next_id gr_id t \<notin> gr_id ` set t" using next_id_gt [of _ t gr_id] by force
  then have "get_report i t' = (if i = gr_id r then Some r else get_report i t)" for i
    using r reports.get_None [of "next_id gr_id t" t]
    by (auto simp: get_report_def tbl_get_add split: option.splits)
  then show ?thesis
    by (simp add: r(1) set_running_def new_report_def report_key_def period_key_def)
next
  case (Some r0)
  with assms(2) have r: "r = set_running now d mode incl by r0" "t' = tbl_update gr_id (gr_id r0) (set_running now d mode incl by) t"
    by (auto simp: create_or_mark_running_def Let_def split: if_splits)
  have "r0 \<in> set t" "report_key r0 = period_key p" using find_report_Some [OF Some] by simp_all
  moreover have "tbl_get gr_id (gr_id r0) t = Some r0"
    using assms(1) \<open>r0 \<in> set t\<close> by (intro reports.get_unique) (simp_all add: reports_ok_def)
  ultimately show ?thesis
    using r by (simp add: get_report_def reports.get_upd) (simp add: set_running_def)
qed

end
