(* ===== verification/Report_Files.thy ===== *)
theory Report_Files
  imports Reports Paths
begin

text \<open>
  The documents of a report (\<open>reports/generator.py\<close>): where they are stored, and the tables they
  show. Drawing a table (reportlab, openpyxl, \<open>csv\<close>) is a library's work: \<open>df_write\<close> stands for
  writing one document, which gives the digest of the file. Parameters: \<open>resolve()\<close>, \<open>str\<close> of a number,
  \<open>f"{size:.1f}"\<close>.
\<close>

section \<open>Where documents are stored\<close>

record doc_files =
  df_dir :: path
  df_write :: "str \<Rightarrow> path \<Rightarrow> report_build_data \<Rightarrow> str res"
  df_resolve :: "path \<Rightarrow> path"

definition DOC_KINDS :: "str list" where
  "DOC_KINDS = [lit ''pdf'', lit ''xlsx'', lit ''csv'']"

text \<open>\<open>label.replace("-", "/")\<close>, a character for a character.\<close>

definition report_dir :: "report_period \<Rightarrow> path" where
  "report_dir p =
     join_path (parse_path (pe_type p)) (parse_path (map (\<lambda>c. if c = 45 then 47 else c) (pe_label p)))"

definition report_stem :: "report_period \<Rightarrow> int \<Rightarrow> str" where
  "report_stem p report_id =
     lit ''safetyhub_'' @ pe_type p @ lit ''_'' @ pe_label p @ lit ''_'' @ decimal (nat report_id)"

text \<open>Relative to the reports directory.\<close>

definition report_file :: "report_period \<Rightarrow> int \<Rightarrow> str \<Rightarrow> path" where
  "report_file p report_id kind =
     join_path (report_dir p) (parse_path (report_stem p report_id @ lit ''.'' @ kind))"

definition generate_report_files :: "doc_files \<Rightarrow> report_build_data \<Rightarrow> int \<Rightarrow> (doc_map \<times> doc_map) res" where
  "generate_report_files df data report_id =
     (let rel = report_file (bd_period data) report_id in
      rbind (rmap (\<lambda>kind. rbind (df_write df kind (join_path (df_dir df) (rel kind)) data)
                             (\<lambda>digest. Inr (kind, digest))) DOC_KINDS) (\<lambda>hashes.
      Inr (map (\<lambda>kind. (kind, path_str (rel kind))) DOC_KINDS, hashes)))"

definition resolve_report_path :: "doc_files \<Rightarrow> str \<Rightarrow> path res" where
  "resolve_report_path df relative_path =
     (let base = df_resolve df (df_dir df);
          p = df_resolve df (join_path base (parse_path relative_path))
      in if \<not> is_parent base p then Inl (Value_Error (lit ''invalid report path'')) else Inr p)"

section \<open>Tables\<close>

text \<open>\<open>rows[::step]\<close>.\<close>

definition every :: "nat \<Rightarrow> 'a list \<Rightarrow> 'a list" where
  "every step rows = map (\<lambda>i. rows ! (i * step)) [0..<(length rows + step - 1) div step]"

text \<open>\<open>selected[-1] is not rows[-1]\<close>: the rows are different objects, so this compares positions.\<close>

definition table_trend_rows :: "'a list \<Rightarrow> 'a list" where
  "table_trend_rows rows =
     (if length rows \<le> 14 then rows
      else (let step = max 1 (length rows div 14);
                selected = every step rows;
                last_selected = (length selected - 1) * step
            in take 16 (if last_selected \<noteq> length rows - 1 then selected @ [last rows] else selected)))"

definition stat_text :: "(rat \<Rightarrow> str) \<Rightarrow> rat \<times> rat \<times> rat \<Rightarrow> str" where
  "stat_text show_num s = (case s of (a, m, p) \<Rightarrow> show_num a @ lit ''/'' @ show_num m @ lit ''/'' @ show_num p)"

text \<open>The rows under the heading of the table.\<close>

definition trend_rows :: "(rat \<Rightarrow> str) \<Rightarrow> report_build_data \<Rightarrow> (str \<times> nat \<times> nat \<times> str \<times> str) list" where
  "trend_rows show_num data =
     map (\<lambda>r. (tr_label r, tr_security_events r, tr_blocked r, stat_text show_num (tr_cpu r),
        stat_text show_num (tr_queue r))) (table_trend_rows (bd_trend data))"

definition rule_rows :: "report_build_data \<Rightarrow> json list list" where
  "rule_rows data =
     map (\<lambda>item. map (\<lambda>(k, d). get_or item (lit k) d)
            [(''rule_id'', JStr []), (''rule_level'', JStr []), (''scanner_type'', JStr []),
             (''action_taken'', JStr []), (''count'', JInt 0)]) (take 10 (bd_rules data))"

text \<open>\<open>label[:2]\<close>, \<open>label[-2:]\<close>, \<open>label[5:10]\<close>.\<close>

definition axis_label :: "str \<Rightarrow> nat \<Rightarrow> nat \<Rightarrow> str \<Rightarrow> str" where
  "axis_label report_type n index label =
     (if report_type = lit ''daily'' then (if endswith label (lit '':00'') then take 2 label else [])
      else if report_type = lit ''monthly'' then drop (length label - 2) label
      else if index = 0 \<or> index = n - 1 \<or> endswith label (lit ''00:00'') then take 5 (drop 5 label)
      else [])"

definition axis_labels :: "str \<Rightarrow> str list \<Rightarrow> str list" where
  "axis_labels report_type labels =
     map (\<lambda>(i, l). axis_label report_type (length labels) i l) (enumerate 0 labels)"

text \<open>The curves: labels, the three series of averages, the labels shown. With no data there is one
  point of zeros.\<close>

definition NO_DATA :: str where
  "NO_DATA = [26080, 25968, 25454]"

definition runtime_chart :: "report_build_data \<Rightarrow> str list \<times> rat list \<times> rat list \<times> rat list \<times> str list" where
  "runtime_chart data =
     (let rows = bd_trend data;
          labels = (if rows = [] then [NO_DATA] else map tr_label rows);
          series = (\<lambda>f. if rows = [] then [0] else map (\<lambda>r. fst (f r)) rows)
      in (labels, series tr_cpu, series tr_queue, series tr_archive, axis_labels (pe_type (bd_period data)) labels))"

text \<open>A list of dictionaries as a sheet (the first row's keys are the headings) and as a CSV file (all
  keys, sorted).\<close>

definition sheet_of :: "(str \<times> json) list list \<Rightarrow> json list list" where
  "sheet_of rows =
     (if rows = [] then [[JStr (lit ''empty'')]]
      else (let headers = map fst (hd rows)
            in map JStr headers # map (\<lambda>row. map (\<lambda>h. get_or row h (JStr [])) headers) rows))"

definition csv_fields :: "(str \<times> json) list list \<Rightarrow> str list" where
  "csv_fields rows =
     (let fs = sort (remdups (concat (map (map fst) rows))) in if fs = [] then [lit ''empty''] else fs)"

definition csv_of :: "report_build_data \<Rightarrow> str list \<times> json list list" where
  "csv_of data =
     (let fs = csv_fields (bd_high_risk data)
      in (fs, map (\<lambda>row. map (\<lambda>f. get_or row f (JStr [])) fs) (bd_high_risk data)))"

text \<open>\<open>_format_bytes\<close>: the unit is the first in which the size is below 1024, or the last.\<close>

fun scale_bytes :: "str list \<Rightarrow> rat \<Rightarrow> rat \<times> str" where
  "scale_bytes (u # v # us) sz = (if sz \<ge> 1024 then scale_bytes (v # us) (sz / 1024) else (sz, u))"
| "scale_bytes [u] sz = (sz, u)"
| "scale_bytes [] sz = (sz, [])"

definition format_bytes :: "(rat \<Rightarrow> str) \<Rightarrow> int \<Rightarrow> str" where
  "format_bytes one_decimal v =
     (if v = 0 then lit ''0B''
      else (case scale_bytes [lit ''B'', lit ''KB'', lit ''MB'', lit ''GB'', lit ''TB''] (of_int v) of
              (sz, u) \<Rightarrow> one_decimal sz @ u))"

section \<open>Facts\<close>

lemma length_every: "0 < step \<Longrightarrow> length (every step rows) = (length rows + step - 1) div step"
  by (simp add: every_def)

lemma every_one: "every 1 rows = rows"
  by (simp add: every_def map_nth)

lemma table_trend_rows_bound: "length (table_trend_rows rows) \<le> 16"
  by (simp add: table_trend_rows_def Let_def)

text \<open>Between 17 and 27 rows the step is 1, and the table is the first sixteen rows.\<close>

lemma table_trend_rows_cut:
  assumes "17 \<le> length rows" "length rows \<le> 27"
  shows "table_trend_rows rows = take 16 rows"
proof -
  have "length rows div 14 = 1" using assms by linarith
  moreover have "length rows - 1 = (length (every 1 rows) - 1) * 1" by (simp only: every_one mult_1_right)
  ultimately show ?thesis using assms by (simp add: table_trend_rows_def every_one [simplified])
qed

lemma table_trend_rows_first:
  assumes "rows \<noteq> []"
  shows "hd (table_trend_rows rows) = hd rows"
proof (cases "length rows \<le> 14")
  case False
  let ?s = "max 1 (length rows div 14)"
  have "every ?s rows = rows ! 0 # map (\<lambda>i. rows ! (i * ?s)) [1..<(length rows + ?s - 1) div ?s]"
  proof -
    have "0 < (length rows + ?s - 1) div ?s" using False by (simp add: div_greater_zero_iff)
    then show ?thesis by (simp add: every_def upt_conv_Cons)
  qed
  with False assms show ?thesis by (simp add: table_trend_rows_def Let_def hd_conv_nth)
qed (simp add: table_trend_rows_def)

lemma scale_bytes_small:
  "scale_bytes us sz = (s, u) \<Longrightarrow> us \<noteq> [] \<Longrightarrow> u \<in> set us \<and> (s < 1024 \<or> u = last us)"
  by (induction us sz rule: scale_bytes.induct) (auto split: if_splits)

lemma resolve_report_path_inside: "resolve_report_path df r = Inr p \<Longrightarrow> is_parent (df_resolve df (df_dir df)) p"
  by (simp add: resolve_report_path_def Let_def split: if_splits)

lemma generate_report_files_paths:
  assumes "generate_report_files df data i = Inr (paths, hashes)" "k \<in> set DOC_KINDS"
  shows "get_or paths k [] = path_str (report_file (bd_period data) i k)"
proof -
  from assms(1) have p: "paths = map (\<lambda>kind. (kind, path_str (report_file (bd_period data) i kind))) DOC_KINDS"
    by (auto simp: generate_report_files_def Let_def rbind_eq_Inr)
  from assms(2) show ?thesis unfolding p by (auto simp: DOC_KINDS_def get_or_def)
qed

text \<open>What is stored is found again.\<close>

lemma split_on_nonempty: "split_on c x \<noteq> []"
  by (cases x) (auto split: list.splits)

lemma split_on_parts: "s \<in> set (split_on c x) \<Longrightarrow> c \<notin> set s"
proof (induction x arbitrary: s)
  case (Cons y x)
  obtain q qs where q: "split_on c x = q # qs" using split_on_nonempty [of c x] by (cases "split_on c x") auto
  with Cons show ?case by (auto split: if_splits)
qed simp

lemma parse_path_parts: "s \<in> set (pt_parts (parse_path x)) \<Longrightarrow> plain_part s"
  using split_on_parts by (auto simp: parse_path_def plain_part_def)

lemma parse_path_first:
  assumes "c \<noteq> 47" "c \<noteq> 46"
  shows "\<not> pt_absolute (parse_path (c # x))" "pt_parts (parse_path (c # x)) \<noteq> []"
proof -
  obtain q qs where q: "split_on 47 x = q # qs" using split_on_nonempty [of 47 x] by (cases "split_on 47 x") auto
  show "\<not> pt_absolute (parse_path (c # x))" using assms(1) by (simp add: parse_path_def startswith_def)
  show "pt_parts (parse_path (c # x)) \<noteq> []" using assms q by (simp add: parse_path_def lit_def)
qed

lemma report_file_plain:
  assumes "pe_type p \<in> set REPORT_TYPES" "pe_label p = c # l" "48 \<le> c" "c < 58"
  shows "\<not> pt_absolute (report_file p i k)" "pt_parts (report_file p i k) \<noteq> []"
    "\<forall>s\<in>set (pt_parts (report_file p i k)). plain_part s"
proof -
  let ?type = "parse_path (pe_type p)" and ?label = "parse_path (map (\<lambda>c. if c = 45 then 47 else c) (pe_label p))"
    and ?name = "parse_path (report_stem p i @ lit ''.'' @ k)"
  obtain d ds where d: "pe_type p = d # ds" "d \<noteq> 47" "d \<noteq> 46" using assms(1) by (auto simp: REPORT_TYPES_def lit_def)
  have l: "map (\<lambda>c. if c = 45 then 47 else c) (pe_label p) = c # map (\<lambda>c. if c = 45 then 47 else c) l" "c \<noteq> 47" "c \<noteq> 46"
    using assms by auto
  obtain r where r: "report_stem p i @ lit ''.'' @ k = 115 # r"
    by (simp add: report_stem_def lit_def)
  have "\<not> pt_absolute ?type" "\<not> pt_absolute ?label" "\<not> pt_absolute ?name" "pt_parts ?name \<noteq> []"
    using parse_path_first [OF d(2,3)] parse_path_first [OF l(2,3)] parse_path_first [of 115 r]
    unfolding d(1) l(1) r by simp_all
  then show "\<not> pt_absolute (report_file p i k)" "pt_parts (report_file p i k) \<noteq> []"
    "\<forall>s\<in>set (pt_parts (report_file p i k)). plain_part s"
    using parse_path_parts by (auto simp: report_file_def report_dir_def join_path_def)
qed

lemma stored_path_resolves:
  assumes "pe_type (bd_period data) \<in> set REPORT_TYPES" "pe_label (bd_period data) = c # l" "48 \<le> c" "c < 58"
    and "generate_report_files df data i = Inr (paths, hashes)" "k \<in> set DOC_KINDS"
    and "df_resolve df (df_dir df) = df_dir df"
    and "df_resolve df (join_path (df_dir df) (report_file (bd_period data) i k)) = join_path (df_dir df) (report_file (bd_period data) i k)"
  shows "resolve_report_path df (get_or paths k []) = Inr (join_path (df_dir df) (report_file (bd_period data) i k))"
proof -
  note plain = report_file_plain [OF assms(1-4), of i k]
  have "get_or paths k [] = path_str (report_file (bd_period data) i k)"
    by (rule generate_report_files_paths [OF assms(5,6)])
  then have "parse_path (get_or paths k []) = report_file (bd_period data) i k"
    using parse_path_str [OF plain] by simp
  moreover have "is_parent (df_dir df) (join_path (df_dir df) (report_file (bd_period data) i k))"
    using plain(1) by (simp add: is_parent_def join_path_def)
  ultimately show ?thesis using assms(7,8) by (simp add: resolve_report_path_def Let_def)
qed

end
