(* ===== verification/Report_Service.thy ===== *)
theory Report_Service
  imports Report_Files Concurrency Archive_Queue
begin

text \<open>
  The report service and its scheduler (\<open>runtime/reports.py\<close>). A generation holds a file lock of its
  period; the table of reports is shared with the other workers, whose changes while a document
  is built are the function \<open>se_between\<close>. Parameters: the clock, the failures of the database and of
  the document writer, \<open>str\<close> of an exception, the machine's measurements, \<open>time.fromisoformat\<close>.
\<close>

section \<open>Locks\<close>

text \<open>The locks that are held, by whatever process.\<close>

record report_state =
  sv_reports :: report_table
  sv_samples :: "runtime_sample list"
  sv_locks :: "str list"

definition with_file_lock :: "str \<Rightarrow> (report_state \<Rightarrow> report_state \<times> 'a res) \<Rightarrow> report_state \<Rightarrow> report_state \<times> 'a res" where
  "with_file_lock name body s =
     (if name \<in> set (sv_locks s) then (s, Inl (Runtime_Error (lit ''report task is already running'')))
      else (case body (s\<lparr>sv_locks := name # sv_locks s\<rparr>) of
              (s', r) \<Rightarrow> (s'\<lparr>sv_locks := remove1 name (sv_locks s')\<rparr>, r)))"

section \<open>Generation\<close>

record service_env =
  se_now :: int
  se_retention_days :: int
  se_dumps :: "json \<Rightarrow> str"
  se_round2 :: "rat \<Rightarrow> rat"
  se_isoformat :: "int \<Rightarrow> str"
  se_exn_text :: "exn \<Rightarrow> str"
  se_training :: training_table
  se_audits :: "audit_log list"
  se_read_error :: "exn option"
  se_files :: doc_files
  se_between :: "report_table \<Rightarrow> report_table"
  se_webhook_url :: str
  se_webhook_type :: str

text \<open>A task that is cancelled raises \<open>CancelledError\<close>, which \<open>except Exception\<close> does not catch.\<close>

definition CANCELLED :: exn where
  "CANCELLED = Other_Error (lit ''CancelledError'')"

definition lock_name :: "report_period \<Rightarrow> str" where
  "lock_name p = lit ''generate_'' @ pe_type p @ lit ''_'' @ pe_label p"

text \<open>The data and the documents.\<close>

definition build_documents ::
    "service_env \<Rightarrow> report_period \<Rightarrow> bool \<Rightarrow> int \<Rightarrow> runtime_sample list \<Rightarrow> (report_build_data \<times> doc_map \<times> doc_map) res" where
  "build_documents env p include_sensitive report_id samples =
     rbind (case se_read_error env of
              Some e \<Rightarrow> Inl e
            | None \<Rightarrow> Inr (build_data (se_round2 env) (se_isoformat env) p include_sensitive (se_training env)
                             (se_audits env) samples)) (\<lambda>data.
     rbind (generate_report_files (se_files env) data report_id) (\<lambda>(paths, hashes).
     Inr (data, paths, hashes)))"

definition finish_report ::
    "service_env \<Rightarrow> int \<Rightarrow> (report_build_data \<times> doc_map \<times> doc_map) res \<Rightarrow> report_table
     \<Rightarrow> report_table \<times> generated_report res" where
  "finish_report env report_id built t =
     (let finished = (case built of
              Inl e \<Rightarrow> (t, Inl e)
            | Inr (data, paths, hashes) \<Rightarrow>
                mark_succeeded (se_dumps env) (se_now env) report_id paths hashes (JDict (bd_summary data))
                  (JDict (bd_runtime data)) t)
      in case finished of
           (t', Inr r) \<Rightarrow> (t', Inr r)
         | (t', Inl e) \<Rightarrow>
             if e = CANCELLED then (t', Inl e)
             else (mark_failed (se_now env) report_id (se_exn_text env e) t', Inl e))"

definition generate ::
    "service_env \<Rightarrow> report_period \<Rightarrow> str \<Rightarrow> bool \<Rightarrow> str \<Rightarrow> report_state \<Rightarrow> report_state \<times> generated_report res" where
  "generate env p mode include_sensitive generated_by =
     with_file_lock (lock_name p) (\<lambda>s.
       case create_or_mark_running (se_now env) (se_retention_days env) p mode include_sensitive generated_by
              (sv_reports s) of
         (t, Inl e) \<Rightarrow> (s\<lparr>sv_reports := t\<rparr>, Inl e)
       | (t, Inr report) \<Rightarrow>
           (case finish_report env (gr_id report)
                   (build_documents env p include_sensitive (gr_id report) (sv_samples s)) (se_between env t) of
              (t', r) \<Rightarrow> (s\<lparr>sv_reports := t'\<rparr>, r)))"

section \<open>Scheduled work\<close>

text \<open>The alert: its title and error are Chinese text.\<close>

definition ALERT_TITLE :: str where
  "ALERT_TITLE = [25253, 34920, 29983, 25104, 22833, 36133]"

definition ALERT_ERROR :: str where
  "ALERT_ERROR = [38169, 35823, 25688, 35201, 65306]"

text \<open>Both kinds of webhook get the same payload.\<close>

definition alert_payload :: "str \<Rightarrow> str \<Rightarrow> json" where
  "alert_payload report_type error_message =
     (let title = lit ''SafetyHub '' @ report_type @ lit '' '' @ ALERT_TITLE;
          message = title @ [10] @ ALERT_ERROR @ take 500 error_message
      in JDict [(lit ''msgtype'', JStr (lit ''text'')), (lit ''text'', JDict [(lit ''content'', JStr message)])])"

text \<open>What is posted; a failure to post is suppressed.\<close>

definition send_report_alert :: "service_env \<Rightarrow> str \<Rightarrow> str \<Rightarrow> (str \<times> json) list" where
  "send_report_alert env report_type error_message =
     (if se_webhook_url env = [] then []
      else [(se_webhook_url env, alert_payload report_type error_message)])"

text \<open>\<open>KeyProviderError\<close> and \<open>ScannerUnavailable\<close> would be \<open>RuntimeError\<close>s too, but nothing here raises
  them.\<close>

fun is_runtime_error :: "exn \<Rightarrow> bool" where
  "is_runtime_error (Runtime_Error m) = True"
| "is_runtime_error _ = False"

definition generate_scheduled :: "service_env \<Rightarrow> str \<Rightarrow> report_state \<Rightarrow> report_state \<times> (str \<times> json) list res" where
  "generate_scheduled env report_type s =
     (let (s', r) = (case period_for report_type (se_now env) of
              Inl e \<Rightarrow> (s, Inl e)
            | Inr p \<Rightarrow> generate env p (lit ''scheduled'') False (lit ''system'') s)
      in (s', case r of
            Inr report \<Rightarrow> Inr []
          | Inl e \<Rightarrow> if e = CANCELLED then Inl e
                     else if is_runtime_error e then Inr []
                     else Inr (send_report_alert env report_type (se_exn_text env e))))"

text \<open>A measurement of the machine; the disks give zeros when they cannot be read.\<close>

record measurement =
  me_pid :: int
  me_cpu_percent :: rat
  me_memory_percent :: rat
  me_data_disk :: "(int \<times> int \<times> int) option"
  me_system_disk :: "(int \<times> int \<times> int) option"
  me_raw_json :: str

definition disk_usage :: "(int \<times> int \<times> int) option \<Rightarrow> int \<times> int \<times> int" where
  "disk_usage u = (case u of Some d \<Rightarrow> d | None \<Rightarrow> (0, 0, 0))"

definition runtime_sample_of ::
    "service_env \<Rightarrow> measurement \<Rightarrow> limiter option \<Rightarrow> archive_queue option \<Rightarrow> runtime_sample" where
  "runtime_sample_of env me lm q =
     (let v1 = (case lm of Some l \<Rightarrow> snapshot l | None \<Rightarrow> []);
          archive = (case q of Some a \<Rightarrow> queue_snapshot a | None \<Rightarrow> []);
          (dt, du, df) = disk_usage (me_data_disk me);
          (yt, yu, yf) = disk_usage (me_system_disk me)
      in \<lparr>sa_id = 0, sa_sampled_at = se_now env, sa_worker_pid = me_pid me, sa_health_status = lit ''healthy'',
          sa_cpu_percent = se_round2 env (me_cpu_percent me), sa_memory_percent = se_round2 env (me_memory_percent me),
          sa_data_disk_total = dt, sa_data_disk_used = du, sa_data_disk_free = df,
          sa_system_disk_total = yt, sa_system_disk_used = yu, sa_system_disk_free = yf,
          sa_v1_inflight = \<lfloor>get_or v1 (lit ''inflight'') 0\<rfloor>, sa_v1_queued = \<lfloor>get_or v1 (lit ''queue_size'') 0\<rfloor>,
          sa_archive_queue_size = int (get_or archive (lit ''queue_size'') 0),
          sa_archive_processed_total = int (get_or archive (lit ''processed'') 0),
          sa_archive_dropped_total = int (get_or archive (lit ''dropped'') 0), sa_raw_json = me_raw_json me\<rparr>)"

text \<open>\<open>None\<close> when another process samples at the moment.\<close>

definition sample_runtime ::
    "service_env \<Rightarrow> measurement \<Rightarrow> limiter option \<Rightarrow> archive_queue option \<Rightarrow> report_state
     \<Rightarrow> report_state \<times> runtime_sample option res" where
  "sample_runtime env me lm q s =
     (case with_file_lock (lit ''runtime_sample'') (\<lambda>s.
             (let sample = (runtime_sample_of env me lm q)\<lparr>sa_id := next_id sa_id (sv_samples s)\<rparr>
              in (s\<lparr>sv_samples := save_runtime_sample sample (sv_samples s)\<rparr>, Inr (Some sample)))) s of
        (s', Inl e) \<Rightarrow> (s', if is_runtime_error e then Inr None else Inl e)
      | (s', Inr r) \<Rightarrow> (s', Inr r))"

text \<open>Files under the reports directory: path, time of the last change in seconds. The lock files are
  there as well.\<close>

definition cleanup_expired_files :: "rat \<Rightarrow> int \<Rightarrow> (str \<times> rat) list \<Rightarrow> (str \<times> rat) list" where
  "cleanup_expired_files now_seconds retention_days fs =
     filter (\<lambda>(f, mtime). \<not> mtime < now_seconds - of_int (max 1 retention_days * 86400)) fs"

definition cleanup_expired ::
    "service_env \<Rightarrow> rat \<Rightarrow> (str \<times> rat) list \<Rightarrow> report_state \<Rightarrow> report_state \<times> (nat \<times> (str \<times> rat) list) res" where
  "cleanup_expired env now_seconds fs =
     with_file_lock (lit ''cleanup'') (\<lambda>s.
       case cleanup_expired_rows (se_now env) (se_retention_days env) (sv_reports s) (sv_samples s) of
         (t, samples, removed) \<Rightarrow>
           (s\<lparr>sv_reports := t, sv_samples := samples\<rparr>,
            Inr (removed, cleanup_expired_files now_seconds (se_retention_days env) fs)))"

section \<open>The scheduler\<close>

datatype job_trigger = Every_Minutes int | Cron int int "(str \<times> str) option"

record job =
  jb_id :: str
  jb_trigger :: job_trigger
  jb_args :: "str list"

record schedule_settings =
  ss_enabled :: bool
  ss_interval :: int
  ss_daily :: str
  ss_weekly :: str
  ss_monthly :: str

definition daily_job ::
    "(str \<Rightarrow> (int \<times> int) option) \<Rightarrow> str \<Rightarrow> str \<Rightarrow> str list \<Rightarrow> (str \<times> str) option \<Rightarrow> job res" where
  "daily_job parse_time job_id v args on =
     (case parse_time v of
        None \<Rightarrow> Inl (Value_Error (lit ''Invalid isoformat string''))
      | Some (hour, minute) \<Rightarrow> Inr \<lparr>jb_id = job_id, jb_trigger = Cron hour minute on, jb_args = args\<rparr>)"

text \<open>\<open>start\<close>: the jobs that run from then on; a time that cannot be read raises before the scheduler
  runs.\<close>

definition start_scheduler ::
    "(str \<Rightarrow> (int \<times> int) option) \<Rightarrow> schedule_settings \<Rightarrow> job list option \<Rightarrow> job list option \<times> unit res" where
  "start_scheduler parse_time st running =
     (if \<not> ss_enabled st \<or> running \<noteq> None then (running, Inr ())
      else (case rbind (daily_job parse_time (lit ''daily_report'') (ss_daily st) [lit ''daily''] None) (\<lambda>d.
                 rbind (daily_job parse_time (lit ''weekly_report'') (ss_weekly st) [lit ''weekly'']
                          (Some (lit ''day_of_week'', lit ''mon''))) (\<lambda>w.
                 rbind (daily_job parse_time (lit ''monthly_report'') (ss_monthly st) [lit ''monthly'']
                          (Some (lit ''day'', lit ''1''))) (\<lambda>m.
                 rbind (daily_job parse_time (lit ''reports_cleanup'') (lit ''05:00'') [] None) (\<lambda>c.
                 Inr [\<lparr>jb_id = lit ''runtime_sample'', jb_trigger = Every_Minutes (max 1 (ss_interval st)), jb_args = []\<rparr>,
                      d, w, m, c])))) of
              Inl e \<Rightarrow> (None, Inl e)
            | Inr jobs \<Rightarrow> (Some jobs, Inr ())))"

definition stop_scheduler :: "job list option \<Rightarrow> job list option" where
  "stop_scheduler running = None"

section \<open>Facts\<close>

lemma with_file_lock_locks:
  assumes "with_file_lock name body s = (s', r)" "\<And>s0. sv_locks (fst (body s0)) = sv_locks s0"
  shows "sv_locks s' = sv_locks s"
proof -
  have "sv_locks a = name # sv_locks s" if "body (s\<lparr>sv_locks := name # sv_locks s\<rparr>) = (a, b)" for a b
    using assms(2) [of "s\<lparr>sv_locks := name # sv_locks s\<rparr>"] that by simp
  with assms(1) show ?thesis by (auto simp: with_file_lock_def split: if_splits prod.splits)
qed

lemma sv_locks_reports [simp]: "sv_reports (s\<lparr>sv_locks := l\<rparr>) = sv_reports s"
  by simp

lemma generate_free:
  assumes "lock_name p \<notin> set (sv_locks s)"
  shows "generate env p mode incl by s =
    (case create_or_mark_running (se_now env) (se_retention_days env) p mode incl by (sv_reports s) of
       (t, Inl e) \<Rightarrow> (s\<lparr>sv_reports := t\<rparr>, Inl e)
     | (t, Inr report) \<Rightarrow>
         (case finish_report env (gr_id report) (build_documents env p incl (gr_id report) (sv_samples s)) (se_between env t) of
            (t', r) \<Rightarrow> (s\<lparr>sv_reports := t'\<rparr>, r)))"
  using assms by (simp add: generate_def with_file_lock_def split: prod.splits sum.splits)

lemma generate_locks: "generate env p mode incl by s = (s', r) \<Longrightarrow> sv_locks s' = sv_locks s"
  by (cases "lock_name p \<in> set (sv_locks s)")
    (auto simp: generate_free generate_def with_file_lock_def split: prod.splits sum.splits)

text \<open>The other workers leave a running report alone: they raise on it, and it does not expire on the
  day it was started.\<close>

definition leaves_running :: "(report_table \<Rightarrow> report_table) \<Rightarrow> bool" where
  "leaves_running f \<longleftrightarrow>
     (\<forall>t r. get_report (gr_id r) t = Some r \<and> gr_status r = RUNNING \<longrightarrow> get_report (gr_id r) (f t) = Some r)"

lemma build_documents_Inr:
  "build_documents env p incl i samples = Inr (data, paths, hashes) \<Longrightarrow>
   data = build_data (se_round2 env) (se_isoformat env) p incl (se_training env) (se_audits env) samples \<and>
   generate_report_files (se_files env) data i = Inr (paths, hashes)"
  by (auto simp: build_documents_def rbind_eq_Inr split: option.splits)

lemma finish_report_result:
  assumes "get_report (gr_id r0) t = Some r0" "finish_report env (gr_id r0) built t = (t', r)"
  shows "(\<forall>e. r = Inl e \<longrightarrow> built = Inl e \<and>
      (if e = CANCELLED then t' = t
       else get_report (gr_id r0) t' = Some (set_failed (se_now env) (se_exn_text env e) r0))) \<and>
    (\<forall>row. r = Inr row \<longrightarrow> (\<exists>data paths hashes. built = Inr (data, paths, hashes) \<and>
      row = set_succeeded (se_dumps env) (se_now env) paths hashes (JDict (bd_summary data)) (JDict (bd_runtime data)) r0 \<and>
      get_report (gr_id r0) t' = Some row))"
proof (cases built)
  case (Inl e)
  with assms show ?thesis
    by (cases "e = CANCELLED") (auto simp: finish_report_def mark_failed_def get_report_def reports.get_upd)
next
  case (Inr d)
  obtain data paths hashes where d: "d = (data, paths, hashes)" by (cases d)
  with Inr assms show ?thesis
    by (auto simp: finish_report_def mark_succeeded_def get_report_def reports.get_upd Let_def)
qed

text \<open>Whatever happens, the locks are as before, and the row of the period tells the outcome.\<close>

lemma generate_outcome:
  assumes "reports_ok (sv_reports s)" "lock_name p \<notin> set (sv_locks s)" "leaves_running (se_between env)"
    and "generate env p mode incl by s = (s', r)"
  shows "sv_locks s' = sv_locks s \<and>
    (case r of
       Inr row \<Rightarrow> get_report (gr_id row) (sv_reports s') = Some row \<and> report_key row = period_key p \<and>
         gr_status row = SUCCEEDED \<and> gr_include_sensitive row = incl \<and>
         gr_pdf_path row = path_str (report_file p (gr_id row) (lit ''pdf'')) \<and>
         gr_xlsx_path row = path_str (report_file p (gr_id row) (lit ''xlsx'')) \<and>
         gr_csv_path row = path_str (report_file p (gr_id row) (lit ''csv''))
     | Inl e \<Rightarrow>
         s' = s \<and> e = Value_Error (lit ''report is already running'') \<or>
         (\<exists>row. get_report (gr_id row) (sv_reports s') = Some row \<and> report_key row = period_key p \<and>
            (if e = CANCELLED then gr_status row = RUNNING
             else gr_status row = FAILED \<and> gr_error_message row = take 2000 (se_exn_text env e))))"
proof -
  note locks = generate_locks [OF assms(4)]
  obtain t x where c: "create_or_mark_running (se_now env) (se_retention_days env) p mode incl by (sv_reports s) = (t, x)"
    by fastforce
  show ?thesis
  proof (cases x)
    case (Inl e)
    with c have "t = sv_reports s" "e = Value_Error (lit ''report is already running'')"
      by (auto simp: create_or_mark_running_def Let_def split: option.splits if_splits)
    with Inl c assms(4) locks show ?thesis by (auto simp: generate_free [OF assms(2)])
  next
    case (Inr r0)
    from create_or_mark_running_result [OF assms(1) c [unfolded Inr]]
    have r0: "get_report (gr_id r0) t = Some r0" "gr_status r0 = RUNNING" "report_key r0 = period_key p"
      "gr_include_sensitive r0 = incl" by simp_all
    with assms(3) have b: "get_report (gr_id r0) (se_between env t) = Some r0" by (simp add: leaves_running_def)
    obtain t' where f: "finish_report env (gr_id r0) (build_documents env p incl (gr_id r0) (sv_samples s)) (se_between env t) = (t', r)"
      and s': "s' = s\<lparr>sv_reports := t'\<rparr>"
      using assms(4) c Inr by (auto simp: generate_free [OF assms(2)] split: prod.splits)
    note fin = finish_report_result [OF b f]
    show ?thesis
    proof (cases r)
      case (Inl e)
      have "\<exists>row. get_report (gr_id row) t' = Some row \<and> report_key row = period_key p \<and>
          (if e = CANCELLED then gr_status row = RUNNING
           else gr_status row = FAILED \<and> gr_error_message row = take 2000 (se_exn_text env e))"
      proof (cases "e = CANCELLED")
        case True
        with fin Inl b r0 show ?thesis by (intro exI [of _ r0]) auto
      next
        case False
        with fin Inl r0 show ?thesis
          by (intro exI [of _ "set_failed (se_now env) (se_exn_text env e) r0"]) auto
      qed
      with Inl s' locks show ?thesis by simp
    next
      case res: (Inr row)
      with fin obtain data paths hashes where d: "build_documents env p incl (gr_id r0) (sv_samples s) = Inr (data, paths, hashes)"
        "row = set_succeeded (se_dumps env) (se_now env) paths hashes (JDict (bd_summary data)) (JDict (bd_runtime data)) r0"
        "get_report (gr_id r0) t' = Some row" by blast
      from build_documents_Inr [OF d(1)]
      have g: "generate_report_files (se_files env) data (gr_id r0) = Inr (paths, hashes)" and "bd_period data = p"
        by (blast, simp add: build_data_def Let_def)
      then have "get_or paths k [] = path_str (report_file p (gr_id r0) k)" if "k \<in> set DOC_KINDS" for k
        using generate_report_files_paths [OF g that] by simp
      then have "gr_pdf_path row = path_str (report_file p (gr_id r0) (lit ''pdf''))"
        "gr_xlsx_path row = path_str (report_file p (gr_id r0) (lit ''xlsx''))"
        "gr_csv_path row = path_str (report_file p (gr_id r0) (lit ''csv''))"
        by (simp_all add: d(2) set_succeeded_def DOC_KINDS_def)
      moreover have "gr_id row = gr_id r0" "report_key row = period_key p" "gr_status row = SUCCEEDED"
        "gr_include_sensitive row = incl"
        using r0 by (simp_all add: d(2)) (simp_all add: set_succeeded_def)
      ultimately show ?thesis using res d(3) locks by (simp add: s')
    qed
  qed
qed

text \<open>A cancelled generation leaves its report running, and the period can never be generated again.\<close>

lemma cancelled_generation_blocks:
  assumes "reports_ok (sv_reports s)" "lock_name p \<notin> set (sv_locks s)"
    and "se_between env = (\<lambda>t. t)" "generate env p mode incl by s = (s', Inl CANCELLED)"
    and "se_between env' = (\<lambda>t. t)"
  shows "generate env' p mode' incl' by' s' = (s', Inl (Value_Error (lit ''report is already running'')))"
proof -
  have "leaves_running (se_between env)" by (simp add: leaves_running_def assms(3))
  from generate_outcome [OF assms(1,2) this assms(4)]
  obtain row where row: "get_report (gr_id row) (sv_reports s') = Some row" "report_key row = period_key p" "gr_status row = RUNNING"
    and locks: "sv_locks s' = sv_locks s" by (auto simp: CANCELLED_def)
  obtain t x where c: "create_or_mark_running (se_now env) (se_retention_days env) p mode incl by (sv_reports s) = (t, x)"
    by fastforce
  have "sv_reports s' = t"
  proof (cases x)
    case (Inr r0)
    from create_or_mark_running_result [OF assms(1) c [unfolded Inr]] have r0: "get_report (gr_id r0) t = Some r0" by simp
    obtain t' where f: "finish_report env (gr_id r0) (build_documents env p incl (gr_id r0) (sv_samples s)) t = (t', Inl CANCELLED)"
      and s': "s' = s\<lparr>sv_reports := t'\<rparr>"
      using assms(3,4) c Inr by (auto simp: generate_free [OF assms(2)] split: prod.splits)
    from finish_report_result [OF r0 f] s' show ?thesis by simp
  qed (use c assms(4) in \<open>auto simp: generate_free [OF assms(2)]\<close>)
  with create_or_mark_running_ok [OF assms(1), of "se_now env" "se_retention_days env" p mode incl "by"] c
  have ok: "reports_ok (sv_reports s')" by simp
  have "row \<in> set (sv_reports s')" using row(1) by (simp add: get_report_def reports.get_Some)
  have "find (\<lambda>r. report_key r = period_key p) (sv_reports s') = Some row"
  proof -
    obtain r where r: "find (\<lambda>r. report_key r = period_key p) (sv_reports s') = Some r"
      using \<open>row \<in> set (sv_reports s')\<close> row(2) by (metis (mono_tags, lifting) find_None_iff option.exhaust)
    from find_report_Some [OF r] \<open>row \<in> set (sv_reports s')\<close> row(2) ok have "r = row"
      by (auto simp: reports_ok_def distinct_map inj_on_def)
    with r show ?thesis by simp
  qed
  then have "create_or_mark_running (se_now env') (se_retention_days env') p mode' incl' by' (sv_reports s') =
      (sv_reports s', Inl (Value_Error (lit ''report is already running'')))"
    using row(3) by (simp add: create_or_mark_running_def)
  moreover have "lock_name p \<notin> set (sv_locks s')" using assms(2) locks by simp
  ultimately show ?thesis by (simp add: generate_free)
qed

lemma cleanup_expired_files_old:
  "f \<in> set fs \<Longrightarrow> f \<notin> set (cleanup_expired_files now d fs) \<Longrightarrow> snd f < now - of_int (max 1 d * 86400)"
  by (auto simp: cleanup_expired_files_def)

end
