(* ===== verification/Admin_Reports.thy ===== *)
theory Admin_Reports
  imports Admin_Router Report_Service
begin

text \<open>
  The administration's handlers over the report service and its view of the running process
  (\<open>admin/router.py\<close>: reports, \<open>/runtime\<close>). Parameters: whether a file exists, the disks, \<open>expanduser\<close>.
\<close>

section \<open>Reports\<close>

text \<open>\<open>None\<close>: the application has no report service.\<close>

record report_admin =
  ra_admin :: admin_state
  ra_service :: "report_state option"

record report_item =
  ri_id :: int
  ri_report_type :: str
  ri_period_start :: int
  ri_period_end :: int
  ri_timezone :: str
  ri_status :: str
  ri_generation_mode :: str
  ri_include_sensitive :: bool
  ri_summary :: json
  ri_runtime_summary :: json
  ri_error_message :: str
  ri_generated_by :: str
  ri_generated_at :: "int option"
  ri_expires_at :: "int option"
  ri_created_at :: int
  ri_files :: "(str \<times> bool) list"

definition report_to_item :: "(str \<Rightarrow> json option) \<Rightarrow> generated_report \<Rightarrow> report_item" where
  "report_to_item loads r =
     \<lparr>ri_id = gr_id r, ri_report_type = gr_report_type r, ri_period_start = gr_period_start r,
      ri_period_end = gr_period_end r, ri_timezone = gr_timezone r, ri_status = gr_status r,
      ri_generation_mode = gr_generation_mode r, ri_include_sensitive = gr_include_sensitive r,
      ri_summary = parse_json loads (gr_summary_json r) (JDict []),
      ri_runtime_summary = parse_json loads (gr_runtime_summary_json r) (JDict []),
      ri_error_message = gr_error_message r, ri_generated_by = gr_generated_by r,
      ri_generated_at = gr_generated_at r, ri_expires_at = gr_expires_at r, ri_created_at = gr_created_at r,
      ri_files = [(lit ''pdf'', gr_pdf_path r \<noteq> []), (lit ''xlsx'', gr_xlsx_path r \<noteq> []),
                  (lit ''csv'', gr_csv_path r \<noteq> [])]\<rparr>"

definition report_service :: "report_admin \<Rightarrow> report_state res" where
  "report_service s =
     (case ra_service s of None \<Rightarrow> Inl (Http_Error 503 (lit ''report service unavailable'')) | Some v \<Rightarrow> Inr v)"

definition list_report_items ::
    "admin_env \<Rightarrow> str option \<Rightarrow> str option \<Rightarrow> int \<Rightarrow> int \<Rightarrow> report_admin \<Rightarrow> report_item listing res" where
  "list_report_items env report_type status limit offset s =
     rbind (report_service s) (\<lambda>v.
     case list_reports report_type status limit offset (sv_reports v) of
       (rows, n) \<Rightarrow> Inr \<lparr>ls_items = map (report_to_item (ae_loads env)) rows, ls_total = n,
                             ls_limit = limit, ls_offset = offset\<rparr>)"

text \<open>The handler's two \<open>except\<close> clauses. \<open>except Exception\<close> also takes the 503 of a missing service.\<close>

fun report_error :: "(exn \<Rightarrow> str) \<Rightarrow> exn \<Rightarrow> exn" where
  "report_error exn_text (Value_Error m) = Http_Error 409 m"
| "report_error exn_text e =
     (if e = CANCELLED then e else Http_Error 500 (lit ''report generation failed: '' @ exn_text e))"

definition generate_report ::
    "admin_env \<Rightarrow> service_env \<Rightarrow> (str \<Rightarrow> int option) \<Rightarrow> (int \<Rightarrow> str) \<Rightarrow> str \<Rightarrow> str \<Rightarrow> bool \<Rightarrow> report_admin
     \<Rightarrow> report_admin \<times> report_item res" where
  "generate_report env se iso_other show_id report_type period_value include_sensitive s =
     (case rbind (period_from_values iso_other report_type period_value) (\<lambda>p.
            rbind (report_service s) (\<lambda>v. Inr (p, v))) of
        Inl e \<Rightarrow> (s, Inl (report_error (se_exn_text se) e))
      | Inr (p, v) \<Rightarrow>
          (case generate se p (lit ''manual'') include_sensitive (ae_admin_user env) v of
             (v', Inl e) \<Rightarrow> (s\<lparr>ra_service := Some v'\<rparr>, Inl (report_error (se_exn_text se) e))
           | (v', Inr r) \<Rightarrow>
               (\<lparr>ra_admin = write_admin_operation env (lit ''report.generate'') (lit ''report'') (show_id (gr_id r))
                    (ra_admin s), ra_service = Some v'\<rparr>,
                Inr (report_to_item (ae_loads env) r))))"

definition sample_report_runtime ::
    "service_env \<Rightarrow> measurement \<Rightarrow> limiter option \<Rightarrow> archive_queue option \<Rightarrow> report_admin \<Rightarrow> report_admin \<times> unit res" where
  "sample_report_runtime se me lm q s =
     (case report_service s of
        Inl e \<Rightarrow> (s, Inl e)
      | Inr v \<Rightarrow> (case sample_runtime se me lm q v of
                    (v', r) \<Rightarrow> (s\<lparr>ra_service := Some v'\<rparr>, rbind r (\<lambda>_. Inr ()))))"

text \<open>The file that is sent.\<close>

definition download_report ::
    "doc_files \<Rightarrow> (path \<Rightarrow> bool) \<Rightarrow> int \<Rightarrow> str \<Rightarrow> report_admin \<Rightarrow> path res" where
  "download_report df file_exists report_id format s =
     rbind (report_service s) (\<lambda>v.
     case get_report report_id (sv_reports v) of
       None \<Rightarrow> Inl (Http_Error 404 (lit ''report not found''))
     | Some r \<Rightarrow>
         if gr_status r \<noteq> SUCCEEDED then Inl (Http_Error 404 (lit ''report not found''))
         else (let relative_path = get_or [(lit ''pdf'', gr_pdf_path r), (lit ''xlsx'', gr_xlsx_path r),
                                           (lit ''csv'', gr_csv_path r)] format [] in
               if relative_path = [] then Inl (Http_Error 404 (lit ''report file not found''))
               else rbind (resolve_report_path df relative_path) (\<lambda>p.
                    if \<not> file_exists p then Inl (Http_Error 404 (lit ''report file missing'')) else Inr p)))"

section \<open>The running process\<close>

text \<open>Numbers of a snapshot; the values that are not there are \<open>None\<close>.\<close>

definition v1_concurrency_snapshot :: "limiter option \<Rightarrow> limiter \<Rightarrow> (str \<times> rat option) list \<times> str" where
  "v1_concurrency_snapshot running configured =
     (case running of
        Some lm \<Rightarrow> (map (\<lambda>(k, v). (k, Some v)) (snapshot lm), lit ''worker'')
      | None \<Rightarrow>
          ([(lit ''max_inflight'', Some (of_int (lm_max_inflight configured))),
            (lit ''max_queue_size'', Some (of_int (lm_max_queue_size configured))),
            (lit ''queue_timeout_seconds'', Some (lm_timeout configured)),
            (lit ''inflight'', None), (lit ''queue_size'', None)], lit ''configured''))"

definition archive_queue_snapshot :: "archive_queue option \<Rightarrow> nat \<Rightarrow> (str \<times> nat option) list \<times> str" where
  "archive_queue_snapshot running max_size =
     (case running of
        Some q \<Rightarrow> (map (\<lambda>(k, v). (k, Some v)) (queue_snapshot q), lit ''worker'')
      | None \<Rightarrow>
          ([(lit ''queue_size'', None), (lit ''max_size'', Some max_size), (lit ''dropped'', None),
            (lit ''processed'', None)], lit ''configured''))"

record disk_item =
  di_key :: str
  di_name :: str
  di_path :: str
  di_total_bytes :: int
  di_used_bytes :: int
  di_free_bytes :: int
  di_used_percent :: rat
  di_available :: bool
  di_error :: str

text \<open>\<open>disk\<close> is \<open>shutil.disk_usage\<close>: total, used, free, or the text of its \<open>OSError\<close>.\<close>

definition disk_space_item ::
    "(rat \<Rightarrow> rat) \<Rightarrow> (str \<Rightarrow> str + int \<times> int \<times> int) \<Rightarrow> str \<Rightarrow> str \<Rightarrow> str \<Rightarrow> str \<Rightarrow> disk_item" where
  "disk_space_item round2 disk key name host_path container_path =
     (case disk container_path of
        Inl e \<Rightarrow> \<lparr>di_key = key, di_name = name, di_path = host_path, di_total_bytes = 0, di_used_bytes = 0,
                  di_free_bytes = 0, di_used_percent = 0, di_available = False, di_error = e\<rparr>
      | Inr (tot, used, free) \<Rightarrow>
          \<lparr>di_key = key, di_name = name, di_path = host_path, di_total_bytes = tot, di_used_bytes = used,
           di_free_bytes = free,
           di_used_percent = (if tot \<noteq> 0 then round2 (of_int used / of_int tot * 100) else 0),
           di_available = True, di_error = []\<rparr>)"

definition SYSTEM_DISK :: str where "SYSTEM_DISK = [31995, 32479, 30424]"
definition DATA_DISK :: str where "DATA_DISK = [25968, 25454, 30424]"

text \<open>One item per container path: a path that was seen is skipped.\<close>

fun disk_items ::
    "(rat \<Rightarrow> rat) \<Rightarrow> (str \<Rightarrow> str + int \<times> int \<times> int) \<Rightarrow> (str \<Rightarrow> str) \<Rightarrow> str list \<Rightarrow> (str \<times> str \<times> str \<times> str) list
     \<Rightarrow> disk_item list" where
  "disk_items round2 disk expanduser seen [] = []"
| "disk_items round2 disk expanduser seen ((key, name, host_path, container_path) # ds) =
     (let c = expanduser container_path in
      if c \<in> set seen then disk_items round2 disk expanduser seen ds
      else disk_space_item round2 disk key name (expanduser host_path) c #
             disk_items round2 disk expanduser (c # seen) ds)"

definition disk_space_snapshot ::
    "(rat \<Rightarrow> rat) \<Rightarrow> (str \<Rightarrow> str + int \<times> int \<times> int) \<Rightarrow> (str \<Rightarrow> str) \<Rightarrow> str \<Rightarrow> str \<Rightarrow> str \<Rightarrow> disk_item list" where
  "disk_space_snapshot round2 disk expanduser system_path system_container_path data_path =
     disk_items round2 disk expanduser []
       [(lit ''system'', SYSTEM_DISK, system_path, system_container_path),
        (lit ''data'', DATA_DISK, data_path, data_path)]"

text \<open>\<open>/runtime\<close>. The settings it shows are a record of their own.\<close>

record runtime_config =
  rc_workers :: int
  rc_max_connections :: int
  rc_max_keepalive_connections :: int
  rc_keepalive_expiry :: int
  rc_timeout_connect :: int
  rc_timeout_read :: int
  rc_timeout_pool :: int
  rc_stats_cache_seconds :: int
  rc_system_path :: str
  rc_system_container_path :: str
  rc_data_path :: str

record runtime_view =
  rv_worker_pid :: int
  rv_configured_workers :: int
  rv_v1_concurrency :: "(str \<times> rat option) list \<times> str"
  rv_archive_queue :: "(str \<times> nat option) list \<times> str"
  rv_upstream :: "(str \<times> int) list"
  rv_admin :: "(str \<times> int) list"
  rv_disk_space :: "disk_item list"

definition runtime_status ::
    "(rat \<Rightarrow> rat) \<Rightarrow> (str \<Rightarrow> str + int \<times> int \<times> int) \<Rightarrow> (str \<Rightarrow> str) \<Rightarrow> int \<Rightarrow> limiter option \<Rightarrow> limiter
     \<Rightarrow> archive_queue option \<Rightarrow> nat \<Rightarrow> runtime_config \<Rightarrow> runtime_view" where
  "runtime_status round2 disk expanduser pid running configured q max_size c =
     \<lparr>rv_worker_pid = pid, rv_configured_workers = rc_workers c,
      rv_v1_concurrency = v1_concurrency_snapshot running configured,
      rv_archive_queue = archive_queue_snapshot q max_size,
      rv_upstream =
        [(lit ''max_connections'', rc_max_connections c),
         (lit ''max_keepalive_connections'', rc_max_keepalive_connections c),
         (lit ''keepalive_expiry'', rc_keepalive_expiry c),
         (lit ''timeout_connect'', rc_timeout_connect c), (lit ''timeout_read'', rc_timeout_read c),
         (lit ''timeout_pool'', rc_timeout_pool c)],
      rv_admin =
        [(lit ''stats_cache_seconds'', rc_stats_cache_seconds c), (lit ''observations_default_limit'', 5),
         (lit ''observations_max_limit'', 20)],
      rv_disk_space = disk_space_snapshot round2 disk expanduser (rc_system_path c)
                        (rc_system_container_path c) (rc_data_path c)\<rparr>"

section \<open>Facts\<close>

text \<open>A download is a file under the reports directory, of a report that succeeded.\<close>

lemma download_report_ok:
  assumes "download_report df file_exists i format s = Inr p"
  shows "is_parent (df_resolve df (df_dir df)) p \<and> file_exists p \<and>
    (\<exists>v r. ra_service s = Some v \<and> get_report i (sv_reports v) = Some r \<and> gr_status r = SUCCEEDED)"
  using assms resolve_report_path_inside [of df]
  by (auto simp: download_report_def report_service_def Let_def rbind_eq_Inr split: option.splits if_splits)

lemma disk_items_length: "length (disk_items round2 disk expanduser seen ds) \<le> length ds"
  by (induction round2 disk expanduser seen ds rule: disk_items.induct) (auto simp: Let_def)

end
