(* ===== verification/Report_Properties.thy ===== *)
theory Report_Properties
  imports Example Admin_Reports
begin

text \<open>
  The properties of the reports: which period a report is about, what the table of reports looks like,
  how a generation ends, what a report may show. Each has a witness where it has hypotheses; the
  concrete values come first.
\<close>

section \<open>Concrete values\<close>

text \<open>The daily report made at the epoch, which is about the last day of 1969; and a period whose label
  is written out.\<close>

definition ex_day :: report_period where
  "ex_day = \<lparr>pe_type = lit ''daily'', pe_start = midnight 719162 - LOCAL_OFFSET, pe_end = midnight 719163 - LOCAL_OFFSET,
     pe_label = iso_date 719162\<rparr>"

lemma ex_day_eq: "period_for (lit ''daily'') 0 = Inr ex_day"
proof -
  have "local_ordinal 0 = 719163" "midnight 719162 + day = midnight 719163" by code_simp+
  then show ?thesis
    by (simp add: period_for_def REPORT_TYPES_def check_ordinal_def MAX_ORDINAL_def make_period_Inr ex_day_def)
qed

definition ex_period :: report_period where
  "ex_period = \<lparr>pe_type = lit ''daily'', pe_start = - day, pe_end = 0, pe_label = lit ''1969-12-31''\<rparr>"

definition ex_log :: "str \<Rightarrow> audit_log" where
  "ex_log snippet = \<lparr>al_id = 1, al_request_id = lit ''r'', al_user_id = lit ''u'', al_rule_id = JStr (lit ''P1''),
     al_rule_name = JStr [], al_rule_level = JStr (lit ''block''), al_scanner_type = lit ''regex'',
     al_matched_snippet = snippet, al_context_snippet = snippet, al_desensitized_snippet = [],
     al_full_text_hash = [], al_action_taken = lit ''blocked'', al_created_at = - day\<rparr>"

definition ex_service :: service_env where
  "ex_service = \<lparr>se_now = 0, se_retention_days = 90, se_dumps = (\<lambda>_. lit ''{}''), se_round2 = id, se_isoformat = (\<lambda>_. []),
     se_exn_text = (\<lambda>_. lit ''error''), se_training = [], se_audits = [ex_log (lit ''x'')], se_read_error = None,
     se_files = \<lparr>df_dir = parse_path (lit ''/reports''), df_write = (\<lambda>_ _ _. Inr (lit ''hash'')), df_resolve = id\<rparr>,
     se_between = id, se_webhook_url = [], se_webhook_type = []\<rparr>"

definition ex_report_state :: report_state where
  "ex_report_state = \<lparr>sv_reports = [], sv_samples = [], sv_locks = []\<rparr>"

definition ex_generated :: "report_state \<times> generated_report res" where
  "ex_generated = generate ex_service ex_period (lit ''manual'') False (lit ''admin'') ex_report_state"

text \<open>Any period generates.\<close>

lemma ex_generates:
  obtains s' row where "generate ex_service p mode False generated_by ex_report_state = (s', Inr row)"
proof -
  have free: "lock_name p \<notin> set (sv_locks ex_report_state)" by (simp add: ex_report_state_def)
  have "\<not> isl (snd (generate ex_service p mode False generated_by ex_report_state))"
    by (simp add: generate_free [OF free], simp add: ex_service_def ex_report_state_def create_or_mark_running_def
        build_documents_def finish_report_def generate_report_files_def mark_succeeded_def tbl_add_def tbl_get_def
        DOC_KINDS_def Let_def)
  with that show thesis
    by (cases "generate ex_service p mode False generated_by ex_report_state";
        cases "snd (generate ex_service p mode False generated_by ex_report_state)") auto
qed

section \<open>Periods\<close>

text \<open>C18. A report made at some moment is about the day, the ISO week or the month before the one that
  moment lies in, in the reports' time zone: an instant is in its period exactly when its slot, counted
  by the calendar, is the slot of the moment less one.\<close>

theorem scheduled_period_is_previous_slot:
  assumes "period_for report_type reference = Inr p"
  shows "pe_start p \<le> t \<and> t < pe_end p \<longleftrightarrow> slot_of report_type t = slot_of report_type reference - 1"
  using assms by (rule period_for_slot)

theorem scheduled_period_is_previous_slot_witness:
  "slot_of (lit ''daily'') (- day) = slot_of (lit ''daily'') 0 - 1"
proof -
  have "pe_start ex_day \<le> - day" "- day < pe_end ex_day"
    by (simp_all add: ex_day_def) code_simp+
  with scheduled_period_is_previous_slot [OF ex_day_eq] show ?thesis by blast
qed

text \<open>The label of a scheduled report names its period: asked for again by its type and label, a
  manual report is about the same instants.\<close>

theorem period_label_read_back:
  assumes "period_for report_type reference = Inr p"
  shows "period_from_values other report_type (pe_label p) = Inr p"
  using assms by (rule period_label_round_trip)

theorem period_label_read_back_witness:
  "period_from_values (\<lambda>_. None) (lit ''daily'') (iso_date 719162) = Inr ex_day"
  using period_label_read_back [OF ex_day_eq, of "\<lambda>_. None"] by (simp add: ex_day_def)

section \<open>The table of reports\<close>

text \<open>C22. Every reachable table of reports is well-formed: one row per id and one per period; each is running,
  succeeded or failed and expires; one that succeeded has its three documents and its time.\<close>

theorem report_table_well_formed:
  assumes "reports_reachable t"
  shows "distinct (map gr_id t) \<and>
    distinct (map (\<lambda>r. (gr_report_type r, gr_period_start r, gr_period_end r)) t) \<and>
    (\<forall>r\<in>set t. Reports.gr_status r \<in> {RUNNING, SUCCEEDED, FAILED} \<and> gr_expires_at r \<noteq> None \<and>
       (Reports.gr_status r = SUCCEEDED \<longrightarrow>
          gr_pdf_path r \<noteq> [] \<and> gr_xlsx_path r \<noteq> [] \<and> gr_csv_path r \<noteq> [] \<and> gr_generated_at r \<noteq> None))"
  using reports_reachable_ok [OF assms] by (simp add: reports_ok_def report_row_ok_def report_key_def [abs_def])

theorem report_table_well_formed_witness:
  "\<exists>t r. create_or_mark_running 0 90 ex_period [] False [] [] = (t, Inr r) \<and> distinct (map gr_id t) \<and> t = [r]"
proof -
  obtain t r where run: "create_or_mark_running 0 90 ex_period [] False [] [] = (t, Inr r)" "t = [r]"
    by (simp add: create_or_mark_running_def tbl_add_def Let_def)
  from report_table_well_formed [OF Step [OF Empty Started [OF run(1)]]] run show ?thesis by blast
qed

section \<open>Generating\<close>

text \<open>C19. However a generation ends, the locks are as before and the row of the period tells how: it
  succeeded with the paths of its documents, or failed with the error, or the period was already
  being generated and nothing changed; only a cancelled task leaves its report running.\<close>

theorem generation_outcome:
  assumes "reports_ok (sv_reports s)" "lock_name p \<notin> set (sv_locks s)" "leaves_running (se_between env)"
    and "generate env p mode incl generated_by s = (s', r)"
  shows "sv_locks s' = sv_locks s \<and>
    (case r of
       Inr row \<Rightarrow> get_report (gr_id row) (sv_reports s') = Some row \<and> report_key row = period_key p \<and>
         Reports.gr_status row = SUCCEEDED \<and> gr_include_sensitive row = incl \<and>
         gr_pdf_path row = path_str (report_file p (gr_id row) (lit ''pdf'')) \<and>
         gr_xlsx_path row = path_str (report_file p (gr_id row) (lit ''xlsx'')) \<and>
         gr_csv_path row = path_str (report_file p (gr_id row) (lit ''csv''))
     | Inl e \<Rightarrow>
         s' = s \<and> e = Value_Error (lit ''report is already running'') \<or>
         (\<exists>row. get_report (gr_id row) (sv_reports s') = Some row \<and> report_key row = period_key p \<and>
            (if e = CANCELLED then Reports.gr_status row = RUNNING
             else Reports.gr_status row = FAILED \<and> gr_error_message row = take 2000 (se_exn_text env e))))"
  using assms by (rule generate_outcome)

theorem generation_outcome_witness:
  "\<exists>s' row. ex_generated = (s', Inr row) \<and> Reports.gr_status row = SUCCEEDED \<and>
    gr_pdf_path row = path_str (report_file ex_period (gr_id row) (lit ''pdf''))"
proof -
  obtain s' row where eq: "ex_generated = (s', Inr row)" unfolding ex_generated_def by (rule ex_generates)
  have "leaves_running (se_between ex_service)" by (simp add: leaves_running_def ex_service_def)
  from generation_outcome [OF _ _ this eq [unfolded ex_generated_def]]
  have "Reports.gr_status row = SUCCEEDED \<and> gr_pdf_path row = path_str (report_file ex_period (gr_id row) (lit ''pdf''))"
    by (simp add: ex_report_state_def)
  with eq show ?thesis by blast
qed

text \<open>C20. What was generated for a scheduled period can be downloaded: each of its three documents is found,
  under the reports directory, where it was written.\<close>

theorem generated_report_downloads:
  assumes "period_for report_type reference = Inr p"
    and "reports_ok (sv_reports s)" "lock_name p \<notin> set (sv_locks s)" "leaves_running (se_between env)"
    and "generate env p mode incl generated_by s = (s', Inr row)" "kind \<in> set DOC_KINDS"
    and "df_resolve (se_files env) (df_dir (se_files env)) = df_dir (se_files env)"
    and "target = join_path (df_dir (se_files env)) (report_file p (gr_id row) kind)"
    and "df_resolve (se_files env) target = target" "file_exists target"
  shows "download_report (se_files env) file_exists (gr_id row) kind
      \<lparr>ra_admin = adm, ra_service = Some s'\<rparr> = Inr target \<and>
    is_parent (df_dir (se_files env)) target"
proof -
  from generate_outcome [OF assms(2-5)]
  have row: "get_report (gr_id row) (sv_reports s') = Some row" "Reports.gr_status row = SUCCEEDED"
    and paths: "gr_pdf_path row = path_str (report_file p (gr_id row) (lit ''pdf''))"
      "gr_xlsx_path row = path_str (report_file p (gr_id row) (lit ''xlsx''))"
      "gr_csv_path row = path_str (report_file p (gr_id row) (lit ''csv''))" by simp_all
  let ?rel = "get_or [(lit ''pdf'', gr_pdf_path row), (lit ''xlsx'', gr_xlsx_path row), (lit ''csv'', gr_csv_path row)] kind []"
  from assms(6) have rel: "?rel = path_str (report_file p (gr_id row) kind)"
    by (auto simp: DOC_KINDS_def get_or_def paths)
  obtain c l where label: "pe_label p = c # l" "48 \<le> c" "c < 58" using period_label_head [OF assms(1)] by blast
  have type: "pe_type p \<in> set REPORT_TYPES"
    using period_for_types [OF assms(1)] by (auto simp: REPORT_TYPES_def)
  note plain = report_file_plain [OF type label, of "gr_id row" kind]
  have parent: "is_parent (df_dir (se_files env)) target"
    using plain(1) by (simp add: assms(8) is_parent_def join_path_def)
  have "pt_parts (parse_path []) = []" by (simp add: parse_path_def)
  with parse_path_str [OF plain] plain(2) have "?rel \<noteq> []" "parse_path ?rel = report_file p (gr_id row) kind"
    unfolding rel by auto
  with parent assms(7-10) row show ?thesis
    by (simp add: download_report_def report_service_def resolve_report_path_def Let_def)
qed

theorem generated_report_downloads_witness:
  "\<exists>s' row. generate ex_service ex_day [] False [] ex_report_state = (s', Inr row) \<and>
    is_parent (parse_path (lit ''/reports''))
      (join_path (parse_path (lit ''/reports'')) (report_file ex_day (gr_id row) (lit ''pdf'')))"
proof -
  have ok: "reports_ok (sv_reports ex_report_state)" "lock_name ex_day \<notin> set (sv_locks ex_report_state)"
    "leaves_running (se_between ex_service)"
    by (simp_all add: ex_report_state_def leaves_running_def ex_service_def)
  obtain s' row where run: "generate ex_service ex_day [] False [] ex_report_state = (s', Inr row)"
    by (rule ex_generates)
  from generated_report_downloads [OF ex_day_eq ok run, of "lit ''pdf''" _ "\<lambda>_. True"] run show ?thesis
    by (auto simp: DOC_KINDS_def ex_service_def)
qed

section \<open>Contents\<close>

text \<open>C21. A report without the sensitive fields shows nothing of the texts that were audited: from two
  audit logs that differ only in their snippets it generates the same documents and the same row.\<close>

theorem insensitive_report_hides_snippets:
  assumes "map erase_snippets audits = map erase_snippets audits'"
  shows "generate (env\<lparr>se_audits := audits\<rparr>) p mode False generated_by s =
    generate (env\<lparr>se_audits := audits'\<rparr>) p mode False generated_by s"
proof -
  have "build_data round2 iso p False training audits samples = build_data round2 iso p False training audits' samples"
    for round2 iso training samples
    using build_data_erased [of round2 iso p training audits samples]
      build_data_erased [of round2 iso p training audits' samples] assms by simp
  then have docs: "build_documents (env\<lparr>se_audits := audits\<rparr>) p False i samples =
      build_documents (env\<lparr>se_audits := audits'\<rparr>) p False i samples" for i samples
    by (cases "se_read_error env") (simp_all add: build_documents_def)
  have "finish_report (env\<lparr>se_audits := rows\<rparr>) = finish_report env" for rows
    by (simp add: finish_report_def fun_eq_iff split: sum.splits prod.splits)
  with docs show ?thesis by (simp add: generate_def cong: sum.case_cong prod.case_cong)
qed

theorem insensitive_report_hides_snippets_witness:
  "generate (ex_service\<lparr>se_audits := [ex_log (lit ''a'')]\<rparr>) ex_period [] False [] ex_report_state =
   generate (ex_service\<lparr>se_audits := [ex_log (lit ''b'')]\<rparr>) ex_period [] False [] ex_report_state"
  by (rule insensitive_report_hides_snippets) (simp add: ex_log_def erase_snippets_def)

text \<open>A report adds up: its trend has one row per label, in order, the rows' events are the audit
  rows of the period and their blocked ones those with that action, and the summary's number of
  events is the trend's.\<close>

theorem report_adds_up:
  assumes "d = build_data round2 isoformat p incl training audits samples"
    and "\<not> unknown_clash (in_period p al_created_at audits)"
  shows "sorted (map tr_label (bd_trend d)) \<and> distinct (map tr_label (bd_trend d)) \<and>
    sum_list (map tr_security_events (bd_trend d)) = length (in_period p al_created_at audits) \<and>
    sum_list (map tr_blocked (bd_trend d)) =
      length (filter (\<lambda>a. al_action_taken a = lit ''blocked'') (in_period p al_created_at audits)) \<and>
    get_or (bd_summary d) (lit ''security_events'') JNull =
      JInt (int (sum_list (map tr_security_events (bd_trend d))))"
proof -
  let ?rows = "in_period p al_created_at audits"
  obtain rt where trend: "bd_trend d = build_trend round2 p ?rows rt" by (simp add: assms(1) build_data_def Let_def)
  have "get_or (bd_summary d) (lit ''security_events'') JNull = JInt (int (sum_list (map snd (action_counts ?rows))))"
    by (simp add: assms(1) build_data_def report_summary_def get_or_def Let_def)
  then show ?thesis
    unfolding trend using build_trend_labels build_trend_events build_trend_blocked action_counts_sum [OF assms(2)]
    by simp
qed

theorem report_adds_up_witness:
  "sum_list (map tr_security_events (bd_trend
     (build_data id (\<lambda>_. []) ex_period False [] [ex_log (lit ''x'')] []))) = 1"
proof -
  have "in_period ex_period al_created_at [ex_log (lit ''x'')] = [ex_log (lit ''x'')]" by code_simp
  with report_adds_up [OF refl, of ex_period "[ex_log (lit ''x'')]" id "\<lambda>_. []" False "[]" "[]"] show ?thesis
    by (simp add: unknown_clash_def ex_log_def)
qed

end
