(* ===== verification/Legacy_Crypto.thy ===== *)
theory Legacy_Crypto
  imports Stream
begin

text \<open>
  The format in which older versions stored secrets (\<open>LegacyApiKeyCrypto\<close> of
  \<open>scripts/migrate_apikeys_to_fernet.py\<close>): \<open>v1:salt:nonce:ciphertext:tag\<close>, each part in URL-safe base64,
  the ciphertext the plaintext XORed with a keystream, the tag a MAC of the rest. Parameters: \<open>kd\<close> is
  PBKDF2 of the data key over a salt (64 bytes), \<open>hm\<close> is HMAC-SHA256, \<open>utf8\<close> the strict UTF-8 decoder.
  Base64 is modelled, as \<open>binascii.a2b_base64\<close> decodes it: what is not in the alphabet is skipped.
\<close>

unbundle bit_operations_syntax

section \<open>Base64\<close>

text \<open>The value of a character after \<open>-\<close> and \<open>_\<close> were translated to \<open>+\<close> and \<open>/\<close>.\<close>

definition b64_value :: "nat \<Rightarrow> nat option" where
  "b64_value c =
     (if 65 \<le> c \<and> c \<le> 90 then Some (c - 65) else if 97 \<le> c \<and> c \<le> 122 then Some (c - 71)
      else if 48 \<le> c \<and> c \<le> 57 then Some (c + 4)
      else if c = 43 \<or> c = 45 then Some 62 else if c = 47 \<or> c = 95 then Some 63 else None)"

text \<open>\<open>q\<close> counts the characters of the group of four, \<open>l\<close> holds the bits left over, \<open>p\<close> the padding seen.\<close>

fun b64_loop :: "str \<Rightarrow> nat \<Rightarrow> nat \<Rightarrow> nat \<Rightarrow> bytes res" where
  "b64_loop [] q l p = (if q = 0 then Inr [] else Inl (Value_Error (lit ''Incorrect padding'')))"
| "b64_loop (c # cs) q l p =
     (if c = 61 then
        (if q \<ge> 2 \<and> q + (p + 1) \<ge> 4 then Inr [] else b64_loop cs q l (if q \<ge> 2 then p + 1 else p))
      else (case b64_value c of
          None \<Rightarrow> b64_loop cs q l p
        | Some v \<Rightarrow>
            if q = 0 then b64_loop cs 1 v 0
            else if q = 1 then rbind (b64_loop cs 2 (v mod 16) 0) (\<lambda>bs. Inr (word_of_nat (l * 4 + v div 16) # bs))
            else if q = 2 then rbind (b64_loop cs 3 (v mod 4) 0) (\<lambda>bs. Inr (word_of_nat (l * 16 + v div 4) # bs))
            else rbind (b64_loop cs 0 0 0) (\<lambda>bs. Inr (word_of_nat (l * 64 + v) # bs))))"

text \<open>\<open>value.encode("ascii")\<close> raises \<open>UnicodeEncodeError\<close>, a \<open>ValueError\<close>.\<close>

definition unb64 :: "str \<Rightarrow> bytes res" where
  "unb64 v = (if list_all (\<lambda>c. c < 128) v then b64_loop v 0 0 0 else Inl (Value_Error (lit ''ordinal not in range(128)'')))"

section \<open>The keystream\<close>

definition counter_bytes :: "nat \<Rightarrow> bytes" where
  "counter_bytes n = map (\<lambda>i. word_of_nat (n div 256 ^ (7 - i))) [0..<8]"

text \<open>\<open>to_bytes(8, "big")\<close> raises \<open>OverflowError\<close> for a counter of more than eight bytes, so the loop ends.\<close>

function keystream_loop :: "(bytes \<Rightarrow> bytes) \<Rightarrow> bytes \<Rightarrow> nat \<Rightarrow> nat \<Rightarrow> bytes \<Rightarrow> bytes res" where
  "keystream_loop mac nonce len counter output =
     (if length output < len then
        (if counter < 18446744073709551616
           then keystream_loop mac nonce len (counter + 1) (output @ mac (nonce @ counter_bytes counter))
         else Inl (Other_Error (lit ''OverflowError'')))
      else Inr (take len output))"
  by pat_completeness auto
termination by (relation "measure (\<lambda>(mac, nonce, len, counter, output). 18446744073709551616 - counter)") auto

declare keystream_loop.simps [simp del]

definition keystream :: "(bytes \<Rightarrow> bytes \<Rightarrow> bytes) \<Rightarrow> bytes \<Rightarrow> bytes \<Rightarrow> nat \<Rightarrow> bytes res" where
  "keystream hm key nonce len = keystream_loop (hm key) nonce len 0 []"

definition xor_bytes :: "bytes \<Rightarrow> bytes \<Rightarrow> bytes" where
  "xor_bytes l r = map (\<lambda>(a, b). a XOR b) (zip l r)"

section \<open>Opening an envelope\<close>

text \<open>\<open>s.split(c, n)\<close>.\<close>

fun split_max :: "nat \<Rightarrow> nat \<Rightarrow> str \<Rightarrow> str list" where
  "split_max c 0 s = [s]"
| "split_max c (Suc n) s =
     (if c \<in> set s then takeWhile (\<lambda>x. x \<noteq> c) s # split_max c n (tl (dropWhile (\<lambda>x. x \<noteq> c) s)) else [s])"

record legacy_crypto =
  lc_derive :: "bytes \<Rightarrow> bytes"
  lc_hmac :: "bytes \<Rightarrow> bytes \<Rightarrow> bytes"
  lc_utf8 :: "bytes \<Rightarrow> str option"

definition derive_keys :: "legacy_crypto \<Rightarrow> bytes \<Rightarrow> bytes \<times> bytes" where
  "derive_keys lc salt = (let k = lc_derive lc salt in (take 32 k, drop 32 k))"

record envelope =
  ev_salt :: bytes
  ev_nonce :: bytes
  ev_ciphertext :: bytes
  ev_tag :: bytes

text \<open>The \<open>try\<close> block: whatever is raised, the envelope is invalid.\<close>

definition parse_envelope :: "str \<Rightarrow> envelope res" where
  "parse_envelope value =
     (case split_max 58 4 value of
        [version, salt_value, nonce_value, ciphertext_value, tag_value] \<Rightarrow>
          if version \<noteq> lit ''v1'' then Inl (Value_Error (lit ''unsupported envelope''))
          else rbind (unb64 salt_value) (\<lambda>salt. rbind (unb64 nonce_value) (\<lambda>nonce.
               rbind (unb64 ciphertext_value) (\<lambda>ciphertext. rbind (unb64 tag_value) (\<lambda>expected_tag.
               Inr \<lparr>ev_salt = salt, ev_nonce = nonce, ev_ciphertext = ciphertext, ev_tag = expected_tag\<rparr>))))
      | _ \<Rightarrow> Inl (Value_Error (lit ''not enough values to unpack'')))"

definition ascii_bytes :: "string \<Rightarrow> bytes" where
  "ascii_bytes s = map (\<lambda>c. word_of_nat (of_char c)) s"

definition envelope_tag :: "legacy_crypto \<Rightarrow> bytes \<Rightarrow> envelope \<Rightarrow> bytes" where
  "envelope_tag lc mac_key ev = lc_hmac lc mac_key (ascii_bytes ''v1'' @ ev_salt ev @ ev_nonce ev @ ev_ciphertext ev)"

definition legacy_decrypt :: "legacy_crypto \<Rightarrow> str \<Rightarrow> str res" where
  "legacy_decrypt lc value =
     (case parse_envelope value of
        Inl _ \<Rightarrow> Inl (Value_Error (lit ''invalid encrypted value''))
      | Inr ev \<Rightarrow>
          (let (enc_key, mac_key) = derive_keys lc (ev_salt ev) in
           if envelope_tag lc mac_key ev \<noteq> ev_tag ev
             then Inl (Value_Error (lit ''encrypted value integrity check failed''))
           else rbind (keystream (lc_hmac lc) enc_key (ev_nonce ev) (length (ev_ciphertext ev))) (\<lambda>stream.
                (case lc_utf8 lc (xor_bytes (ev_ciphertext ev) stream) of
                   Some s \<Rightarrow> Inr s
                 | None \<Rightarrow> Inl (Value_Error (lit ''UnicodeDecodeError''))))))"

section \<open>Envelopes as older versions wrote them\<close>

text \<open>The encoder, as RFC 4648 has it, and the sealing that the format describes.\<close>

definition b64_char :: "nat \<Rightarrow> nat" where
  "b64_char v = (if v < 26 then v + 65 else if v < 52 then v + 71 else if v < 62 then v - 4
     else if v = 62 then 45 else 95)"

fun b64_encode :: "bytes \<Rightarrow> str" where
  "b64_encode [] = []"
| "b64_encode [a] = [b64_char (unat a div 4), b64_char (unat a mod 4 * 16), 61, 61]"
| "b64_encode [a, b] = [b64_char (unat a div 4), b64_char (unat a mod 4 * 16 + unat b div 16),
     b64_char (unat b mod 16 * 4), 61]"
| "b64_encode (a # b # c # bs) = b64_char (unat a div 4) # b64_char (unat a mod 4 * 16 + unat b div 16) #
     b64_char (unat b mod 16 * 4 + unat c div 64) # b64_char (unat c mod 64) # b64_encode bs"

definition envelope_str :: "envelope \<Rightarrow> str" where
  "envelope_str ev = join [58] (lit ''v1'' # map b64_encode [ev_salt ev, ev_nonce ev, ev_ciphertext ev, ev_tag ev])"

definition seal :: "legacy_crypto \<Rightarrow> bytes \<Rightarrow> bytes \<Rightarrow> bytes \<Rightarrow> envelope res" where
  "seal lc salt nonce plaintext =
     (let (enc_key, mac_key) = derive_keys lc salt in
      rbind (keystream (lc_hmac lc) enc_key nonce (length plaintext)) (\<lambda>stream.
      (let ev = \<lparr>ev_salt = salt, ev_nonce = nonce, ev_ciphertext = xor_bytes plaintext stream, ev_tag = []\<rparr>
       in Inr (ev\<lparr>ev_tag := envelope_tag lc mac_key ev\<rparr>))))"

section \<open>Facts\<close>

lemma b64_value_char [simp]: "v < 64 \<Longrightarrow> b64_value (b64_char v) = Some v"
  by (auto simp: b64_value_def b64_char_def)

lemma b64_char_plain [simp]: "v < 64 \<Longrightarrow> b64_char v \<noteq> 61" "v < 64 \<Longrightarrow> b64_char v \<noteq> 58" "v < 64 \<Longrightarrow> b64_char v < 128"
  by (auto simp: b64_char_def)

lemma unat_byte [simp]: "unat (a :: 8 word) < 256"
  by (rule order_less_le_trans [OF unsigned_less]) simp

lemma byte_of_unat: "word_of_nat (unat (a :: 8 word)) = a"
  by simp

text \<open>Bits packed below others and taken apart again.\<close>

lemma packed_div_mod:
  fixes m x d :: nat
  assumes "x < d"
  shows "(m * d + x) div d = m" "(m * d + x) mod d = x"
  using assms by simp_all

lemma byte_parts [simp]:
  "unat (a :: 8 word) div 4 < 64" "unat a div 16 < 16" "unat a div 64 < 4" "unat a mod 64 < 64"
  "unat a mod 4 * 16 < 64" "unat a mod 16 * 4 < 64"
  "unat a mod 4 * 16 + unat (b :: 8 word) div 16 < 64" "unat a mod 16 * 4 + unat b div 64 < 64"
proof -
  note a = unat_byte [of a] and b = unat_byte [of b]
  have m: "unat a mod 4 < 4" "unat a mod 16 < 16" by simp_all
  show "unat a div 4 < 64" "unat a div 16 < 16" "unat a div 64 < 4" "unat a mod 64 < 64"
    using a by (simp_all add: less_mult_imp_div_less)
  show "unat a mod 4 * 16 < 64" "unat a mod 16 * 4 < 64" using m by linarith+
  have "unat b div 16 < 16" "unat b div 64 < 4" using b by (simp_all add: less_mult_imp_div_less)
  with m show "unat a mod 4 * 16 + unat b div 16 < 64" "unat a mod 16 * 4 + unat b div 64 < 64" by linarith+
qed

lemma byte_joined:
  "word_of_nat (unat (a :: 8 word) div 4 * 4 + (unat a mod 4 * 16 + unat (b :: 8 word) div 16) div 16) = a"
  "word_of_nat ((unat a mod 4 * 16 + unat b div 16) mod 16 * 16 + (unat b mod 16 * 4 + unat (c :: 8 word) div 64) div 4) = b"
  "word_of_nat ((unat b mod 16 * 4 + unat c div 64) mod 4 * 64 + unat c mod 64) = c"
  "word_of_nat (unat a div 4 * 4 + unat a mod 4 * 16 div 16) = a"
  "word_of_nat ((unat a mod 4 * 16 + unat b div 16) mod 16 * 16 + unat b mod 16 * 4 div 4) = b"
  by (simp_all only: packed_div_mod [OF byte_parts(2)] packed_div_mod [OF byte_parts(3)] div_mult_mod_eq
      nonzero_mult_div_cancel_right byte_of_unat zero_neq_numeral not_False_eq_True)

lemma b64_loop_group:
  assumes "v1 < 64" "v2 < 64"
  shows "b64_loop [b64_char v1, b64_char v2, 61, 61] 0 0 0 = Inr [word_of_nat (v1 * 4 + v2 div 16)]"
    and "v3 < 64 \<Longrightarrow> b64_loop [b64_char v1, b64_char v2, b64_char v3, 61] 0 0 0 =
      Inr [word_of_nat (v1 * 4 + v2 div 16), word_of_nat (v2 mod 16 * 16 + v3 div 4)]"
    and "v3 < 64 \<Longrightarrow> v4 < 64 \<Longrightarrow> b64_loop (b64_char v1 # b64_char v2 # b64_char v3 # b64_char v4 # cs) 0 0 0 =
      rbind (b64_loop cs 0 0 0) (\<lambda>bs. Inr (word_of_nat (v1 * 4 + v2 div 16) #
        word_of_nat (v2 mod 16 * 16 + v3 div 4) # word_of_nat (v3 mod 4 * 64 + v4) # bs))"
  using assms by (simp_all add: rbind_def split: sum.splits)

lemma b64_loop_encode: "b64_loop (b64_encode bs) 0 0 0 = Inr bs"
  by (induction bs rule: b64_encode.induct)
    (simp_all only: b64_encode.simps b64_loop_group byte_parts byte_joined rbind_simps, simp)

lemma b64_encode_plain: "c \<in> set (b64_encode bs) \<Longrightarrow> c < 128 \<and> c \<noteq> 58"
  by (induction bs rule: b64_encode.induct) auto

lemma unb64_encode [simp]: "unb64 (b64_encode bs) = Inr bs"
  using b64_encode_plain by (auto simp: unb64_def b64_loop_encode list_all_iff)

lemma split_max_hit: "c \<notin> set p \<Longrightarrow> split_max c (Suc n) (p @ c # s) = p # split_max c n s"
  by (induction p) (auto split: if_splits)

lemma parse_envelope_str [simp]: "parse_envelope (envelope_str ev) = Inr ev"
proof -
  have colon: "58 \<notin> set (b64_encode bs)" for bs using b64_encode_plain by blast
  have v1: "58 \<notin> set (lit ''v1'')" by (simp add: lit_def)
  have "split_max 58 4 (envelope_str ev) = lit ''v1'' # map b64_encode [ev_salt ev, ev_nonce ev, ev_ciphertext ev, ev_tag ev]"
    using split_max_hit [OF v1] split_max_hit [OF colon] by (simp add: envelope_str_def eval_nat_numeral del: split_max.simps(2))
  then show ?thesis by (simp add: parse_envelope_def)
qed

text \<open>As long as a block is not empty, the keystream has the length asked for.\<close>

lemma keystream_loop_total:
  assumes "\<And>m. mac m \<noteq> []" "len \<le> 18446744073709551616" "counter \<le> length acc"
  shows "\<exists>ks. keystream_loop mac nonce len counter acc = Inr ks \<and> length ks = len"
  using assms
proof (induction mac nonce len counter acc rule: keystream_loop.induct)
  case (1 mac nonce len counter acc)
  show ?case
  proof (cases "length acc < len")
    case True
    with "1.prems"(2,3) have less: "counter < 18446744073709551616" by linarith
    have "0 < length (mac (nonce @ counter_bytes counter))" using "1.prems"(1) by simp
    with 1 True less show ?thesis by (subst keystream_loop.simps) simp
  qed (subst keystream_loop.simps, simp)
qed

lemma xor_bytes_involution: "length ks = length p \<Longrightarrow> xor_bytes (xor_bytes p ks) ks = p"
proof (induction p arbitrary: ks)
  case (Cons a p)
  then show ?case by (cases ks) (auto simp: xor_bytes_def xor.assoc)
qed (simp add: xor_bytes_def)

lemma length_xor_bytes: "length ks = length p \<Longrightarrow> length (xor_bytes p ks) = length p"
  by (simp add: xor_bytes_def)

text \<open>What was sealed is read back.\<close>

lemma legacy_decrypt_seal:
  assumes "seal lc salt nonce plaintext = Inr ev" "lc_utf8 lc plaintext = Some s"
    and "\<And>k m. lc_hmac lc k m \<noteq> []" "length plaintext \<le> 18446744073709551616"
  shows "legacy_decrypt lc (envelope_str ev) = Inr s"
proof -
  obtain ek mk where keys: "derive_keys lc salt = (ek, mk)" by (cases "derive_keys lc salt")
  from keystream_loop_total [of "lc_hmac lc ek" "length plaintext" 0 "[]" nonce] assms(3,4)
  obtain ks where ks: "keystream (lc_hmac lc) ek nonce (length plaintext) = Inr ks" "length ks = length plaintext"
    by (auto simp: keystream_def)
  with assms(1) keys have ev: "ev = \<lparr>ev_salt = salt, ev_nonce = nonce, ev_ciphertext = xor_bytes plaintext ks,
      ev_tag = envelope_tag lc mk \<lparr>ev_salt = salt, ev_nonce = nonce, ev_ciphertext = xor_bytes plaintext ks, ev_tag = []\<rparr>\<rparr>"
    by (auto simp: seal_def Let_def)
  show ?thesis
    using ks assms(2)
    by (simp add: legacy_decrypt_def keys ev envelope_tag_def length_xor_bytes xor_bytes_involution)
qed

lemma seal_total:
  assumes "\<And>k m. lc_hmac lc k m \<noteq> []" "length plaintext \<le> 18446744073709551616"
  shows "\<exists>ev. seal lc salt nonce plaintext = Inr ev"
proof -
  obtain ek mk where keys: "derive_keys lc salt = (ek, mk)" by (cases "derive_keys lc salt")
  from keystream_loop_total [of "lc_hmac lc ek" "length plaintext" 0 "[]" nonce] assms
  show ?thesis by (auto simp: seal_def keystream_def keys Let_def)
qed

text \<open>A version the script can tell from the new one: nothing that starts with \<open>v2:\<close> opens.\<close>

lemma legacy_decrypt_v2: "startswith v (lit ''v2:'') \<Longrightarrow> legacy_decrypt lc v = Inl (Value_Error (lit ''invalid encrypted value''))"
  by (auto simp: startswith_iff legacy_decrypt_def parse_envelope_def lit_def eval_nat_numeral
      split: list.splits)

end
