(* ===== verification/Key_Migration.thy ===== *)
theory Key_Migration
  imports Legacy_Crypto Identity
begin

text \<open>
  The script that re-encrypts the stored keys of an older version
  (\<open>scripts/migrate_apikeys_to_fernet.py\<close>). Parameters: the environment, the \<open>.env\<close> file, the two ciphers.
\<close>

section \<open>The environment\<close>

text \<open>\<open>load_project_env\<close>: variables that are set already keep their values. A name may not be empty.\<close>

fun env_defaults :: "str list \<Rightarrow> (str, str) dict \<Rightarrow> (str, str) dict res" where
  "env_defaults [] env = Inr env"
| "env_defaults (line # ls) env =
     (let stripped = strip line in
      if stripped = [] \<or> startswith stripped (lit ''#'') \<or> 61 \<notin> set stripped then env_defaults ls env
      else (let (key, _, value) = partition_at 61 stripped;
                k = strip key
            in if k = [] then Inl (Other_Error (lit ''OSError''))
               else env_defaults ls
                 (if k \<in> dict_keys env then env
                  else dict_set env k (strip_by (\<lambda>c. c = 39) (strip_by (\<lambda>c. c = 34) (strip value))))))"

definition load_project_env :: "str option \<Rightarrow> (str, str) dict \<Rightarrow> (str, str) dict res" where
  "load_project_env env_file env =
     (case env_file of None \<Rightarrow> Inr env | Some content \<Rightarrow> env_defaults (splitlines (replace_cr (replace_crlf content))) env)"

section \<open>The migration\<close>

record migration_stats =
  ms_scanned :: nat
  ms_migrated :: nat
  ms_already_v2 :: nat
  ms_empty :: nat

text \<open>One field: its new value, whether it changed, the counters.\<close>

definition migrate_field ::
    "crypto \<Rightarrow> legacy_crypto \<Rightarrow> str option \<Rightarrow> migration_stats \<Rightarrow> (str option \<times> bool \<times> migration_stats) res" where
  "migrate_field c lc field stats =
     (let value = (case field of Some v \<Rightarrow> v | None \<Rightarrow> []) in
      if value = [] then Inr (field, False, stats\<lparr>ms_empty := ms_empty stats + 1\<rparr>)
      else if startswith value (lit ''v2:'') then Inr (field, False, stats\<lparr>ms_already_v2 := ms_already_v2 stats + 1\<rparr>)
      else rbind (legacy_decrypt lc value) (\<lambda>plaintext. Inr (Some (encrypt c plaintext), True, stats)))"

definition migrate_record ::
    "crypto \<Rightarrow> legacy_crypto \<Rightarrow> api_key \<Rightarrow> migration_stats \<Rightarrow> (api_key \<times> migration_stats) res" where
  "migrate_record c lc record stats =
     rbind (migrate_field c lc (ak_upstream_key_encrypted record) (stats\<lparr>ms_scanned := ms_scanned stats + 1\<rparr>))
       (\<lambda>(upstream, changed1, stats1).
     rbind (migrate_field c lc (ak_safetyhub_key_encrypted record) stats1) (\<lambda>(safetyhub, changed2, stats2).
     Inr (record\<lparr>ak_upstream_key_encrypted := upstream, ak_safetyhub_key_encrypted := safetyhub\<rparr>,
          if changed1 \<or> changed2 then stats2\<lparr>ms_migrated := ms_migrated stats2 + 1\<rparr> else stats2)))"

fun migrate_records ::
    "crypto \<Rightarrow> legacy_crypto \<Rightarrow> key_table \<Rightarrow> migration_stats \<Rightarrow> (key_table \<times> migration_stats) res" where
  "migrate_records c lc [] stats = Inr ([], stats)"
| "migrate_records c lc (r # rs) stats =
     rbind (migrate_record c lc r stats) (\<lambda>(r', stats1).
     rbind (migrate_records c lc rs stats1) (\<lambda>(rs', stats2). Inr (r' # rs', stats2)))"

definition new_stats :: migration_stats where
  "new_stats = \<lparr>ms_scanned = 0, ms_migrated = 0, ms_already_v2 = 0, ms_empty = 0\<rparr>"

text \<open>The rows are changed in a session that is committed at the end, rolled back in a dry run, and left
  without a commit when an exception is raised.\<close>

definition migrate :: "crypto \<Rightarrow> legacy_crypto \<Rightarrow> bool \<Rightarrow> key_table \<Rightarrow> key_table \<times> migration_stats res" where
  "migrate c lc dry_run t =
     (case migrate_records c lc t new_stats of
        Inl e \<Rightarrow> (t, Inl e)
      | Inr (t', stats) \<Rightarrow> (if dry_run then t else t', Inr stats))"

text \<open>\<open>main\<close>: \<open>getenv\<close> is the environment, \<open>secret\<close> the settings' \<open>get_secret\<close>; \<open>ciphers\<close> builds both from
  the data key.\<close>

definition migrate_main ::
    "(str \<Rightarrow> str) \<Rightarrow> (str \<Rightarrow> str) \<Rightarrow> str \<Rightarrow> (str \<Rightarrow> crypto \<times> legacy_crypto) \<Rightarrow> bool \<Rightarrow> key_table
     \<Rightarrow> key_table \<times> migration_stats res" where
  "migrate_main getenv secret data_encryption_key_env ciphers dry_run t =
     (let data_key = (if getenv data_encryption_key_env \<noteq> [] then getenv data_encryption_key_env
                      else secret data_encryption_key_env) in
      if data_key = [] then (t, Inl (Other_Error (lit ''SystemExit'')))
      else migrate (fst (ciphers data_key)) (snd (ciphers data_key)) dry_run t)"

section \<open>What it does to a secret\<close>

text \<open>The secret a field holds, in either version.\<close>

definition read_secret :: "crypto \<Rightarrow> legacy_crypto \<Rightarrow> str option \<Rightarrow> str res" where
  "read_secret c lc field =
     (case field of None \<Rightarrow> Inr []
      | Some v \<Rightarrow> if v = [] then Inr [] else if startswith v (lit ''v2:'') then decrypt c v else legacy_decrypt lc v)"

definition current_format :: "str option \<Rightarrow> bool" where
  "current_format field \<longleftrightarrow> (case field of None \<Rightarrow> True | Some v \<Rightarrow> v = [] \<or> startswith v (lit ''v2:''))"

text \<open>Two rows with the same secrets, the second in the current format.\<close>

definition same_key :: "crypto \<Rightarrow> legacy_crypto \<Rightarrow> api_key \<Rightarrow> api_key \<Rightarrow> bool" where
  "same_key c lc r r' \<longleftrightarrow>
     r' = r\<lparr>ak_upstream_key_encrypted := ak_upstream_key_encrypted r',
            ak_safetyhub_key_encrypted := ak_safetyhub_key_encrypted r'\<rparr> \<and>
     current_format (ak_upstream_key_encrypted r') \<and> current_format (ak_safetyhub_key_encrypted r') \<and>
     decrypt_upstream_key c r' = read_secret c lc (ak_upstream_key_encrypted r) \<and>
     decrypt_safetyhub_key c r' = read_secret c lc (ak_safetyhub_key_encrypted r)"

lemma encrypt_v2 [simp]: "startswith (encrypt c p) (lit ''v2:'')"
  by (simp add: encrypt_def)

lemma migrate_field_cases:
  assumes "migrate_field c lc v st = Inr (v', changed, st')"
  obtains (kept) "current_format v" "v' = v" "\<not> changed" "ms_migrated st' = ms_migrated st" "ms_scanned st' = ms_scanned st"
      "ms_already_v2 st' + ms_empty st' = ms_already_v2 st + ms_empty st + 1"
  | (moved) p where "\<not> current_format v" "read_secret c lc v = Inr p" "v' = Some (encrypt c p)" "changed" "st' = st"
  using assms
  by (auto simp: migrate_field_def current_format_def read_secret_def Let_def rbind_eq_Inr
      split: option.splits if_splits)

lemma migrate_field_secret:
  assumes "migrate_field c lc v st = Inr (v', changed, st')" "\<And>p. dec c (enc c p) = Some p"
  shows "current_format v'" "read_secret c lc v' = read_secret c lc v" "ms_scanned st' = ms_scanned st"
proof -
  have sealed: "current_format (Some (encrypt c p))" "read_secret c lc (Some (encrypt c p)) = Inr p" for p
    using decrypt_encrypt [OF assms(2)] by (simp_all add: current_format_def read_secret_def)
  from assms(1) have "current_format v' \<and> read_secret c lc v' = read_secret c lc v \<and> ms_scanned st' = ms_scanned st"
    by (cases rule: migrate_field_cases) (simp_all add: sealed)
  then show "current_format v'" "read_secret c lc v' = read_secret c lc v" "ms_scanned st' = ms_scanned st" by blast+
qed

lemma decrypt_current:
  "current_format (ak_upstream_key_encrypted r) \<Longrightarrow>
     decrypt_upstream_key c r = read_secret c lc (ak_upstream_key_encrypted r)"
  "current_format (ak_safetyhub_key_encrypted r) \<Longrightarrow>
     decrypt_safetyhub_key c r = read_secret c lc (ak_safetyhub_key_encrypted r)"
  by (auto simp: current_format_def read_secret_def decrypt_upstream_key_def decrypt_safetyhub_key_def
      split: option.splits)

lemma migrate_record_same:
  assumes "migrate_record c lc r st = Inr (r', st')" "\<And>p. dec c (enc c p) = Some p"
  shows "same_key c lc r r'" "ms_scanned st' = ms_scanned st + 1"
proof -
  from assms(1) obtain u ch1 st1 s ch2 st2 where
    u: "migrate_field c lc (ak_upstream_key_encrypted r) (st\<lparr>ms_scanned := ms_scanned st + 1\<rparr>) = Inr (u, ch1, st1)"
    and s: "migrate_field c lc (ak_safetyhub_key_encrypted r) st1 = Inr (s, ch2, st2)"
    and r': "r' = r\<lparr>ak_upstream_key_encrypted := u, ak_safetyhub_key_encrypted := s\<rparr>"
    and st': "ms_scanned st' = ms_scanned st2"
    by (auto simp: migrate_record_def rbind_eq_Inr split: prod.splits if_splits)
  note fu = migrate_field_secret [OF u assms(2)] and fs = migrate_field_secret [OF s assms(2)]
  show "same_key c lc r r'"
    using fu(1,2) fs(1,2) decrypt_current [of r' c lc] by (simp add: same_key_def r')
  show "ms_scanned st' = ms_scanned st + 1" using fu(3) fs(3) st' by simp
qed

lemma migrate_records_same:
  assumes "migrate_records c lc t st = Inr (t', st')" "\<And>p. dec c (enc c p) = Some p"
  shows "list_all2 (same_key c lc) t t' \<and> ms_scanned st' = ms_scanned st + length t"
  using assms(1)
proof (induction t arbitrary: t' st st')
  case (Cons r rs)
  from Cons.prems obtain r' st1 rs' where
    "migrate_record c lc r st = Inr (r', st1)" "migrate_records c lc rs st1 = Inr (rs', st')" "t' = r' # rs'"
    by (auto simp: rbind_eq_Inr)
  with Cons.IH [of st1 rs' st'] migrate_record_same [OF _ assms(2)] show ?case by fastforce
qed simp

lemma migrate_same:
  assumes "migrate c lc False t = (t', Inr st)" "\<And>p. dec c (enc c p) = Some p"
  shows "list_all2 (same_key c lc) t t'" "ms_scanned st = length t"
  using migrate_records_same [of c lc t new_stats t' st] assms
  by (auto simp: migrate_def new_stats_def split: sum.splits)

text \<open>Rows in the current format are left alone.\<close>

lemma migrate_records_current:
  assumes "\<forall>r\<in>set t. current_format (ak_upstream_key_encrypted r) \<and> current_format (ak_safetyhub_key_encrypted r)"
  shows "\<exists>st'. migrate_records c lc t st = Inr (t, st') \<and> ms_migrated st' = ms_migrated st \<and>
    ms_scanned st' = ms_scanned st + length t \<and>
    ms_already_v2 st' + ms_empty st' = ms_already_v2 st + ms_empty st + 2 * length t"
  using assms
proof (induction t arbitrary: st)
  case (Cons r rs)
  have field: "\<exists>s'. migrate_field c lc v s = Inr (v, False, s') \<and> ms_migrated s' = ms_migrated s \<and>
      ms_scanned s' = ms_scanned s \<and> ms_already_v2 s' + ms_empty s' = ms_already_v2 s + ms_empty s + 1"
    if "current_format v" for v s
    using that by (auto simp: migrate_field_def current_format_def Let_def split: option.splits)
  from Cons.prems field [of "ak_upstream_key_encrypted r" "st\<lparr>ms_scanned := ms_scanned st + 1\<rparr>"] obtain s1 where
    s1: "migrate_field c lc (ak_upstream_key_encrypted r) (st\<lparr>ms_scanned := ms_scanned st + 1\<rparr>) =
        Inr (ak_upstream_key_encrypted r, False, s1)" "ms_migrated s1 = ms_migrated st"
      "ms_scanned s1 = ms_scanned st + 1" "ms_already_v2 s1 + ms_empty s1 = ms_already_v2 st + ms_empty st + 1"
    by auto
  from Cons.prems field [of "ak_safetyhub_key_encrypted r" s1] obtain s2 where
    s2: "migrate_field c lc (ak_safetyhub_key_encrypted r) s1 = Inr (ak_safetyhub_key_encrypted r, False, s2)"
      "ms_migrated s2 = ms_migrated s1" "ms_scanned s2 = ms_scanned s1"
      "ms_already_v2 s2 + ms_empty s2 = ms_already_v2 s1 + ms_empty s1 + 1"
    by auto
  from Cons.IH [of s2] Cons.prems s1 s2 show ?case by (auto simp: migrate_record_def)
qed simp

lemma migrate_again:
  assumes "list_all2 (same_key c lc) t t'"
  shows "\<exists>st. migrate c lc dry_run t' = (t', Inr st) \<and> ms_migrated st = 0 \<and> ms_scanned st = length t'"
proof -
  from assms have "\<forall>r\<in>set t'. current_format (ak_upstream_key_encrypted r) \<and> current_format (ak_safetyhub_key_encrypted r)"
    by (auto simp: list_all2_conv_all_nth in_set_conv_nth same_key_def)
  from migrate_records_current [OF this, of c lc new_stats] show ?thesis
    by (auto simp: migrate_def new_stats_def)
qed

text \<open>A run that fails, or a dry run, leaves the table as it was; a run fails exactly when some field
  that is in neither format's place cannot be opened.\<close>

lemma migrate_unchanged: "migrate c lc dry_run t = (t', x) \<Longrightarrow> dry_run \<or> isl x \<Longrightarrow> t' = t"
  by (auto simp: migrate_def split: sum.splits)

lemma migrate_fails:
  "isl (snd (migrate c lc dry_run t)) \<longleftrightarrow>
     (\<exists>r\<in>set t. \<exists>v\<in>{ak_upstream_key_encrypted r, ak_safetyhub_key_encrypted r}.
        \<not> current_format v \<and> isl (read_secret c lc v))"
proof -
  have field: "isl (migrate_field c lc v st) \<longleftrightarrow> \<not> current_format v \<and> isl (read_secret c lc v)" for v st
    by (cases "legacy_decrypt lc (the v)")
      (auto simp: migrate_field_def current_format_def read_secret_def Let_def isl_def split: option.splits)
  have rec: "isl (migrate_record c lc r st) \<longleftrightarrow>
      (\<exists>v\<in>{ak_upstream_key_encrypted r, ak_safetyhub_key_encrypted r}. \<not> current_format v \<and> isl (read_secret c lc v))" for r st
  proof (cases "migrate_field c lc (ak_upstream_key_encrypted r) (st\<lparr>ms_scanned := ms_scanned st + 1\<rparr>)")
    case (Inl e)
    with field [of "ak_upstream_key_encrypted r" "st\<lparr>ms_scanned := ms_scanned st + 1\<rparr>"] show ?thesis
      by (simp add: migrate_record_def)
  next
    case (Inr y)
    with field [of "ak_upstream_key_encrypted r" "st\<lparr>ms_scanned := ms_scanned st + 1\<rparr>"]
      field [of "ak_safetyhub_key_encrypted r" "snd (snd y)"] show ?thesis
      by (cases "migrate_field c lc (ak_safetyhub_key_encrypted r) (snd (snd y))")
        (auto simp: migrate_record_def split: prod.splits)
  qed
  have "isl (migrate_records c lc t st) \<longleftrightarrow> (\<exists>r\<in>set t. \<exists>v\<in>{ak_upstream_key_encrypted r, ak_safetyhub_key_encrypted r}.
      \<not> current_format v \<and> isl (read_secret c lc v))" for st
  proof (induction t arbitrary: st)
    case (Cons r rs)
    show ?case
    proof (cases "migrate_record c lc r st")
      case (Inl e)
      with rec [of r st] show ?thesis by simp
    next
      case (Inr y)
      with rec [of r st] Cons.IH [of "snd y"] show ?thesis
        by (cases "migrate_records c lc rs (snd y)") (auto split: prod.splits)
    qed
  qed simp
  from this [of new_stats] show ?thesis by (auto simp: migrate_def isl_def split: sum.splits)
qed

section \<open>The keys still authenticate\<close>

lemma same_key_fields:
  assumes "same_key c lc r r'"
  shows "ak_key_hash r' = ak_key_hash r" "ak_id r' = ak_id r" "ak_status r' = ak_status r"
    "ak_expires_at r' = ak_expires_at r" "ak_owner_user_id r' = ak_owner_user_id r" "ak_key_prefix r' = ak_key_prefix r"
proof -
  from assms have eq: "r' = r\<lparr>ak_upstream_key_encrypted := ak_upstream_key_encrypted r',
      ak_safetyhub_key_encrypted := ak_safetyhub_key_encrypted r'\<rparr>" unfolding same_key_def by blast
  show "ak_key_hash r' = ak_key_hash r" using arg_cong [OF eq, of ak_key_hash] by simp
  show "ak_id r' = ak_id r" using arg_cong [OF eq, of ak_id] by simp
  show "ak_status r' = ak_status r" using arg_cong [OF eq, of ak_status] by simp
  show "ak_expires_at r' = ak_expires_at r" using arg_cong [OF eq, of ak_expires_at] by simp
  show "ak_owner_user_id r' = ak_owner_user_id r" using arg_cong [OF eq, of ak_owner_user_id] by simp
  show "ak_key_prefix r' = ak_key_prefix r" using arg_cong [OF eq, of ak_key_prefix] by simp
qed

lemma find_by_hash_same:
  assumes "list_all2 (same_key c lc) t t'" "find_by_hash h t = Some r"
  shows "\<exists>r'. find_by_hash h t' = Some r' \<and> same_key c lc r r'"
  using assms
proof (induction rule: list_all2_induct)
  case (Cons r0 rs r0' rs')
  with same_key_fields(1) [OF Cons.hyps(1)] show ?case by (auto simp: find_by_hash_def split: if_splits)
qed (simp add: find_by_hash_def)

text \<open>A key whose upstream secret was sealed by an older version: before, the request ends with an
  exception; after, it passes with that secret.\<close>

lemma migrated_key_passes:
  assumes "migrate c lc False t = (t', Inr st)" "\<And>p. dec c (enc c p) = Some p"
    and "extract_bearer_key h \<noteq> []" "find_by_raw_key c t (extract_bearer_key h) = Some r" "is_record_active r now"
    and "ak_upstream_key_encrypted r = Some (envelope_str ev)" "legacy_decrypt lc (envelope_str ev) = Inr s"
  shows "check_key c t now h = Raised (Value_Error (lit ''unsupported encrypted value version''))"
    and "check_key c t' now h = Call_Next (Some \<lparr>ri_api_key_id = ak_id r, ri_user_id = ak_owner_user_id r,
      ri_upstream_api_key = s, ri_key_prefix = ak_key_prefix r\<rparr>)"
proof -
  have v1: "\<not> startswith (envelope_str ev) (lit ''v2:'')" "envelope_str ev \<noteq> []"
    by (simp_all add: envelope_str_def startswith_def lit_def)
  from v1 assms(6) have "decrypt_upstream_key c r = Inl (Value_Error (lit ''unsupported encrypted value version''))"
    by (simp add: decrypt_upstream_key_def decrypt_def)
  with assms(3-5) show "check_key c t now h = Raised (Value_Error (lit ''unsupported encrypted value version''))"
    by (simp add: check_key_def build_identity_def Let_def)
  from migrate_same(1) [OF assms(1,2)] assms(4) obtain r' where
    r': "find_by_raw_key c t' (extract_bearer_key h) = Some r'" "same_key c lc r r'"
    using find_by_hash_same unfolding find_by_raw_key_def by blast
  from v1 assms(6,7) r'(2) have "decrypt_upstream_key c r' = Inr s" by (simp add: same_key_def read_secret_def)
  moreover from same_key_fields [OF r'(2)] assms(5) have "is_record_active r' now"
    by (auto simp: is_record_active_def split: if_splits)
  ultimately show "check_key c t' now h = Call_Next (Some \<lparr>ri_api_key_id = ak_id r, ri_user_id = ak_owner_user_id r,
      ri_upstream_api_key = s, ri_key_prefix = ak_key_prefix r\<rparr>)"
    using assms(3) r'(1) same_key_fields [OF r'(2)] by (simp add: check_key_def build_identity_def Let_def)
qed

end
