(* ===== verification/Key_Import.thy ===== *)
theory Key_Import
  imports Identity Key_Provider
begin

text \<open>
  The script that imports exported upstream keys into the key table (\<open>scripts/import_yxai_keys.py\<close>). Its
  session holds changes back until a query or the commit writes them; the database then checks that ids
  and hashes are unique. Parameters: \<open>show\<close> is \<open>str\<close> of a value that is not a string, \<open>clock\<close> the times read,
  the cipher and the digest; the parsed export file.
\<close>

definition TARGET_PROVIDER_NAME :: str where
  "TARGET_PROVIDER_NAME = lit ''oneapi_nanfu_yxai''"

definition LEGACY_PROVIDER_NAMES :: "str list" where
  "LEGACY_PROVIDER_NAMES = [lit ''oneapi_yxai'', TARGET_PROVIDER_NAME]"

section \<open>Items\<close>

record import_item =
  im_name :: str
  im_owner_user_id :: str
  im_upstream_key :: str
  im_upstream_key_id :: str

definition normalize_key :: "json \<Rightarrow> str res" where
  "normalize_key value =
     (case value of
        JStr s \<Rightarrow>
          (let raw_key = strip s in
           Inr (if raw_key = [] then [] else if startswith raw_key (lit ''sk-'') then raw_key else lit ''sk-'' @ raw_key))
      | _ \<Rightarrow> Inl Attribute_Error)"

text \<open>\<open>item.get(key)\<close> of a value that need not be a dictionary; \<open>str(value)\<close>.\<close>

definition item_get :: "json \<Rightarrow> string \<Rightarrow> json res" where
  "item_get item key = (case item of JDict d \<Rightarrow> Inr (get_or d (lit key) JNull) | _ \<Rightarrow> Inl Attribute_Error)"

definition str_of :: "(json \<Rightarrow> str) \<Rightarrow> json \<Rightarrow> str" where
  "str_of show v = (case v of JStr s \<Rightarrow> s | _ \<Rightarrow> show v)"

definition normalize_item :: "(json \<Rightarrow> str) \<Rightarrow> json \<Rightarrow> import_item option res" where
  "normalize_item show item =
     rbind (item_get item ''upstream_key'') (\<lambda>k.
     rbind (normalize_key (or_else k (JStr []))) (\<lambda>upstream_key.
     rbind (item_get item ''upstream_key_id'') (\<lambda>i.
     rbind (item_get item ''name'') (\<lambda>n.
       (let upstream_key_id = strip (str_of show (or_else i (JStr [])));
            name = strip (str_of show (or_else n (JStr [])))
        in if upstream_key = [] \<or> upstream_key_id = [] then Inr None
           else rbind (item_get item ''raw'') (\<lambda>raw.
                rbind (item_get (or_else raw (JDict [])) ''user_id'') (\<lambda>user_id.
                Inr (Some \<lparr>im_name = (if name = [] then lit ''yxai-token-'' @ upstream_key_id else name),
                           im_owner_user_id = str_of show (or_else user_id (JStr (lit ''yxai-user''))),
                           im_upstream_key = upstream_key, im_upstream_key_id = upstream_key_id\<rparr>))))))))"

section \<open>Rows\<close>

definition build_record :: "crypto \<Rightarrow> int \<Rightarrow> import_item \<Rightarrow> api_key" where
  "build_record c now item =
     \<lparr>ak_id = lit ''ak_import_'' @ im_upstream_key_id item,
      ak_key_hash = hash_api_key c (im_upstream_key item),
      ak_key_prefix = key_prefix (im_upstream_key item), ak_key_suffix = key_suffix (im_upstream_key item),
      ak_name = strip (im_name item), ak_owner_user_id = strip (im_owner_user_id item),
      ak_owner_department = None, ak_cost_center = None, ak_status = lit ''active'',
      ak_provider_name = TARGET_PROVIDER_NAME, ak_upstream_key_id = Some (im_upstream_key_id item),
      ak_upstream_key_prefix = Some (key_prefix (im_upstream_key item)),
      ak_upstream_key_encrypted = Some (encrypt c (im_upstream_key item)),
      ak_safetyhub_key_encrypted = Some (encrypt c (im_upstream_key item)),
      ak_is_decoupled = False, ak_created_at = now, ak_expires_at = None, ak_revoked_at = None\<rparr>"

definition update_record :: "crypto \<Rightarrow> import_item \<Rightarrow> api_key \<Rightarrow> api_key" where
  "update_record c item record =
     record\<lparr>ak_key_hash := hash_api_key c (im_upstream_key item),
       ak_key_prefix := key_prefix (im_upstream_key item), ak_key_suffix := key_suffix (im_upstream_key item),
       ak_name := im_name item, ak_owner_user_id := im_owner_user_id item, ak_status := lit ''active'',
       ak_provider_name := TARGET_PROVIDER_NAME, ak_upstream_key_id := Some (im_upstream_key_id item),
       ak_upstream_key_prefix := Some (key_prefix (im_upstream_key item)),
       ak_upstream_key_encrypted := Some (encrypt c (im_upstream_key item)),
       ak_safetyhub_key_encrypted := Some (encrypt c (im_upstream_key item)),
       ak_is_decoupled := False, ak_revoked_at := None\<rparr>"

section \<open>The import\<close>

text \<open>Writing the session's changes: the primary key and the unique index on \<open>key_hash\<close>.\<close>

definition unique_rows :: "key_table \<Rightarrow> bool" where
  "unique_rows t \<longleftrightarrow> distinct (map ak_id t) \<and> distinct (map ak_key_hash t)"

definition flush :: "key_table \<Rightarrow> unit res" where
  "flush t = (if unique_rows t then Inr () else Inl (Other_Error (lit ''IntegrityError'')))"

definition find_existing :: "crypto \<Rightarrow> key_table \<Rightarrow> import_item \<Rightarrow> api_key option res" where
  "find_existing c t item =
     rbind (flush t) (\<lambda>_.
     (case filter (\<lambda>r. ak_provider_name r \<in> set LEGACY_PROVIDER_NAMES \<and>
                       ak_upstream_key_id r = Some (im_upstream_key_id item)) t of
        [] \<Rightarrow> Inr (find_by_hash (hash_api_key c (im_upstream_key item)) t)
      | [r] \<Rightarrow> Inr (Some r)
      | _ \<Rightarrow> Inl (Other_Error (lit ''MultipleResultsFound''))))"

record import_stats =
  is_created :: nat
  is_updated :: nat
  is_skipped :: nat

fun import_loop ::
    "crypto \<Rightarrow> (json \<Rightarrow> str) \<Rightarrow> (nat \<Rightarrow> int) \<Rightarrow> json list \<Rightarrow> key_table \<Rightarrow> import_stats
     \<Rightarrow> (key_table \<times> import_stats) res" where
  "import_loop c show clock [] t stats = Inr (t, stats)"
| "import_loop c show clock (item # items) t stats =
     rbind (normalize_item show item) (\<lambda>normalized.
     (case normalized of
        None \<Rightarrow> import_loop c show clock items t (stats\<lparr>is_skipped := is_skipped stats + 1\<rparr>)
      | Some it \<Rightarrow>
          rbind (find_existing c t it) (\<lambda>existing.
          (case existing of
             None \<Rightarrow> import_loop c show clock items (tbl_add (build_record c (clock (length items)) it) t)
                       (stats\<lparr>is_created := is_created stats + 1\<rparr>)
           | Some r \<Rightarrow> import_loop c show clock items (tbl_update ak_id (ak_id r) (update_record c it) t)
                       (stats\<lparr>is_updated := is_updated stats + 1\<rparr>)))))"

text \<open>\<open>payload.get("items") or []\<close>, and what a \<open>for\<close> loop makes of it.\<close>

definition payload_items :: "json \<Rightarrow> json list res" where
  "payload_items payload =
     rbind (item_get payload ''items'') (\<lambda>v.
     (case or_else v (JList []) of
        JList xs \<Rightarrow> Inr xs
      | JDict d \<Rightarrow> Inr (map (\<lambda>(k, _). JStr k) d)
      | JStr s \<Rightarrow> Inr (map (\<lambda>ch. JStr [ch]) s)
      | _ \<Rightarrow> Inl Type_Error))"

definition import_keys ::
    "crypto \<Rightarrow> (json \<Rightarrow> str) \<Rightarrow> (nat \<Rightarrow> int) \<Rightarrow> json \<Rightarrow> key_table \<Rightarrow> key_table \<times> import_stats res" where
  "import_keys c show clock payload t =
     (case rbind (payload_items payload) (\<lambda>items.
             rbind (import_loop c show clock items t \<lparr>is_created = 0, is_updated = 0, is_skipped = 0\<rparr>) (\<lambda>(t', stats).
             rbind (flush t') (\<lambda>_. Inr (t', stats)))) of
        Inl e \<Rightarrow> (t, Inl e)
      | Inr (t', stats) \<Rightarrow> (t', Inr stats))"

section \<open>What it achieves\<close>

text \<open>The items of the export that are imported, and what an imported row says.\<close>

definition accepted :: "(json \<Rightarrow> str) \<Rightarrow> json list \<Rightarrow> import_item list" where
  "accepted show items =
     concat (map (\<lambda>i. case normalize_item show i of Inr (Some it) \<Rightarrow> [it] | _ \<Rightarrow> []) items)"

definition imported :: "crypto \<Rightarrow> import_item \<Rightarrow> api_key \<Rightarrow> bool" where
  "imported c it r \<longleftrightarrow>
     ak_key_hash r = hash_api_key c (im_upstream_key it) \<and> ak_upstream_key_id r = Some (im_upstream_key_id it) \<and>
     ak_provider_name r = TARGET_PROVIDER_NAME \<and> ak_status r = lit ''active'' \<and> ak_revoked_at r = None \<and>
     ak_upstream_key_encrypted r = Some (encrypt c (im_upstream_key it)) \<and>
     ak_safetyhub_key_encrypted r = Some (encrypt c (im_upstream_key it)) \<and> \<not> ak_is_decoupled r"

lemma imported_build [simp]: "imported c it (build_record c now it)"
  by (simp add: imported_def build_record_def)

lemma imported_update [simp]: "imported c it (update_record c it r)"
  by (simp add: imported_def update_record_def)

lemma update_record_id [simp]: "ak_id (update_record c it r) = ak_id r" "ak_expires_at (update_record c it r) = ak_expires_at r"
  by (simp_all add: update_record_def)

lemma find_existing_Some:
  assumes "find_existing c t it = Inr (Some r)"
  shows "r \<in> set t" "unique_rows t"
    "ak_upstream_key_id r = Some (im_upstream_key_id it) \<or> ak_key_hash r = hash_api_key c (im_upstream_key it)"
proof -
  from assms have u: "unique_rows t" by (simp add: find_existing_def flush_def split: if_splits)
  let ?f = "filter (\<lambda>r. ak_provider_name r \<in> set LEGACY_PROVIDER_NAMES \<and>
                       ak_upstream_key_id r = Some (im_upstream_key_id it)) t"
  have "r \<in> set t \<and> (ak_upstream_key_id r = Some (im_upstream_key_id it) \<or> ak_key_hash r = hash_api_key c (im_upstream_key it))"
  proof (cases ?f)
    case Nil
    with assms u show ?thesis by (auto simp: find_existing_def flush_def dest: find_by_hash_Some)
  next
    case (Cons x xs)
    with assms u have "r = x" by (cases xs) (auto simp: find_existing_def flush_def)
    moreover from Cons have "x \<in> set ?f" by simp
    ultimately show ?thesis by auto
  qed
  with u show "r \<in> set t" "unique_rows t"
    "ak_upstream_key_id r = Some (im_upstream_key_id it) \<or> ak_key_hash r = hash_api_key c (im_upstream_key it)" by blast+
qed

text \<open>Rows are changed or appended, never removed.\<close>

lemma import_loop_ids:
  "import_loop c show clock items t st = Inr (t', st') \<Longrightarrow> \<exists>new. map ak_id t' = map ak_id t @ new"
proof (induction items arbitrary: t st)
  case (Cons item items)
  then obtain n where n: "normalize_item show item = Inr n" by (auto simp: rbind_eq_Inr)
  show ?case
  proof (cases n)
    case None
    with Cons n show ?thesis by auto
  next
    case (Some it)
    with Cons.prems n obtain e where "find_existing c t it = Inr e" by (auto simp: rbind_eq_Inr)
    with Some Cons n show ?thesis
      by (cases e) (fastforce simp: tbl_add_def keys.map_upd)+
  qed
qed simp

lemma import_loop_stays:
  assumes "import_loop c show clock items t st = Inr (t', st')" "distinct (map ak_id t')" "r \<in> set t" "imported c it r"
    and "\<forall>i\<in>set (accepted show items). im_upstream_key_id i \<noteq> im_upstream_key_id it \<and>
      hash_api_key c (im_upstream_key i) \<noteq> hash_api_key c (im_upstream_key it)"
  shows "r \<in> set t'"
  using assms(1,3,5)
proof (induction items arbitrary: t st)
  case (Cons item items)
  from Cons.prems(1) obtain n where n: "normalize_item show item = Inr n" by (auto simp: rbind_eq_Inr)
  show ?case
  proof (cases n)
    case None
    with Cons n show ?thesis by (auto simp: accepted_def)
  next
    case (Some i)
    with n Cons.prems(3) have i: "im_upstream_key_id i \<noteq> im_upstream_key_id it"
      "hash_api_key c (im_upstream_key i) \<noteq> hash_api_key c (im_upstream_key it)" by (simp_all add: accepted_def)
    from Some Cons.prems(1) n obtain e where e: "find_existing c t i = Inr e" by (auto simp: rbind_eq_Inr)
    from Cons.prems(3) have rest: "\<forall>i\<in>set (accepted show items). im_upstream_key_id i \<noteq> im_upstream_key_id it \<and>
      hash_api_key c (im_upstream_key i) \<noteq> hash_api_key c (im_upstream_key it)" by (simp add: accepted_def)
    show ?thesis
    proof (cases e)
      case None
      with Some Cons.prems(1) n e Cons.IH [OF _ _ rest] Cons.prems(2) show ?thesis
        by (simp add: keys.set_add)
    next
      case (Some r')
      with e find_existing_Some [of c t i r'] i assms(4) have "r' \<noteq> r" "r' \<in> set t" "distinct (map ak_id t)"
        by (auto simp: imported_def unique_rows_def)
      with Cons.prems(2) have "ak_id r \<noteq> ak_id r'" by (auto simp: distinct_map inj_on_def)
      with Cons.prems(2) have "r \<in> set (tbl_update ak_id (ak_id r') (update_record c i) t)"
        by (force simp: keys.set_upd)
      with \<open>n = Some i\<close> Some Cons.prems(1) n e Cons.IH [OF _ _ rest] show ?thesis by simp
    qed
  qed
qed simp

text \<open>A later item with the same upstream id or the same key takes the row over.\<close>

definition not_replaced :: "crypto \<Rightarrow> import_item \<Rightarrow> import_item list \<Rightarrow> bool" where
  "not_replaced c it later \<longleftrightarrow>
     (\<forall>j\<in>set later. im_upstream_key_id j \<noteq> im_upstream_key_id it \<and>
        hash_api_key c (im_upstream_key j) \<noteq> hash_api_key c (im_upstream_key it))"

lemma import_loop_imports:
  assumes "import_loop c show clock items t st = Inr (t', st')" "distinct (map ak_id t')"
    and "accepted show items = xs @ it # later" "not_replaced c it later"
  shows "\<exists>r\<in>set t'. imported c it r"
  using assms(1,3)
proof (induction items arbitrary: t st xs)
  case (Cons item items)
  from Cons.prems(1) obtain n where n: "normalize_item show item = Inr n" by (auto simp: rbind_eq_Inr)
  show ?case
  proof (cases n)
    case None
    with Cons n show ?thesis by (auto simp: accepted_def)
  next
    case (Some i)
    with n have acc: "accepted show (item # items) = i # accepted show items" by (simp add: accepted_def)
    from Some Cons.prems(1) n obtain e where e: "find_existing c t i = Inr e" by (auto simp: rbind_eq_Inr)
    obtain t1 st1 where t1: "import_loop c show clock items t1 st1 = Inr (t', st')" "\<exists>r\<in>set t1. imported c i r"
    proof (cases e)
      case None
      with Some Cons.prems(1) n e that show thesis by (fastforce simp: keys.set_add)
    next
      case (Some r)
      with e find_existing_Some(1) [of c t i r] have "update_record c i r \<in> set (tbl_update ak_id (ak_id r) (update_record c i) t)"
        by (force simp: keys.set_upd)
      with \<open>n = Some i\<close> Some Cons.prems(1) n e that show thesis by fastforce
    qed
    show ?thesis
    proof (cases xs)
      case Nil
      with Cons.prems(2) acc have it: "it = i" "later = accepted show items" by simp_all
      from t1(2) obtain r where r: "r \<in> set t1" "imported c i r" by blast
      from import_loop_stays [OF t1(1) assms(2) r] assms(4) it r(2) show ?thesis
        by (auto simp: not_replaced_def)
    next
      case Cons_xs: (Cons x xs')
      with Cons.prems(2) acc have "accepted show items = xs' @ it # later" by simp
      from Cons.IH [OF t1(1) this] show ?thesis .
    qed
  qed
qed (simp add: accepted_def)

lemma import_keys_success:
  assumes "import_keys c show clock payload t = (t', Inr st)"
  obtains items st0 where "payload_items payload = Inr items"
    "import_loop c show clock items t \<lparr>is_created = 0, is_updated = 0, is_skipped = 0\<rparr> = Inr (t', st)" "unique_rows t'"
  using assms by (auto simp: import_keys_def rbind_eq_Inr flush_def split: sum.splits if_splits)

lemma find_by_distinct_hash:
  "distinct (map ak_key_hash t) \<Longrightarrow> r \<in> set t \<Longrightarrow> find_by_hash (ak_key_hash r) t = Some r"
  by (induction t) (auto simp: find_by_hash_def)

text \<open>Every accepted item that no later one replaces ends as a row that its key finds.\<close>

lemma imported_key_found:
  assumes "import_keys c show clock payload t = (t', Inr st)" "payload_items payload = Inr items"
    and "accepted show items = xs @ it # later" "not_replaced c it later"
  shows "\<exists>r. find_by_raw_key c t' (im_upstream_key it) = Some r \<and> imported c it r"
proof -
  from assms(1,2) obtain u where loop: "import_loop c show clock items t \<lparr>is_created = 0, is_updated = 0, is_skipped = 0\<rparr> = Inr (t', st)"
    and u: "unique_rows t'" by (auto elim: import_keys_success)
  from u have "distinct (map ak_id t')" by (simp add: unique_rows_def)
  from import_loop_imports [OF loop this assms(3,4)] obtain r where r: "r \<in> set t'" "imported c it r" by blast
  moreover from u r have "find_by_raw_key c t' (im_upstream_key it) = Some r"
    using find_by_distinct_hash [of t' r] by (simp add: find_by_raw_key_def unique_rows_def imported_def)
  ultimately show ?thesis by blast
qed

text \<open>An imported row has no date of expiry of its own: it keeps the one of the row it replaces.\<close>

lemma import_loop_expires:
  assumes "import_loop c show clock items t st = Inr (t', st')" "r \<in> set t'"
  shows "ak_expires_at r = None \<or> ak_expires_at r \<in> ak_expires_at ` set t"
  using assms
proof (induction items arbitrary: t st)
  case (Cons item items)
  then obtain n where n: "normalize_item show item = Inr n" by (auto simp: rbind_eq_Inr)
  show ?case
  proof (cases n)
    case None
    with Cons n show ?thesis by auto
  next
    case (Some it)
    with Cons.prems n obtain e where e: "find_existing c t it = Inr e" by (auto simp: rbind_eq_Inr)
    show ?thesis
    proof (cases e)
      case None
      with Some Cons.prems n e have "import_loop c show clock items (tbl_add (build_record c (clock (length items)) it) t)
          (st\<lparr>is_created := is_created st + 1\<rparr>) = Inr (t', st')" by simp
      from Cons.IH [OF this Cons.prems(2)] show ?thesis by (auto simp: keys.set_add build_record_def)
    next
      case (Some r0)
      with \<open>n = Some it\<close> Cons.prems n e have "import_loop c show clock items (tbl_update ak_id (ak_id r0) (update_record c it) t)
          (st\<lparr>is_updated := is_updated st + 1\<rparr>) = Inr (t', st')" by simp
      from Cons.IH [OF this Cons.prems(2)] show ?thesis by (auto simp: keys.set_upd)
    qed
  qed
qed simp

text \<open>The key of an imported row authenticates and carries the key that was imported.\<close>

lemma imported_passes:
  assumes "find_by_raw_key c t (im_upstream_key it) = Some r" "imported c it r" "dec c (enc c (im_upstream_key it)) = Some (im_upstream_key it)"
    and "extract_bearer_key h = im_upstream_key it" "im_upstream_key it \<noteq> []" "\<And>x. ak_expires_at r = Some x \<Longrightarrow> now < x"
  shows "\<exists>ident. check_key c t now h = Call_Next (Some ident) \<and>
    ri_api_key_id ident = ak_id r \<and> ri_upstream_api_key ident = im_upstream_key it"
proof -
  from assms(2,6) have "is_record_active r now"
    by (fastforce simp: is_record_active_def imported_def split: option.splits)
  moreover have "decrypt_upstream_key c r = Inr (im_upstream_key it)"
    using assms(2,3) by (simp add: decrypt_upstream_key_def imported_def decrypt_def encrypt_def)
  ultimately show ?thesis using assms(1,4,5) by (simp add: check_key_def build_identity_def Let_def)
qed

lemma import_failure_unchanged: "import_keys c show clock payload t = (t', Inl e) \<Longrightarrow> t' = t"
  by (auto simp: import_keys_def split: sum.splits)

end
