(* ===== verification/Table_Copy.thy ===== *)
theory Table_Copy
  imports Table Paths
begin

text \<open>
  Moving the data from SQLite to PostgreSQL (\<open>scripts/migrate_sqlite_to_postgres.py\<close>) and checking the
  result (\<open>scripts/verify_postgres_migration.py\<close>). The databases are parameters: \<open>fetch t limit offset\<close> is a
  page of a source table, in whatever order SQLite returns rows without an \<open>ORDER BY\<close>; \<open>allowed t rows\<close> says
  that rows satisfy the constraints of a target table; \<open>pk\<close> is the value of an integer primary key.
\<close>

section \<open>Databases\<close>

record table_info =
  ti_name :: string
  ti_primary_key :: "string list"
  ti_integer_key :: bool

text \<open>\<open>Base.metadata.sorted_tables\<close>: no table refers to another, so they are in the order of their names.\<close>

definition MODEL_TABLES :: "table_info list" where
  "MODEL_TABLES = map (\<lambda>(n, k, i). \<lparr>ti_name = n, ti_primary_key = [k], ti_integer_key = i\<rparr>)
     [(''admin_operations'', ''id'', True), (''api_keys'', ''id'', False), (''approval_chains'', ''id'', False),
      (''approval_requests'', ''id'', False), (''audit_logs'', ''id'', True), (''data_governance_jobs'', ''id'', True),
      (''generated_reports'', ''id'', True), (''image_assets'', ''id'', True), (''runtime_samples'', ''id'', True),
      (''runtime_settings'', ''key'', False), (''security_policies'', ''id'', False),
      (''training_conversations'', ''id'', True)]"

text \<open>The target: the rows of a table and the last value of the sequence of its key.\<close>

record 'r target =
  tg_rows :: "string \<Rightarrow> 'r list"
  tg_sequence :: "string \<Rightarrow> int"

definition set_rows :: "string \<Rightarrow> 'r list \<Rightarrow> 'r target \<Rightarrow> 'r target" where
  "set_rows t rows w = w\<lparr>tg_rows := (tg_rows w)(t := rows)\<rparr>"

section \<open>The copy\<close>

text \<open>\<open>[item.strip() for item in text.split(",") if item.strip()]\<close>.\<close>

definition table_names :: "str \<Rightarrow> str list" where
  "table_names text = filter (\<lambda>s. s \<noteq> []) (map strip (split_on 44 text))"

definition selected_tables :: "table_info list \<Rightarrow> str \<Rightarrow> table_info list res" where
  "selected_tables tables names =
     (if strip names = [] then Inr tables
      else (let wanted = table_names names in
            if \<exists>n\<in>set wanted. n \<notin> set (map (\<lambda>t. lit (ti_name t)) tables)
              then Inl (Other_Error (lit ''SystemExit: unknown tables''))
            else Inr (filter (\<lambda>t. lit (ti_name t) \<in> set wanted) tables)))"

definition clear_target_tables :: "table_info list \<Rightarrow> 'r target \<Rightarrow> 'r target" where
  "clear_target_tables tables w = foldl (\<lambda>w t. set_rows (ti_name t) [] w) w (rev tables)"

text \<open>One transaction: all the rows of a batch, or none.\<close>

definition insert_rows :: "(string \<Rightarrow> 'r list \<Rightarrow> bool) \<Rightarrow> string \<Rightarrow> 'r list \<Rightarrow> 'r target \<Rightarrow> 'r target \<times> unit res" where
  "insert_rows allowed t rows w =
     (if rows = [] then (w, Inr ())
      else if allowed t (tg_rows w t @ rows) then (set_rows t (tg_rows w t @ rows) w, Inr ())
      else (w, Inl (Other_Error (lit ''IntegrityError''))))"

text \<open>\<open>while True\<close>: the loop ends when a page is empty, which depends on the source.\<close>

partial_function (option) copy_pages ::
    "(nat \<Rightarrow> nat \<Rightarrow> 'r list) \<Rightarrow> ('r list \<Rightarrow> 'w \<Rightarrow> 'w \<times> unit res) \<Rightarrow> nat \<Rightarrow> nat \<Rightarrow> nat \<Rightarrow> 'w \<Rightarrow> ('w \<times> nat res) option" where
  "copy_pages fetch ins batch_size copied offset w =
     (let rows = fetch batch_size offset in
      if rows = [] then Some (w, Inr copied)
      else (case ins rows w of
          (w', Inl e) \<Rightarrow> Some (w', Inl e)
        | (w', Inr _) \<Rightarrow> copy_pages fetch ins batch_size (copied + length rows) (offset + length rows) w'))"

definition migrate_table ::
    "(string \<Rightarrow> nat \<Rightarrow> nat \<Rightarrow> 'r list) \<Rightarrow> (string \<Rightarrow> 'r list \<Rightarrow> bool) \<Rightarrow> nat \<Rightarrow> string \<Rightarrow> 'r target
     \<Rightarrow> ('r target \<times> nat res) option" where
  "migrate_table fetch allowed batch_size t w = copy_pages (fetch t) (insert_rows allowed t) batch_size 0 0 w"

fun migrate_tables ::
    "(string \<Rightarrow> nat \<Rightarrow> nat \<Rightarrow> 'r list) \<Rightarrow> (string \<Rightarrow> 'r list \<Rightarrow> bool) \<Rightarrow> nat \<Rightarrow> table_info list \<Rightarrow> 'r target
     \<Rightarrow> ('r target \<times> (string \<times> nat) list res) option" where
  "migrate_tables fetch allowed batch_size [] w = Some (w, Inr [])"
| "migrate_tables fetch allowed batch_size (t # ts) w =
     (case migrate_table fetch allowed batch_size (ti_name t) w of
        None \<Rightarrow> None
      | Some (w1, Inl e) \<Rightarrow> Some (w1, Inl e)
      | Some (w1, Inr n_rows) \<Rightarrow>
          (case migrate_tables fetch allowed batch_size ts w1 of
             None \<Rightarrow> None
           | Some (w2, r) \<Rightarrow> Some (w2, rbind r (\<lambda>counts. Inr ((ti_name t, n_rows) # counts)))))"

definition max_of :: "int list \<Rightarrow> int option" where
  "max_of xs = (if xs = [] then None else Some (fold max xs (hd xs)))"

definition refresh_sequence :: "('r \<Rightarrow> int) \<Rightarrow> table_info \<Rightarrow> 'r target \<Rightarrow> 'r target" where
  "refresh_sequence pk t w =
     (if length (ti_primary_key t) \<noteq> 1 then w
      else if \<not> ti_integer_key t then w
      else (case max_of (map pk (tg_rows w (ti_name t))) of
          None \<Rightarrow> w
        | Some max_id \<Rightarrow> w\<lparr>tg_sequence := (tg_sequence w)(ti_name t := max_id)\<rparr>))"

definition refresh_postgres_sequences :: "('r \<Rightarrow> int) \<Rightarrow> table_info list \<Rightarrow> 'r target \<Rightarrow> 'r target" where
  "refresh_postgres_sequences pk tables w = foldl (\<lambda>w t. refresh_sequence pk t w) w tables"

record copy_args =
  ca_postgres_url :: str
  ca_batch_size :: int
  ca_replace_target :: bool
  ca_tables :: str

definition check_postgres_url :: "str \<Rightarrow> unit res" where
  "check_postgres_url url =
     (if url = [] then Inl (Other_Error (lit ''SystemExit: POSTGRES_DB_URL or --postgres-url is required''))
      else if \<not> startswith url (lit ''postgresql+asyncpg://'')
        then Inl (Other_Error (lit ''SystemExit: postgres url must use postgresql+asyncpg://''))
      else Inr ())"

text \<open>\<open>main\<close>, after the target's schema was created; the pairs are what it prints.\<close>

definition copy_main ::
    "(string \<Rightarrow> nat \<Rightarrow> nat \<Rightarrow> 'r list) \<Rightarrow> (string \<Rightarrow> 'r list \<Rightarrow> bool) \<Rightarrow> ('r \<Rightarrow> int) \<Rightarrow> copy_args \<Rightarrow> 'r target
     \<Rightarrow> ('r target \<times> (string \<times> nat) list res) option" where
  "copy_main fetch allowed pk args w =
     (case rbind (check_postgres_url (ca_postgres_url args)) (\<lambda>_. selected_tables MODEL_TABLES (ca_tables args)) of
        Inl e \<Rightarrow> Some (w, Inl e)
      | Inr tables \<Rightarrow>
          (let w1 = (if ca_replace_target args then clear_target_tables tables w else w) in
           (case migrate_tables fetch allowed (nat (max 1 (ca_batch_size args))) tables w1 of
              None \<Rightarrow> None
            | Some (w2, Inl e) \<Rightarrow> Some (w2, Inl e)
            | Some (w2, Inr counts) \<Rightarrow> Some (refresh_postgres_sequences pk tables w2, Inr counts))))"

section \<open>The verification\<close>

definition DEFAULT_TABLES :: "str list" where
  "DEFAULT_TABLES = [lit ''api_keys'', lit ''audit_logs'', lit ''admin_operations'', lit ''image_assets'',
     lit ''approval_requests'', lit ''security_policies'', lit ''approval_chains'']"

text \<open>\<open>counts t\<close> is the number of rows of a SQLite table, when there is one.\<close>

definition read_sqlite_counts :: "(str \<Rightarrow> nat option) \<Rightarrow> str list \<Rightarrow> (str \<times> nat) list res" where
  "read_sqlite_counts counts names =
     rmap (\<lambda>n. case counts n of Some k \<Rightarrow> Inr (n, k) | None \<Rightarrow> Inl (Other_Error (lit ''OperationalError''))) names"

definition read_postgres_counts :: "'r target \<Rightarrow> str list \<Rightarrow> (str \<times> nat) list res" where
  "read_postgres_counts w names =
     rmap (\<lambda>n. case find (\<lambda>t. lit (ti_name t) = n) MODEL_TABLES of
         Some t \<Rightarrow> Inr (n, length (tg_rows w (ti_name t)))
       | None \<Rightarrow> Inl (Other_Error (lit ''KeyError''))) names"

definition verify_main :: "str \<Rightarrow> str \<Rightarrow> str \<Rightarrow> (str \<Rightarrow> nat option) \<Rightarrow> 'r target \<Rightarrow> unit res" where
  "verify_main postgres_url tables integrity counts w =
     rbind (check_postgres_url postgres_url) (\<lambda>_.
     (let names = table_names tables in
      rbind (read_sqlite_counts counts names) (\<lambda>sqlite_counts.
      rbind (read_postgres_counts w names) (\<lambda>postgres_counts.
      (let mismatch = (\<exists>n\<in>set names. map_of sqlite_counts n \<noteq> map_of postgres_counts n) in
       if integrity \<noteq> lit ''ok'' \<or> mismatch then Inl (Other_Error (lit ''SystemExit: 2'')) else Inr ())))))"

section \<open>What the copy achieves\<close>

lemma tg_rows_set [simp]: "tg_rows (set_rows t rows w) = (tg_rows w)(t := rows)"
  and tg_sequence_set [simp]: "tg_sequence (set_rows t rows w) = tg_sequence w"
  and set_rows_twice [simp]: "set_rows t rows (set_rows t rows' w) = set_rows t rows w"
  and set_rows_same [simp]: "set_rows t (tg_rows w t) w = w"
  by (simp_all add: set_rows_def)

text \<open>With a source that does not change and returns its rows in one order, the loop ends and the
  table is copied, whatever the size of the batches.\<close>

lemma copy_pages_all:
  assumes "\<And>limit offset. fetch limit offset = take limit (drop offset src)" "0 < batch_size"
    and "\<And>n. allowed t (take n src)" "tg_rows w t = take offset src" "offset \<le> length src"
  shows "copy_pages fetch (insert_rows allowed t) batch_size offset offset w =
    Some (set_rows t src w, Inr (length src))"
  using assms(4,5)
proof (induction "length src - offset" arbitrary: offset w rule: less_induct)
  case less
  let ?rows = "take batch_size (drop offset src)"
  show ?case
  proof (cases "?rows = []")
    case True
    with assms(2) less.prems have "offset = length src" by simp
    with less.prems have "tg_rows w t = src" by simp
    then have "set_rows t src w = w" by (metis set_rows_same)
    with True \<open>offset = length src\<close> show ?thesis by (subst copy_pages.simps) (simp add: assms(1))
  next
    case False
    let ?o = "offset + length ?rows"
    have upto: "take offset src @ ?rows = take ?o src"
      by (simp add: take_add [symmetric] min_def)
    from False assms(2) less.prems have "length src - ?o < length src - offset" "?o \<le> length src" by auto
    moreover have "tg_rows (set_rows t (take ?o src) w) t = take ?o src" by simp
    ultimately have "copy_pages fetch (insert_rows allowed t) batch_size ?o ?o (set_rows t (take ?o src) w) =
        Some (set_rows t src (set_rows t (take ?o src) w), Inr (length src))"
      by (intro less.hyps)
    with False upto less.prems(1) assms(3) show ?thesis
      by (subst copy_pages.simps) (simp add: assms(1) insert_rows_def Let_def del: length_take)
  qed
qed

text \<open>With constraints that fail half-way: the loop ends as well, what was inserted is a prefix of the
  source's rows, and the batch that failed and those after it are missing.\<close>

lemma copy_pages_prefix:
  assumes "\<And>limit offset. fetch limit offset = take limit (drop offset src)" "0 < batch_size"
    and "tg_rows w t = take offset src" "offset \<le> length src"
  shows "\<exists>k r. copy_pages fetch (insert_rows allowed t) batch_size offset offset w = Some (set_rows t (take k src) w, r) \<and>
    offset \<le> k \<and> k \<le> length src \<and> (r = Inr (length src) \<and> k = length src \<or>
      r = Inl (Other_Error (lit ''IntegrityError'')) \<and> \<not> allowed t (take (k + batch_size) src))"
  using assms(3,4)
proof (induction "length src - offset" arbitrary: offset w rule: less_induct)
  case less
  let ?rows = "take batch_size (drop offset src)"
  let ?o = "offset + length ?rows"
  have upto: "take offset src @ ?rows = take ?o src" "take offset src @ ?rows = take (offset + batch_size) src"
    by (simp_all add: take_add [symmetric] min_def)
  show ?case
  proof (cases "?rows = []")
    case True
    with assms(2) less.prems have o: "offset = length src" by simp
    with less.prems have "tg_rows w t = src" by simp
    then have "set_rows t src w = w" by (metis set_rows_same)
    with True o show ?thesis
      by (subst copy_pages.simps) (auto simp: assms(1) intro!: exI [of _ "length src"])
  next
    case False
    show ?thesis
    proof (cases "allowed t (tg_rows w t @ ?rows)")
      case True
      from False assms(2) less.prems have small: "length src - ?o < length src - offset" "?o \<le> length src" by auto
      have "tg_rows (set_rows t (take ?o src) w) t = take ?o src" by simp
      from less.hyps [OF small(1) this small(2)] obtain k r where
        k: "copy_pages fetch (insert_rows allowed t) batch_size ?o ?o (set_rows t (take ?o src) w) =
            Some (set_rows t (take k src) (set_rows t (take ?o src) w), r)" "?o \<le> k" "k \<le> length src"
          "r = Inr (length src) \<and> k = length src \<or>
           r = Inl (Other_Error (lit ''IntegrityError'')) \<and> \<not> allowed t (take (k + batch_size) src)"
        by blast
      have "copy_pages fetch (insert_rows allowed t) batch_size offset offset w = Some (set_rows t (take k src) w, r)"
        using False True less.prems(1) upto(1) k(1)
        by (subst copy_pages.simps) (simp add: assms(1) insert_rows_def Let_def del: length_take)
      with k(2-4) show ?thesis by (intro exI [of _ k] exI [of _ r]) auto
    next
      case no: False
      then have "copy_pages fetch (insert_rows allowed t) batch_size offset offset w =
          Some (w, Inl (Other_Error (lit ''IntegrityError'')))"
        using False by (subst copy_pages.simps) (simp add: assms(1) insert_rows_def Let_def)
      moreover have "set_rows t (take offset src) w = w" using less.prems(1) by (metis set_rows_same)
      moreover have "\<not> allowed t (take (offset + batch_size) src)" using no less.prems(1) upto(2) by simp
      ultimately show ?thesis using less.prems(2) by (intro exI [of _ offset]) auto
    qed
  qed
qed

lemma migrate_tables_all:
  assumes "\<And>t limit offset. fetch t limit offset = take limit (drop offset (src t))" "0 < batch_size"
    and "\<And>t n. allowed t (take n (src t))" "distinct (map ti_name tables)"
    and "\<forall>t\<in>set tables. tg_rows w (ti_name t) = []"
  shows "\<exists>w'. migrate_tables fetch allowed batch_size tables w =
      Some (w', Inr (map (\<lambda>t. (ti_name t, length (src (ti_name t)))) tables)) \<and>
    tg_rows w' = (\<lambda>n. if n \<in> ti_name ` set tables then src n else tg_rows w n) \<and> tg_sequence w' = tg_sequence w"
  using assms(4,5)
proof (induction tables arbitrary: w)
  case (Cons t ts)
  let ?w = "set_rows (ti_name t) (src (ti_name t)) w"
  have head: "migrate_table fetch allowed batch_size (ti_name t) w = Some (?w, Inr (length (src (ti_name t))))"
    using copy_pages_all [of "fetch (ti_name t)" "src (ti_name t)" batch_size allowed "ti_name t" w 0] assms(1-3) Cons.prems(2)
    by (simp add: migrate_table_def)
  have "ti_name t' \<noteq> ti_name t" if "t' \<in> set ts" for t'
    using Cons.prems(1) imageI [OF that, of ti_name] by auto
  with Cons.prems(2) have "\<forall>t'\<in>set ts. tg_rows ?w (ti_name t') = []" by simp
  with Cons.IH [of ?w] Cons.prems(1) obtain w' where
    "migrate_tables fetch allowed batch_size ts ?w = Some (w', Inr (map (\<lambda>t. (ti_name t, length (src (ti_name t)))) ts))"
    "tg_rows w' = (\<lambda>n. if n \<in> ti_name ` set ts then src n else tg_rows ?w n)" "tg_sequence w' = tg_sequence ?w" by auto
  with head show ?case by (auto simp: fun_eq_iff image_iff)
qed auto

text \<open>Without an \<open>ORDER BY\<close> each query may see the rows in another order; what it returns is that part of
  some order of them. The copy is protected by the primary keys of the target: a row read twice is refused,
  so a copy that ends without an error read every row once.\<close>

definition any_order :: "(string \<Rightarrow> nat \<Rightarrow> nat \<Rightarrow> 'r list) \<Rightarrow> (string \<Rightarrow> 'r list) \<Rightarrow> bool" where
  "any_order fetch src \<longleftrightarrow>
     (\<forall>t limit offset. \<exists>rows. mset rows = mset (src t) \<and> fetch t limit offset = take limit (drop offset rows))"

definition keyed_target :: "(string \<Rightarrow> 'r list \<Rightarrow> bool) \<Rightarrow> (string \<Rightarrow> 'r \<Rightarrow> 'k) \<Rightarrow> bool" where
  "keyed_target allowed key \<longleftrightarrow> (\<forall>t rows. allowed t rows \<longrightarrow> distinct (map (key t) rows))"

definition refused_rows :: "(string \<Rightarrow> 'r list \<Rightarrow> bool) \<Rightarrow> (string \<Rightarrow> 'r list) \<Rightarrow> string \<Rightarrow> bool" where
  "refused_rows allowed src t \<longleftrightarrow> (\<exists>rows. set rows \<subseteq> set (src t) \<and> \<not> allowed t rows)"

lemma any_order_page:
  assumes "any_order fetch src"
  shows "set (fetch t limit offset) \<subseteq> set (src t)"
    and "0 < limit \<Longrightarrow> fetch t limit offset = [] \<longleftrightarrow> length (src t) \<le> offset"
proof -
  from assms obtain rows where rows: "mset rows = mset (src t)" "fetch t limit offset = take limit (drop offset rows)"
    unfolding any_order_def by blast
  from rows(1) have "set rows = set (src t)" "length rows = length (src t)"
    by (metis set_mset_mset, metis size_mset)
  with rows(2) show "set (fetch t limit offset) \<subseteq> set (src t)"
    "0 < limit \<Longrightarrow> fetch t limit offset = [] \<longleftrightarrow> length (src t) \<le> offset"
    by (auto dest!: in_set_takeD in_set_dropD)
qed

lemma distinct_keys_all:
  assumes "distinct (map f xs)" "distinct (map f ys)" "set xs \<subseteq> set ys" "length ys \<le> length xs"
  shows "mset xs = mset ys"
proof -
  from assms(1,2) have d: "distinct xs" "distinct ys" by (auto simp: distinct_map)
  with assms(4) have "card (set ys) \<le> card (set xs)" by (simp add: distinct_card)
  with assms(3) have "set xs = set ys" by (simp add: card_seteq)
  with d show ?thesis by (simp add: set_eq_iff_mset_eq_distinct)
qed

lemma copy_pages_any_order:
  assumes "any_order fetch src" "0 < batch_size" "keyed_target allowed key" "distinct (map (key t) (src t))"
    and "set (tg_rows w t) \<subseteq> set (src t)" "distinct (map (key t) (tg_rows w t))" "length (tg_rows w t) = offset"
  shows "\<exists>rows r. copy_pages (fetch t) (insert_rows allowed t) batch_size offset offset w = Some (set_rows t rows w, r) \<and>
    (r = Inr (length (src t)) \<and> mset rows = mset (src t) \<or>
     r = Inl (Other_Error (lit ''IntegrityError'')) \<and> refused_rows allowed src t)"
  using assms(5-7)
proof (induction "length (src t) - offset" arbitrary: offset w rule: less_induct)
  case less
  let ?page = "fetch t batch_size offset"
  let ?acc = "tg_rows w t"
  note page = any_order_page [OF assms(1), where t = t and limit = batch_size and offset = offset]
  show ?case
  proof (cases "?page = []")
    case True
    with page(2) assms(2) less.prems(3) have "length (src t) \<le> length ?acc" by simp
    from distinct_keys_all [OF less.prems(2) assms(4) less.prems(1) this] have all: "mset ?acc = mset (src t)" .
    then have "offset = length (src t)" using less.prems(3) by (metis size_mset)
    with True all show ?thesis
      by (subst copy_pages.simps) (auto simp: Let_def intro!: exI [of _ ?acc])
  next
    case False
    show ?thesis
    proof (cases "allowed t (?acc @ ?page)")
      case True
      let ?w = "set_rows t (?acc @ ?page) w"
      from True assms(3) have keys: "distinct (map (key t) (?acc @ ?page))" unfolding keyed_target_def by blast
      have "length (src t) - (offset + length ?page) < length (src t) - offset"
        using False page(2) assms(2) by (cases ?page) auto
      from less.hyps [OF this, of ?w] less.prems page(1) keys obtain rows r where
        "copy_pages (fetch t) (insert_rows allowed t) batch_size (offset + length ?page) (offset + length ?page) ?w =
           Some (set_rows t rows ?w, r)"
        "r = Inr (length (src t)) \<and> mset rows = mset (src t) \<or>
         r = Inl (Other_Error (lit ''IntegrityError'')) \<and> refused_rows allowed src t"
        by auto
      moreover from False True have "copy_pages (fetch t) (insert_rows allowed t) batch_size offset offset w =
          copy_pages (fetch t) (insert_rows allowed t) batch_size (offset + length ?page) (offset + length ?page) ?w"
        by (subst copy_pages.simps) (simp add: insert_rows_def Let_def)
      ultimately show ?thesis by auto
    next
      case no: False
      with less.prems(1) page(1) have "refused_rows allowed src t"
        unfolding refused_rows_def by (intro exI [of _ "?acc @ ?page"]) auto
      with no False show ?thesis
        by (subst copy_pages.simps) (auto simp: insert_rows_def Let_def intro!: exI [of _ ?acc])
    qed
  qed
qed

lemma migrate_tables_any_order:
  assumes "any_order fetch src" "0 < batch_size" "keyed_target allowed key" "\<And>t. distinct (map (key t) (src t))"
    and "distinct (map ti_name tables)" "\<forall>t\<in>set tables. tg_rows w (ti_name t) = []"
  shows "\<exists>w' r. migrate_tables fetch allowed batch_size tables w = Some (w', r) \<and> tg_sequence w' = tg_sequence w \<and>
    (\<forall>n. n \<notin> ti_name ` set tables \<longrightarrow> tg_rows w' n = tg_rows w n) \<and>
    (r = Inr (map (\<lambda>t. (ti_name t, length (src (ti_name t)))) tables) \<and>
       (\<forall>t\<in>set tables. mset (tg_rows w' (ti_name t)) = mset (src (ti_name t))) \<or>
     r = Inl (Other_Error (lit ''IntegrityError'')) \<and> (\<exists>t\<in>set tables. refused_rows allowed src (ti_name t)))"
  using assms(5,6)
proof (induction tables arbitrary: w)
  case (Cons t ts)
  let ?n = "ti_name t"
  from copy_pages_any_order [OF assms(1-4), where t = ?n and w = w and offset = 0] Cons.prems(2) obtain rows r where
    head: "migrate_table fetch allowed batch_size ?n w = Some (set_rows ?n rows w, r)"
    "r = Inr (length (src ?n)) \<and> mset rows = mset (src ?n) \<or>
     r = Inl (Other_Error (lit ''IntegrityError'')) \<and> refused_rows allowed src ?n"
    by (auto simp: migrate_table_def)
  from head(2) show ?case
  proof (elim disjE conjE)
    assume ok: "r = Inr (length (src ?n))" "mset rows = mset (src ?n)"
    let ?w = "set_rows ?n rows w"
    from Cons.prems have fresh: "?n \<notin> ti_name ` set ts" by simp
    with Cons.prems(2) have "\<forall>t'\<in>set ts. tg_rows ?w (ti_name t') = []" by (auto simp: image_iff)
    with Cons.IH [of ?w] Cons.prems(1) obtain w' r' where
      "migrate_tables fetch allowed batch_size ts ?w = Some (w', r')" "tg_sequence w' = tg_sequence w"
      "\<forall>n. n \<notin> ti_name ` set ts \<longrightarrow> tg_rows w' n = tg_rows ?w n"
      "r' = Inr (map (\<lambda>t. (ti_name t, length (src (ti_name t)))) ts) \<and>
         (\<forall>t\<in>set ts. mset (tg_rows w' (ti_name t)) = mset (src (ti_name t))) \<or>
       r' = Inl (Other_Error (lit ''IntegrityError'')) \<and> (\<exists>t\<in>set ts. refused_rows allowed src (ti_name t))"
      by auto
    with head(1) ok fresh show ?thesis by (fastforce simp: rbind_def)
  next
    assume "r = Inl (Other_Error (lit ''IntegrityError''))" "refused_rows allowed src ?n"
    with head(1) show ?thesis by auto
  qed
qed auto

lemma clear_target_rows:
  "tg_rows (clear_target_tables tables w) = (\<lambda>n. if n \<in> ti_name ` set tables then [] else tg_rows w n)"
proof -
  have "tg_rows (foldl (\<lambda>w t. set_rows (ti_name t) [] w) w ts) = (\<lambda>n. if n \<in> ti_name ` set ts then [] else tg_rows w n)" for ts
    by (induction ts arbitrary: w) (auto simp: fun_eq_iff)
  from this [of "rev tables"] show ?thesis by (simp add: clear_target_tables_def)
qed

lemma clear_target_sequence: "tg_sequence (clear_target_tables tables w) = tg_sequence w"
proof -
  have "tg_sequence (foldl (\<lambda>w t. set_rows (ti_name t) [] w) w ts) = tg_sequence w" for ts
    by (induction ts arbitrary: w) auto
  then show ?thesis by (simp add: clear_target_tables_def)
qed

lemma max_of_bound: "x \<in> set xs \<Longrightarrow> \<exists>m. max_of xs = Some m \<and> x \<le> m"
  by (auto simp: max_of_def fold_max_ge)

lemma refresh_rows: "tg_rows (refresh_postgres_sequences pk tables w) = tg_rows w"
proof -
  have one: "tg_rows (refresh_sequence pk t w) = tg_rows w" for t w
    by (simp add: refresh_sequence_def split: option.splits)
  show ?thesis unfolding refresh_postgres_sequences_def by (induction tables arbitrary: w) (simp_all add: one)
qed

text \<open>The sequence of a refreshed table is at its largest id, so no new row collides.\<close>

lemma refresh_covers:
  assumes "distinct (map ti_name tables)" "t \<in> set tables" "length (ti_primary_key t) = 1" "ti_integer_key t"
    and "r \<in> set (tg_rows w (ti_name t))"
  shows "pk r \<le> tg_sequence (refresh_postgres_sequences pk tables w) (ti_name t)"
  using assms(1,2,5)
proof (induction tables arbitrary: w)
  case (Cons x xs)
  have rows: "tg_rows (refresh_sequence pk x w) = tg_rows w"
    by (simp add: refresh_sequence_def split: option.splits)
  have other: "tg_sequence (refresh_sequence pk y v) n = tg_sequence v n" if "n \<noteq> ti_name y" for y v n
    using that by (simp add: refresh_sequence_def split: option.splits)
  have others: "tg_sequence (refresh_postgres_sequences pk ys v) n = tg_sequence v n" if "n \<notin> ti_name ` set ys" for ys v n
    using that unfolding refresh_postgres_sequences_def by (induction ys arbitrary: v) (auto simp: other)
  show ?case
  proof (cases "x = t")
    case True
    from max_of_bound [of "pk r" "map pk (tg_rows w (ti_name t))"] Cons.prems(3) obtain m where
      m: "max_of (map pk (tg_rows w (ti_name t))) = Some m" "pk r \<le> m" by auto
    then have "pk r \<le> tg_sequence (refresh_sequence pk t w) (ti_name t)"
      using assms(3,4) by (simp add: refresh_sequence_def)
    with True Cons.prems(1) others [of "ti_name t" xs "refresh_sequence pk t w"] show ?thesis
      by (simp add: refresh_postgres_sequences_def)
  next
    case False
    with Cons.IH [of "refresh_sequence pk x w"] Cons.prems rows show ?thesis
      by (simp add: refresh_postgres_sequences_def)
  qed
qed simp

lemma selected_distinct:
  assumes "selected_tables MODEL_TABLES names = Inr tables"
  shows "distinct (map ti_name tables)" "set tables \<subseteq> set MODEL_TABLES"
proof -
  have "distinct (map ti_name MODEL_TABLES)" by (simp add: MODEL_TABLES_def)
  with assms show "distinct (map ti_name tables)" "set tables \<subseteq> set MODEL_TABLES"
    by (auto simp: selected_tables_def Let_def distinct_map_filter split: if_splits)
qed

text \<open>A run on empty tables, or with \<open>--replace-target\<close>. The copy of the tables starts from \<open>prepared\<close>.\<close>

definition prepared :: "copy_args \<Rightarrow> table_info list \<Rightarrow> 'r target \<Rightarrow> 'r target" where
  "prepared args tables w = (if ca_replace_target args then clear_target_tables tables w else w)"

definition starts_empty :: "copy_args \<Rightarrow> table_info list \<Rightarrow> 'r target \<Rightarrow> bool" where
  "starts_empty args tables w \<longleftrightarrow> ca_replace_target args \<or> (\<forall>t\<in>set tables. tg_rows w (ti_name t) = [])"

lemma prepared_rows:
  "starts_empty args tables w \<Longrightarrow> \<forall>t\<in>set tables. tg_rows (prepared args tables w) (ti_name t) = []"
  "n \<notin> ti_name ` set tables \<Longrightarrow> tg_rows (prepared args tables w) n = tg_rows w n"
  by (auto simp: prepared_def starts_empty_def clear_target_rows)

lemma copy_main_any_order:
  assumes "any_order fetch src" "keyed_target allowed key" "\<And>t. distinct (map (key t) (src t))"
    and "check_postgres_url (ca_postgres_url args) = Inr ()" "selected_tables MODEL_TABLES (ca_tables args) = Inr tables"
    and "starts_empty args tables w"
  shows "\<exists>w' r. copy_main fetch allowed pk args w = Some (w', r) \<and>
    (\<forall>n. n \<notin> ti_name ` set tables \<longrightarrow> tg_rows w' n = tg_rows w n) \<and>
    (r = Inr (map (\<lambda>t. (ti_name t, length (src (ti_name t)))) tables) \<and>
       (\<forall>t\<in>set tables. mset (tg_rows w' (ti_name t)) = mset (src (ti_name t)) \<and>
          (ti_integer_key t \<longrightarrow> (\<forall>x\<in>set (src (ti_name t)). pk x \<le> tg_sequence w' (ti_name t)))) \<or>
     r = Inl (Other_Error (lit ''IntegrityError'')) \<and> (\<exists>t\<in>set tables. refused_rows allowed src (ti_name t)))"
proof -
  let ?b = "nat (max 1 (ca_batch_size args))"
  let ?w1 = "prepared args tables w"
  note sel = selected_distinct [OF assms(5)]
  have "0 < ?b" by simp
  from migrate_tables_any_order [OF assms(1) this assms(2,3) sel(1) prepared_rows(1) [OF assms(6)]] obtain w2 r where w2:
    "migrate_tables fetch allowed ?b tables ?w1 = Some (w2, r)"
    "\<forall>n. n \<notin> ti_name ` set tables \<longrightarrow> tg_rows w2 n = tg_rows ?w1 n"
    "r = Inr (map (\<lambda>t. (ti_name t, length (src (ti_name t)))) tables) \<and>
       (\<forall>t\<in>set tables. mset (tg_rows w2 (ti_name t)) = mset (src (ti_name t))) \<or>
     r = Inl (Other_Error (lit ''IntegrityError'')) \<and> (\<exists>t\<in>set tables. refused_rows allowed src (ti_name t))" by blast
  from w2(2) prepared_rows(2) have others: "\<forall>n. n \<notin> ti_name ` set tables \<longrightarrow> tg_rows w2 n = tg_rows w n" by auto
  from w2(3) show ?thesis
  proof (elim disjE conjE)
    assume ok: "r = Inr (map (\<lambda>t. (ti_name t, length (src (ti_name t)))) tables)"
      "\<forall>t\<in>set tables. mset (tg_rows w2 (ti_name t)) = mset (src (ti_name t))"
    let ?w' = "refresh_postgres_sequences pk tables w2"
    have "pk x \<le> tg_sequence ?w' (ti_name t)"
      if "t \<in> set tables" "ti_integer_key t" "x \<in> set (src (ti_name t))" for t x
    proof -
      from that(1) sel(2) have "length (ti_primary_key t) = 1" by (auto simp: MODEL_TABLES_def)
      moreover from that(1,3) ok(2) have "x \<in> set (tg_rows w2 (ti_name t))" by (metis set_mset_mset)
      ultimately show ?thesis using that by (intro refresh_covers [OF sel(1)]) auto
    qed
    moreover from w2(1) ok(1) assms(4,5) have "copy_main fetch allowed pk args w = Some (?w', r)"
      by (simp add: copy_main_def prepared_def Let_def)
    ultimately show ?thesis using ok others by (intro exI [of _ ?w'] exI [of _ r]) (auto simp: refresh_rows)
  next
    assume bad: "r = Inl (Other_Error (lit ''IntegrityError''))" "\<exists>t\<in>set tables. refused_rows allowed src (ti_name t)"
    with w2(1) assms(4,5) have "copy_main fetch allowed pk args w = Some (w2, r)"
      by (simp add: copy_main_def prepared_def Let_def)
    with bad others show ?thesis by blast
  qed
qed

text \<open>A source that keeps one order and rows the constraints admit: the copy succeeds.\<close>

lemma copy_main_succeeds:
  assumes "\<And>t limit offset. fetch t limit offset = take limit (drop offset (src t))"
    and "\<And>t n. allowed t (take n (src t))" "check_postgres_url (ca_postgres_url args) = Inr ()"
    and "selected_tables MODEL_TABLES (ca_tables args) = Inr tables" "starts_empty args tables w"
  shows "\<exists>w'. copy_main fetch allowed pk args w = Some (w', Inr (map (\<lambda>t. (ti_name t, length (src (ti_name t)))) tables))"
proof -
  note sel = selected_distinct [OF assms(4)]
  have "0 < nat (max 1 (ca_batch_size args))" by simp
  from migrate_tables_all [of fetch src, OF assms(1) this, of allowed tables "prepared args tables w"] assms(2) sel(1)
    prepared_rows(1) [OF assms(5)]
  obtain w2 where "migrate_tables fetch allowed (nat (max 1 (ca_batch_size args))) tables (prepared args tables w) =
      Some (w2, Inr (map (\<lambda>t. (ti_name t, length (src (ti_name t)))) tables))" by auto
  with assms(3,4) show ?thesis by (simp add: copy_main_def prepared_def Let_def)
qed

section \<open>What the verification says\<close>

lemma rmap_counts:
  "rmap (\<lambda>n. case f n of Some k \<Rightarrow> Inr (n, k) | None \<Rightarrow> Inl e) names =
     (if \<forall>n\<in>set names. f n \<noteq> None then Inr (map (\<lambda>n. (n, the (f n))) names) else Inl e)"
  by (induction names) (auto split: option.splits)

text \<open>The rows of a table of the target, by the name on the command line.\<close>

definition target_count :: "'r target \<Rightarrow> str \<Rightarrow> nat option" where
  "target_count w n = map_option (\<lambda>t. length (tg_rows w (ti_name t))) (find (\<lambda>t. lit (ti_name t) = n) MODEL_TABLES)"

lemma read_postgres_counts_eq:
  "read_postgres_counts w names =
     rmap (\<lambda>n. case target_count w n of Some k \<Rightarrow> Inr (n, k) | None \<Rightarrow> Inl (Other_Error (lit ''KeyError''))) names"
proof -
  have "(\<lambda>n. case find (\<lambda>t. lit (ti_name t) = n) MODEL_TABLES of
         Some t \<Rightarrow> Inr (n, length (tg_rows w (ti_name t)))
       | None \<Rightarrow> Inl (Other_Error (lit ''KeyError''))) =
     (\<lambda>n. case target_count w n of Some k \<Rightarrow> Inr (n, k) | None \<Rightarrow> Inl (Other_Error (lit ''KeyError'')))"
    by (auto simp: target_count_def split: option.splits)
  then show ?thesis by (simp add: read_postgres_counts_def)
qed

lemma verify_main_iff:
  "verify_main url tables integrity counts w = Inr () \<longleftrightarrow>
     check_postgres_url url = Inr () \<and> integrity = lit ''ok'' \<and>
     (\<forall>n\<in>set (table_names tables). counts n \<noteq> None \<and> counts n = target_count w n)"
proof -
  let ?names = "table_names tables"
  show ?thesis
  proof (cases "check_postgres_url url = Inr () \<and> (\<forall>n\<in>set ?names. counts n \<noteq> None) \<and> (\<forall>n\<in>set ?names. target_count w n \<noteq> None)")
    case True
    then have both: "check_postgres_url url = Inr ()" "\<forall>n\<in>set ?names. counts n \<noteq> None"
      "\<forall>n\<in>set ?names. target_count w n \<noteq> None" by blast+
    have same: "(\<exists>n\<in>set ?names. map_of (map (\<lambda>n. (n, the (counts n))) ?names) n \<noteq>
        map_of (map (\<lambda>n. (n, the (target_count w n))) ?names) n) \<longleftrightarrow> (\<exists>n\<in>set ?names. counts n \<noteq> target_count w n)"
      using both(2,3) by (auto simp: map_of_map_restrict)
    have "verify_main url tables integrity counts w =
        (if integrity \<noteq> lit ''ok'' \<or> (\<exists>n\<in>set ?names. counts n \<noteq> target_count w n)
         then Inl (Other_Error (lit ''SystemExit: 2'')) else Inr ())"
      unfolding same [symmetric] verify_main_def read_sqlite_counts_def read_postgres_counts_eq rmap_counts Let_def
      by (simp only: both(1) if_P [OF both(2)] if_P [OF both(3)] rbind_simps)
    with both show ?thesis by auto
  next
    case False
    note unfold = verify_main_def read_sqlite_counts_def read_postgres_counts_eq rmap_counts Let_def
    have "(\<exists>e. check_postgres_url url = Inl e) \<or> check_postgres_url url = Inr ()"
      by (cases "check_postgres_url url") auto
    with False consider e where "check_postgres_url url = Inl e" | "\<not> (\<forall>n\<in>set ?names. counts n \<noteq> None)" "check_postgres_url url = Inr ()"
      | "\<not> (\<forall>n\<in>set ?names. target_count w n \<noteq> None)" "\<forall>n\<in>set ?names. counts n \<noteq> None" "check_postgres_url url = Inr ()"
      by blast
    then have "verify_main url tables integrity counts w \<noteq> Inr ()"
    proof cases
      case 1
      then show ?thesis by (simp add: verify_main_def)
    next
      case 2
      then show ?thesis unfolding unfold by (simp only: if_not_P rbind_simps) simp
    next
      case 3
      then show ?thesis unfolding unfold if_P [OF 3(2)] by (simp only: if_not_P rbind_simps) simp
    qed
    with False show ?thesis by metis
  qed
qed

lemma find_by_key: "distinct (map f xs) \<Longrightarrow> x \<in> set xs \<Longrightarrow> find (\<lambda>y. f y = f x) xs = Some x"
  by (induction xs) auto

lemma find_model_table:
  assumes "t \<in> set MODEL_TABLES"
  shows "find (\<lambda>x. lit (ti_name x) = lit (ti_name t)) MODEL_TABLES = Some t"
proof -
  have "distinct (map ti_name MODEL_TABLES)" by (simp add: MODEL_TABLES_def)
  from find_by_key [OF this assms] show ?thesis by simp
qed

lemma default_names: "table_names (join [44] DEFAULT_TABLES) = DEFAULT_TABLES"
  by code_simp

text \<open>The verdict depends on the tables it is given and on no others.\<close>

lemma verify_main_cong:
  assumes "\<And>n. n \<in> set (table_names tables) \<Longrightarrow> target_count w n = target_count w' n"
  shows "verify_main url tables integrity counts w = Inr () \<longleftrightarrow> verify_main url tables integrity counts w' = Inr ()"
  using assms by (auto simp: verify_main_iff)

lemma target_count_other: "n \<noteq> lit t \<Longrightarrow> target_count (set_rows t rows w) n = target_count w n"
  by (auto simp: target_count_def find_Some_iff intro!: option.map_cong)

end
