(* ===== verification/Verify_Client.thy ===== *)
theory Verify_Client
  imports Engine Stream Paths
begin

text \<open>
  The clients that exercise a running hub (\<open>verify/verify_chat_stream.py\<close>, \<open>verify/verify_chat_non_stream.py\<close>):
  the request they send, how they read a stream as it arrives and a JSON answer, and their forecast of what
  the hub will block. Parameters: \<open>json.loads\<close>, the decoder of a chunk, \<open>show\<close> (\<open>str\<close> of a value that is not a
  string), \<open>re.compile\<close>, \<open>str.lower\<close>.
\<close>

section \<open>The request\<close>

definition endpoint_url :: "str \<Rightarrow> str" where
  "endpoint_url base_url = rstrip_by (\<lambda>c. c = 47) base_url @ lit ''/v1/chat/completions''"

definition client_headers :: "str \<Rightarrow> (str, str) dict" where
  "client_headers api_key =
     (let headers = [(lit ''Content-Type'', lit ''application/json'')] in
      if api_key \<noteq> [] then dict_set headers (lit ''Authorization'') (lit ''Bearer '' @ api_key) else headers)"

definition SYSTEM_PROMPT :: str where
  "SYSTEM_PROMPT = [20320, 26159, 19968, 20010, 31616, 27905, 30340, 27979, 35797, 21161, 25163, 12290]"

definition client_payload :: "str \<Rightarrow> str \<Rightarrow> bool \<Rightarrow> json" where
  "client_payload model prompt is_stream =
     JDict [(lit ''model'', JStr model),
            (lit ''messages'', JList
               [JDict [(lit ''role'', JStr (lit ''system'')), (lit ''content'', JStr SYSTEM_PROMPT)],
                JDict [(lit ''role'', JStr (lit ''user'')), (lit ''content'', JStr prompt)]]),
            (lit ''temperature'', JFloat (1 / 5)), (lit ''stream'', JBool is_stream)]"

section \<open>Reading a stream\<close>

text \<open>\<open>s.split("\n\n")\<close>.\<close>

fun split_blank :: "str \<Rightarrow> str list" where
  "split_blank [] = [[]]"
| "split_blank [c] = [[c]]"
| "split_blank (c # d # s) =
     (if c = 10 \<and> d = 10 then [] # split_blank s
      else (case split_blank (d # s) of p # ps \<Rightarrow> (c # p) # ps | [] \<Rightarrow> [[c]]))"

definition part_data :: "str \<Rightarrow> str list" where
  "part_data part =
     (let data_lines = map (\<lambda>line. strip (drop 5 line)) (filter (\<lambda>line. startswith line (lit ''data:'')) (split_on 10 part))
      in if data_lines = [] then [] else [join [10] data_lines])"

text \<open>The data items and the remainder.\<close>

definition parse_sse_events :: "str \<Rightarrow> str list \<times> str" where
  "parse_sse_events buffer =
     (let parts = split_blank (replace_crlf buffer) in (concat (map part_data (butlast parts)), last parts))"

text \<open>\<open>payload["choices"][0]\<close>; \<open>None\<close> stands for the exceptions that are caught.\<close>

fun first_choice :: "json \<Rightarrow> json option" where
  "first_choice (JList (x # xs)) = Some x"
| "first_choice (JStr (c # s)) = Some (JStr [c])"
| "first_choice _ = None"

definition payload_choice :: "json \<Rightarrow> json option" where
  "payload_choice payload =
     (case payload of JDict d \<Rightarrow> (case dict_get d (lit ''choices'') of Some v \<Rightarrow> first_choice v | None \<Rightarrow> None) | _ \<Rightarrow> None)"

definition if_falsy :: "json \<Rightarrow> json \<Rightarrow> json" where
  "if_falsy v d = (if truthy v then v else d)"

text \<open>An \<open>AttributeError\<close> is not caught.\<close>

definition extract_stream_fragment :: "(str \<Rightarrow> json option) \<Rightarrow> str \<Rightarrow> json res" where
  "extract_stream_fragment loads data =
     (case loads data of
        None \<Rightarrow> Inr (JStr [])
      | Some payload \<Rightarrow> (case payload_choice payload of
            None \<Rightarrow> Inr (JStr [])
          | Some choice \<Rightarrow>
              rbind (rule_get choice (lit ''delta'') JNull) (\<lambda>delta.
              rbind (rule_get (if_falsy delta (JDict [])) (lit ''content'') JNull) (\<lambda>content.
              Inr (if_falsy content (JStr []))))))"

record stream_reader =
  sr_buffer :: str
  sr_chunks :: nat
  sr_events :: nat
  sr_fragments :: "json list"

definition new_reader :: stream_reader where
  "new_reader = \<lparr>sr_buffer = [], sr_chunks = 0, sr_events = 0, sr_fragments = []\<rparr>"

fun feed_events :: "(str \<Rightarrow> json option) \<Rightarrow> str list \<Rightarrow> stream_reader \<Rightarrow> stream_reader res" where
  "feed_events loads [] r = Inr r"
| "feed_events loads (data # ds) r =
     (let r1 = r\<lparr>sr_events := sr_events r + 1\<rparr> in
      if data = lit ''[DONE]'' then feed_events loads ds r1
      else rbind (extract_stream_fragment loads data) (\<lambda>fragment.
           feed_events loads ds
             (if truthy fragment then r1\<lparr>sr_fragments := sr_fragments r1 @ [fragment]\<rparr> else r1)))"

text \<open>The loop over the decoded chunks.\<close>

fun feed_texts :: "(str \<Rightarrow> json option) \<Rightarrow> str list \<Rightarrow> stream_reader \<Rightarrow> stream_reader res" where
  "feed_texts loads [] r = Inr r"
| "feed_texts loads (t # ts) r =
     (let (data, remainder) = parse_sse_events (sr_buffer r @ t) in
      rbind (feed_events loads data (r\<lparr>sr_chunks := sr_chunks r + 1, sr_buffer := remainder\<rparr>)) (feed_texts loads ts))"

text \<open>\<open>send_stream\<close> on a response: what it returns, and the fragments it printed when it read the answer.\<close>

definition read_stream ::
    "(str \<Rightarrow> json option) \<Rightarrow> (bytes \<Rightarrow> str) \<Rightarrow> nat \<Rightarrow> bytes list \<Rightarrow> (bool \<times> json list) res" where
  "read_stream loads decode status_code body_chunks =
     (if status_code \<ge> 400 then Inr (False, [])
      else rbind (feed_texts loads (map decode (filter (\<lambda>c. c \<noteq> []) body_chunks)) new_reader) (\<lambda>r.
           Inr (sr_chunks r > 0, sr_fragments r)))"

section \<open>Reading a JSON answer\<close>

text \<open>\<open>payload["choices"][0]["message"].get("content") or ""\<close>.\<close>

definition extract_non_stream_content :: "json \<Rightarrow> json res" where
  "extract_non_stream_content payload =
     (case payload_choice payload of
        Some (JDict choice) \<Rightarrow>
          (case dict_get choice (lit ''message'') of
             None \<Rightarrow> Inr (JStr [])
           | Some message \<Rightarrow> rbind (rule_get message (lit ''content'') JNull) (\<lambda>c. Inr (if_falsy c (JStr []))))
      | _ \<Rightarrow> Inr (JStr []))"

text \<open>\<open>send_non_stream\<close>: \<open>answer\<close> is the parsed body, when it is JSON; the headers are only printed.\<close>

definition read_answer :: "nat \<Rightarrow> json option \<Rightarrow> (bool \<times> json) res" where
  "read_answer status_code answer =
     (if status_code \<ge> 400 then Inr (False, JStr [])
      else (case answer of
          None \<Rightarrow> Inr (False, JStr [])
        | Some payload \<Rightarrow>
            if \<not> is_dict payload then Inl Attribute_Error
            else rbind (extract_non_stream_content payload) (\<lambda>content.
                 Inr (truthy content \<or> truthy payload, content))))"

section \<open>The forecast\<close>

text \<open>\<open>enabled_block_keyword_rules\<close> and \<open>enabled_block_regex_rules\<close>; \<open>config\<close> is the parsed file, an empty
  dictionary when there is none or it is empty.\<close>

definition blocks_rule :: "json \<Rightarrow> bool res" where
  "blocks_rule rule =
     rbind (rule_get rule (lit ''enabled'') (JBool True)) (\<lambda>e.
     rbind (rule_get rule (lit ''level'') (JStr (lit ''block''))) (\<lambda>l.
     Inr (truthy e \<and> l = JStr (lit ''block''))))"

fun filter_rules :: "(json \<Rightarrow> bool res) \<Rightarrow> json list \<Rightarrow> json list res" where
  "filter_rules p [] = Inr []"
| "filter_rules p (r # rs) =
     rbind (p r) (\<lambda>b. rbind (filter_rules p rs) (\<lambda>rest. Inr (if b then r # rest else rest)))"

definition enabled_block_rules :: "str \<Rightarrow> json \<Rightarrow> json list res" where
  "enabled_block_rules section_name config = rbind (rules_of section_name config) (filter_rules blocks_rule)"

definition keyword_matches :: "str \<Rightarrow> str \<Rightarrow> json \<Rightarrow> bool" where
  "keyword_matches text keyword match_mode =
     (if keyword = [] then False
      else if match_mode = JStr (lit ''exact'') then text = keyword
      else if match_mode = JStr (lit ''prefix'') then startswith text keyword
      else contains text keyword)"

definition text_of :: "(json \<Rightarrow> str) \<Rightarrow> json \<Rightarrow> str" where
  "text_of show v = (case v of JStr s \<Rightarrow> s | _ \<Rightarrow> show v)"

text \<open>The line printed for a hit, with the keyword of a keyword rule.\<close>

definition hit_line :: "(json \<Rightarrow> str) \<Rightarrow> json \<Rightarrow> json option \<Rightarrow> str res" where
  "hit_line show rule keyword =
     rbind (rule_get rule (lit ''id'') (JStr [])) (\<lambda>i.
     rbind (rule_get rule (lit ''name'') (JStr [])) (\<lambda>n.
     Inr (text_of show i @ lit '' '' @ text_of show n @
       (case keyword of Some k \<Rightarrow> lit '' / '' @ text_of show k | None \<Rightarrow> []))))"

definition keyword_rule_hits :: "(str \<Rightarrow> str) \<Rightarrow> (json \<Rightarrow> str) \<Rightarrow> str \<Rightarrow> json \<Rightarrow> str list res" where
  "keyword_rule_hits low show prompt rule =
     rbind (rule_get rule (lit ''case_sensitive'') (JBool False)) (\<lambda>cs.
     rbind (rule_get rule (lit ''match_mode'') (JStr (lit ''contains''))) (\<lambda>match_mode.
     rbind (rule_get rule (lit ''keywords'') (JList [])) (\<lambda>kws.
     rbind (iter_json kws) (\<lambda>ks.
       (let fold_case = (\<lambda>s. if truthy cs then s else low s) in
        case find (\<lambda>k. keyword_matches (fold_case prompt) (fold_case (text_of show k)) match_mode) ks of
          None \<Rightarrow> Inr []
        | Some k \<Rightarrow> rbind (hit_line show rule (Some k)) (\<lambda>l. Inr [l]))))))"

text \<open>\<open>pattern.search(prompt)\<close> is the first match of \<open>finditer\<close>.\<close>

definition regex_rule_hits :: "(json \<Rightarrow> str) \<Rightarrow> str \<Rightarrow> re \<times> json \<Rightarrow> str list res" where
  "regex_rule_hits show prompt cr =
     (if finditer (fst cr) prompt = [] then Inr [] else rbind (hit_line show (snd cr) None) (\<lambda>l. Inr [l]))"

text \<open>The compilation differs from the engine's in what was filtered before it.\<close>

fun compile_block_rules :: "(str \<Rightarrow> bool \<Rightarrow> re option) \<Rightarrow> json list \<Rightarrow> (re \<times> json) list res" where
  "compile_block_rules compile [] = Inr []"
| "compile_block_rules compile (rule # rs) =
     rbind (rule_get rule (lit ''ignore_case'') (JBool False)) (\<lambda>ic.
       (case rule of
          JDict d \<Rightarrow> (case dict_get d (lit ''pattern'') of
              None \<Rightarrow> compile_block_rules compile rs
            | Some (JStr p) \<Rightarrow> (case compile p (truthy ic) of
                None \<Rightarrow> compile_block_rules compile rs
              | Some r \<Rightarrow> rbind (compile_block_rules compile rs) (\<lambda>cs. Inr ((r, rule) # cs)))
            | Some _ \<Rightarrow> Inl Type_Error)
        | _ \<Rightarrow> Inl Attribute_Error))"

text \<open>\<open>build_local_matcher\<close> and the \<open>match_prompt\<close> it returns: the lines it would print.\<close>

definition match_prompt ::
    "(str \<Rightarrow> bool \<Rightarrow> re option) \<Rightarrow> (str \<Rightarrow> str) \<Rightarrow> (json \<Rightarrow> str) \<Rightarrow> json \<Rightarrow> str \<Rightarrow> str list res" where
  "match_prompt compile low show config prompt =
     rbind (enabled_block_rules (lit ''keyword_rules'') config) (\<lambda>keyword_rules.
     rbind (enabled_block_rules (lit ''regex_rules'') config) (\<lambda>regex_rules.
     rbind (compile_block_rules compile regex_rules) (\<lambda>compiled.
     rbind (rmap (keyword_rule_hits low show prompt) keyword_rules) (\<lambda>khits.
     rbind (rmap (regex_rule_hits show prompt) compiled) (\<lambda>rhits.
     Inr (concat khits @ concat rhits))))))"

section \<open>The reader does not depend on the chunks\<close>

lemma split_blank_ne [simp]: "split_blank s \<noteq> []"
  by (induction s rule: split_blank.induct) (auto split: list.splits)

lemma split_blank_single: "split_blank s = [p] \<Longrightarrow> p = s"
  by (induction s arbitrary: p rule: split_blank.induct) (auto split: list.splits if_splits)

lemma split_blank_append: "split_blank (a @ b) = butlast (split_blank a) @ split_blank (last (split_blank a) @ b)"
proof (induction a rule: split_blank.induct)
  case (3 c d s)
  show ?case
  proof (cases "c = 10 \<and> d = 10")
    case True
    with 3 show ?thesis by simp
  next
    case False
    then have expand: "split_blank (c # d # x) = (case split_blank (d # x) of p # ps \<Rightarrow> (c # p) # ps | [] \<Rightarrow> [[c]])" for x
      by auto
    obtain p ps where s: "split_blank (d # s) = p # ps" by (cases "split_blank (d # s)") auto
    show ?thesis
    proof (cases ps)
      case Nil
      with s split_blank_single [of "d # s" p] have "p = d # s" by simp
      with Nil s show ?thesis by (simp add: expand del: split_blank.simps(3))
    next
      case (Cons q qs)
      from "3.IH"(2) False s Cons have
        "split_blank (d # s @ b) = p # butlast (q # qs) @ split_blank (last (q # qs) @ b)" by simp
      with s Cons show ?thesis by (simp add: expand del: split_blank.simps(3))
    qed
  qed
qed simp_all

lemma split_blank_last: "split_blank (last (split_blank s)) = [last (split_blank s)]"
  using split_blank_append [of s "[]"] by (metis append.right_neutral append_butlast_last_id same_append_eq split_blank_ne)

lemma set_split_blank: "p \<in> set (split_blank s) \<Longrightarrow> set p \<subseteq> set s"
  by (induction s arbitrary: p rule: split_blank.induct) (fastforce split: list.splits if_splits)+

lemma feed_events_append:
  "feed_events loads (xs @ ys) r = rbind (feed_events loads xs r) (feed_events loads ys)"
  by (induction loads xs r rule: feed_events.induct) (auto simp: Let_def rbind_def split: sum.splits)

lemma feed_events_buffer:
  "feed_events loads ds (r\<lparr>sr_chunks := n, sr_buffer := b\<rparr>) =
     rbind (feed_events loads ds r) (\<lambda>r'. Inr (r'\<lparr>sr_chunks := n, sr_buffer := b\<rparr>))"
proof (induction ds arbitrary: r)
  case (Cons d ds)
  have swap: "r\<lparr>sr_chunks := n, sr_buffer := b, sr_events := e\<rparr> = r\<lparr>sr_events := e\<rparr>\<lparr>sr_chunks := n, sr_buffer := b\<rparr>"
    "r\<lparr>sr_events := e, sr_chunks := n, sr_buffer := b, sr_fragments := f\<rparr> =
       r\<lparr>sr_events := e, sr_fragments := f\<rparr>\<lparr>sr_chunks := n, sr_buffer := b\<rparr>" for e f
    by simp_all
  show ?case
  proof (cases "d = lit ''[DONE]''")
    case True
    with Cons.IH [of "r\<lparr>sr_events := sr_events r + 1\<rparr>"] show ?thesis by (simp add: swap)
  next
    case False
    show ?thesis
    proof (cases "extract_stream_fragment loads d")
      case (Inr x)
      with False Cons.IH [of "r\<lparr>sr_events := sr_events r + 1\<rparr>"]
        Cons.IH [of "r\<lparr>sr_events := sr_events r + 1, sr_fragments := sr_fragments r @ [x]\<rparr>"]
      show ?thesis by (cases "truthy x") (simp_all add: swap)
    qed (use False in simp)
  qed
qed simp

text \<open>Feeding a text in pieces gives the events of the whole text, and the same remainder.\<close>

lemma feed_texts_whole:
  assumes "13 \<notin> set (sr_buffer r)" "13 \<notin> set (concat ts)" "split_blank (sr_buffer r) = [sr_buffer r]"
  shows "feed_texts loads ts r =
    (let parts = split_blank (sr_buffer r @ concat ts) in
     rbind (feed_events loads (concat (map part_data (butlast parts))) r) (\<lambda>r'.
       Inr (r'\<lparr>sr_chunks := sr_chunks r + length ts, sr_buffer := last parts\<rparr>)))"
  using assms
proof (induction ts arbitrary: r)
  case Nil
  then show ?case by simp
next
  case (Cons t ts)
  let ?parts = "split_blank (sr_buffer r @ t)"
  let ?r = "r\<lparr>sr_chunks := sr_chunks r + 1, sr_buffer := last ?parts\<rparr>"
  from Cons.prems have no: "13 \<notin> set (sr_buffer r @ t)" by simp
  have parse: "parse_sse_events (sr_buffer r @ t) = (concat (map part_data (butlast ?parts)), last ?parts)"
    by (simp add: parse_sse_events_def replace_crlf_id [OF no] Let_def)
  have whole: "split_blank (sr_buffer r @ t @ concat ts) = butlast ?parts @ split_blank (last ?parts @ concat ts)"
    using split_blank_append [of "sr_buffer r @ t" "concat ts"] by simp
  have "13 \<notin> set (last ?parts)" using set_split_blank [of "last ?parts"] no by (meson last_in_set split_blank_ne subsetD)
  then have ih: "feed_texts loads ts r' = (let parts = split_blank (last ?parts @ concat ts) in
      rbind (feed_events loads (concat (map part_data (butlast parts))) r') (\<lambda>r''.
        Inr (r''\<lparr>sr_chunks := sr_chunks r' + length ts, sr_buffer := last parts\<rparr>)))" if "sr_buffer r' = last ?parts" for r'
    using Cons.IH [of r'] Cons.prems(2) split_blank_last [of "sr_buffer r @ t"] that by simp
  have butlast_whole: "butlast (butlast ?parts @ split_blank (last ?parts @ concat ts)) =
      butlast ?parts @ butlast (split_blank (last ?parts @ concat ts))"
    "last (butlast ?parts @ split_blank (last ?parts @ concat ts)) = last (split_blank (last ?parts @ concat ts))"
    by (simp_all add: butlast_append)
  show ?case
  proof (cases "feed_events loads (concat (map part_data (butlast ?parts))) r")
    case (Inl e)
    then show ?thesis
      by (simp add: parse whole butlast_whole feed_events_append feed_events_buffer)
  next
    case (Inr r1)
    then have "feed_texts loads (t # ts) r = feed_texts loads ts (r1\<lparr>sr_chunks := sr_chunks r + 1, sr_buffer := last ?parts\<rparr>)"
      by (simp add: parse feed_events_buffer)
    also have "\<dots> = (let parts = split_blank (last ?parts @ concat ts) in
        rbind (feed_events loads (concat (map part_data (butlast parts))) r1) (\<lambda>r''.
          Inr (r''\<lparr>sr_chunks := sr_chunks r + length (t # ts), sr_buffer := last parts\<rparr>)))"
      by (subst ih) (simp_all add: feed_events_buffer rbind_def Let_def split: sum.splits)
    finally show ?thesis
      using Inr by (simp add: whole butlast_whole feed_events_append Let_def)
  qed
qed

text \<open>The client reads what the hub wrote into its fake stream, however the stream is cut.\<close>

lemma split_blank_line: "10 \<notin> set l \<Longrightarrow> split_blank (l @ 10 # 10 # s) = l # split_blank s"
proof (induction l)
  case (Cons c l)
  then show ?case by (cases "l @ 10 # 10 # s") auto
qed simp

lemma split_blank_events:
  "\<forall>t\<in>set ts. clean_line t \<Longrightarrow> split_blank (concat (map sse_event ts)) = map (\<lambda>t. lit ''data: '' @ t) ts @ [[]]"
proof (induction ts)
  case (Cons t ts)
  have "10 \<notin> set (lit ''data: '' @ t)" using Cons.prems by (auto simp: clean_line_def lit_def line_break_def)
  from split_blank_line [OF this, of "concat (map sse_event ts)"] Cons
  have "split_blank ((lit ''data: '' @ t) @ 10 # 10 # concat (map sse_event ts)) = map (\<lambda>t. lit ''data: '' @ t) (t # ts) @ [[]]" by simp
  moreover have "concat (map sse_event (t # ts)) = (lit ''data: '' @ t) @ 10 # 10 # concat (map sse_event ts)"
    by (simp add: sse_event_def)
  ultimately show ?case by simp
qed simp

lemma part_data_event: "clean_line t \<Longrightarrow> part_data (lit ''data: '' @ t) = [strip t]"
proof -
  assume "clean_line t"
  then have "10 \<notin> set (lit ''data: '' @ t)" by (auto simp: clean_line_def lit_def line_break_def)
  then have "split_on 10 (lit ''data: '' @ t) = [lit ''data: '' @ t]" by (rule split_on_no_sep)
  then show ?thesis by (simp add: part_data_def lit_data startswith_def)
qed

lemma extract_delta:
  assumes "loads p = Some (chunk_payload i now model (JDict d) f)" "get_or d (lit ''content'') (JStr []) = JStr s"
  shows "extract_stream_fragment loads p = Inr (JStr s)"
  using assms
  by (cases "dict_get d (lit ''content'')") (auto simp: extract_stream_fragment_def payload_choice_def chunk_payload_def get_or_def if_falsy_def)

lemma client_reads_fake_stream:
  assumes "\<forall>p\<in>set (fake_payloads hex8 now content model). event_codec loads dumps p"
    and "concat ts = concat (stream_fake_chunks dumps hex8 now content model)"
  shows "\<exists>r. feed_texts loads ts new_reader = Inr r \<and> sr_fragments r = map JStr (deltas content) \<and>
    sr_buffer r = [] \<and> sr_chunks r = length ts"
proof -
  let ?ps = "fake_payloads hex8 now content model"
  let ?ts = "map dumps ?ps @ [lit ''[DONE]'']"
  let ?id = "lit ''chatcmpl-safetyhub-'' @ hex8"
  let ?p = "\<lambda>d. chunk_payload ?id now model (JDict [(lit ''content'', JStr d)]) JNull"
  let ?stop = "chunk_payload ?id now model (JDict []) (JStr (lit ''stop''))"
  have clean: "\<forall>t\<in>set ?ts. clean_line t" using assms(1) done_line by (auto simp: event_codec_def)
  have whole: "concat ts = concat (map sse_event ?ts)" using assms(2) by (simp add: stream_fake_chunks_def comp_def)
  have n13: "13 \<notin> set (concat ts)"
    unfolding whole using clean by (auto simp: sse_event_def clean_line_def lit_def line_break_def)
  have parts: "split_blank (concat ts) = map (\<lambda>t. lit ''data: '' @ t) ?ts @ [[]]"
    unfolding whole by (rule split_blank_events [OF clean])
  have "concat (map part_data (map (\<lambda>t. lit ''data: '' @ t) us)) = map strip us" if "\<forall>t\<in>set us. clean_line t" for us
    using that by (induction us) (simp_all add: part_data_event)
  from this [OF clean] have "concat (map part_data (butlast (split_blank (concat ts)))) = map strip ?ts"
    by (simp only: parts butlast_snoc)
  moreover have "map strip ?ts = ?ts" using assms(1) done_line by (auto simp: event_codec_def)
  ultimately have events: "concat (map part_data (butlast (split_blank (concat ts)))) = ?ts" by (rule trans)
  have remainder: "last (split_blank (concat ts)) = []" by (simp only: parts last_snoc)
  have "feed_texts loads ts new_reader =
      rbind (feed_events loads (concat (map part_data (butlast (split_blank (concat ts))))) new_reader) (\<lambda>r'.
        Inr (r'\<lparr>sr_chunks := length ts, sr_buffer := last (split_blank (concat ts))\<rparr>))"
    using feed_texts_whole [of new_reader ts loads] n13 by (simp add: new_reader_def Let_def)
  then have fed: "feed_texts loads ts new_reader = rbind (feed_events loads ?ts new_reader) (\<lambda>r'.
      Inr (r'\<lparr>sr_chunks := length ts, sr_buffer := []\<rparr>))"
    unfolding events remainder .
  have ps: "?ps = map ?p (deltas content) @ [?stop]" by (simp add: fake_payloads_def Let_def)
  have step: "feed_events loads (map (\<lambda>d. dumps (?p d)) ds @ us) r =
      feed_events loads us (r\<lparr>sr_events := sr_events r + length ds, sr_fragments := sr_fragments r @ map JStr ds\<rparr>)"
    if "\<forall>d\<in>set ds. event_codec loads dumps (?p d) \<and> d \<noteq> []" for ds us r
    using that
  proof (induction ds arbitrary: r)
    case (Cons d ds)
    then have "loads (dumps (?p d)) = Some (?p d)" "dumps (?p d) \<noteq> lit ''[DONE]''" by (auto simp: event_codec_def)
    with extract_delta [of loads "dumps (?p d)" ?id now model "[(lit ''content'', JStr d)]" JNull d] Cons show ?case
      by (simp add: get_or_def)
  qed simp
  from assms(1) ps have stop: "loads (dumps ?stop) = Some ?stop" "dumps ?stop \<noteq> lit ''[DONE]''"
    by (auto simp: event_codec_def)
  have "\<forall>d\<in>set (deltas content). event_codec loads dumps (?p d) \<and> d \<noteq> []"
    using assms(1) deltas_length by (auto simp: ps)
  from step [OF this, of "[dumps ?stop, lit ''[DONE]'']" new_reader]
    extract_delta [of loads "dumps ?stop" ?id now model "[]" "JStr (lit ''stop'')" "[]"] stop
  have "\<exists>r. feed_events loads ?ts new_reader = Inr r \<and> sr_fragments r = map JStr (deltas content)"
    by (simp add: ps comp_def get_or_def new_reader_def)
  with fed show ?thesis by auto
qed

text \<open>The same on bytes. The client decodes each chunk by itself, so what arrives must be cut between
  characters: each chunk is the encoding of a piece \<open>t\<close> of the text. A chunk that ends inside a character
  is decoded to replacement characters. \<open>encode\<close> gives the bytes of a character, and the decoder inverts
  it on texts made of the characters of the stream.\<close>

definition encoded :: "(nat \<Rightarrow> bytes) \<Rightarrow> str \<Rightarrow> bytes" where
  "encoded encode t = concat (map encode t)"

lemma encoded_Nil_iff:
  assumes "\<And>t. set t \<subseteq> C \<Longrightarrow> decode (encoded encode t) = t" "set t \<subseteq> C"
  shows "encoded encode t = [] \<longleftrightarrow> t = []"
proof
  assume e: "encoded encode t = []"
  from assms(1) [OF assms(2)] assms(1) [of "[]"] show "t = []" unfolding e by (simp add: encoded_def)
qed (simp add: encoded_def)

lemma decode_chunks:
  assumes "\<And>t. set t \<subseteq> C \<Longrightarrow> decode (encoded encode t) = t" "\<forall>t\<in>set ts. set t \<subseteq> C"
  shows "map decode (filter (\<lambda>c. c \<noteq> []) (map (encoded encode) ts)) = filter (\<lambda>t. t \<noteq> []) ts"
  using assms(2) by (induction ts) (auto simp: assms(1) encoded_Nil_iff [of C decode encode, OF assms(1)])

lemma concat_filter_ne: "concat (filter (\<lambda>t. t \<noteq> []) ts) = concat ts"
  by (induction ts) auto

lemma client_reads_fake_bytes:
  assumes "\<forall>p\<in>set (fake_payloads hex8 now content model). event_codec loads dumps p"
    and "\<And>t. set t \<subseteq> set (concat (stream_fake_chunks dumps hex8 now content model)) \<Longrightarrow> decode (encoded encode t) = t"
    and "concat ts = concat (stream_fake_chunks dumps hex8 now content model)" "status < 400"
  shows "read_stream loads decode status (map (encoded encode) ts) = Inr (True, map JStr (deltas content))"
proof -
  let ?us = "filter (\<lambda>t. t \<noteq> []) ts"
  have "map decode (filter (\<lambda>c. c \<noteq> []) (map (encoded encode) ts)) = ?us"
    using assms(3) by (intro decode_chunks [OF assms(2)]) (auto simp flip: assms(3))
  moreover from client_reads_fake_stream [OF assms(1), of ?us] assms(3) obtain r where r:
    "feed_texts loads ?us new_reader = Inr r" "sr_fragments r = map JStr (deltas content)" "sr_chunks r = length ?us"
    by (auto simp: concat_filter_ne)
  moreover have "concat ts \<noteq> []" unfolding assms(3) by (simp add: stream_fake_chunks_def sse_event_def)
  then have "?us \<noteq> []" by (metis concat.simps(1) concat_filter_ne)
  ultimately show ?thesis using assms(4) by (simp add: read_stream_def)
qed

end
