(* ===== verification/Forecast.thy ===== *)
theory Forecast
  imports Verify_Client
begin

text \<open>
  The forecast of the verification clients against the engine: on a text that normalising leaves alone, and
  with keywords that are strings, they predict a hit exactly when the hub blocks.
\<close>

definition string_keywords :: "json \<Rightarrow> bool" where
  "string_keywords rule \<longleftrightarrow>
     (case rule_get rule (lit ''keywords'') (JList []) of
        Inr (JList ks) \<Rightarrow> list_all (\<lambda>k. case k of JStr _ \<Rightarrow> True | _ \<Rightarrow> False) ks
      | _ \<Rightarrow> False)"

lemma string_keywords_dict:
  assumes "string_keywords (JDict d)"
  obtains ks where "get_or d (lit ''keywords'') (JList []) = JList (map JStr ks)"
proof -
  obtain js where js: "get_or d (lit ''keywords'') (JList []) = JList js" "list_all (\<lambda>k. case k of JStr _ \<Rightarrow> True | _ \<Rightarrow> False) js"
    using assms by (auto simp: string_keywords_def split: json.splits)
  have "\<exists>ks. js = map JStr ks"
    using js(2)
  proof (induction js)
    case (Cons j js)
    then obtain s ks where "j = JStr s" "js = map JStr ks" by (auto split: json.splits)
    then have "j # js = map JStr (s # ks)" by simp
    then show ?case by (rule exI)
  qed simp
  with js(1) that show thesis by blast
qed

section \<open>Keyword rules\<close>

lemma match_position_matches:
  "match_position st (JStr k) mode = Inr p \<Longrightarrow> p \<noteq> None \<longleftrightarrow> keyword_matches st k mode"
  by (auto simp: match_position_def keyword_matches_def contains_def split: if_splits option.splits)

lemma scan_keywords_hits:
  "scan_keywords low (JDict d) cs mode st (map JStr ks) = Inr rs \<Longrightarrow>
     rs \<noteq> [] \<longleftrightarrow> (\<exists>k\<in>set ks. keyword_matches st (if cs then k else low k) mode)"
proof (induction ks arbitrary: rs)
  case (Cons k ks)
  have key: "(if cs then Inr (JStr k) else lower_keyword low (JStr k)) = Inr (JStr (if cs then k else low k))" by simp
  from Cons.prems obtain p where p: "match_position st (JStr (if cs then k else low k)) mode = Inr p"
    by (simp only: list.map scan_keywords.simps key rbind_simps) (auto simp: rbind_eq_Inr)
  show ?case
  proof (cases p)
    case None
    with Cons.prems have "scan_keywords low (JDict d) cs mode st (map JStr ks) = Inr rs"
      by (simp only: list.map scan_keywords.simps key p rbind_simps option.case)
    with Cons.IH match_position_matches [OF p] None show ?thesis by simp
  next
    case (Some q)
    with Cons.prems have "rs \<noteq> []"
      by (simp only: list.map scan_keywords.simps key p rbind_simps option.case)
        (auto simp: rbind_eq_Inr split: if_splits)
    with match_position_matches [OF p] Some show ?thesis by simp
  qed
qed simp

definition level_block :: "(str \<times> json) list \<Rightarrow> bool" where
  "level_block d \<longleftrightarrow> get_or d (lit ''level'') (JStr (lit ''block'')) = JStr (lit ''block'')"

text \<open>What a keyword rule finds, in the scanner and in the forecast.\<close>

lemma scan_rule_forecast:
  assumes "scan_rule low t (JDict d) = Inr rs" "keyword_rule_hits low show t (JDict d) = Inr hs" "string_keywords (JDict d)"
  shows "list_ex blocked1 rs \<longleftrightarrow> level_block d \<and> hs \<noteq> []"
proof -
  obtain ks where ks: "get_or d (lit ''keywords'') (JList []) = JList (map JStr ks)"
    by (rule string_keywords_dict [OF assms(3)])
  let ?cs = "truthy (get_or d (lit ''case_sensitive'') (JBool False))"
  let ?mode = "get_or d (lit ''match_mode'') (JStr (lit ''contains''))"
  from assms(1) have scan: "scan_keywords low (JDict d) ?cs ?mode (if ?cs then t else low t) (map JStr ks) = Inr rs"
    by (simp add: scan_rule_def ks)
  have "hs \<noteq> [] \<longleftrightarrow> (\<exists>k\<in>set ks. keyword_matches (if ?cs then t else low t) (if ?cs then k else low k) ?mode)"
    using assms(2)
    by (auto simp: keyword_rule_hits_def ks Let_def text_of_def rbind_eq_Inr find_None_iff find_Some_iff image_iff
        split: option.splits)
  with scan_keywords_hits [OF scan] have found: "rs \<noteq> [] \<longleftrightarrow> hs \<noteq> []" by simp
  moreover have "list_ex blocked1 rs \<longleftrightarrow> level_block d \<and> rs \<noteq> []"
    using scan_keywords_level [OF scan] by (cases rs) (auto simp: list_ex_iff blocked1_def level_block_def)
  ultimately show ?thesis by simp
qed

lemma filter_rules_set:
  "filter_rules p rs = Inr out \<Longrightarrow> set out = {r \<in> set rs. p r = Inr True}"
  by (induction rs arbitrary: out) (auto simp: rbind_eq_Inr split: if_splits)

lemma blocks_rule_True: "blocks_rule r = Inr True \<longleftrightarrow>
    (\<exists>d. r = JDict d \<and> truthy (get_or d (lit ''enabled'') (JBool True)) \<and> level_block d)"
  by (cases r) (auto simp: blocks_rule_def level_block_def)

lemma enabled_block_set:
  "enabled_rules rules = Inr es \<Longrightarrow>
     set es = {r \<in> set rules. \<exists>d. r = JDict d \<and> truthy (get_or d (lit ''enabled'') (JBool True))}"
proof (induction rules arbitrary: es)
  case (Cons r rs)
  then show ?case by (cases r) (auto simp: rbind_eq_Inr split: if_splits)
qed simp

lemma rmap_concat_ne:
  assumes "rmap f xs = Inr ys"
  shows "concat ys \<noteq> [] \<longleftrightarrow> (\<exists>x\<in>set xs. \<exists>y. f x = Inr y \<and> y \<noteq> [])"
    and "x \<in> set xs \<Longrightarrow> \<exists>y. f x = Inr y"
    and "list_ex p (concat ys) \<longleftrightarrow> (\<exists>x\<in>set xs. \<exists>y. f x = Inr y \<and> list_ex p y)"
  using assms by (induction xs arbitrary: ys) (auto simp: rbind_eq_Inr)

lemma keyword_forecast:
  assumes "keyword_scan low rules t = Inr rs" "filter_rules blocks_rule rules = Inr block_rules"
    and "rmap (keyword_rule_hits low show t) block_rules = Inr hits" "\<forall>r\<in>set rules. string_keywords r"
  shows "list_ex blocked1 rs \<longleftrightarrow> concat hits \<noteq> []"
proof -
  from assms(1) obtain es rss where es: "enabled_rules rules = Inr es" "rmap (scan_rule low t) es = Inr rss" "rs = concat rss"
    by (auto simp: keyword_scan_def rbind_eq_Inr)
  note sets = enabled_block_set [OF es(1)] filter_rules_set [OF assms(2)]
  have "list_ex blocked1 rs \<longleftrightarrow> (\<exists>r\<in>set es. \<exists>y. scan_rule low t r = Inr y \<and> list_ex blocked1 y)"
    unfolding es(3) by (rule rmap_concat_ne(3) [OF es(2)])
  also have "\<dots> \<longleftrightarrow> (\<exists>r\<in>set block_rules. \<exists>h. keyword_rule_hits low show t r = Inr h \<and> h \<noteq> [])"
  proof
    assume "\<exists>r\<in>set es. \<exists>y. scan_rule low t r = Inr y \<and> list_ex blocked1 y"
    then obtain d y where d: "JDict d \<in> set es" "scan_rule low t (JDict d) = Inr y" "list_ex blocked1 y"
      using sets(1) by auto
    from d obtain cs mode js where "scan_keywords low (JDict d) cs mode (if cs then t else low t) js = Inr y"
      by (auto simp: scan_rule_def rbind_eq_Inr)
    from scan_keywords_level [OF this] d(3) have "level_block d" by (auto simp: list_ex_iff blocked1_def level_block_def)
    with d(1) sets have b: "JDict d \<in> set block_rules" by (auto simp: blocks_rule_True)
    with rmap_concat_ne(2) [OF assms(3)] obtain h where h: "keyword_rule_hits low show t (JDict d) = Inr h" by blast
    from d(1) sets(1) assms(4) have "string_keywords (JDict d)" by auto
    from scan_rule_forecast [OF d(2) h this] d(3) b h show "\<exists>r\<in>set block_rules. \<exists>h. keyword_rule_hits low show t r = Inr h \<and> h \<noteq> []"
      by blast
  next
    assume "\<exists>r\<in>set block_rules. \<exists>h. keyword_rule_hits low show t r = Inr h \<and> h \<noteq> []"
    then obtain d h where d: "JDict d \<in> set rules" "truthy (get_or d (lit ''enabled'') (JBool True))" "level_block d"
      "keyword_rule_hits low show t (JDict d) = Inr h" "h \<noteq> []"
      using sets(2) by (auto simp: blocks_rule_True)
    with sets(1) have e: "JDict d \<in> set es" by auto
    with rmap_concat_ne(2) [OF es(2)] obtain y where y: "scan_rule low t (JDict d) = Inr y" by blast
    from d(1) assms(4) have "string_keywords (JDict d)" by auto
    from scan_rule_forecast [OF y d(4) this] d e y show "\<exists>r\<in>set es. \<exists>y. scan_rule low t r = Inr y \<and> list_ex blocked1 y"
      by blast
  qed
  finally show ?thesis using rmap_concat_ne(1) [OF assms(3)] by simp
qed

section \<open>Regular expressions\<close>

definition compiled_as :: "(str \<Rightarrow> bool \<Rightarrow> re option) \<Rightarrow> (str \<times> json) list \<Rightarrow> re \<Rightarrow> bool" where
  "compiled_as compile d r \<longleftrightarrow>
     (case dict_get d (lit ''pattern'') of
        Some (JStr p) \<Rightarrow> compile p (truthy (get_or d (lit ''ignore_case'') (JBool False))) = Some r
      | _ \<Rightarrow> False)"

text \<open>One step of either compilation: the rule is compiled, or skipped.\<close>

lemma compiled_step:
  assumes "(case dict_get d (lit ''pattern'') of
              None \<Rightarrow> rest
            | Some (JStr p) \<Rightarrow> (case compile p (truthy (get_or d (lit ''ignore_case'') (JBool False))) of
                None \<Rightarrow> rest
              | Some r \<Rightarrow> rbind rest (\<lambda>cs. Inr ((r, JDict d) # cs)))
            | Some _ \<Rightarrow> Inl Type_Error) = Inr cs"
  obtains (hit) r cs' where "rest = Inr cs'" "cs = (r, JDict d) # cs'" "\<And>r'. compiled_as compile d r' \<longleftrightarrow> r' = r"
  | (skip) "rest = Inr cs" "\<And>r'. \<not> compiled_as compile d r'"
proof (cases "dict_get d (lit ''pattern'')")
  case None
  with assms skip show thesis by (simp add: compiled_as_def)
next
  case (Some v)
  show thesis
  proof (cases v)
    case (JStr p)
    with Some assms hit skip show thesis
      by (cases "compile p (truthy (get_or d (lit ''ignore_case'') (JBool False)))")
        (simp_all add: compiled_as_def rbind_eq_Inr, blast)
  qed (use Some assms in simp_all)
qed

lemma compile_block_rules_set:
  "compile_block_rules compile rs = Inr cs \<Longrightarrow> set cs = {(r, JDict d) |r d. JDict d \<in> set rs \<and> compiled_as compile d r}"
proof (induction rs arbitrary: cs)
  case (Cons x rs)
  then obtain d where d: "x = JDict d" by (cases x) auto
  show ?case
  proof (rule compiled_step [where d = d and rest = "compile_block_rules compile rs" and compile = compile and cs = cs])
    show "(case dict_get d (lit ''pattern'') of
              None \<Rightarrow> compile_block_rules compile rs
            | Some (JStr p) \<Rightarrow> (case compile p (truthy (get_or d (lit ''ignore_case'') (JBool False))) of
                None \<Rightarrow> compile_block_rules compile rs
              | Some r \<Rightarrow> rbind (compile_block_rules compile rs) (\<lambda>cs. Inr ((r, JDict d) # cs)))
            | Some _ \<Rightarrow> Inl Type_Error) = Inr cs"
      using Cons.prems by (simp add: d)
  qed (use Cons.IH d in auto)
qed simp

lemma compile_rules_set:
  "compile_rules compile rs = Inr cs \<Longrightarrow>
     set cs = {(r, JDict d) |r d. JDict d \<in> set rs \<and> truthy (get_or d (lit ''enabled'') (JBool True)) \<and> compiled_as compile d r}"
proof (induction rs arbitrary: cs)
  case (Cons x rs)
  then obtain d where d: "x = JDict d" by (cases x) auto
  show ?case
  proof (cases "truthy (get_or d (lit ''enabled'') (JBool True))")
    case True
    show ?thesis
    proof (rule compiled_step [where d = d and rest = "compile_rules compile rs" and compile = compile and cs = cs])
      show "(case dict_get d (lit ''pattern'') of
              None \<Rightarrow> compile_rules compile rs
            | Some (JStr p) \<Rightarrow> (case compile p (truthy (get_or d (lit ''ignore_case'') (JBool False))) of
                None \<Rightarrow> compile_rules compile rs
              | Some r \<Rightarrow> rbind (compile_rules compile rs) (\<lambda>cs. Inr ((r, JDict d) # cs)))
            | Some _ \<Rightarrow> Inl Type_Error) = Inr cs"
        using Cons.prems True by (simp add: d)
    qed (use Cons.IH d True in auto)
  next
    case False
    with Cons d show ?thesis by auto
  qed
qed simp

lemma regex_scan_loop_hits:
  "regex_scan_loop t cs = Inr rs \<Longrightarrow> \<forall>c\<in>set cs. \<exists>d. snd c = JDict d \<Longrightarrow>
     list_ex blocked1 rs \<longleftrightarrow> (\<exists>(r, rule)\<in>set cs. finditer r t \<noteq> [] \<and> (\<exists>d. rule = JDict d \<and> level_block d))"
proof (induction t cs arbitrary: rs rule: regex_scan_loop.induct)
  case (2 t r rule cs)
  from "2.prems"(2) obtain d where d: "rule = JDict d" by auto
  show ?case
  proof (cases "last_match r t")
    case None
    then have "finditer r t = []" by (cases "finditer r t") (auto simp: last_match_def)
    with None 2 show ?thesis by auto
  next
    case (Some m)
    then have "finditer r t \<noteq> []" by (auto simp: last_match_def)
    moreover from Some "2.prems"(1) d obtain res rs' where
      res: "build_result (lit ''regex'') regex_mask_text (JDict d) (group (fst m) (snd m)) (span m) = Inr res"
        "regex_scan_loop t cs = Inr rs'" "rs = res # rs'"
      by (auto simp: rbind_eq_Inr)
    moreover from res(1) have "blocked1 res \<longleftrightarrow> level_block d"
      by (auto simp: build_result_def blocked1_def level_block_def)
    ultimately show ?thesis using "2.IH"(2) [OF Some res(2)] "2.prems"(2) d by (auto simp: rbind_eq_Inr)
  qed
qed simp

lemma regex_forecast:
  assumes "compile_rules compile rules = Inr cs" "regex_scan_loop t cs = Inr rs"
    and "filter_rules blocks_rule rules = Inr block_rules" "compile_block_rules compile block_rules = Inr bcs"
    and "rmap (regex_rule_hits show t) bcs = Inr hits"
  shows "list_ex blocked1 rs \<longleftrightarrow> concat hits \<noteq> []"
proof -
  note sets = compile_rules_set [OF assms(1)] filter_rules_set [OF assms(3)] compile_block_rules_set [OF assms(4)]
  have "\<forall>c\<in>set cs. \<exists>d. snd c = JDict d" using sets(1) by auto
  from regex_scan_loop_hits [OF assms(2) this]
  have "list_ex blocked1 rs \<longleftrightarrow> (\<exists>(r, rule)\<in>set cs. finditer r t \<noteq> [] \<and> (\<exists>d. rule = JDict d \<and> level_block d))" .
  also have "\<dots> \<longleftrightarrow> (\<exists>c\<in>set bcs. finditer (fst c) t \<noteq> [])"
    using sets by (auto simp: blocks_rule_True; force)
  also have "\<dots> \<longleftrightarrow> concat hits \<noteq> []"
  proof -
    have "(\<exists>h. regex_rule_hits show t c = Inr h \<and> h \<noteq> []) \<longleftrightarrow> finditer (fst c) t \<noteq> []" if "c \<in> set bcs" for c
      using rmap_concat_ne(2) [OF assms(5) that] by (auto simp: regex_rule_hits_def rbind_eq_Inr split: if_splits)
    with rmap_concat_ne(1) [OF assms(5)] show ?thesis by auto
  qed
  finally show ?thesis .
qed

section \<open>The forecast agrees\<close>

lemma scan_loop_two:
  assumes "scan_loop False t [] [(n1, f1), (n2, f2)] = Inr a"
  shows "\<exists>r1. f1 t = Inr r1 \<and> (agg_blocked a \<longleftrightarrow> list_ex blocked1 r1 \<or> (\<exists>r2. f2 t = Inr r2 \<and> list_ex blocked1 r2)) \<and>
    (list_ex blocked1 r1 \<or> (\<exists>r2. f2 t = Inr r2))"
  using assms by (auto simp: agg_blocked_def split: sum.splits if_splits)

lemma forecast_agrees:
  assumes "rules_of (lit ''keyword_rules'') config = Inr krules" "rules_of (lit ''regex_rules'') config = Inr rrules"
    and "compile_rules compile rrules = Inr cs"
    and "engine_scan nz low \<lparr>eng_rules = krules, eng_regex = \<lparr>rx_rules = rrules, rx_compiled = cs\<rparr>, eng_fail_open = False\<rparr> t = Inr a"
    and "nz t = t" "\<forall>r\<in>set krules. string_keywords r"
    and "match_prompt compile low show config t = Inr hits"
  shows "hits \<noteq> [] \<longleftrightarrow> agg_blocked a"
proof -
  from assms(7,1,2) obtain kb rb bcs kh rh where m:
    "filter_rules blocks_rule krules = Inr kb" "filter_rules blocks_rule rrules = Inr rb"
    "compile_block_rules compile rb = Inr bcs" "rmap (keyword_rule_hits low show t) kb = Inr kh"
    "rmap (regex_rule_hits show t) bcs = Inr rh" "hits = concat kh @ concat rh"
    by (auto simp: match_prompt_def enabled_block_rules_def rbind_eq_Inr)
  from assms(4,5) have "scan_loop False t []
      [(lit ''keyword'', keyword_scan low krules), (lit ''regex'', regex_scan \<lparr>rx_rules = rrules, rx_compiled = cs\<rparr>)] = Inr a"
    by (simp add: engine_scan_def engine_orchestrator_eq orch_scan_def main_suite_def)
  from scan_loop_two [OF this] obtain r1 where r1: "keyword_scan low krules t = Inr r1"
    "agg_blocked a \<longleftrightarrow> list_ex blocked1 r1 \<or> (\<exists>r2. regex_scan_loop t cs = Inr r2 \<and> list_ex blocked1 r2)"
    "list_ex blocked1 r1 \<or> (\<exists>r2. regex_scan_loop t cs = Inr r2)"
    by (auto simp: regex_scan_def)
  note k = keyword_forecast [OF r1(1) m(1,4) assms(6)]
  have "agg_blocked a \<longleftrightarrow> concat kh \<noteq> [] \<or> concat rh \<noteq> []"
  proof (cases "list_ex blocked1 r1")
    case True
    with k r1(2) show ?thesis by simp
  next
    case False
    with r1(3) obtain r2 where r2: "regex_scan_loop t cs = Inr r2" by blast
    from regex_forecast [OF assms(3) r2 m(2,3,5)] k r1(2) r2 False show ?thesis by simp
  qed
  then show ?thesis by (simp add: m(6))
qed

end
