(* ===== verification/Capture.thy ===== *)
theory Capture
  imports Stream Headers Verify_Client
begin

text \<open>
  The recording stand-in for an upstream (\<open>scripts/capture_openai_requests.py\<close>) and the script that sends
  what it recorded again (\<open>scripts/replay_captured_requests.py\<close>). Parameters: \<open>sha\<close> (the hexadecimal SHA-256
  digest), the decoder of a body, \<open>json.loads\<close> with the text of its error, \<open>json.dumps\<close>, the clock, the UUID.
\<close>

section \<open>Recording\<close>

definition SENSITIVE_HEADERS :: "str list" where
  "SENSITIVE_HEADERS = [lit ''authorization'', lit ''cookie'', lit ''x-api-key'', lit ''proxy-authorization'']"

definition redact_secret :: "(str \<Rightarrow> str) \<Rightarrow> str \<Rightarrow> json" where
  "redact_secret sha value =
     (let preview = (if length value \<le> 12 then lit ''***''
                     else take 8 value @ lit ''...'' @ drop (length value - 4) value)
      in JDict [(lit ''redacted'', JStr preview), (lit ''sha256'', JStr (sha value)),
                (lit ''length'', JInt (int (length value)))])"

definition sanitize_headers :: "(str \<Rightarrow> str) \<Rightarrow> (str, str) dict \<Rightarrow> (str, json) dict" where
  "sanitize_headers sha headers =
     foldl (\<lambda>d (name, value). dict_set d name
       (if lower name \<in> set SENSITIVE_HEADERS then redact_secret sha value else JStr value)) [] headers"

record captured_request =
  cq_client :: "str option"
  cq_method :: str
  cq_path :: str
  cq_query :: str
  cq_headers :: "(str, str) dict"
  cq_body :: bytes

record capture_libs =
  cl_sha :: "str \<Rightarrow> str"
  cl_decode :: "bytes \<Rightarrow> str"
  cl_loads :: "str \<Rightarrow> str + json"
  cl_dumps :: "json \<Rightarrow> str"

definition capture_request :: "capture_libs \<Rightarrow> str \<Rightarrow> rat \<Rightarrow> captured_request \<Rightarrow> (str \<times> json) list" where
  "capture_request lb uuid_hex ts rq =
     (let body_text = cl_decode lb (cq_body rq);
          (parsed_body, parse_error) =
            (if body_text = [] then (JNull, [])
             else (case cl_loads lb body_text of Inr v \<Rightarrow> (v, []) | Inl e \<Rightarrow> (JNull, e)))
      in [(lit ''capture_id'', JStr uuid_hex), (lit ''ts'', JFloat ts),
          (lit ''client'', JStr (case cq_client rq of Some h \<Rightarrow> h | None \<Rightarrow> [])),
          (lit ''method'', JStr (cq_method rq)), (lit ''path'', JStr (cq_path rq)), (lit ''query'', JStr (cq_query rq)),
          (lit ''headers'', JDict (sanitize_headers (cl_sha lb) (cq_headers rq))),
          (lit ''body_text'', JStr body_text), (lit ''body_json'', parsed_body), (lit ''body_json_error'', JStr parse_error),
          (lit ''body_bytes'', JInt (int (length (cq_body rq))))])"

text \<open>The text of the log file, when one is written.\<close>

definition append_record :: "capture_libs \<Rightarrow> (str \<times> json) list \<Rightarrow> str option \<Rightarrow> str option" where
  "append_record lb rec log_text = map_option (\<lambda>t. t @ cl_dumps lb (JDict rec) @ [10]) log_text"

section \<open>Answers\<close>

definition model_name :: "(str \<times> json) list \<Rightarrow> str" where
  "model_name rec =
     (case get_or rec (lit ''body_json'') JNull of
        JDict body \<Rightarrow> (case get_or body (lit ''model'') JNull of JStr m \<Rightarrow> m | _ \<Rightarrow> lit ''capture-model'')
      | _ \<Rightarrow> lit ''capture-model'')"

definition wants_stream :: "(str \<times> json) list \<Rightarrow> bool" where
  "wants_stream rec =
     (case get_or rec (lit ''body_json'') JNull of
        JDict body \<Rightarrow> truthy (get_or body (lit ''stream'') JNull)
      | _ \<Rightarrow> False)"

definition capture_id :: "(str \<times> json) list \<Rightarrow> str" where
  "capture_id rec = (case get_or rec (lit ''capture_id'') JNull of JStr i \<Rightarrow> i | _ \<Rightarrow> [])"

text \<open>\<open>int(record["ts"])\<close>.\<close>

definition capture_seconds :: "(str \<times> json) list \<Rightarrow> json" where
  "capture_seconds rec =
     (case get_or rec (lit ''ts'') JNull of JFloat x \<Rightarrow> JInt (if x \<ge> 0 then \<lfloor>x\<rfloor> else \<lceil>x\<rceil>) | v \<Rightarrow> v)"

definition chat_response :: "(str \<times> json) list \<Rightarrow> json" where
  "chat_response rec =
     JDict [(lit ''id'', JStr (lit ''chatcmpl-'' @ capture_id rec)), (lit ''object'', JStr (lit ''chat.completion'')),
            (lit ''created'', capture_seconds rec), (lit ''model'', JStr (model_name rec)),
            (lit ''choices'', JList [JDict [(lit ''index'', JInt 0),
               (lit ''message'', JDict [(lit ''role'', JStr (lit ''assistant'')), (lit ''content'', JStr (lit ''capture ok''))]),
               (lit ''finish_reason'', JStr (lit ''stop''))]]),
            (lit ''usage'', JDict [(lit ''prompt_tokens'', JInt 1), (lit ''completion_tokens'', JInt 2), (lit ''total_tokens'', JInt 3)])]"

definition capture_chunk :: "(str \<times> json) list \<Rightarrow> (str \<times> json) list \<Rightarrow> json \<Rightarrow> json" where
  "capture_chunk rec delta finish_reason =
     JDict [(lit ''id'', JStr (lit ''chatcmpl-'' @ capture_id rec)), (lit ''object'', JStr (lit ''chat.completion.chunk'')),
            (lit ''created'', capture_seconds rec), (lit ''model'', JStr (model_name rec)),
            (lit ''choices'', JList [JDict [(lit ''index'', JInt 0), (lit ''delta'', JDict delta), (lit ''finish_reason'', finish_reason)]])]"

definition capture_chunks :: "(str \<times> json) list \<Rightarrow> json list" where
  "capture_chunks rec =
     [capture_chunk rec [(lit ''role'', JStr (lit ''assistant''))] JNull,
      capture_chunk rec [(lit ''content'', JStr (lit ''capture ok''))] JNull,
      capture_chunk rec [] (JStr (lit ''stop''))]"

text \<open>What the generators yield, in text.\<close>

definition stream_chat_response :: "capture_libs \<Rightarrow> (str \<times> json) list \<Rightarrow> str list" where
  "stream_chat_response lb rec = map (\<lambda>c. sse_event (cl_dumps lb c)) (capture_chunks rec) @ [sse_event (lit ''[DONE]'')]"

definition stream_response_api :: "capture_libs \<Rightarrow> (str \<times> json) list \<Rightarrow> str list" where
  "stream_response_api lb rec =
     (let response_id = lit ''resp_'' @ capture_id rec in
      map (\<lambda>e. sse_event (cl_dumps lb e))
        [JDict [(lit ''type'', JStr (lit ''response.created'')),
                (lit ''response'', JDict [(lit ''id'', JStr response_id), (lit ''model'', JStr (model_name rec))])],
         JDict [(lit ''type'', JStr (lit ''response.output_text.delta'')), (lit ''delta'', JStr (lit ''capture ok''))],
         JDict [(lit ''type'', JStr (lit ''response.completed'')),
                (lit ''response'', JDict [(lit ''id'', JStr response_id), (lit ''status'', JStr (lit ''completed''))])]] @
      [sse_event (lit ''[DONE]'')])"

definition stream_anthropic_messages :: "capture_libs \<Rightarrow> (str \<times> json) list \<Rightarrow> str list" where
  "stream_anthropic_messages lb rec =
     concat (map (\<lambda>(event_name, payload). [lit ''event: '' @ lit event_name @ [10], sse_event (cl_dumps lb (JDict payload))])
       [(''message_start'', [(lit ''type'', JStr (lit ''message_start'')),
           (lit ''message'', JDict [(lit ''id'', JStr (lit ''msg_'' @ capture_id rec)), (lit ''type'', JStr (lit ''message'')),
              (lit ''role'', JStr (lit ''assistant'')), (lit ''model'', JStr (model_name rec)), (lit ''content'', JList []),
              (lit ''stop_reason'', JNull)])]),
        (''content_block_start'', [(lit ''type'', JStr (lit ''content_block_start'')), (lit ''index'', JInt 0),
           (lit ''content_block'', JDict [(lit ''type'', JStr (lit ''text'')), (lit ''text'', JStr [])])]),
        (''content_block_delta'', [(lit ''type'', JStr (lit ''content_block_delta'')), (lit ''index'', JInt 0),
           (lit ''delta'', JDict [(lit ''type'', JStr (lit ''text_delta'')), (lit ''text'', JStr (lit ''capture ok''))])]),
        (''content_block_stop'', [(lit ''type'', JStr (lit ''content_block_stop'')), (lit ''index'', JInt 0)]),
        (''message_stop'', [(lit ''type'', JStr (lit ''message_stop''))])])"

datatype capture_answer = Json_Answer json | Stream_Answer "str list" | Method_Not_Allowed

definition options_answer :: "(str \<times> json) list \<Rightarrow> json" where
  "options_answer rec = JDict [(lit ''ok'', JBool True), (lit ''capture_id'', JStr (capture_id rec))]"

definition chat_completions :: "capture_libs \<Rightarrow> str \<Rightarrow> (str \<times> json) list \<Rightarrow> capture_answer" where
  "chat_completions lb req_method rec =
     (if req_method = lit ''OPTIONS'' then Json_Answer (options_answer rec)
      else if wants_stream rec then Stream_Answer (stream_chat_response lb rec)
      else Json_Answer (chat_response rec))"

definition responses :: "capture_libs \<Rightarrow> str \<Rightarrow> (str \<times> json) list \<Rightarrow> capture_answer" where
  "responses lb req_method rec =
     (if req_method = lit ''OPTIONS'' then Json_Answer (options_answer rec)
      else if wants_stream rec then Stream_Answer (stream_response_api lb rec)
      else Json_Answer (JDict
        [(lit ''id'', JStr (lit ''resp_'' @ capture_id rec)), (lit ''object'', JStr (lit ''response'')),
         (lit ''created_at'', capture_seconds rec), (lit ''model'', JStr (model_name rec)),
         (lit ''output'', JList [JDict [(lit ''type'', JStr (lit ''message'')), (lit ''role'', JStr (lit ''assistant'')),
            (lit ''content'', JList [JDict [(lit ''type'', JStr (lit ''output_text'')), (lit ''text'', JStr (lit ''capture ok''))]])]])]))"

definition messages :: "capture_libs \<Rightarrow> str \<Rightarrow> (str \<times> json) list \<Rightarrow> capture_answer" where
  "messages lb req_method rec =
     (if req_method = lit ''OPTIONS'' then Json_Answer (options_answer rec)
      else if wants_stream rec then Stream_Answer (stream_anthropic_messages lb rec)
      else Json_Answer (JDict
        [(lit ''id'', JStr (lit ''msg_'' @ capture_id rec)), (lit ''type'', JStr (lit ''message'')),
         (lit ''role'', JStr (lit ''assistant'')), (lit ''model'', JStr (model_name rec)),
         (lit ''content'', JList [JDict [(lit ''type'', JStr (lit ''text'')), (lit ''text'', JStr (lit ''capture ok''))]]),
         (lit ''stop_reason'', JStr (lit ''end_turn'')),
         (lit ''usage'', JDict [(lit ''input_tokens'', JInt 1), (lit ''output_tokens'', JInt 2)])]))"

definition catch_all :: "capture_libs \<Rightarrow> str \<Rightarrow> str \<Rightarrow> (str \<times> json) list \<Rightarrow> capture_answer" where
  "catch_all lb req_method req_path rec =
     (if req_method = lit ''OPTIONS'' then Json_Answer (JDict
        [(lit ''ok'', JBool True), (lit ''capture_id'', JStr (capture_id rec)), (lit ''path'', JStr req_path)])
      else if req_method = lit ''POST'' then
        (if wants_stream rec then Stream_Answer (stream_chat_response lb rec) else Json_Answer (chat_response rec))
      else Json_Answer (JDict [(lit ''ok'', JBool True), (lit ''capture_id'', JStr (capture_id rec)),
        (lit ''path'', JStr req_path), (lit ''content'', JStr (lit ''capture ok''))]))"

definition list_models :: json where
  "list_models = JDict [(lit ''object'', JStr (lit ''list'')),
     (lit ''data'', JList [JDict [(lit ''id'', JStr (lit ''deepseek-v4-pro'')), (lit ''object'', JStr (lit ''model'')),
        (lit ''owned_by'', JStr (lit ''capture''))]])]"

text \<open>The routes, in order; a request of another method falls through to the last one, which takes six.\<close>

definition CATCH_ALL_METHODS :: "str list" where
  "CATCH_ALL_METHODS = [lit ''GET'', lit ''POST'', lit ''PUT'', lit ''PATCH'', lit ''DELETE'', lit ''OPTIONS'']"

definition route :: "capture_libs \<Rightarrow> str \<Rightarrow> str \<Rightarrow> (str \<times> json) list \<Rightarrow> capture_answer" where
  "route lb req_method req_path rec =
     (let get = (req_method = lit ''GET'');
          post = (req_method = lit ''POST'' \<or> req_method = lit ''OPTIONS'');
          is = (\<lambda>ps. req_path \<in> lit ` set ps) in
      if get \<and> is [''/health''] then Json_Answer (JDict [(lit ''status'', JStr (lit ''ok''))])
      else if get \<and> is [''/v1/models'', ''/models''] then Json_Answer list_models
      else if post \<and> is [''/v1/chat/completions'', ''/chat/completions'', ''/v1/completions'', ''/completions'']
        then chat_completions lb req_method rec
      else if post \<and> is [''/v1/responses'', ''/responses''] then responses lb req_method rec
      else if post \<and> is [''/v1/messages'', ''/messages''] then messages lb req_method rec
      else if req_method \<in> set CATCH_ALL_METHODS then catch_all lb req_method req_path rec
      else Method_Not_Allowed)"

text \<open>Every handler captures the request first.\<close>

definition serve :: "capture_libs \<Rightarrow> str \<Rightarrow> rat \<Rightarrow> captured_request \<Rightarrow> str option \<Rightarrow> str option \<times> capture_answer" where
  "serve lb uuid_hex ts rq log_text =
     (let rec = capture_request lb uuid_hex ts rq in
      case route lb (cq_method rq) (cq_path rq) rec of
        Method_Not_Allowed \<Rightarrow> (log_text, Method_Not_Allowed)
      | answer \<Rightarrow> (append_record lb rec log_text, answer))"

section \<open>Replaying\<close>

text \<open>Iterating over a file in text mode; \<open>loads\<close> gives \<open>None\<close> for a line that is not JSON.\<close>

definition iter_records :: "(str \<Rightarrow> json option) \<Rightarrow> str \<Rightarrow> json list" where
  "iter_records loads content =
     concat (map (\<lambda>l. case loads l of Some v \<Rightarrow> [v] | None \<Rightarrow> [])
       (filter (\<lambda>l. l \<noteq> []) (map strip (split_on 10 (replace_cr (replace_crlf content))))))"

definition replay_url :: "str \<Rightarrow> str \<Rightarrow> str" where
  "replay_url base_url p =
     (let base = rstrip_by (\<lambda>c. c = 47) base_url in
      if startswith p (lit ''/v1/'') then base @ p
      else if startswith p (lit ''/'') then base @ lit ''/v1'' @ p
      else base @ lit ''/v1/'' @ p)"

record replay_request =
  sent_method :: str
  sent_url :: str
  sent_headers :: "(str, str) dict"
  sent_body :: "(str \<times> json) list"

text \<open>\<open>upper\<close> is \<open>str.upper\<close>. A record that is not a dictionary raises \<open>AttributeError\<close>.\<close>

definition replay_record ::
    "(json \<Rightarrow> str) \<Rightarrow> (str \<Rightarrow> str) \<Rightarrow> str \<Rightarrow> str \<Rightarrow> str \<Rightarrow> json \<Rightarrow> replay_request res" where
  "replay_record show upper base_url api_key model rec =
     rbind (rule_get rec (lit ''path'') JNull) (\<lambda>p.
     rbind (rule_get rec (lit ''method'') JNull) (\<lambda>m.
     rbind (rule_get rec (lit ''body_json'') JNull) (\<lambda>b.
       (let body = (case b of JDict d \<Rightarrow> d | _ \<Rightarrow> []);
            body' = (if model \<noteq> [] \<and> dict_get body (lit ''model'') = None
                     then dict_set body (lit ''model'') (JStr model) else body)
        in Inr \<lparr>sent_method = upper (text_of show (if_falsy m (JStr (lit ''POST'')))),
                sent_url = replay_url base_url (text_of show (if_falsy p (JStr []))),
                sent_headers = [(lit ''Authorization'', lit ''Bearer '' @ api_key), (lit ''Content-Type'', lit ''application/json'')],
                sent_body = body'\<rparr>))))"

record replay_args =
  ra_base_url :: str
  ra_api_key :: str
  ra_model :: str
  ra_path_filter :: str
  ra_limit :: int

fun filter_path :: "(json \<Rightarrow> str) \<Rightarrow> str \<Rightarrow> json list \<Rightarrow> json list res" where
  "filter_path show path_filter [] = Inr []"
| "filter_path show path_filter (r # rs) =
     rbind (rule_get r (lit ''path'') JNull) (\<lambda>p. rbind (filter_path show path_filter rs) (\<lambda>rest.
     Inr (if startswith (text_of show (if_falsy p (JStr []))) path_filter then r # rest else rest)))"

text \<open>\<open>records[-limit:]\<close>: a negative limit drops from the front.\<close>

definition last_records :: "int \<Rightarrow> 'a list \<Rightarrow> 'a list" where
  "last_records limit rs =
     (if limit \<noteq> 0 \<and> int (length rs) > limit
      then (if limit > 0 then drop (length rs - nat limit) rs else drop (nat (- limit)) rs) else rs)"

text \<open>The requests that are sent, one after the other; an error of the client goes on to the next.\<close>

definition replay_all ::
    "(str \<Rightarrow> json option) \<Rightarrow> (json \<Rightarrow> str) \<Rightarrow> (str \<Rightarrow> str) \<Rightarrow> replay_args \<Rightarrow> str option \<Rightarrow> replay_request list res" where
  "replay_all loads show upper args capture_file =
     (case capture_file of
        None \<Rightarrow> Inl (Other_Error (lit ''SystemExit: capture file not found''))
      | Some content \<Rightarrow>
          rbind (if ra_path_filter args = [] then Inr (iter_records loads content)
                 else filter_path show (ra_path_filter args) (iter_records loads content)) (\<lambda>records.
          rmap (replay_record show upper (ra_base_url args) (ra_api_key args) (ra_model args))
            (last_records (ra_limit args) records)))"

section \<open>Secrets in the log\<close>

lemma fold_dict_set_get:
  "distinct (map fst xs) \<Longrightarrow> fst ` set xs \<inter> dict_keys d0 = {} \<Longrightarrow>
     dict_get (foldl (\<lambda>d (k, v). dict_set d k (f k v)) d0 xs) k =
       (case map_of xs k of Some v \<Rightarrow> Some (f k v) | None \<Rightarrow> dict_get d0 k)"
proof (induction xs arbitrary: d0)
  case (Cons x xs)
  obtain k' v' where x: "x = (k', v')" by (cases x)
  have "fst ` set xs \<inter> dict_keys (dict_set d0 k' (f k' v')) = {}"
    using Cons.prems by (auto simp: x)
  moreover have "map_of xs k' = None" using Cons.prems by (simp add: x map_of_eq_None_iff)
  ultimately show ?case
    using Cons.IH [of "dict_set d0 k' (f k' v')"] Cons.prems by (cases "k = k'") (simp_all add: x split: option.split)
qed simp

text \<open>Two values that agree where the log looks are recorded alike: their length, digest, and the first
  eight and last four characters of a value of more than twelve.\<close>

lemma redact_secret_cong:
  assumes "length v = length w" "sha v = sha w"
    and "12 < length v \<Longrightarrow> take 8 v = take 8 w \<and> drop (length v - 4) v = drop (length w - 4) w"
  shows "redact_secret sha v = redact_secret sha w"
  using assms by (auto simp: redact_secret_def)

lemma sanitize_headers_get:
  assumes "distinct (map fst headers)" "dict_get headers name = Some v"
  shows "dict_get (sanitize_headers sha headers) name =
    Some (if lower name \<in> set SENSITIVE_HEADERS then redact_secret sha v else JStr v)"
  using fold_dict_set_get [OF assms(1), of "[]" "\<lambda>n x. if lower n \<in> set SENSITIVE_HEADERS then redact_secret sha x else JStr x" name] assms(2)
  by (simp add: sanitize_headers_def dict_keys_def)

section \<open>What was recorded is replayed\<close>

definition log_codec :: "(str \<Rightarrow> json option) \<Rightarrow> (json \<Rightarrow> str) \<Rightarrow> json \<Rightarrow> bool" where
  "log_codec loads dumps v \<longleftrightarrow>
     loads (dumps v) = Some v \<and> 10 \<notin> set (dumps v) \<and> 13 \<notin> set (dumps v) \<and> strip (dumps v) = dumps v \<and> dumps v \<noteq> []"

lemma split_on_line: "c \<notin> set l \<Longrightarrow> split_on c (l @ c # s) = l # split_on c s"
  by (induction l) auto

lemma iter_records_log:
  assumes "\<forall>v\<in>set vs. log_codec loads dumps v"
  shows "iter_records loads (concat (map (\<lambda>v. dumps v @ [10]) vs)) = vs"
proof -
  let ?s = "concat (map (\<lambda>v. dumps v @ [10]) vs)"
  have n13: "13 \<notin> set ?s" using assms by (auto simp: log_codec_def)
  have split: "split_on 10 (concat (map (\<lambda>v. dumps v @ [10]) us)) = map dumps us @ [[]]"
    if "\<forall>v\<in>set us. log_codec loads dumps v" for us
    using that by (induction us) (simp_all add: split_on_line log_codec_def)
  have ne: "filter (\<lambda>l. l \<noteq> []) (map strip (map dumps us @ [[]])) = map dumps us"
    if "\<forall>v\<in>set us. log_codec loads dumps v" for us
    using that by (induction us) (simp_all add: log_codec_def)
  have "concat (map (\<lambda>l. case loads l of Some v \<Rightarrow> [v] | None \<Rightarrow> []) (map dumps us)) = us"
    if "\<forall>v\<in>set us. log_codec loads dumps v" for us
    using that by (induction us) (simp_all add: log_codec_def)
  with assms show ?thesis
    unfolding iter_records_def replace_crlf_id [OF n13] replace_cr_id [OF n13] split [OF assms] ne [OF assms] by simp
qed

definition serve_all :: "capture_libs \<Rightarrow> (str \<times> rat \<times> captured_request) list \<Rightarrow> str option \<Rightarrow> str option" where
  "serve_all lb rqs log_text = foldl (\<lambda>t (uuid_hex, ts, rq). fst (serve lb uuid_hex ts rq t)) log_text rqs"

lemma serve_logs:
  assumes "cq_method rq \<in> set CATCH_ALL_METHODS"
  shows "fst (serve lb u ts rq (Some t)) = Some (t @ cl_dumps lb (JDict (capture_request lb u ts rq)) @ [10])"
proof -
  have "route lb (cq_method rq) (cq_path rq) (capture_request lb u ts rq) \<noteq> Method_Not_Allowed"
    using assms by (auto simp: route_def chat_completions_def responses_def messages_def catch_all_def Let_def)
  then show ?thesis
    by (auto simp: serve_def append_record_def Let_def split: capture_answer.splits)
qed

lemma serve_all_log:
  assumes "\<forall>(u, ts, rq)\<in>set rqs. cq_method rq \<in> set CATCH_ALL_METHODS"
  shows "serve_all lb rqs (Some t) =
    Some (t @ concat (map (\<lambda>(u, ts, rq). cl_dumps lb (JDict (capture_request lb u ts rq)) @ [10]) rqs))"
  using assms
proof (induction rqs arbitrary: t)
  case (Cons x rqs)
  then show ?case by (cases x) (simp add: serve_all_def serve_logs)
qed (simp add: serve_all_def)

lemma replay_captured:
  assumes "cl_loads lb (cl_decode lb (cq_body rq)) = Inr (JDict body)" "cl_decode lb (cq_body rq) \<noteq> []"
    and "cq_method rq \<noteq> []" "upper (cq_method rq) = cq_method rq"
  shows "replay_record show upper base_url api_key model (JDict (capture_request lb u ts rq)) = Inr
    \<lparr>sent_method = cq_method rq, sent_url = replay_url base_url (cq_path rq),
     sent_headers = [(lit ''Authorization'', lit ''Bearer '' @ api_key), (lit ''Content-Type'', lit ''application/json'')],
     sent_body = (if model \<noteq> [] \<and> dict_get body (lit ''model'') = None then dict_set body (lit ''model'') (JStr model) else body)\<rparr>"
  using assms by (simp add: replay_record_def capture_request_def Let_def get_or_def if_falsy_def text_of_def)

lemma filter_path_captured:
  "filter_path show f (map (\<lambda>(u, ts, rq). JDict (capture_request lb u ts rq)) rqs) =
     Inr (map (\<lambda>(u, ts, rq). JDict (capture_request lb u ts rq)) (filter (\<lambda>(u, ts, rq). startswith (cq_path rq) f) rqs))"
  by (induction rqs) (auto simp: capture_request_def Let_def get_or_def if_falsy_def text_of_def split: prod.splits)

lemma last_records_map: "last_records n (map f xs) = map f (last_records n xs)"
  by (simp add: last_records_def drop_map)

lemma set_last_records: "set (last_records n xs) \<subseteq> set xs"
  by (simp add: last_records_def set_drop_subset)

end
