(* ===== verification/Capacity.thy ===== *)
theory Capacity
  imports Prelude
begin

text \<open>
  The load test that looks for the number of concurrent requests a server takes
  (\<open>scripts/hardware_capacity_test.py\<close>): how a response is classified, the figures of a level, the search
  over the levels, the report. Running a level is a parameter: the results it collects. Floats are rationals.
\<close>

section \<open>Results\<close>

record request_result =
  rq_latency_ms :: rat
  rq_status :: str
  rq_inflight :: int
  rq_queue_size :: int
  rq_queue_wait_ms :: int
  rq_reject_reason :: str
  rq_detail :: str

text \<open>A response with its status and headers, a time-out, or another exception.\<close>

datatype outcome =
    Response nat "(str, str) dict"
  | Timed_Out
  | Failed str

text \<open>\<open>int(headers.get(name, 0))\<close>; \<open>to_int\<close> is \<open>int\<close> of a string.\<close>

definition header_int :: "(str \<Rightarrow> int option) \<Rightarrow> (str, str) dict \<Rightarrow> string \<Rightarrow> int res" where
  "header_int to_int headers name =
     (case dict_get headers (lit name) of
        None \<Rightarrow> Inr 0
      | Some v \<Rightarrow> (case to_int v of Some n \<Rightarrow> Inr n | None \<Rightarrow> Inl (Value_Error (lit ''invalid literal for int()''))))"

definition response_status :: "nat \<Rightarrow> str" where
  "response_status code = (if code = 429 then lit ''rejected'' else if code = 200 then lit ''ok'' else lit ''error'')"

definition plain_result :: "rat \<Rightarrow> str \<Rightarrow> str \<Rightarrow> request_result" where
  "plain_result latency_ms status_text detail =
     \<lparr>rq_latency_ms = latency_ms, rq_status = status_text, rq_inflight = 0, rq_queue_size = 0, rq_queue_wait_ms = 0,
      rq_reject_reason = [], rq_detail = detail\<rparr>"

text \<open>What \<open>_make_request\<close> returns: an exception while the headers are read is an error as well;
  \<open>exc_text\<close> is its message.\<close>

definition make_result :: "(str \<Rightarrow> int option) \<Rightarrow> (exn \<Rightarrow> str) \<Rightarrow> rat \<Rightarrow> outcome \<Rightarrow> request_result" where
  "make_result to_int exc_text latency_ms oc =
     (case oc of
        Timed_Out \<Rightarrow> plain_result latency_ms (lit ''timeout'') []
      | Failed detail \<Rightarrow> plain_result latency_ms (lit ''error'') detail
      | Response code headers \<Rightarrow>
          (case rbind (header_int to_int headers ''X-SafetyHub-Inflight'') (\<lambda>inflight.
                rbind (header_int to_int headers ''X-SafetyHub-Queue-Size'') (\<lambda>queue_size.
                rbind (header_int to_int headers ''X-SafetyHub-Queue-Wait-Ms'') (\<lambda>queue_wait_ms.
                Inr (inflight, queue_size, queue_wait_ms)))) of
             Inl e \<Rightarrow> plain_result latency_ms (lit ''error'') (exc_text e)
           | Inr (inflight, queue_size, queue_wait_ms) \<Rightarrow>
               \<lparr>rq_latency_ms = latency_ms, rq_status = response_status code, rq_inflight = inflight,
                rq_queue_size = queue_size, rq_queue_wait_ms = queue_wait_ms,
                rq_reject_reason = get_or headers (lit ''X-SafetyHub-Reject-Reason'') [], rq_detail = []\<rparr>))"

section \<open>The figures of a level\<close>

record capacity_level =
  cv_concurrency :: int
  cv_duration_seconds :: int
  cv_total_requests :: nat
  cv_ok_requests :: nat
  cv_blocked_requests :: nat
  cv_error_requests :: nat
  cv_rejected_requests :: nat
  cv_avg_latency_ms :: rat
  cv_p50_latency_ms :: rat
  cv_p95_latency_ms :: rat
  cv_p99_latency_ms :: rat
  cv_avg_inflight :: rat
  cv_avg_queue_size :: rat
  cv_avg_queue_wait_ms :: rat
  cv_rps :: rat
  cv_is_saturated :: bool

definition mean_or_zero :: "rat list \<Rightarrow> rat" where
  "mean_or_zero xs = (if xs = [] then 0 else sum_list xs / of_nat (length xs))"

text \<open>\<open>int(len * percentile / 100)\<close>, cut off at the last index.\<close>

definition percentile_of :: "rat list \<Rightarrow> nat \<Rightarrow> rat" where
  "percentile_of xs percentile =
     (if xs = [] then 0 else sort xs ! min (length xs * percentile div 100) (length xs - 1))"

definition with_status :: "string \<Rightarrow> request_result list \<Rightarrow> nat" where
  "with_status s rs = length (filter (\<lambda>r. rq_status r = lit s) rs)"

definition positives :: "(request_result \<Rightarrow> int) \<Rightarrow> request_result list \<Rightarrow> rat list" where
  "positives f rs = map of_int (filter (\<lambda>n. n > 0) (map f rs))"

definition level_of :: "int \<Rightarrow> int \<Rightarrow> request_result list \<Rightarrow> capacity_level" where
  "level_of concurrency duration_seconds rs =
     (let latencies = map rq_latency_ms (filter (\<lambda>r. rq_status r \<in> {lit ''ok'', lit ''blocked''}) rs);
          p95 = percentile_of latencies 95;
          error_count = with_status ''error'' rs;
          rejected_count = with_status ''rejected'' rs
      in \<lparr>cv_concurrency = concurrency, cv_duration_seconds = duration_seconds, cv_total_requests = length rs,
          cv_ok_requests = with_status ''ok'' rs, cv_blocked_requests = with_status ''blocked'' rs,
          cv_error_requests = error_count, cv_rejected_requests = rejected_count,
          cv_avg_latency_ms = mean_or_zero latencies, cv_p50_latency_ms = percentile_of latencies 50,
          cv_p95_latency_ms = p95, cv_p99_latency_ms = percentile_of latencies 99,
          cv_avg_inflight = mean_or_zero (positives rq_inflight rs),
          cv_avg_queue_size = mean_or_zero (positives rq_queue_size rs),
          cv_avg_queue_wait_ms = mean_or_zero (positives rq_queue_wait_ms rs),
          cv_rps = (if duration_seconds > 0 then of_nat (length rs) / of_int duration_seconds else 0),
          cv_is_saturated = (rejected_count > 0 \<or> p95 > 5000 \<and> of_nat error_count > of_nat (length rs) * (1 / 10 :: rat))\<rparr>)"

section \<open>The search\<close>

text \<open>\<open>run n c\<close> is the level that the \<open>n\<close>-th run gives at concurrency \<open>c\<close>. The two confirming runs after a
  saturated level, with a \<open>break\<close> at the maximum.\<close>

fun confirm_levels :: "(nat \<Rightarrow> int \<Rightarrow> capacity_level) \<Rightarrow> int \<Rightarrow> int \<Rightarrow> nat \<Rightarrow> int list \<Rightarrow> capacity_level list" where
  "confirm_levels run base maximum n [] = []"
| "confirm_levels run base maximum n (offset # os) =
     (if base + offset > maximum then []
      else run n (base + offset) # confirm_levels run base maximum (Suc n) os)"

text \<open>The \<open>while\<close> loop need not end: the step comes from the command line.\<close>

partial_function (option) capacity_search ::
    "(nat \<Rightarrow> int \<Rightarrow> capacity_level) \<Rightarrow> int \<Rightarrow> int \<Rightarrow> capacity_level list \<Rightarrow> int \<Rightarrow> capacity_level list option" where
  "capacity_search run maximum step levels current =
     (if current \<le> maximum then
        (let level_result = run (length levels) current;
             levels1 = levels @ [level_result]
         in if cv_is_saturated level_result
            then Some (levels1 @ confirm_levels run current maximum (length levels1) [step, step * 2])
            else capacity_search run maximum step levels1 (current + step))
      else Some levels)"

definition find_max_capacity :: "(nat \<Rightarrow> int \<Rightarrow> capacity_level) \<Rightarrow> int \<Rightarrow> int \<Rightarrow> int \<Rightarrow> capacity_level list option" where
  "find_max_capacity run start maximum step = capacity_search run maximum step [] start"

section \<open>The report\<close>

datatype load_band = Easy | Moderate | Rather_High | High_Load | Saturated

text \<open>The bands of the table; their names and the advice are printed in Chinese.\<close>

definition band_of :: "nat \<Rightarrow> load_band" where
  "band_of usage_pct =
     (if usage_pct < 50 then Easy else if usage_pct < 70 then Moderate else if usage_pct < 85 then Rather_High
      else if usage_pct < 100 then High_Load else Saturated)"

record capacity_report =
  cr_max_stable :: capacity_level
  cr_min_saturated :: "capacity_level option"
  cr_success_rate :: rat
  cr_usage :: "(int \<times> nat \<times> load_band) list"
  cr_rows :: "(int \<times> rat \<times> nat \<times> bool) list"

text \<open>A line of the detailed table: concurrency, success rate, rejections, saturation.\<close>

definition detail_row :: "capacity_level \<Rightarrow> int \<times> rat \<times> nat \<times> bool" where
  "detail_row r =
     (cv_concurrency r,
      if cv_total_requests r > 0 then of_nat (cv_ok_requests r) / of_nat (cv_total_requests r) * 100 else 0,
      cv_rejected_requests r, cv_is_saturated r)"

text \<open>What is printed: \<open>results[0]\<close> of no level and a success rate over no request are exceptions.
  \<open>int(concurrency * pct / 100)\<close> cuts towards zero; a concurrency is positive.\<close>

definition capacity_report_of :: "capacity_level list \<Rightarrow> capacity_report res" where
  "capacity_report_of levels =
     (let stable_levels = filter (\<lambda>l. \<not> cv_is_saturated l) levels;
          saturated_levels = filter cv_is_saturated levels
      in if stable_levels = [] \<and> levels = [] then Inl (Other_Error (lit ''IndexError''))
         else (let max_stable = (if stable_levels = [] then hd levels else last stable_levels) in
           if cv_total_requests max_stable = 0 then Inl (Other_Error (lit ''ZeroDivisionError''))
           else Inr \<lparr>cr_max_stable = max_stable,
               cr_min_saturated = (case saturated_levels of [] \<Rightarrow> None | l # _ \<Rightarrow> Some l),
               cr_success_rate = of_nat (cv_ok_requests max_stable) / of_nat (cv_total_requests max_stable) * 100,
               cr_usage = map (\<lambda>pct. (cv_concurrency max_stable * int pct div 100, pct, band_of pct))
                 [10, 20, 30, 40, 50, 60, 70, 80, 90, 100],
               cr_rows = map detail_row levels\<rparr>))"

section \<open>Facts\<close>

text \<open>With a positive step the search ends: it tries \<open>start\<close>, \<open>start + step\<close>, \<dots> up to the first saturated
  level or the maximum, and then at most two levels more.\<close>

definition ladder :: "(nat \<Rightarrow> int \<Rightarrow> capacity_level) \<Rightarrow> int \<Rightarrow> int \<Rightarrow> nat \<Rightarrow> capacity_level list" where
  "ladder run start step n = map (\<lambda>i. run i (start + int i * step)) [0..<n]"

lemma ladder_Suc: "ladder run start step (Suc n) = ladder run start step n @ [run n (start + int n * step)]"
  by (simp add: ladder_def)

lemma length_ladder [simp]: "length (ladder run start step n) = n"
  by (simp add: ladder_def)

lemma confirm_is_ladder:
  "\<exists>k\<le>2. ladder run start step (Suc n) @ confirm_levels run (start + int n * step) maximum (Suc n) [step, step * 2] =
     ladder run start step (Suc n + k) \<and> (k > 0 \<longrightarrow> start + int (n + k) * step \<le> maximum) \<and>
     (k < 2 \<longrightarrow> start + int (Suc (n + k)) * step > maximum)"
proof -
  have next_level: "start + int n * step + step = start + int (Suc n) * step" "start + int n * step + step * 2 = start + int (Suc (Suc n)) * step"
    by (simp_all add: algebra_simps)
  consider "start + int (Suc n) * step > maximum"
    | "start + int (Suc n) * step \<le> maximum" "start + int (Suc (Suc n)) * step > maximum"
    | "start + int (Suc n) * step \<le> maximum" "start + int (Suc (Suc n)) * step \<le> maximum" by linarith
  then show ?thesis
  proof cases
    case 1
    then show ?thesis by (intro exI [of _ 0]) (simp add: next_level del: of_nat_Suc)
  next
    case 2
    then show ?thesis by (intro exI [of _ 1]) (simp add: next_level ladder_Suc del: of_nat_Suc)
  next
    case 3
    then show ?thesis by (intro exI [of _ 2]) (simp add: next_level ladder_Suc numeral_2_eq_2 del: of_nat_Suc)
  qed
qed

lemma rung_le: "0 < step \<Longrightarrow> i \<le> j \<Longrightarrow> start + int j * step \<le> maximum \<Longrightarrow> start + int i * step \<le> (maximum::int)"
  by (meson add_left_mono less_imp_le mult_right_mono of_nat_le_iff order_trans)

text \<open>The levels run from a state of the loop: \<open>m\<close> is the first saturated one, or where the maximum is passed,
  and \<open>k\<close> counts it and the confirming levels.\<close>

definition search_from :: "(nat \<Rightarrow> int \<Rightarrow> capacity_level) \<Rightarrow> int \<Rightarrow> int \<Rightarrow> int \<Rightarrow> nat \<Rightarrow> nat \<Rightarrow> bool" where
  "search_from run start maximum step m k \<longleftrightarrow>
     k \<le> 3 \<and> (\<forall>i<m. \<not> cv_is_saturated (run i (start + int i * step))) \<and>
     (k > 0 \<longrightarrow> cv_is_saturated (run m (start + int m * step))) \<and>
     (\<forall>i<m + k. start + int i * step \<le> maximum) \<and>
     (k \<noteq> 3 \<longrightarrow> start + int (m + k) * step > maximum)"

lemma capacity_search_returns:
  assumes "0 < step" "\<forall>i<n. \<not> cv_is_saturated (run i (start + int i * step))" "\<forall>i<n. start + int i * step \<le> maximum"
  shows "\<exists>m k. capacity_search run maximum step (ladder run start step n) (start + int n * step) =
      Some (ladder run start step (m + k)) \<and> search_from run start maximum step m k"
  using assms(2,3)
proof (induction "nat (maximum + 1 - (start + int n * step))" arbitrary: n rule: less_induct)
  case less
  let ?c = "start + int n * step"
  show ?case
  proof (cases "?c \<le> maximum")
    case False
    then have "capacity_search run maximum step (ladder run start step n) ?c = Some (ladder run start step n)"
      by (subst capacity_search.simps) simp
    with False less.prems show ?thesis
      by (intro exI [of _ n] exI [of _ 0]) (auto simp: search_from_def)
  next
    case True
    show ?thesis
    proof (cases "cv_is_saturated (run n ?c)")
      case True
      from confirm_is_ladder [of run start step n maximum] obtain k where k: "k \<le> 2"
        "ladder run start step (Suc n) @ confirm_levels run ?c maximum (Suc n) [step, step * 2] = ladder run start step (Suc n + k)"
        "k > 0 \<Longrightarrow> start + int (n + k) * step \<le> maximum" "k < 2 \<Longrightarrow> start + int (Suc (n + k)) * step > maximum" by auto
      have "capacity_search run maximum step (ladder run start step n) ?c = Some (ladder run start step (n + Suc k))"
        using \<open>?c \<le> maximum\<close> True k(2) by (subst capacity_search.simps) (simp add: Let_def ladder_Suc)
      moreover have "start + int (n + k) * step \<le> maximum" using k(3) \<open>?c \<le> maximum\<close> by (cases k) auto
      then have "\<forall>i<n + Suc k. start + int i * step \<le> maximum"
        using rung_le [OF assms(1), of _ "n + k"] by (simp add: less_Suc_eq_le)
      ultimately show ?thesis using True less.prems(1) k(1,4)
        by (intro exI [of _ n] exI [of _ "Suc k"]) (auto simp: search_from_def)
    next
      case False
      have c: "start + int (Suc n) * step = ?c + step" by (simp add: algebra_simps)
      have go: "capacity_search run maximum step (ladder run start step n) ?c =
          capacity_search run maximum step (ladder run start step (Suc n)) (start + int (Suc n) * step)"
        using \<open>?c \<le> maximum\<close> False by (subst capacity_search.simps) (simp add: Let_def ladder_Suc c del: of_nat_Suc)
      have "nat (maximum + 1 - (start + int (Suc n) * step)) < nat (maximum + 1 - ?c)"
        using \<open>?c \<le> maximum\<close> assms(1) unfolding c by linarith
      moreover have "\<forall>i<Suc n. \<not> cv_is_saturated (run i (start + int i * step))"
        "\<forall>i<Suc n. start + int i * step \<le> maximum"
        using less.prems False \<open>?c \<le> maximum\<close> by (auto simp: less_Suc_eq)
      ultimately show ?thesis unfolding go by (rule less.hyps)
    qed
  qed
qed

text \<open>A level of a percentile is one of the latencies.\<close>

lemma percentile_in: "xs \<noteq> [] \<Longrightarrow> percentile_of xs p \<in> set xs"
proof -
  assume "xs \<noteq> []"
  then have "min (length xs * p div 100) (length xs - 1) < length (sort xs)" by (cases xs) auto
  then have "sort xs ! min (length xs * p div 100) (length xs - 1) \<in> set (sort xs)" by (rule nth_mem)
  with \<open>xs \<noteq> []\<close> show ?thesis by (simp add: percentile_of_def)
qed

lemma percentile_mono:
  assumes "p \<le> q"
  shows "percentile_of xs p \<le> percentile_of xs q"
proof (cases "xs = []")
  case False
  have "min (length xs * p div 100) (length xs - 1) \<le> min (length xs * q div 100) (length xs - 1)"
    using assms by (intro min.mono div_le_mono mult_le_mono) auto
  moreover have "min (length xs * q div 100) (length xs - 1) < length (sort xs)" using False by (cases xs) auto
  ultimately show ?thesis using False by (simp add: percentile_of_def sorted_nth_mono)
qed (simp add: percentile_of_def)

text \<open>The report can name a level above the saturated one as the largest stable one: the two confirming
  levels count as well.\<close>

lemma stable_above_saturation:
  assumes "steady = level_of 10 15 [plain_result 1 (lit ''ok'') []]" "full = level_of 30 15 [plain_result 1 (lit ''rejected'') []]"
  shows "\<exists>r. capacity_report_of [steady, full, steady\<lparr>cv_concurrency := 50\<rparr>] = Inr r \<and>
    cv_concurrency (cr_max_stable r) = 50 \<and> map_option cv_concurrency (cr_min_saturated r) = Some 30"
  by (simp add: assms capacity_report_of_def level_of_def with_status_def plain_result_def percentile_of_def Let_def)

end
