(* ===== verification/Script_Properties.thy ===== *)
theory Script_Properties
  imports Example Key_Migration Key_Import Table_Copy Forecast Capture Capacity
begin

text \<open>
  The properties of the operational scripts and of the clients that verify a running hub, each with an
  application to a concrete input.
\<close>

section \<open>Keys of an older version\<close>

text \<open>A legacy cipher with a one-byte MAC, the row of a key it sealed and the row after the migration.\<close>

definition ex_legacy :: legacy_crypto where
  "ex_legacy = \<lparr>lc_derive = (\<lambda>salt. salt), lc_hmac = (\<lambda>k m. [7]), lc_utf8 = (\<lambda>bs. Some (map unat bs))\<rparr>"

definition ex_envelope :: envelope where
  "ex_envelope = projr (seal ex_legacy [1] [2] [104, 105])"

definition ex_old_key :: api_key where
  "ex_old_key = ex_key\<lparr>ak_upstream_key_encrypted := Some (envelope_str ex_envelope), ak_safetyhub_key_encrypted := None\<rparr>"

definition ex_new_key :: api_key where
  "ex_new_key = ex_old_key\<lparr>ak_upstream_key_encrypted := Some (encrypt ex_crypto (lit ''hi''))\<rparr>"

text \<open>C27. A key of an older version: until its row is migrated its requests end with an exception; after a
  migration that ran through, the same header passes with the secret that was sealed. The migration keeps
  every row and every secret, and run again it changes nothing.\<close>

theorem migrated_key_authenticates:
  assumes "migrate c lc False t = (t', Inr st)" "\<And>p. dec c (enc c p) = Some p"
    and "seal lc salt nonce plaintext = Inr ev" "lc_utf8 lc plaintext = Some s"
    and "\<And>k m. lc_hmac lc k m \<noteq> []" "length plaintext \<le> 18446744073709551616"
    and "extract_bearer_key h \<noteq> []" "find_by_raw_key c t (extract_bearer_key h) = Some r" "is_record_active r now"
    and "ak_upstream_key_encrypted r = Some (envelope_str ev)"
  shows "check_key c t now h = Raised (Value_Error (lit ''unsupported encrypted value version'')) \<and>
    check_key c t' now h = Call_Next (Some \<lparr>ri_api_key_id = ak_id r, ri_user_id = ak_owner_user_id r,
      ri_upstream_api_key = s, ri_key_prefix = ak_key_prefix r\<rparr>) \<and>
    list_all2 (same_key c lc) t t' \<and>
    (\<exists>again. migrate c lc False t' = (t', Inr again) \<and> ms_migrated again = 0 \<and> ms_scanned again = length t)"
proof -
  note opened = legacy_decrypt_seal [OF assms(3,4,5,6)]
  note passes = migrated_key_passes [OF assms(1,2,7-10) opened]
  note same = migrate_same(1) [OF assms(1,2)]
  from passes same migrate_again [OF same, of False] list_all2_lengthD [OF same] show ?thesis by simp
qed

theorem migrated_key_authenticates_witness:
  "check_key ex_crypto [ex_old_key] 6 (lit ''Bearer sk-sh-token'') =
     Raised (Value_Error (lit ''unsupported encrypted value version'')) \<and>
   check_key ex_crypto [ex_new_key] 6 (lit ''Bearer sk-sh-token'') =
     Call_Next (Some \<lparr>ri_api_key_id = ak_id ex_old_key, ri_user_id = ak_owner_user_id ex_old_key,
       ri_upstream_api_key = lit ''hi'', ri_key_prefix = ak_key_prefix ex_old_key\<rparr>)"
proof -
  have sealed: "seal ex_legacy [1] [2] [104, 105] = Inr ex_envelope"
    using seal_total [of ex_legacy "[104, 105]" "[1]" "[2]"] by (auto simp: ex_envelope_def ex_legacy_def)
  have utf8: "lc_utf8 ex_legacy [104, 105] = Some (lit ''hi'')" by code_simp
  have opened: "legacy_decrypt ex_legacy (envelope_str ex_envelope) = Inr (lit ''hi'')"
    by (rule legacy_decrypt_seal [OF sealed utf8]) (simp_all add: ex_legacy_def)
  have v1: "envelope_str ex_envelope \<noteq> []" "\<not> startswith (envelope_str ex_envelope) (lit ''v2:'')"
    by (simp_all add: envelope_str_def startswith_def lit_def)
  have run: "\<exists>st. migrate ex_crypto ex_legacy False [ex_old_key] = ([ex_new_key], Inr st)"
    using v1 by (simp add: migrate_def migrate_record_def migrate_field_def opened ex_old_key_def ex_new_key_def Let_def)
  then obtain st where st: "migrate ex_crypto ex_legacy False [ex_old_key] = ([ex_new_key], Inr st)" by blast
  have found: "extract_bearer_key (lit ''Bearer sk-sh-token'') \<noteq> []"
    "hash_api_key ex_crypto (extract_bearer_key (lit ''Bearer sk-sh-token'')) = ak_key_hash ex_key"
    "is_record_active ex_key 6" by code_simp+
  then have old: "find_by_raw_key ex_crypto [ex_old_key] (extract_bearer_key (lit ''Bearer sk-sh-token'')) = Some ex_old_key"
    "is_record_active ex_old_key 6"
    by (simp_all add: find_by_raw_key_def find_by_hash_def ex_old_key_def is_record_active_def split: if_splits)
  from migrated_key_authenticates [OF st _ sealed utf8 _ _ found(1) old] show ?thesis
    by (simp add: ex_crypto_def ex_legacy_def) (simp add: ex_old_key_def)
qed

section \<open>Imported keys\<close>

lemma not_isl_snd:
  assumes "\<not> isl (snd x)"
  obtains a b where "x = (a, Inr b)"
  using assms by (cases x; cases "snd x") auto

definition ex_exported :: "string \<Rightarrow> json" where
  "ex_exported k = JDict [(lit ''upstream_key'', JStr (lit k)),
     (lit ''upstream_key_id'', JStr (lit ''7'')), (lit ''name'', JStr (lit ''n'')), (lit ''raw'', JDict [])]"

definition ex_export :: json where
  "ex_export = JDict [(lit ''items'', JList [ex_exported ''old'', ex_exported ''token''])]"

definition ex_item :: import_item where
  "ex_item = \<lparr>im_name = lit ''n'', im_owner_user_id = lit ''yxai-user'', im_upstream_key = lit ''sk-token'',
     im_upstream_key_id = lit ''7''\<rparr>"

text \<open>C26. Every key of an export that the import accepts authenticates after a successful import, with itself
  as the upstream key: also one whose row had been revoked. It is the key that \<open>extract_bearer_key\<close> takes from the header;
  no later accepted item has its upstream id or its hash (the later one takes over the row), no row of the table has
  expired, and the cipher inverts.\<close>

theorem imported_key_authenticates:
  assumes "import_keys c show clock payload t = (t', Inr st)" "payload_items payload = Inr items"
    and "accepted show items = earlier @ it # later" "not_replaced c it later"
    and "dec c (enc c (im_upstream_key it)) = Some (im_upstream_key it)"
    and "extract_bearer_key h = im_upstream_key it" "im_upstream_key it \<noteq> []"
    and "\<And>r x. r \<in> set t \<Longrightarrow> ak_expires_at r = Some x \<Longrightarrow> now < x"
  shows "\<exists>r ident. find_by_raw_key c t' (im_upstream_key it) = Some r \<and> imported c it r \<and>
    check_key c t' now h = Call_Next (Some ident) \<and>
    ri_api_key_id ident = ak_id r \<and> ri_upstream_api_key ident = im_upstream_key it"
proof -
  from imported_key_found [OF assms(1-4)] obtain r where r: "find_by_raw_key c t' (im_upstream_key it) = Some r" "imported c it r" by blast
  then have "r \<in> set t'" by (auto simp: find_by_raw_key_def dest: find_by_hash_Some)
  moreover from assms(1,2) obtain st0 where "import_loop c show clock items t \<lparr>is_created = 0, is_updated = 0, is_skipped = 0\<rparr> = Inr (t', st)"
    by (auto elim: import_keys_success)
  ultimately have "ak_expires_at r = None \<or> ak_expires_at r \<in> ak_expires_at ` set t"
    by (intro import_loop_expires)
  with assms(8) have "\<And>x. ak_expires_at r = Some x \<Longrightarrow> now < x" by force
  with imported_passes [OF r assms(5-7)] r show ?thesis by blast
qed

text \<open>Of two items with the same upstream id the later one counts.\<close>

theorem imported_key_authenticates_witness:
  "\<exists>t' st ident. import_keys ex_crypto (\<lambda>_. []) int ex_export [] = (t', Inr st) \<and>
     check_key ex_crypto t' 6 (lit ''Bearer sk-token'') = Call_Next (Some ident) \<and>
     ri_upstream_api_key ident = lit ''sk-token''"
proof -
  obtain items where items: "payload_items ex_export = Inr items"
    "accepted (\<lambda>_. []) items = [ex_item\<lparr>im_upstream_key := lit ''sk-old''\<rparr>] @ ex_item # []"
  proof -
    have "case payload_items ex_export of Inr items \<Rightarrow>
        accepted (\<lambda>_. []) items = [ex_item\<lparr>im_upstream_key := lit ''sk-old''\<rparr>, ex_item] | Inl _ \<Rightarrow> False" by code_simp
    with that show thesis by (cases "payload_items ex_export") auto
  qed
  have "\<not> isl (snd (import_keys ex_crypto (\<lambda>_. []) int ex_export []))" by code_simp
  then obtain t' st where run: "import_keys ex_crypto (\<lambda>_. []) int ex_export [] = (t', Inr st)"
    by (rule not_isl_snd)
  have bearer: "extract_bearer_key (lit ''Bearer sk-token'') = im_upstream_key ex_item" "im_upstream_key ex_item \<noteq> []"
    by code_simp+
  have last: "not_replaced ex_crypto ex_item []" "dec ex_crypto (enc ex_crypto (im_upstream_key ex_item)) = Some (im_upstream_key ex_item)"
    by (simp_all add: not_replaced_def ex_crypto_def)
  have "\<exists>r ident. find_by_raw_key ex_crypto t' (im_upstream_key ex_item) = Some r \<and> imported ex_crypto ex_item r \<and>
      check_key ex_crypto t' 6 (lit ''Bearer sk-token'') = Call_Next (Some ident) \<and>
      ri_api_key_id ident = ak_id r \<and> ri_upstream_api_key ident = im_upstream_key ex_item"
    using imported_key_authenticates [OF run items last bearer, of 6] unfolding list.set(1) empty_iff by blast
  moreover have "im_upstream_key ex_item = lit ''sk-token''" by (simp add: ex_item_def)
  ultimately show ?thesis using run by auto
qed

section \<open>The database after a copy\<close>

text \<open>Two source tables with one and three rows, read in batches of two.\<close>

definition ex_rows :: "string \<Rightarrow> nat list" where
  "ex_rows n = (if n = ''api_keys'' then [0] else if n = ''audit_logs'' then [3, 8, 5] else [])"

definition ex_args :: copy_args where
  "ex_args = \<lparr>ca_postgres_url = lit ''postgresql+asyncpg://db'', ca_batch_size = 2, ca_replace_target = True,
     ca_tables = []\<rparr>"

text \<open>C11. Copying a source that does not change always ends, for every batch size, whatever order SQLite gives its
  rows in, query by query (the pages are read without an \<open>ORDER BY\<close>). It ends without an error or with an
  \<open>IntegrityError\<close> of the target. Without an error, the selected tables of the target hold the rows of the source, each
  once, every sequence is at or above every id of its table, and the verification reports no difference for
  tables that were copied. With one, the target refused rows of a selected table. Tables that were not selected are as
  before in both cases. If SQLite keeps one order and the target's constraints admit the rows, there is no error. All this is
  for a run with \<open>--replace-target\<close> or on empty tables, a PostgreSQL URL, tables that exist, and primary keys that are
  distinct in the source and enforced by the target.\<close>

theorem copied_database_verifies:
  fixes src :: "string \<Rightarrow> 'r list"
  assumes "any_order fetch src" "keyed_target allowed key" "\<And>t. distinct (map (key t) (src t))"
    and "check_postgres_url (ca_postgres_url args) = Inr ()" "selected_tables MODEL_TABLES (ca_tables args) = Inr tables"
    and "ca_replace_target args \<or> (\<forall>t\<in>set tables. tg_rows w (ti_name t) = [])"
    and "\<And>t. t \<in> set tables \<Longrightarrow> row_count (lit (ti_name t)) = Some (length (src (ti_name t)))"
    and "set (table_names checked) \<subseteq> (\<lambda>t. lit (ti_name t)) ` set tables"
  shows "\<exists>w' r. copy_main fetch allowed pk args w = Some (w', r) \<and>
    (\<forall>n. n \<notin> ti_name ` set tables \<longrightarrow> tg_rows w' n = tg_rows w n) \<and>
    (r = Inr (map (\<lambda>t. (ti_name t, length (src (ti_name t)))) tables) \<and>
       (\<forall>t\<in>set tables. mset (tg_rows w' (ti_name t)) = mset (src (ti_name t)) \<and>
          (ti_integer_key t \<longrightarrow> (\<forall>x\<in>set (src (ti_name t)). pk x \<le> tg_sequence w' (ti_name t)))) \<and>
       verify_main (ca_postgres_url args) checked (lit ''ok'') row_count w' = Inr () \<or>
     r = Inl (Other_Error (lit ''IntegrityError'')) \<and>
       (\<exists>t\<in>set tables. \<exists>rows. set rows \<subseteq> set (src (ti_name t)) \<and> \<not> allowed (ti_name t) rows)) \<and>
    ((\<forall>t limit offset. fetch t limit offset = take limit (drop offset (src t))) \<and>
       (\<forall>t n. allowed t (take n (src t))) \<longrightarrow> \<not> isl r)"
proof -
  have empty: "starts_empty args tables w" using assms(6) by (simp add: starts_empty_def)
  from copy_main_any_order [OF assms(1-5) empty, of pk] obtain w' r where w': "copy_main fetch allowed pk args w = Some (w', r)"
    "\<forall>n. n \<notin> ti_name ` set tables \<longrightarrow> tg_rows w' n = tg_rows w n"
    "r = Inr (map (\<lambda>t. (ti_name t, length (src (ti_name t)))) tables) \<and>
       (\<forall>t\<in>set tables. mset (tg_rows w' (ti_name t)) = mset (src (ti_name t)) \<and>
          (ti_integer_key t \<longrightarrow> (\<forall>x\<in>set (src (ti_name t)). pk x \<le> tg_sequence w' (ti_name t)))) \<or>
     r = Inl (Other_Error (lit ''IntegrityError'')) \<and> (\<exists>t\<in>set tables. refused_rows allowed src (ti_name t))" by blast
  have verified: "verify_main (ca_postgres_url args) checked (lit ''ok'') row_count w' = Inr ()"
    if "\<forall>t\<in>set tables. mset (tg_rows w' (ti_name t)) = mset (src (ti_name t))"
  proof -
    have "target_count w' (lit (ti_name t)) = row_count (lit (ti_name t))" "row_count (lit (ti_name t)) \<noteq> None"
      if t: "t \<in> set tables" for t
    proof -
      from t selected_distinct(2) [OF assms(5)] have "t \<in> set MODEL_TABLES" by blast
      moreover from t \<open>\<forall>t\<in>set tables. _\<close> have "length (tg_rows w' (ti_name t)) = length (src (ti_name t))" by (metis size_mset)
      ultimately show "target_count w' (lit (ti_name t)) = row_count (lit (ti_name t))"
        using assms(7) [OF t] find_model_table [of t] unfolding target_count_def by simp
      from assms(7) [OF t] show "row_count (lit (ti_name t)) \<noteq> None" by simp
    qed
    with assms(4,8) show ?thesis unfolding verify_main_iff by (auto dest!: subsetD)
  qed
  have "\<not> isl r" if "\<forall>t limit offset. fetch t limit offset = take limit (drop offset (src t))" "\<forall>t n. allowed t (take n (src t))"
    using copy_main_succeeds [of fetch src allowed args tables w pk] that assms(4,5) empty w'(1) by auto
  with w' verified show ?thesis unfolding refused_rows_def by blast
qed

text \<open>A source that turns its rows round after the first page, and a target that refuses a row it has: the copy fails, it does
  not lose a row. In one order the same copy succeeds.\<close>

definition ex_turning :: "string \<Rightarrow> nat \<Rightarrow> nat \<Rightarrow> nat list" where
  "ex_turning t limit offset = take limit (drop offset (if offset = 0 then ex_rows t else rev (ex_rows t)))"

definition ex_fixed :: "string \<Rightarrow> nat \<Rightarrow> nat \<Rightarrow> nat list" where
  "ex_fixed t limit offset = take limit (drop offset (ex_rows t))"

definition ex_target :: "nat target" where
  "ex_target = \<lparr>tg_rows = (\<lambda>_. [42]), tg_sequence = (\<lambda>_. 1)\<rparr>"

definition ex_row_count :: "str \<Rightarrow> nat option" where
  "ex_row_count n = map_option (\<lambda>t. length (ex_rows (ti_name t))) (find (\<lambda>t. lit (ti_name t) = n) MODEL_TABLES)"

lemma turning_source_refused:
  "any_order ex_turning ex_rows"
  "tg_rows w ''audit_logs'' = [] \<Longrightarrow> map_option snd (migrate_table ex_turning (\<lambda>_. distinct) 2 ''audit_logs'' w) =
     Some (Inl (Other_Error (lit ''IntegrityError'')))"
proof -
  have "mset (if offset = 0 then ex_rows t else rev (ex_rows t)) = mset (ex_rows t)" for t and offset :: nat by simp
  then show "any_order ex_turning ex_rows" unfolding any_order_def ex_turning_def by blast
  assume w: "tg_rows w ''audit_logs'' = []"
  let ?w = "set_rows ''audit_logs'' [3, 8] w"
  have "copy_pages (ex_turning ''audit_logs'') (insert_rows (\<lambda>_. distinct) ''audit_logs'') 2 2 2 ?w =
      Some (?w, Inl (Other_Error (lit ''IntegrityError'')))"
    by (subst copy_pages.simps) (simp add: ex_turning_def ex_rows_def insert_rows_def)
  moreover have "copy_pages (ex_turning ''audit_logs'') (insert_rows (\<lambda>_. distinct) ''audit_logs'') 2 0 0 w =
      copy_pages (ex_turning ''audit_logs'') (insert_rows (\<lambda>_. distinct) ''audit_logs'') 2 2 2 ?w"
    using w by (subst copy_pages.simps) (simp add: ex_turning_def ex_rows_def insert_rows_def numeral_2_eq_2)
  ultimately show "map_option snd (migrate_table ex_turning (\<lambda>_. distinct) 2 ''audit_logs'' w) =
     Some (Inl (Other_Error (lit ''IntegrityError'')))"
    by (simp add: migrate_table_def)
qed

theorem copied_database_verifies_witness:
  "\<exists>w'. copy_main ex_fixed (\<lambda>_. distinct) int ex_args ex_target =
      Some (w', Inr (map (\<lambda>t. (ti_name t, length (ex_rows (ti_name t)))) MODEL_TABLES)) \<and>
    mset (tg_rows w' ''audit_logs'') = {#3, 5, 8#} \<and>
    verify_main (lit ''postgresql+asyncpg://db'') (join [44] DEFAULT_TABLES) (lit ''ok'') ex_row_count w' = Inr ()"
proof -
  have url: "check_postgres_url (ca_postgres_url ex_args) = Inr ()" "ca_replace_target ex_args" by code_simp+
  have sel: "selected_tables MODEL_TABLES (ca_tables ex_args) = Inr MODEL_TABLES"
    by (simp add: selected_tables_def ex_args_def strip_def strip_by_def)
  have names: "set (table_names (join [44] DEFAULT_TABLES)) \<subseteq> (\<lambda>t. lit (ti_name t)) ` set MODEL_TABLES"
    unfolding default_names by (simp add: DEFAULT_TABLES_def MODEL_TABLES_def)
  have counts: "ex_row_count (lit (ti_name t)) = Some (length (ex_rows (ti_name t)))" if "t \<in> set MODEL_TABLES" for t
    using find_model_table [OF that] by (simp add: ex_row_count_def)
  have order: "any_order ex_fixed ex_rows" unfolding any_order_def ex_fixed_def by blast
  have source: "keyed_target (\<lambda>_. distinct) (\<lambda>_ x. x)"
    "\<And>t. distinct (map (\<lambda>x. x) (ex_rows t))" "\<forall>t n. distinct (take n (ex_rows t))"
    by (auto simp: keyed_target_def ex_rows_def)
  have audit: "\<exists>t\<in>set MODEL_TABLES. ti_name t = ''audit_logs''" by (simp add: MODEL_TABLES_def)
  from copied_database_verifies [OF order source(1,2) url(1) sel disjI1 [OF url(2)] counts names, of int ex_target]
    source(3) audit
  show ?thesis by (fastforce simp: ex_fixed_def ex_args_def ex_rows_def)
qed

section \<open>The verification clients\<close>

text \<open>C24. However the network cuts the bytes of a streamed blocking answer between its characters, the
  verification client reads the pieces of the blocking template from them, in order, and reports a stream.
  It decodes each chunk by itself, so a cut inside a character is not covered.\<close>

theorem fake_stream_read_in_chunks:
  assumes "\<forall>p\<in>set (fake_payloads hex8 now content model). event_codec loads dumps p"
    and "\<And>t. set t \<subseteq> set (concat (stream_fake_chunks dumps hex8 now content model)) \<Longrightarrow> decode (encoded encode t) = t"
    and "concat ts = concat (stream_fake_chunks dumps hex8 now content model)" "status < 400"
  shows "read_stream loads decode status (map (encoded encode) ts) = Inr (True, map JStr (deltas content)) \<and>
    concat (deltas content) = content"
  using client_reads_fake_bytes [OF assms] concat_deltas by blast

text \<open>The answer \<open>ab\<close>, one byte per chunk.\<close>

definition ex_events :: "str list" where
  "ex_events = stream_fake_chunks
     (\<lambda>j. if j = chunk_payload (lit ''chatcmpl-safetyhub-'') 0 JNull
            (JDict [(lit ''content'', JStr (lit ''ab''))]) JNull then [49] else [50])
     [] 0 (lit ''ab'') JNull"

theorem fake_stream_read_in_chunks_witness:
  "read_stream
     (\<lambda>s. if s = [49] then Some (chunk_payload (lit ''chatcmpl-safetyhub-'') 0 JNull
             (JDict [(lit ''content'', JStr (lit ''ab''))]) JNull)
          else Some (chunk_payload (lit ''chatcmpl-safetyhub-'') 0 JNull (JDict []) (JStr (lit ''stop''))))
     (map unat) 200 (map (encoded (\<lambda>c. [of_nat c])) (map (\<lambda>c. [c]) (concat ex_events))) =
   Inr (True, [JStr (lit ''ab'')])"
proof -
  have payloads: "fake_payloads [] 0 (lit ''ab'') JNull =
    [chunk_payload (lit ''chatcmpl-safetyhub-'') 0 JNull (JDict [(lit ''content'', JStr (lit ''ab''))]) JNull,
     chunk_payload (lit ''chatcmpl-safetyhub-'') 0 JNull (JDict []) (JStr (lit ''stop''))]" "deltas (lit ''ab'') = [lit ''ab'']"
    by (simp_all add: fake_payloads_def Let_def lit_def [of "''ab''"])
  have line: "clean_line [49]" "clean_line [50]" "strip [49] = [49]" "strip [50] = [50]"
    "[49] \<noteq> lit ''[DONE]''" "[50] \<noteq> lit ''[DONE]''" by code_simp+
  have codec: "\<forall>p\<in>set (fake_payloads [] 0 (lit ''ab'') JNull). event_codec
     (\<lambda>s. if s = [49] then Some (chunk_payload (lit ''chatcmpl-safetyhub-'') 0 JNull
             (JDict [(lit ''content'', JStr (lit ''ab''))]) JNull)
          else Some (chunk_payload (lit ''chatcmpl-safetyhub-'') 0 JNull (JDict []) (JStr (lit ''stop''))))
     (\<lambda>j. if j = chunk_payload (lit ''chatcmpl-safetyhub-'') 0 JNull
             (JDict [(lit ''content'', JStr (lit ''ab''))]) JNull then [49] else [50]) p"
    unfolding payloads using line by (simp add: event_codec_def chunk_payload_def)
  have "\<forall>c\<in>set (concat ex_events). c < 256"
    by (auto simp: ex_events_def stream_fake_chunks_def payloads sse_event_def lit_def)
  then have bytes: "map unat (encoded (\<lambda>c. [of_nat c :: 8 word]) t) = t" if "set t \<subseteq> set (concat ex_events)" for t
    using that by (induction t) (auto simp: encoded_def unat_of_nat)
  have "concat (map (\<lambda>c. [c]) s) = s" for s :: str by (induction s) simp_all
  from fake_stream_read_in_chunks [OF codec bytes [unfolded ex_events_def] this, of 200] payloads(2)
  show ?thesis by (simp add: ex_events_def)
qed

text \<open>C37. For a text that normalisation leaves as it is, and rules whose keywords are strings, the client's local
  matcher reports a rule exactly when the fail-closed engine with the same rules file blocks the text.\<close>

theorem forecast_is_verdict:
  assumes "rules_of (lit ''keyword_rules'') config = Inr krules" "rules_of (lit ''regex_rules'') config = Inr rrules"
    and "compile_rules compile rrules = Inr cs"
    and "engine_scan nz low \<lparr>eng_rules = krules, eng_regex = \<lparr>rx_rules = rrules, rx_compiled = cs\<rparr>, eng_fail_open = False\<rparr> t = Inr a"
    and "nz t = t" "\<forall>r\<in>set krules. string_keywords r"
    and "match_prompt compile low show config t = Inr hits"
  shows "hits \<noteq> [] \<longleftrightarrow> agg_blocked a"
  using assms by (rule forecast_agrees)

definition ex_config :: json where
  "ex_config = JDict [(lit ''keyword_rules'', JList [ex_keyword_rule]), (lit ''regex_rules'', JList [])]"

theorem forecast_is_verdict_witness:
  "\<exists>a hits. engine_scan id lower \<lparr>eng_rules = [ex_keyword_rule], eng_regex = \<lparr>rx_rules = [], rx_compiled = []\<rparr>, eng_fail_open = False\<rparr>
       ex_secret = Inr a \<and>
     match_prompt (\<lambda>_ _. None) lower (\<lambda>_. []) ex_config ex_secret = Inr hits \<and> hits \<noteq> [] \<and> agg_blocked a"
proof -
  let ?e = "\<lparr>eng_rules = [ex_keyword_rule], eng_regex = \<lparr>rx_rules = [], rx_compiled = []\<rparr>, eng_fail_open = False\<rparr>"
  have rules: "rules_of (lit ''keyword_rules'') ex_config = Inr [ex_keyword_rule]" "rules_of (lit ''regex_rules'') ex_config = Inr []"
    by code_simp+
  have compiled: "compile_rules (\<lambda>_ _. None) [] = Inr []" by simp
  have "case engine_scan id lower ?e ex_secret of Inr a \<Rightarrow> True | Inl _ \<Rightarrow> False" by code_simp
  then obtain a where a: "engine_scan id lower ?e ex_secret = Inr a" by (cases "engine_scan id lower ?e ex_secret") auto
  have "case match_prompt (\<lambda>_ _. None) lower (\<lambda>_. []) ex_config ex_secret of Inr hits \<Rightarrow> hits \<noteq> [] | Inl _ \<Rightarrow> False" by code_simp
  then obtain hits where hits: "match_prompt (\<lambda>_ _. None) lower (\<lambda>_. []) ex_config ex_secret = Inr hits" "hits \<noteq> []"
    by (cases "match_prompt (\<lambda>_ _. None) lower (\<lambda>_. []) ex_config ex_secret") auto
  have "\<forall>r\<in>set [ex_keyword_rule]. string_keywords r" by code_simp
  from forecast_is_verdict [OF rules compiled a id_apply this hits(1)] a hits show ?thesis by blast
qed

section \<open>Capturing and replaying\<close>





section \<open>The load test\<close>

text \<open>C30. With a positive step the search for the capacity ends: it runs the levels \<open>start\<close>, \<open>start + step\<close>, \<dots> one after the other,
  none above the maximum. It goes on to the last level within the maximum unless one is saturated: then it runs the next two
  that are within the maximum, and stops.\<close>

theorem capacity_search_ends:
  assumes "0 < step"
  shows "\<exists>m k. find_max_capacity run start maximum step = Some (ladder run start step (m + k)) \<and> k \<le> 3 \<and>
    (\<forall>i<m. \<not> cv_is_saturated (run i (start + int i * step))) \<and>
    (k > 0 \<longrightarrow> cv_is_saturated (run m (start + int m * step))) \<and>
    (\<forall>i<m + k. start + int i * step \<le> maximum) \<and>
    (k \<noteq> 3 \<longrightarrow> start + int (m + k) * step > maximum)"
  using capacity_search_returns [OF assms, of 0 run start maximum]
  by (auto simp: find_max_capacity_def ladder_def search_from_def)

text \<open>A server that is saturated from thirty concurrent requests on, and a maximum of sixty: the levels run are 10, 30
  and 50.\<close>

definition ex_load :: "nat \<Rightarrow> int \<Rightarrow> capacity_level" where
  "ex_load n c = level_of c 15 [plain_result 1 (if c < 30 then lit ''ok'' else lit ''rejected'') []]"

theorem capacity_search_ends_witness:
  "find_max_capacity ex_load 10 60 20 = Some (ladder ex_load 10 20 3)"
proof -
  obtain m k where mk: "find_max_capacity ex_load 10 60 20 = Some (ladder ex_load 10 20 (m + k))"
    "\<forall>i<m + k. 10 + int i * 20 \<le> 60" "k \<noteq> 3 \<longrightarrow> 10 + int (m + k) * 20 > 60"
    "\<forall>i<m. \<not> cv_is_saturated (ex_load i (10 + int i * 20))"
    using capacity_search_ends [of 20 ex_load 10 60] by auto
  have "\<not> cv_is_saturated (ex_load 0 10)" "cv_is_saturated (ex_load 1 30)" by code_simp+
  with mk(2,3) have "m + k = 3" by (cases "m + k \<le> 3") (auto dest: spec [of _ 3])
  with mk(1) show ?thesis by simp
qed

end
