(* ===== verification/Admin_Requests.thy ===== *)
theory Admin_Requests
  imports Admin_Reports
begin

text \<open>
  What stands between an HTTP request of the administration and the handlers: the request bodies and
  query parameters with their defaults and bounds (\<open>admin/schemas.py\<close> and the signatures in
  \<open>admin/router.py\<close>), the items the answers carry, the statistics behind their cache. The conversions
  pydantic makes of a JSON value are parameters; a value that does not convert or is out of bounds is
  answered with 422 before the handler runs.
\<close>

section \<open>Fields\<close>

record coercions =
  cv_int :: "json \<Rightarrow> int option"
  cv_bool :: "json \<Rightarrow> bool option"
  cv_time :: "json \<Rightarrow> int option"

definition invalid_request :: exn where
  "invalid_request = Http_Error 422 (lit ''Unprocessable Entity'')"

definition required :: "'a option \<Rightarrow> 'a res" where
  "required v = (case v of Some a \<Rightarrow> Inr a | None \<Rightarrow> Inl invalid_request)"

text \<open>A field that is absent has its default; \<open>None\<close> as the default says that it is required.\<close>

definition typed_field :: "(json \<Rightarrow> 'a option) \<Rightarrow> (str \<times> json) list \<Rightarrow> string \<Rightarrow> 'a option \<Rightarrow> 'a res" where
  "typed_field conv body name dflt =
     (case dict_get body (lit name) of None \<Rightarrow> required dflt | Some v \<Rightarrow> required (conv v))"

definition bounded :: "int \<Rightarrow> int \<Rightarrow> int \<Rightarrow> int res" where
  "bounded lo hi n = (if lo \<le> n \<and> n \<le> hi then Inr n else Inl invalid_request)"

fun as_str :: "json \<Rightarrow> str option" where
  "as_str (JStr s) = Some s"
| "as_str _ = None"

fun or_null :: "(json \<Rightarrow> 'a option) \<Rightarrow> json \<Rightarrow> 'a option option" where
  "or_null conv JNull = Some None"
| "or_null conv v = map_option Some (conv v)"

fun as_dict :: "json \<Rightarrow> (str \<times> json) list option" where
  "as_dict (JDict d) = Some d"
| "as_dict _ = None"

section \<open>Request bodies\<close>

text \<open>\<open>DataGovernanceCoverageRequest\<close>; the pause between batches is checked, and only delays the job.\<close>

definition coverage_request_of :: "coercions \<Rightarrow> (str \<times> json) list \<Rightarrow> (coverage_config \<times> int) res" where
  "coverage_request_of cv body =
     rbind (rbind (typed_field (cv_int cv) body ''max_seconds'' (Some 600)) (bounded 1 3600)) (\<lambda>max_seconds.
     rbind (rbind (typed_field (cv_int cv) body ''max_records'' (Some 5000)) (bounded 1 100000)) (\<lambda>max_records.
     rbind (rbind (typed_field (cv_int cv) body ''batch_size'' (Some 200)) (bounded 1 5000)) (\<lambda>batch_size.
     rbind (rbind (typed_field (cv_int cv) body ''batch_sleep_ms'' (Some 200)) (bounded 0 5000)) (\<lambda>batch_sleep_ms.
     Inr (\<lparr>co_max_seconds = max_seconds, co_max_records = max_records, co_batch_size = batch_size\<rparr>, batch_sleep_ms)))))"

definition cleanup_request_of :: "coercions \<Rightarrow> (str \<times> json) list \<Rightarrow> cleanup_request res" where
  "cleanup_request_of cv body =
     rbind (typed_field (cv_bool cv) body ''include_training_covered'' (Some False)) (\<lambda>covered.
     rbind (typed_field (cv_bool cv) body ''include_training_expired'' (Some True)) (\<lambda>expired.
     rbind (typed_field (cv_bool cv) body ''include_audit_expired'' (Some True)) (\<lambda>audit.
     rbind (rbind (typed_field (cv_int cv) body ''limit'' (Some 1000)) (bounded 1 10000)) (\<lambda>limit.
     Inr \<lparr>cq_include_training_covered = covered, cq_include_training_expired = expired,
          cq_include_audit_expired = audit, cq_limit = limit\<rparr>))))"

text \<open>\<open>ReportGenerateRequest\<close>: the pattern names the three types.\<close>

definition report_request_of :: "coercions \<Rightarrow> (str \<times> json) list \<Rightarrow> (str \<times> str \<times> bool) res" where
  "report_request_of cv body =
     rbind (typed_field as_str body ''report_type'' None) (\<lambda>report_type.
     rbind (if report_type \<in> {lit ''daily'', lit ''weekly'', lit ''monthly''} then Inr () else Inl invalid_request) (\<lambda>_.
     rbind (typed_field as_str body ''period'' None) (\<lambda>period.
     rbind (typed_field (cv_bool cv) body ''include_sensitive'' (Some False)) (\<lambda>include_sensitive.
     Inr (report_type, period, include_sensitive)))))"

text \<open>\<open>RuleToggleRequest\<close> and \<open>TrainingCaptureUpdateRequest\<close>.\<close>

definition enabled_request_of :: "coercions \<Rightarrow> (str \<times> json) list \<Rightarrow> bool res" where
  "enabled_request_of cv body = typed_field (cv_bool cv) body ''enabled'' None"

definition login_request_of :: "(str \<times> json) list \<Rightarrow> (str \<times> str) res" where
  "login_request_of body =
     rbind (typed_field as_str body ''username'' None) (\<lambda>u. rbind (typed_field as_str body ''password'' None) (\<lambda>p. Inr (u, p)))"

definition create_request_of :: "coercions \<Rightarrow> (str \<times> json) list \<Rightarrow> api_key_create res" where
  "create_request_of cv body =
     rbind (typed_field as_str body ''name'' None) (\<lambda>name.
     rbind (typed_field as_str body ''owner_user_id'' None) (\<lambda>owner_user_id.
     rbind (typed_field as_str body ''upstream_key'' (Some [])) (\<lambda>upstream_key.
     rbind (typed_field (cv_bool cv) body ''reuse_upstream_key'' (Some True)) (\<lambda>reuse.
     rbind (typed_field (or_null (cv_time cv)) body ''expires_at'' (Some None)) (\<lambda>expires_at.
     rbind (typed_field as_str body ''provider_name'' (Some (lit ''passthrough''))) (\<lambda>provider_name.
     rbind (typed_field (or_null as_str) body ''owner_department'' (Some None)) (\<lambda>department.
     rbind (typed_field (or_null as_str) body ''cost_center'' (Some None)) (\<lambda>cost_center.
     rbind (typed_field as_str body ''create_mode'' (Some (lit ''manual''))) (\<lambda>create_mode.
     rbind (typed_field (or_null as_dict) body ''metadata'' (Some None)) (\<lambda>meta.
     Inr \<lparr>ac_name = name, ac_owner_user_id = owner_user_id, ac_upstream_key = upstream_key,
          ac_reuse_upstream_key = reuse, ac_expires_at = expires_at, ac_provider_name = provider_name,
          ac_owner_department = department, ac_cost_center = cost_center, ac_create_mode = create_mode,
          ac_metadata = (case meta of Some d \<Rightarrow> d | None \<Rightarrow> [])\<rparr>))))))))))"

text \<open>\<open>model_dump(exclude_unset=True)\<close>: the fields the body names, in the order of the model; other keys
  are ignored.\<close>

definition set_field_of :: "(json \<Rightarrow> 'a option) \<Rightarrow> ('a option \<Rightarrow> field) \<Rightarrow> (str \<times> json) list \<Rightarrow> string \<Rightarrow> field list res" where
  "set_field_of conv mk body name =
     (case dict_get body (lit name) of
        None \<Rightarrow> Inr []
      | Some v \<Rightarrow> rbind (required (or_null conv v)) (\<lambda>x. Inr [mk x]))"

definition update_request_of :: "coercions \<Rightarrow> (str \<times> json) list \<Rightarrow> field list res" where
  "update_request_of cv body =
     rbind (set_field_of as_str F_name body ''name'') (\<lambda>a.
     rbind (set_field_of as_str F_owner_user_id body ''owner_user_id'') (\<lambda>b.
     rbind (set_field_of as_str F_owner_department body ''owner_department'') (\<lambda>c.
     rbind (set_field_of as_str F_cost_center body ''cost_center'') (\<lambda>d.
     rbind (set_field_of (cv_time cv) F_expires_at body ''expires_at'') (\<lambda>e.
     Inr (a @ b @ c @ d @ e))))))"

definition replace_request_of :: "(str \<times> json) list \<Rightarrow> str res" where
  "replace_request_of body = typed_field as_str body ''new_upstream_key'' None"

section \<open>Query parameters\<close>

text \<open>\<open>limit: int = Query(default, ge=1, le=maximum)\<close>, \<open>offset: int = Query(default=0, ge=0)\<close>; \<open>parse\<close> reads a number.\<close>

definition limit_param :: "(str \<Rightarrow> int option) \<Rightarrow> (str \<Rightarrow> str option) \<Rightarrow> int \<Rightarrow> int \<Rightarrow> int res" where
  "limit_param parse query dflt maximum =
     rbind (case query (lit ''limit'') of None \<Rightarrow> Inr dflt | Some s \<Rightarrow> required (parse s)) (bounded 1 maximum)"

definition offset_param :: "(str \<Rightarrow> int option) \<Rightarrow> (str \<Rightarrow> str option) \<Rightarrow> int res" where
  "offset_param parse query =
     rbind (case query (lit ''offset'') of None \<Rightarrow> Inr 0 | Some s \<Rightarrow> required (parse s))
       (\<lambda>n. if 0 \<le> n then Inr n else Inl invalid_request)"

section \<open>Checked handlers\<close>

text \<open>A body that is no JSON object is refused as well.\<close>

definition with_body :: "json option \<Rightarrow> ((str \<times> json) list \<Rightarrow> 'b res) \<Rightarrow> ('b \<Rightarrow> 's \<Rightarrow> 's \<times> 'a res) \<Rightarrow> 's \<Rightarrow> 's \<times> 'a res" where
  "with_body body read_request handler s =
     (case rbind (required (Option.bind body as_dict)) read_request of Inl e \<Rightarrow> (s, Inl e) | Inr r \<Rightarrow> handler r s)"

definition post_coverage_run ::
    "admin_env \<Rightarrow> coercions \<Rightarrow> str \<Rightarrow> json option \<Rightarrow> (gov_job + coverage_state \<times> str) handler" where
  "post_coverage_run env cv shown body =
     with_body body (coverage_request_of cv) (\<lambda>(cfg, sleep_ms). run_data_governance_coverage env shown cfg)"

definition post_cleanup :: "admin_env \<Rightarrow> coercions \<Rightarrow> str \<Rightarrow> json option \<Rightarrow> ((nat \<times> nat) \<times> nat) handler" where
  "post_cleanup env cv shown body = with_body body (cleanup_request_of cv) (run_data_governance_cleanup env shown)"

definition post_cleanup_preview :: "admin_env \<Rightarrow> coercions \<Rightarrow> json option \<Rightarrow> ((nat \<times> nat) \<times> nat) handler" where
  "post_cleanup_preview env cv body = with_body body (cleanup_request_of cv) (preview_data_governance_cleanup env)"

text \<open>PATCH and the POST variants run the same handler.\<close>

definition patch_rule :: "admin_env \<Rightarrow> coercions \<Rightarrow> str \<Rightarrow> json option \<Rightarrow> (rule_item \<times> bool) handler" where
  "patch_rule env cv rid body = with_body body (enabled_request_of cv) (toggle_rule env rid)"

definition put_training_capture :: "admin_env \<Rightarrow> coercions \<Rightarrow> json option \<Rightarrow> bool handler" where
  "put_training_capture env cv body = with_body body (enabled_request_of cv) (update_training_capture env)"

definition post_api_key :: "admin_env \<Rightarrow> coercions \<Rightarrow> json option \<Rightarrow> (key_item \<times> str option) handler" where
  "post_api_key env cv body = with_body body (create_request_of cv) (create_api_key env)"

definition patch_api_key :: "admin_env \<Rightarrow> coercions \<Rightarrow> str \<Rightarrow> json option \<Rightarrow> key_item handler" where
  "patch_api_key env cv api_key_id body = with_body body (update_request_of cv) (update_api_key env api_key_id)"

definition post_replace_upstream_key :: "admin_env \<Rightarrow> str \<Rightarrow> json option \<Rightarrow> key_item handler" where
  "post_replace_upstream_key env api_key_id body = with_body body replace_request_of (replace_api_upstream_key env api_key_id)"

definition get_recent_observations ::
    "admin_env \<Rightarrow> (str \<Rightarrow> int option) \<Rightarrow> (str \<Rightarrow> str option) \<Rightarrow> archive_detail list handler" where
  "get_recent_observations env parse query s =
     (case limit_param parse query 10 50 of Inl e \<Rightarrow> (s, Inl e) | Inr limit \<Rightarrow> recent_observations env limit s)"

section \<open>Items\<close>

record image_asset_item =
  ii_id :: int
  ii_request_id :: str
  ii_source_index :: nat
  ii_source_kind :: source_kind
  ii_source_url :: str
  ii_status :: str
  ii_local_path :: str
  ii_sha256 :: str
  ii_mime_type :: str
  ii_size_bytes :: nat
  ii_error :: str
  ii_created_at :: int
  ii_completed :: bool

definition image_asset_to_item :: "image_asset \<Rightarrow> image_asset_item" where
  "image_asset_to_item a =
     \<lparr>ii_id = ia_id a, ii_request_id = ia_request_id a, ii_source_index = ia_source_index a,
      ii_source_kind = ia_source_kind a, ii_source_url = ia_source_url a, ii_status = ia_status a,
      ii_local_path = ia_local_path a, ii_sha256 = ia_sha256 a, ii_mime_type = ia_mime_type a,
      ii_size_bytes = ia_size_bytes a, ii_error = ia_error a, ii_created_at = ia_created_at a,
      ii_completed = ia_completed a\<rparr>"

text \<open>An operation is shown as it is logged.\<close>

definition get_image_assets ::
    "admin_env \<Rightarrow> (str \<Rightarrow> int option) \<Rightarrow> (str \<Rightarrow> str option) \<Rightarrow> image_asset_item list handler" where
  "get_image_assets env parse query s =
     (case rbind (limit_param parse query 20 100) (\<lambda>l. rbind (offset_param parse query) (\<lambda>off. Inr (l, off))) of
        Inl e \<Rightarrow> (s, Inl e)
      | Inr (l, off) \<Rightarrow>
          (case list_image_assets env (query (lit ''request_id'')) l off s of
             (s', r) \<Rightarrow> (s', rbind r (\<lambda>assets. Inr (map image_asset_to_item assets)))))"

section \<open>The statistics behind their cache\<close>

text \<open>\<open>admin_stats\<close>: \<open>loaded\<close> is what \<open>_load_admin_stats\<close> would give, or the exception it would raise.\<close>

definition admin_stats_of ::
    "rat \<Rightarrow> rat \<Rightarrow> (admin_stats stats_cache \<Rightarrow> admin_stats stats_cache) \<Rightarrow> admin_stats res \<Rightarrow>
     admin_stats stats_cache option \<Rightarrow> admin_stats stats_cache option \<times> admin_stats res" where
  "admin_stats_of now1 now2 waited loaded cache =
     (case cache of
        Some c \<Rightarrow> (case get_or_set now1 now2 waited loaded c of (c', r) \<Rightarrow> (Some c', r))
      | None \<Rightarrow> (None, loaded))"

section \<open>Facts\<close>

lemma bounded_Inr [simp]: "bounded lo hi n = Inr m \<longleftrightarrow> m = n \<and> lo \<le> n \<and> n \<le> hi"
  by (auto simp: bounded_def)

lemma coverage_request_bounds:
  assumes "coverage_request_of cv body = Inr (cfg, sleep_ms)"
  shows "1 \<le> co_max_seconds cfg \<and> co_max_seconds cfg \<le> 3600 \<and> 1 \<le> co_max_records cfg \<and> co_max_records cfg \<le> 100000 \<and>
    1 \<le> co_batch_size cfg \<and> co_batch_size cfg \<le> 5000 \<and> 0 \<le> sleep_ms \<and> sleep_ms \<le> 5000"
  using assms by (auto simp: coverage_request_of_def rbind_eq_Inr)

lemma cleanup_request_bounds:
  "cleanup_request_of cv body = Inr q \<Longrightarrow> 1 \<le> cq_limit q \<and> cq_limit q \<le> 10000"
  by (auto simp: cleanup_request_of_def rbind_eq_Inr)

text \<open>A request that does not validate changes nothing and is answered with 422.\<close>

lemma required_error: "required v = Inl e \<Longrightarrow> e = invalid_request"
  by (simp add: required_def split: option.splits)

lemma typed_field_error: "typed_field conv body name dflt = Inl e \<Longrightarrow> e = invalid_request"
  by (auto simp: typed_field_def split: option.splits dest: required_error)

lemma bounded_error: "bounded lo hi n = Inl e \<Longrightarrow> e = invalid_request"
  by (simp add: bounded_def split: if_splits)

lemma request_errors:
  "coverage_request_of cv body = Inl e \<Longrightarrow> e = invalid_request"
  "cleanup_request_of cv body = Inl e \<Longrightarrow> e = invalid_request"
  "enabled_request_of cv body = Inl e \<Longrightarrow> e = invalid_request"
  "create_request_of cv body = Inl e \<Longrightarrow> e = invalid_request"
  "report_request_of cv body = Inl e \<Longrightarrow> e = invalid_request"
  by (auto simp: coverage_request_of_def cleanup_request_of_def enabled_request_of_def create_request_of_def
      report_request_of_def rbind_eq_Inl dest: typed_field_error bounded_error split: if_splits)

lemma with_body_refused:
  assumes "\<And>d e. read_request d = Inl e \<Longrightarrow> e = invalid_request"
    and "\<And>d. Option.bind body as_dict = Some d \<Longrightarrow> isl (read_request d)"
  shows "with_body body read_request handler s = (s, Inl invalid_request)"
proof (cases "Option.bind body as_dict")
  case None
  then show ?thesis by (simp add: with_body_def required_def)
next
  case (Some d)
  with assms(2) obtain e where "read_request d = Inl e" by (auto simp: isl_def)
  with assms(1) Some show ?thesis by (simp add: with_body_def required_def)
qed

text \<open>The limit that reaches the reader of observations is one of the handler's.\<close>

lemma limit_param_bounds: "limit_param parse query dflt maximum = Inr n \<Longrightarrow> 1 \<le> n \<and> n \<le> maximum"
  by (auto simp: limit_param_def rbind_eq_Inr)

text \<open>An update that names no field of the model is refused, whatever else it says.\<close>

lemma set_field_of_absent: "dict_get body (lit name) = None \<Longrightarrow> set_field_of conv mk body name = Inr []"
  by (simp add: set_field_of_def)

lemma update_without_fields:
  assumes "\<forall>n\<in>{''name'', ''owner_user_id'', ''owner_department'', ''cost_center'', ''expires_at''}. dict_get d (lit n) = None"
  shows "patch_api_key env cv api_key_id (Some (JDict d)) s = (s, Inl (Http_Error 400 (lit ''No editable fields provided'')))"
proof -
  from assms have "update_request_of cv d = Inr []" by (simp add: update_request_of_def set_field_of_absent)
  then show ?thesis by (simp add: patch_api_key_def with_body_def required_def update_api_key_def)
qed

text \<open>What the statistics answer was true at most the time to live ago.\<close>

lemma admin_stats_fresh:
  assumes "cache_holds hist now1 c" "cache_holds hist now2 (waited c)" "ch_ttl (waited c) = ch_ttl c" "now1 \<le> now2" "0 \<le> ch_ttl c"
    and "admin_stats_of now1 now2 waited (Inr (hist now2)) (Some c) = (c', Inr v)"
  shows "\<exists>s\<le>now2. v = hist s \<and> now1 \<le> s + ch_ttl c"
proof -
  obtain c1 r where run: "get_or_set now1 now2 waited (Inr (hist now2)) c = (c1, r)" by fastforce
  with assms(6) have "r = Inr v" by (simp add: admin_stats_of_def)
  with get_or_set_fresh [of hist now1 c now2 waited c1 v] assms(1-5) run show ?thesis by blast
qed

end
