(* ===== verification/Verify_Loop.thy ===== *)
theory Verify_Loop
  imports Verify_Client
begin

text \<open>
  The prompt loop of the verification clients and the listing of the rules they print. The lines typed are
  a list, whose end is the end of the input; fixed Chinese texts are left out of the lines printed.
\<close>

section \<open>The listing\<close>

text \<open>Without rules a fixed line is printed instead, here \<open>None\<close>.\<close>

definition keyword_line :: "(json \<Rightarrow> str) \<Rightarrow> json \<Rightarrow> str res" where
  "keyword_line show rule =
     rbind (rule_get rule (lit ''keywords'') (JList [])) (\<lambda>kws.
     rbind (iter_json kws) (\<lambda>ks.
     rbind (hit_line show rule None) (\<lambda>l.
     Inr (l @ lit '': '' @ join [12289] (map (text_of show) ks)))))"

definition regex_line :: "(json \<Rightarrow> str) \<Rightarrow> json \<Rightarrow> str res" where
  "regex_line show rule =
     rbind (rule_get rule (lit ''description'') JNull) (\<lambda>d.
     rbind (rule_get rule (lit ''pattern'') (JStr [])) (\<lambda>p.
     rbind (hit_line show rule None) (\<lambda>l. Inr (l @ lit '': '' @ text_of show (if_falsy d p)))))"

definition lines_or_none :: "(json \<Rightarrow> str res) \<Rightarrow> json list \<Rightarrow> str list option res" where
  "lines_or_none f rules = (if rules = [] then Inr None else rbind (rmap f rules) (\<lambda>ls. Inr (Some ls)))"

definition print_block_rules :: "(json \<Rightarrow> str) \<Rightarrow> json \<Rightarrow> (str list option \<times> str list option) res" where
  "print_block_rules show config =
     rbind (enabled_block_rules (lit ''keyword_rules'') config) (\<lambda>keyword_rules.
     rbind (enabled_block_rules (lit ''regex_rules'') config) (\<lambda>regex_rules.
     rbind (lines_or_none (keyword_line show) keyword_rules) (\<lambda>k.
     rbind (lines_or_none (regex_line show) regex_rules) (\<lambda>r. Inr (k, r)))))"

text \<open>\<open>print_limited_text\<close>: the text, or its beginning and its length.\<close>

definition limited_text :: "nat \<Rightarrow> str \<Rightarrow> str \<times> nat option" where
  "limited_text limit t = (if length t \<le> limit then (t, None) else (take limit t, Some (length t)))"

section \<open>The loop\<close>

definition ask_prompt :: "(str \<Rightarrow> str) \<Rightarrow> str option \<Rightarrow> str option" where
  "ask_prompt low line =
     (case line of
        None \<Rightarrow> None
      | Some l \<Rightarrow>
          (let prompt = strip l in
           if low prompt \<in> {lit ''exit'', lit ''quit'', lit ''q''} then None else Some prompt))"

text \<open>What sending a prompt came to: an answer was read, the HTTP client failed, another exception.\<close>

datatype sending = Answered_Prompt bool | Http_Failed | Broke exn

datatype loop_event = Left | Skipped_Empty | Forecast_Shown "str list" | Asked str sending

text \<open>\<open>before_send\<close> is the local check, when there is one. \<open>run_interactive_loop\<close> returns 0 when it ends.\<close>

fun interactive_loop ::
    "(str \<Rightarrow> str) \<Rightarrow> (str \<Rightarrow> str list res) option \<Rightarrow> (str \<Rightarrow> sending) \<Rightarrow> str list \<Rightarrow> loop_event list \<times> nat res" where
  "interactive_loop low before_send send [] = ([Left], Inr 0)"
| "interactive_loop low before_send send (line # ls) =
     (case ask_prompt low (Some line) of
        None \<Rightarrow> ([Left], Inr 0)
      | Some prompt \<Rightarrow>
          if prompt = [] then (case interactive_loop low before_send send ls of (es, r) \<Rightarrow> (Skipped_Empty # es, r))
          else (case (case before_send of None \<Rightarrow> Inr [] | Some f \<Rightarrow> rbind (f prompt) (\<lambda>h. Inr [Forecast_Shown h])) of
              Inl e \<Rightarrow> ([], Inl e)
            | Inr shown \<Rightarrow>
                (case send prompt of
                   Broke e \<Rightarrow> (shown @ [Asked prompt (Broke e)], Inl e)
                 | outcome \<Rightarrow>
                     (case interactive_loop low before_send send ls of
                        (es, r) \<Rightarrow> (shown @ Asked prompt outcome # es, r)))))"

section \<open>Facts\<close>

text \<open>The prompts that are sent: the lines up to the first that asks to leave, stripped, without the empty ones.\<close>

definition prompts_of :: "(str \<Rightarrow> str) \<Rightarrow> str list \<Rightarrow> str list" where
  "prompts_of low ls =
     filter (\<lambda>p. p \<noteq> []) (takeWhile (\<lambda>p. low p \<notin> {lit ''exit'', lit ''quit'', lit ''q''}) (map strip ls))"

definition asked :: "loop_event list \<Rightarrow> str list" where
  "asked es = concat (map (\<lambda>e. case e of Asked p _ \<Rightarrow> [p] | _ \<Rightarrow> []) es)"

lemma asked_simps [simp]:
  "asked [] = []" "asked (Left # es) = asked es" "asked (Skipped_Empty # es) = asked es"
  "asked (Forecast_Shown h # es) = asked es" "asked (Asked p x # es) = p # asked es"
  by (simp_all add: asked_def)

lemma interactive_loop_asks:
  assumes "\<And>f p. before_send = Some f \<Longrightarrow> \<exists>h. f p = Inr h" "\<And>p e. send p \<noteq> Broke e"
  shows "\<exists>es. interactive_loop low before_send send ls = (es, Inr 0) \<and> asked es = prompts_of low ls"
proof (induction ls)
  case Nil
  show ?case by (simp add: prompts_of_def)
next
  case (Cons line ls)
  then obtain es where es: "interactive_loop low before_send send ls = (es, Inr 0)" "asked es = prompts_of low ls" by blast
  let ?p = "strip line"
  show ?case
  proof (cases "low ?p \<in> {lit ''exit'', lit ''quit'', lit ''q''}")
    case True
    then show ?thesis by (auto simp: ask_prompt_def prompts_of_def)
  next
    case False
    then have prompts: "prompts_of low (line # ls) = (if ?p = [] then prompts_of low ls else ?p # prompts_of low ls)"
      by (simp add: prompts_of_def)
    have ask: "ask_prompt low (Some line) = Some ?p" using False by (simp add: ask_prompt_def Let_def)
    from assms(1) obtain shown where "(case before_send of None \<Rightarrow> Inr [] | Some f \<Rightarrow> rbind (f ?p) (\<lambda>h. Inr [Forecast_Shown h])) = Inr shown"
      "asked (shown @ es') = asked es'" for es'
    proof (cases before_send)
      case None
      with that show thesis by simp
    next
      case (Some f)
      with assms(1) obtain h where "f ?p = Inr h" by blast
      with Some that show thesis by simp
    qed
    with es assms(2) [of ?p] ask prompts show ?thesis by (cases "send ?p") auto
  qed
qed

end
