(* ===== verification/Spec2Isabelle.thy ===== *)
theory Spec2Isabelle
  imports Operations Report_Properties Script_Properties Admin_Requests Verify_Loop
begin

text \<open>
  NF-SafetyHub is a relay between the clients of a company and an OpenAI-compatible upstream. It
  authenticates a request by its SafetyHub key, limits how many run at a time, scans chat requests
  for forbidden text, masks phone numbers, forwards the request with the key's upstream secret, streams
  the answer back, and records audits and training conversations through a queue. An administration
  manages keys, rules, retention and reports. This development models that program part by part;
  the properties C1 to C40 are here, in Operations, in Report_Properties and in Script_Properties, each with a
  witness where it has hypotheses.

  \<^bold>\<open>Theories and the code they model.\<close>
  \<^item> Prelude, Json, Table, Paths, Calendar: Python's strings, dictionaries, exceptions as values (\<open>'a res\<close>),
    JSON values, database tables as lists of rows, paths, dates. Regex: the regular expressions of the rules.
  \<^item> Engine: \<open>engine/\<close>, the normaliser, the keyword and regex scanners, the orchestrator.
  \<^item> Desensitize, Phone_Safety: the masking in \<open>proxy/relay.py\<close> and why no phone number survives it.
  \<^item> Headers: \<open>proxy/header_policy.py\<close>. Stream: \<open>proxy/stream.py\<close>, \<open>proxy/fake_response.py\<close>.
  \<^item> Relay, Relay_Safety: the handler \<open>relay_openai_compatible\<close> with all its calls, and what it relays.
  \<^item> Api_Keys, Identity, Key_Provider: \<open>governance/api_keys.py\<close>, \<open>middleware/identity.py\<close>,
    \<open>governance/key_provider.py\<close> and \<open>governance/providers/\<close>.
  \<^item> Concurrency: \<open>middleware/concurrency_limit.py\<close>. Archive_Queue: \<open>runtime/archive_queue.py\<close>, the queue, the
    worker task with the test of its loop, and its start and stop.
  \<^item> Audit_Log, Training, Governance, Image_Assets: the services of \<open>storage/\<close>.
  \<^item> Runtime_State: \<open>storage/runtime_settings.py\<close>, \<open>runtime/admin_cache.py\<close>, \<open>middleware/request_limit.py\<close>,
    \<open>observability/\<close>.
  \<^item> Report_Period, Reports, Report_Files, Report_Service: \<open>storage/reports.py\<close>, \<open>reports/generator.py\<close>,
    \<open>runtime/reports.py\<close>.
  \<^item> Auth, Admin_Rules, Admin_Router, Admin_Reports: \<open>middleware/auth.py\<close>, \<open>admin/router.py\<close>,
    \<open>storage/admin_ops.py\<close>. Admin_Requests: the request bodies of \<open>admin/schemas.py\<close> with their defaults and bounds,
    before the handlers.
  \<^item> Database: \<open>storage/database.py\<close>, over locales of what it needs of the engine: what statements do, what SQLite
    refuses, and that nothing else is refused; with an in-memory engine that interprets them.
  \<^item> Startup: \<open>config.py\<close>, \<open>main.py\<close>: settings, the production check, the start, the middlewares in order.
  \<^item> Archive_Refinement: the archive worker with its services against \<open>spec_write\<close>, which says what a batch
    adds to two lists of rows.
  \<^item> Legacy_Crypto, Key_Migration, Key_Import: \<open>scripts/migrate_apikeys_to_fernet.py\<close> with the sealed format of
    older versions, \<open>scripts/import_yxai_keys.py\<close>. Table_Copy: \<open>scripts/migrate_sqlite_to_postgres.py\<close> and
    \<open>scripts/verify_postgres_migration.py\<close>. Capture: \<open>scripts/capture_openai_requests.py\<close> and
    \<open>scripts/replay_captured_requests.py\<close>. Capacity: \<open>scripts/hardware_capacity_test.py\<close>.
  \<^item> Verify_Client, Verify_Loop, Forecast: the clients of \<open>verify/\<close>, and why their forecast of what is blocked agrees
    with the engine.
  \<^item> Example: concrete values for the witnesses. Operations: the properties of a running application.
    Report_Properties: those of the reports. Script_Properties: those of the scripts and of the clients.

  \<^bold>\<open>How the model corresponds to the code.\<close> A Python class with state is a record, and each method a function
  from the state to the state and a result; an exception is the left of a sum, so every \<open>raise\<close> is a branch.
  Code that runs between two \<open>await\<close>s is one step; where several tasks interleave (the limiter, the queue,
  the table of reports) the steps are an inductive relation and invariants hold in every reachable state. A
  \<open>datetime\<close> is a number of microseconds, a \<open>float\<close> the rational it denotes. Loops recurse on data, on a measure
  (coverage analysis, the legacy keystream), or are partial functions with a theorem that they return (listing
  remote keys, copying a table, the capacity search).

  \<^bold>\<open>Parameters.\<close> Third-party code and the outside world are arguments: the HTTP client and the upstream, DNS, the
  file system, cryptography (Fernet, HMAC, SHA-256), random tokens, the clock, \<open>json.loads\<close> and \<open>json.dumps\<close>,
  Unicode lower-casing and HTML unescaping, whether a database commit succeeds. What a property needs of
  them (decryption inverts encryption) is a named hypothesis, and its witness gives a function that meets it.

  \<^bold>\<open>Not modelled.\<close> The administration's static pages, the drawing of PDF, XLSX and CSV files, the response
  objects of the framework and the schemas that only wrap a value, the order of the shutdown, argument parsing
  and fixed printed texts of the scripts, the workers of the load test, \<open>scripts/init_db.py\<close> (it calls
  \<open>init_db\<close>), the copies of the streaming client's helpers in the other client: they call libraries and keep no state of the program's own.
\<close>

section \<open>Chat requests\<close>

text \<open>C1. Whatever a chat completion sends upstream, re-serialised body or the client's own bytes:
  no text of a user, tool or function message carries a mainland mobile number, when the
  desensitising rules are the shipped phone rules.\<close>

theorem chat_messages_phone_free:
  assumes "chat_path up" "app_engine st = Some e" "phone_rules e"
    and "relay_openai_compatible lb st us rq up w = (w', r)" "relays w w' r ur"
    and "payload_json lb (up_payload ur) = Some j"
  shows "phone_free_body j"
  using assms(1,4,5,6)
proof (rule relay_openai_chat)
  fix raw b e' a b' t
  assume *: "lb_request_json lb raw = Some (JDict b)" "app_engine st = Some e'" "\<not> agg_blocked a"
    "desensitize_chat_request_body (Some (engine_desensitizers e')) b = Inr b'"
    "ur = upstream_request_of lb st rq CHAT_COMPLETIONS_PATH (JDict b') raw (streams (JDict b))
       (action_from_scan_result (Some a) (\<not> py_eq (JDict b') (JDict b)))
       (require_request_identity (rq_identity rq))"
  then show ?thesis
    using select_payload_free [of e b b' lb raw _ a j] assms(2,3,6) by simp
qed

theorem chat_messages_phone_free_witness:
  "phone_free_body (JDict (ex_body ex_masked))"
  by (rule chat_messages_phone_free [OF ex_chat_path ex_app_engine ex_phone_rules ex_run_eq ex_relays ex_payload])

text \<open>C2. A chat completion that carries JSON upstream was a JSON object with text to scan; the
  scanner ran on its latest user, tool or function message and found nothing to block.\<close>

theorem chat_scanned_before_relay:
  assumes "chat_path up" "relay_openai_compatible lb st us rq up w = (w', r)" "relays w w' r ur"
    and "payload_json lb (up_payload ur) = Some j"
  shows "\<exists>raw b e a t. rq_body rq = Body raw \<and> lb_request_json lb raw = Some (JDict b) \<and>
    app_engine st = Some e \<and> extract_latest_text_from_request CHAT_COMPLETIONS_PATH (JDict b) = Inr t \<and>
    t \<noteq> [] \<and> scan_of lb e t = Inr a \<and> \<not> agg_blocked a"
  by (rule relay_openai_chat [OF assms]) blast

theorem chat_scanned_before_relay_witness:
  "\<exists>raw b e a t. rq_body (ex_request [1]) = Body raw \<and> lb_request_json ex_libs raw = Some (JDict b) \<and>
    app_engine ex_app = Some e \<and>
    extract_latest_text_from_request CHAT_COMPLETIONS_PATH (JDict b) = Inr t \<and>
    t \<noteq> [] \<and> scan_of ex_libs e t = Inr a \<and> \<not> agg_blocked a"
  by (rule chat_scanned_before_relay [OF ex_chat_path ex_run_eq ex_relays ex_payload])

text \<open>C3. A chat request whose latest text is blocked is answered by the relay itself, with the
  blocking template, as one response or as a stream, and nothing is sent upstream.\<close>

theorem blocked_chat_answered_locally:
  assumes "chat_path up" "read_request_body lb rq CHAT_COMPLETIONS_PATH = Inr (JDict b, raw)"
    and "extract_latest_text_from_request CHAT_COMPLETIONS_PATH (JDict b) = Inr t" "t \<noteq> []"
    and "app_engine st = Some e" "scan_of lb e t = Inr a" "agg_blocked a"
  shows "\<exists>w'. upstream_calls w' = upstream_calls w \<and>
    relay_openai_compatible lb st us rq up w = (w', Inr (Fake_Answer
      (let model = get_or b (lit ''model'') (JStr (lit ''gpt-3.5-turbo'')) in
       if streams (JDict b)
         then Fake_Stream (stream_fake_chunks (lb_dumps lb) (lb_fake_hex8 lb) (lb_now lb) TEMPLATE_BLOCK model)
         else Fake_Json (build_non_stream_response (lb_fake_hex8 lb) (lb_now lb) TEMPLATE_BLOCK model))))"
  using relay_chat_blocked [OF assms(3-7), of us rq raw "streams (JDict b)"
      "require_request_identity (rq_identity rq)" w] generate_blocked [OF assms(7)]
  by (auto simp: relay_chat_path [OF assms(1)] assms(2) Let_def)

theorem blocked_chat_answered_locally_witness:
  "\<exists>w'. upstream_calls w' = upstream_calls ex_world \<and>
    relay_openai_compatible ex_libs ex_app ex_upstream (ex_request [2]) ex_up ex_world = (w', Inr (Fake_Answer
      (let model = get_or (ex_body ex_secret) (lit ''model'') (JStr (lit ''gpt-3.5-turbo'')) in
       if streams (JDict (ex_body ex_secret))
         then Fake_Stream (stream_fake_chunks (lb_dumps ex_libs) (lb_fake_hex8 ex_libs) (lb_now ex_libs) TEMPLATE_BLOCK model)
         else Fake_Json (build_non_stream_response (lb_fake_hex8 ex_libs) (lb_now ex_libs) TEMPLATE_BLOCK model))))"
proof -
  have "ex_secret \<noteq> []" by (simp add: ex_secret_def)
  moreover obtain a where "scan_of ex_libs ex_engine ex_secret = Inr a" "agg_blocked a"
    by (rule ex_secret_blocked)
  ultimately show ?thesis
    by (rule blocked_chat_answered_locally [OF ex_chat_path ex_read(1) ex_secret_text _ ex_app_engine])
qed

text \<open>C7. With fail-closed scanners a scan that succeeds blocks every text in which, after
  normalisation, a keyword of an enabled block-level rule occurs.\<close>

theorem keyword_rule_blocks:
  assumes "\<not> eng_fail_open e" "scan_of lb e t = Inr a" "JDict d \<in> set (eng_rules e)"
    and "blocking_rule (lb_lower lb) (normalize (lb_unquote lb) (lb_unescape lb) (lb_nfkc lb) t) d"
  shows "agg_blocked a \<and> action_of a = Blocked"
  using engine_scan_blocks [OF assms(1) assms(2) [unfolded scan_of_def] assms(3,4)] by simp

theorem keyword_rule_blocks_witness:
  "\<exists>a. scan_of ex_libs ex_engine ex_secret = Inr a \<and> agg_blocked a \<and> action_of a = Blocked"
proof -
  obtain a where a: "scan_of ex_libs ex_engine ex_secret = Inr a" by (rule ex_secret_blocked)
  have low: "lower ex_secret = ex_secret" by code_simp
  have "normalize id id id ex_secret = ex_secret" by code_simp
  moreover have "contains ex_secret (lit ''secret'')" by code_simp
  moreover have "lower (lit ''secret'') = lit ''secret''" by code_simp
  ultimately have "blocking_rule (lb_lower ex_libs)
      (normalize (lb_unquote ex_libs) (lb_unescape ex_libs) (lb_nfkc ex_libs) ex_secret)
      [(lit ''id'', JStr (lit ''K1'')), (lit ''level'', JStr (lit ''block'')),
       (lit ''keywords'', JList [JStr (lit ''secret'')])]"
    by (auto simp: blocking_rule_def ex_libs_def get_or_def contains_mode_def low
        intro!: exI [of _ "[lit ''secret'']"])
  then have "agg_blocked a \<and> action_of a = Blocked"
    by (intro keyword_rule_blocks [OF _ a]) (simp_all add: ex_engine_def ex_keyword_rule_def)
  with a show ?thesis by blast
qed

text \<open>C12. A scanner that raises while the engine is fail-closed: the chat request ends with
  \<open>ScannerUnavailableError\<close> and nothing is sent, written or changed.\<close>

theorem scanner_failure_closes:
  assumes "chat_path up" "read_request_body lb rq CHAT_COMPLETIONS_PATH = Inr (JDict b, raw)"
    and "extract_latest_text_from_request CHAT_COMPLETIONS_PATH (JDict b) = Inr t" "t \<noteq> []"
    and "app_engine st = Some e" "\<not> eng_fail_open e"
    and "keyword_scan (lb_lower lb) (eng_rules e)
           (normalize (lb_unquote lb) (lb_unescape lb) (lb_nfkc lb) t) = Inl x"
  shows "relay_openai_compatible lb st us rq up w =
    (w, Inl (Scanner_Unavailable (lit ''scanner keyword failed'')))"
proof -
  have "scan_of lb e t = Inl (Scanner_Unavailable (lit ''scanner keyword failed''))"
    unfolding scan_of_def using assms(6,7) by (rule engine_scan_closed)
  from relay_chat_scan_error [OF assms(3-5) this] show ?thesis
    by (simp add: relay_chat_path [OF assms(1)] assms(2))
qed

theorem scanner_failure_closes_witness:
  "relay_openai_compatible ex_libs (ex_app\<lparr>app_engine := Some (ex_engine\<lparr>eng_rules := [JNull]\<rparr>)\<rparr>)
     ex_upstream (ex_request [2]) ex_up ex_world =
   (ex_world, Inl (Scanner_Unavailable (lit ''scanner keyword failed'')))"
  by (rule scanner_failure_closes [where e = "ex_engine\<lparr>eng_rules := [JNull]\<rparr>" and x = Attribute_Error,
        OF ex_chat_path ex_read(1) ex_secret_text]) (simp_all add: ex_secret_def ex_engine_def ex_app_def keyword_scan_def)

text \<open>C39. A chat request with a JSON object but no text to scan (every user, tool and function
  message empty or absent) raises \<open>UnboundLocalError\<close>: the handler uses \<open>scanner\<close>, which only
  the other branch binds.\<close>

theorem textless_chat_raises:
  assumes "chat_path up" "read_request_body lb rq CHAT_COMPLETIONS_PATH = Inr (JDict b, raw)"
    and "extract_latest_text_from_request CHAT_COMPLETIONS_PATH (JDict b) = Inr []"
  shows "relay_openai_compatible lb st us rq up w = (w, Inl (Unbound_Local (lit ''scanner'')))"
  using inspect_unbound [OF assms(3)]
  by (simp add: relay_chat_path [OF assms(1)] assms(2) relay_chat_def)

theorem textless_chat_raises_witness:
  "relay_openai_compatible ex_libs ex_app ex_upstream (ex_request [3]) ex_up ex_world =
   (ex_world, Inl (Unbound_Local (lit ''scanner'')))"
  by (rule textless_chat_raises [OF ex_chat_path ex_read(2) ex_empty_text])

section \<open>Forwarding\<close>

text \<open>What must not reach the upstream, written down apart from the code: the hop-by-hop headers, those
  that describe the client's connection or its session, and the application's own.\<close>

definition withheld :: "str \<Rightarrow> bool" where
  "withheld n \<longleftrightarrow>
     lower n \<in> {lit ''connection'', lit ''keep-alive'', lit ''proxy-authenticate'', lit ''proxy-authorization'',
       lit ''te'', lit ''trailer'', lit ''transfer-encoding'', lit ''upgrade'', lit ''host'', lit ''cookie'',
       lit ''content-length'', lit ''x-forwarded-for'', lit ''x-forwarded-host'', lit ''x-forwarded-proto'',
       lit ''x-real-ip''} \<or>
     startswith (lower n) (lit ''x-safetyhub-'') \<or> startswith (lower n) (lit ''x-admin-'') \<or>
     startswith (lower n) (lit ''x-internal-'')"

lemma should_strip_withheld: "should_strip [] (lower n) \<longleftrightarrow> withheld n"
  by (simp add: should_strip_def withheld_def HOP_BY_HOP_HEADERS_def BLOCKED_HEADERS_def
      INTERNAL_HEADER_PREFIXES_def)

text \<open>C8. With an upstream key, the upstream sees it as the only \<open>Authorization\<close>; no hop-by-hop, host,
  cookie, length, forwarding or internal header of the client reaches it, every other client header
  but its \<open>authorization\<close> does, and nothing else is sent but the request's id.\<close>

theorem upstream_headers_policy:
  assumes "hs = build_upstream_headers client rid (Some k)"
  shows "dict_get hs (lit ''Authorization'') = Some (lit ''Bearer '' @ k) \<and>
    (\<forall>n\<in>dict_keys hs. lower n = lit ''authorization'' \<longrightarrow> n = lit ''Authorization'') \<and>
    (\<forall>n\<in>dict_keys hs. \<not> withheld n) \<and>
    (\<forall>n v. (n, v) \<in> set client \<and> \<not> withheld n \<and> lower n \<noteq> lit ''authorization'' \<longrightarrow> n \<in> dict_keys hs) \<and>
    (\<forall>n v. dict_get hs n = Some v \<longrightarrow>
       n = lit ''Authorization'' \<or> n = lit ''X-Request-ID'' \<or> (n, v) \<in> set client)"
proof -
  let ?h1 = "copy_headers [] (Some k) client []"
  let ?h2 = "dict_set ?h1 (lit ''Authorization'') (lit ''Bearer '' @ k)"
  have hs: "hs = ?h2 \<or> (\<exists>r. hs = dict_set ?h2 (lit ''X-Request-ID'') r)"
    using assms by (auto simp: build_upstream_headers_def policy_build_upstream_headers_def Let_def
        split: option.splits if_splits)
  have copied: "\<not> withheld n \<and> lower n \<noteq> lit ''authorization''" if "n \<in> dict_keys ?h1" for n
    using copy_headers_keys [OF that] by (simp add: dict_keys_def should_strip_withheld)
  have own: "lower (lit ''Authorization'') = lit ''authorization''" "lower (lit ''X-Request-ID'') = lit ''x-request-id''"
    "\<not> withheld (lit ''Authorization'')" "\<not> withheld (lit ''X-Request-ID'')"
    by code_simp+
  have keys: "dict_keys ?h1 \<subseteq> dict_keys hs" "dict_keys hs \<subseteq> {lit ''Authorization'', lit ''X-Request-ID''} \<union> dict_keys ?h1"
    using hs by auto
  have "dict_get hs (lit ''Authorization'') = Some (lit ''Bearer '' @ k)"
    using hs by auto
  moreover have "\<forall>n v. (n, v) \<in> set client \<and> \<not> withheld n \<and> lower n \<noteq> lit ''authorization'' \<longrightarrow> n \<in> dict_keys hs"
    using keys(1) copy_headers_kept [of _ _ client "[]" "Some k" "[]"] by (auto simp: should_strip_withheld)
  moreover have "\<forall>n v. dict_get hs n = Some v \<longrightarrow>
      n = lit ''Authorization'' \<or> n = lit ''X-Request-ID'' \<or> (n, v) \<in> set client"
    using hs copy_headers_value [of "[]" "Some k" client "[]"] by (auto split: if_splits)
  ultimately show ?thesis using keys(2) copied own by fastforce
qed

theorem upstream_headers_policy_witness:
  "dict_get (build_upstream_headers [(lit ''cookie'', []), (lit ''authorization'', lit ''x''), (lit ''accept'', lit ''y'')]
       None (Some (lit ''k''))) (lit ''Authorization'') = Some (lit ''Bearer '' @ lit ''k'') \<and>
   lit ''accept'' \<in> dict_keys (build_upstream_headers
       [(lit ''cookie'', []), (lit ''authorization'', lit ''x''), (lit ''accept'', lit ''y'')] None (Some (lit ''k''))) \<and>
   lit ''cookie'' \<notin> dict_keys (build_upstream_headers
       [(lit ''cookie'', []), (lit ''authorization'', lit ''x''), (lit ''accept'', lit ''y'')] None (Some (lit ''k'')))"
proof -
  have "withheld (lit ''cookie'')" "\<not> withheld (lit ''accept'')" "lower (lit ''accept'') \<noteq> lit ''authorization''"
    by code_simp+
  with upstream_headers_policy [OF refl, of "[(lit ''cookie'', []), (lit ''authorization'', lit ''x''), (lit ''accept'', lit ''y'')]"
      None "lit ''k''"] show ?thesis by auto
qed

text \<open>C23. The archive of a streamed chat completion holds the longest prefix of the bytes the
  client received that fits the limit, and says whether more was sent. It goes into the archive queue
  while that has room, else to a write of its own. This is for a client that took at least one chunk
  (a generator that is never started archives nothing), a JSON object as request, and captures on.\<close>

theorem stream_archive_is_prefix:
  assumes "run_stream lb st us rq job n w = (w', sent, x)" "n > 0" "sj_archive job = Some ax"
    and "ax_original_body ax = JDict b" "app_capture_enabled st"
  shows "\<exists>p. (if queue_has_room w then queued w' = queued w @ [Archive_Item p]
      else app_training_writer st \<longrightarrow> Write_Task (Archive_Item p) \<in> set (wd_effects w')) \<and>
    (let m = nat (max 1 (app_stream_archive_max_bytes st)) in
     json_get (ar_response p) (lit ''content'') JNull = JStr (lb_decode lb (take m (concat sent))) \<and>
     json_get (ar_response p) (lit ''truncated'') JNull = JBool (length (concat sent) > m))"
proof -
  from run_stream_archive [OF assms] obtain p where p: "if queue_has_room w then queued w' = queued w @ [Archive_Item p]
      else app_training_writer st \<longrightarrow> Write_Task (Archive_Item p) \<in> set (wd_effects w')"
    "ar_response p = collector_payload (lb_decode lb) (lb_loads lb)
      (collect_all (app_stream_archive_max_bytes st) sent)" by blast
  then show ?thesis
    using collector_of_collect_all [of "app_stream_archive_max_bytes st" sent]
    by (intro exI [of _ p]) (simp add: collector_payload_content collector_of_def Let_def)
qed

theorem stream_archive_is_prefix_witness:
  "\<exists>w' sent x p. run_stream ex_libs ex_app ex_upstream (ex_request [1])
     \<lparr>sj_request = ex_upstream_request, sj_client_owner = False,
      sj_archive = Some \<lparr>ax_original_body = JDict [], ax_archive_body = JDict [], ax_scan_result = None,
        ax_action_taken = lit ''passed'', ax_identity = anonymous\<rparr>\<rparr> 2
     (ex_world\<lparr>wd_queue := Some (rn_queue ex_idle)\<rparr>) = (w', sent, x) \<and>
    sent = [[65], [66]] \<and> queued w' = [Archive_Item p] \<and>
    json_get (ar_response p) (lit ''content'') JNull = JStr (lb_decode ex_libs (take 100 (concat sent)))"
proof -
  let ?job = "\<lparr>sj_request = ex_upstream_request, sj_client_owner = False,
      sj_archive = Some \<lparr>ax_original_body = JDict [], ax_archive_body = JDict [], ax_scan_result = None,
        ax_action_taken = lit ''passed'', ax_identity = anonymous\<rparr>\<rparr>"
  let ?w = "ex_world\<lparr>wd_queue := Some (rn_queue ex_idle)\<rparr>"
  obtain w' sent x where run: "run_stream ex_libs ex_app ex_upstream (ex_request [1]) ?job 2 ?w = (w', sent, x)"
    by (cases "run_stream ex_libs ex_app ex_upstream (ex_request [1]) ?job 2 ?w") auto
  then have "sent = [[65], [66]]"
    by (auto simp: run_stream_def proxy_stream_def ex_upstream_def Let_def)
  moreover have "queue_has_room ?w" "queued ?w = []"
    by (simp_all add: queue_has_room_def queued_def ex_run_defs)
  moreover from this stream_archive_is_prefix [OF run, of _ "[]"] obtain p where
    "queued w' = [Archive_Item p]"
    "json_get (ar_response p) (lit ''content'') JNull = JStr (lb_decode ex_libs (take 100 (concat sent)))"
    by (auto simp: ex_app_def Let_def)
  ultimately show ?thesis using run by blast
qed

text \<open>The event reader gives back the text of the streamed blocking answer, for every JSON
  codec that keeps an event on one line.\<close>

theorem fake_stream_round_trip:
  assumes "\<forall>p\<in>set (fake_payloads hex8 now content model). event_codec loads dumps p"
  shows "extract_sse_message_content loads (concat (stream_fake_chunks dumps hex8 now content model)) = content"
  using assms by (rule fake_stream_read_back)

theorem fake_stream_round_trip_witness:
  "extract_sse_message_content
     (\<lambda>s. if s = [49] then Some (chunk_payload (lit ''chatcmpl-safetyhub-'') 0 JNull
             (JDict [(lit ''content'', JStr (lit ''ab''))]) JNull)
          else Some (chunk_payload (lit ''chatcmpl-safetyhub-'') 0 JNull (JDict []) (JStr (lit ''stop''))))
     (concat (stream_fake_chunks
       (\<lambda>j. if j = chunk_payload (lit ''chatcmpl-safetyhub-'') 0 JNull
             (JDict [(lit ''content'', JStr (lit ''ab''))]) JNull then [49] else [50])
       [] 0 (lit ''ab'') JNull)) = lit ''ab''"
proof (rule fake_stream_round_trip)
  have payloads: "fake_payloads [] 0 (lit ''ab'') JNull =
    [chunk_payload (lit ''chatcmpl-safetyhub-'') 0 JNull (JDict [(lit ''content'', JStr (lit ''ab''))]) JNull,
     chunk_payload (lit ''chatcmpl-safetyhub-'') 0 JNull (JDict []) (JStr (lit ''stop''))]"
    by (simp add: fake_payloads_def Let_def lit_def [of "''ab''"])
  have line: "clean_line [49]" "clean_line [50]" "strip [49] = [49]" "strip [50] = [50]"
    "[49] \<noteq> lit ''[DONE]''" "[50] \<noteq> lit ''[DONE]''" by code_simp+
  show "\<forall>p\<in>set (fake_payloads [] 0 (lit ''ab'') JNull). event_codec
     (\<lambda>s. if s = [49] then Some (chunk_payload (lit ''chatcmpl-safetyhub-'') 0 JNull
             (JDict [(lit ''content'', JStr (lit ''ab''))]) JNull)
          else Some (chunk_payload (lit ''chatcmpl-safetyhub-'') 0 JNull (JDict []) (JStr (lit ''stop''))))
     (\<lambda>j. if j = chunk_payload (lit ''chatcmpl-safetyhub-'') 0 JNull
             (JDict [(lit ''content'', JStr (lit ''ab''))]) JNull then [49] else [50]) p"
    unfolding payloads using line by (simp add: event_codec_def chunk_payload_def)
qed

section \<open>Texts\<close>

text \<open>The phone patterns applied to any text leave no mainland mobile number: the first
  pattern finds nothing in the result, not even across the masks the second one wrote.\<close>

theorem desensitized_text_has_no_phone:
  "finditer phone_cn (desensitize_text PHONE_PATTERNS t) = []"
  by (rule cn_free_no_match) (rule desensitize_cn_free)

section \<open>API keys and identities\<close>

text \<open>C16. In every state of the key table the service can reach, ids and hashes are unique, and a
  key is either active without a revocation date or revoked with one.\<close>

theorem key_table_invariant:
  assumes "key_reachable c t"
  shows "distinct (map ak_id t) \<and> distinct (map ak_key_hash t) \<and>
    (\<forall>r\<in>set t. ak_status r \<in> {lit ''active'', lit ''revoked''} \<and>
       (ak_status r = lit ''revoked'' \<longleftrightarrow> ak_revoked_at r \<noteq> None))"
  using key_reachable_ok [OF assms] unfolding keys_ok_def row_ok_def .

theorem key_table_invariant_witness:
  "distinct (map ak_id ex_keys) \<and> ak_status ex_key \<in> {lit ''active'', lit ''revoked''}"
proof -
  have "ex_key \<in> set ex_keys" by (simp add: ex_keys_eq(1))
  with key_table_invariant [OF ex_reachable] show ?thesis by blast
qed

text \<open>C17. A revoked key is never active again: after any step of the service its row is gone or
  still revoked, with the same hash.\<close>

theorem revocation_is_permanent:
  assumes "key_step c t t'" "get_key t i = Some r" "ak_status r = lit ''revoked''"
  shows "get_key t' i = None \<or>
    (\<exists>r'. get_key t' i = Some r' \<and> ak_status r' = lit ''revoked'' \<and> ak_key_hash r' = ak_key_hash r)"
  using assms by (rule revoked_step)

theorem revocation_is_permanent_witness:
  "get_key (fst (delete_revoked [mark_revoked 3 ex_key] (ak_id ex_key))) (ak_id ex_key) = None \<or>
   (\<exists>r'. get_key (fst (delete_revoked [mark_revoked 3 ex_key] (ak_id ex_key))) (ak_id ex_key) = Some r' \<and>
      ak_status r' = lit ''revoked'' \<and> ak_key_hash r' = ak_key_hash (mark_revoked 3 ex_key))"
  by (rule revocation_is_permanent [where c = ex_crypto, OF S_delete])
    (simp_all add: get_key_def tbl_get_def)

text \<open>A key that was revoked is refused from then on, however it is presented.\<close>

theorem revoked_key_unauthorized:
  assumes "keys_ok (between t)" "revoke_key now provider between t i = (t', calls, Inr (Some r'))"
    and "hash_api_key c (extract_bearer_key h) = ak_key_hash r'"
  shows "\<exists>d. check_key c t' later h = Unauthorized d"
proof -
  from revoke_key_success [OF assms(2)] have t': "t' = tbl_update ak_id i (mark_revoked now) (between t)"
    and r': "get_key t' i = Some r'" by auto
  then obtain r where r: "get_key (between t) i = Some r" "r' = mark_revoked now r"
    by (auto simp: get_key_update)
  from revoked_key_rejected [OF assms(1) r(1) _ t'] assms(3) r(2) show ?thesis by simp
qed

theorem revoked_key_unauthorized_witness:
  "\<exists>t' calls r'. revoke_key 9 None id ex_keys (lit ''ak_01'') = (t', calls, Inr (Some r')) \<and>
    (\<exists>d. check_key ex_crypto t' 10 (lit ''Bearer sk-sh-token'') = Unauthorized d)"
proof -
  have rev: "revoke_key 9 None id ex_keys (lit ''ak_01'') =
      ([mark_revoked 9 ex_key], [], Inr (Some (mark_revoked 9 ex_key)))"
    by code_simp
  have "hash_api_key ex_crypto (extract_bearer_key (lit ''Bearer sk-sh-token'')) = ak_key_hash (mark_revoked 9 ex_key)"
    by code_simp
  from revoked_key_unauthorized [OF _ rev this] key_reachable_ok [OF ex_reachable] rev show ?thesis
    by auto
qed

text \<open>C25. A key the service creates authenticates, whichever way it was made. The row stores,
  encrypted, a SafetyHub key and the upstream key: the caller's, or in provider mode the secret the
  provider issued; with \<open>reuse_upstream_key\<close> the two are the same key. Presented as a bearer token
  before it expires, the SafetyHub key gives an identity with the row's id and the upstream key; the
  caller is shown it unless it is the key the caller sent. The one exception is a reused provider
  secret of white space only, which no bearer token can carry. The cipher is one that inverts.\<close>

theorem created_key_authenticates:
  assumes "create_key c dr provider t payload = (t', calls, Inr (r, shown))"
    and "\<And>s. dec c (enc c s) = Some s" "case ac_expires_at payload of Some e \<Rightarrow> now < e | None \<Rightarrow> True"
  shows "\<exists>k u. decrypt_safetyhub_key c r = Inr k \<and> upstream_key_for provider payload u \<and>
    (ac_reuse_upstream_key payload \<longrightarrow> k = u) \<and>
    shown = (if ac_reuse_upstream_key payload \<and> ac_create_mode payload \<noteq> lit ''provider'' then None else Some k) \<and>
    ((\<exists>ident. check_key c t' now (lit ''Bearer '' @ k) = Call_Next (Some ident) \<and>
        ri_api_key_id ident = ak_id r \<and> ri_upstream_api_key ident = u) \<or>
     strip k = [] \<and> ac_reuse_upstream_key payload \<and> ac_create_mode payload = lit ''provider'')"
proof -
  from assms(1) obtain payload' u sk i reveal where m:
    "create_record c dr t payload' u sk i reveal = (t', Inr (r, shown))"
    "upstream_key_for provider payload u" "ac_expires_at payload' = ac_expires_at payload"
    "sk = (if ac_reuse_upstream_key payload then Some u else None)"
    "ac_reuse_upstream_key payload' = ac_reuse_upstream_key payload"
    "reveal = (if ac_create_mode payload = lit ''provider'' \<or> \<not> ac_reuse_upstream_key payload then Some True else None)"
    by (rule create_key_made)
  from created_key_passes [OF m(1) assms(2)] assms(3) m(3) obtain k where k: "decrypt_safetyhub_key c r = Inr k"
    "shown = (if (case reveal of Some b \<Rightarrow> b | None \<Rightarrow> \<not> ac_reuse_upstream_key payload') then Some k else None)"
    "sk = Some k \<or> strip k \<noteq> [] \<and> (sk = None \<or> sk = Some [])"
    "strip k \<noteq> [] \<Longrightarrow> \<exists>ident. check_key c t' now (lit ''Bearer '' @ k) = Call_Next (Some ident) \<and>
       ri_api_key_id ident = ak_id r \<and> ri_upstream_api_key ident = u" by metis
  from m(2) have u: "u \<noteq> []" "ac_create_mode payload \<noteq> lit ''provider'' \<Longrightarrow> strip u = u"
    by (auto simp: upstream_key_for_def)
  from k(3) m(4) u(1) have "ac_reuse_upstream_key payload \<Longrightarrow> k = u" "\<not> ac_reuse_upstream_key payload \<Longrightarrow> strip k \<noteq> []"
    by auto
  with k m(2,5,6) u show ?thesis by (intro exI [of _ k] exI [of _ u]) auto
qed

theorem created_key_authenticates_witness:
  "\<exists>t' r ident. create_key ex_crypto ex_draws None [] (ex_create\<lparr>ac_reuse_upstream_key := True\<rparr>) = (t', [], Inr (r, None)) \<and>
    check_key ex_crypto t' 6 (lit ''Bearer '' @ lit ''upstream-key'') = Call_Next (Some ident) \<and>
    ri_api_key_id ident = ak_id r \<and> ri_upstream_api_key ident = lit ''upstream-key''"
proof -
  let ?p = "ex_create\<lparr>ac_reuse_upstream_key := True\<rparr>"
  have "\<not> isl (snd (snd (create_key ex_crypto ex_draws None [] ?p)))" "fst (snd (create_key ex_crypto ex_draws None [] ?p)) = []"
    by code_simp+
  then obtain t' r shown where made: "create_key ex_crypto ex_draws None [] ?p = (t', [], Inr (r, shown))"
    by (metis isl_def prod.collapse sum.collapse(2))
  have u: "strip (lit ''upstream-key'') = lit ''upstream-key''" by code_simp
  have inverts: "dec ex_crypto (enc ex_crypto s) = Some s" for s by (simp add: ex_crypto_def)
  have fields: "ac_create_mode ?p \<noteq> lit ''provider''" "ac_reuse_upstream_key ?p" "ac_expires_at ?p = None"
    "strip (ac_upstream_key ?p) = lit ''upstream-key''"
    using u by (simp_all add: ex_create_def)
  from created_key_authenticates [OF made inverts, of 6] fields obtain ident where "shown = None"
    "check_key ex_crypto t' 6 (lit ''Bearer '' @ lit ''upstream-key'') = Call_Next (Some ident)"
    "ri_api_key_id ident = ak_id r" "ri_upstream_api_key ident = lit ''upstream-key''"
    by (auto simp: upstream_key_for_def)
  with made show ?thesis by blast
qed

text \<open>C28. A key the provider issued is not left behind when it cannot be recorded: whenever the
  creation fails the table is unchanged, and if the provider had answered with a secret of eight
  characters or more and a key id, the only call after the creation revokes that key. After an
  answer without a usable secret nothing is revoked: that is all the code promises there.\<close>

theorem provider_key_compensated:
  assumes "create_from_provider c dr (Some p) t payload = (t', calls, Inl e)"
  shows "t' = t \<and> calls = Call_Create (provider_params payload) #
    (case pv_create p (provider_params payload) of
       Inl e' \<Rightarrow> []
     | Inr info \<Rightarrow> if usable_secret info \<and> ki_key_id info \<noteq> [] then [Call_Revoke (ki_key_id info)] else [])"
  using assms by (rule create_from_provider_failed)

theorem provider_key_compensated_witness:
  "\<exists>e. create_from_provider ex_crypto ex_draws (Some ex_provider) ex_keys ex_create =
    (ex_keys, [Call_Create (provider_params ex_create), Call_Revoke (lit ''7'')], Inl e)"
proof -
  have "isl (snd (snd (create_from_provider ex_crypto ex_draws (Some ex_provider) ex_keys ex_create)))"
    by code_simp
  then obtain t' calls e where
    eq: "create_from_provider ex_crypto ex_draws (Some ex_provider) ex_keys ex_create = (t', calls, Inl e)"
    by (cases "create_from_provider ex_crypto ex_draws (Some ex_provider) ex_keys ex_create") (auto simp: isl_def)
  from provider_key_compensated [OF eq] eq show ?thesis
    by (auto simp: ex_provider_def usable_secret_def)
qed

text \<open>C6. A request under \<open>/v1/\<close> that reaches the proxy with an identity of its own holds an
  active key, whose upstream key the identity carries; without one, there was no key in the table
  at most the cache's duration ago and the configuration lets such requests through.\<close>

theorem identity_is_authenticated:
  assumes "dispatch c allow_empty (hist now) rq cache = (cache', Call_Next (Some ident))"
    and "now = iq_monotonic rq" "cache_ok hist now cache"
  shows "(allow_empty \<and> ident = anonymous \<and>
      (\<exists>s\<le>now. now - s \<le> max 0 (cc_seconds cache) \<and> hist s = [])) \<or>
    (\<exists>k\<in>set (hist now). is_record_active k (iq_now rq) \<and> ri_api_key_id ident = ak_id k \<and>
      ri_user_id ident = ak_owner_user_id k \<and>
      ak_key_hash k = hash_api_key c (extract_bearer_key (iq_authorization rq)) \<and>
      decrypt_upstream_key c k = Inr (ri_upstream_api_key ident))"
proof -
  from api_key_count_ok(2) [OF assms(3)] obtain s where s: "s \<le> now" "now - s \<le> max 0 (cc_seconds cache)"
    "snd (api_key_count now (hist now) cache) = count_keys (hist s)" by blast
  from assms(1,2) consider "allow_empty" "ident = anonymous" "count_keys (hist s) = 0"
    | "check_key c (hist now) (iq_now rq) (iq_authorization rq) = Call_Next (Some ident)"
    using s(3) by (auto simp: dispatch_def Let_def split: if_splits prod.splits)
  then show ?thesis
  proof cases
    case 1
    with s show ?thesis by (auto simp: count_keys_def)
  next
    case 2
    then show ?thesis by (elim check_key_pass) blast
  qed
qed

theorem identity_is_authenticated_witness:
  "\<exists>cache' ident. dispatch ex_crypto True [] \<lparr>iq_path = lit ''/v1/models'', iq_authorization = [],
      iq_monotonic = 4, iq_now = 4\<rparr> (new_cache 5) = (cache', Call_Next (Some ident)) \<and> ident = anonymous"
proof -
  let ?rq = "\<lparr>iq_path = lit ''/v1/models'', iq_authorization = [], iq_monotonic = 4, iq_now = 4\<rparr>"
  have "snd (dispatch ex_crypto True [] ?rq (new_cache 5)) = Call_Next (Some anonymous)"
    by code_simp
  then obtain cache' where eq: "dispatch ex_crypto True ((\<lambda>_. []) (4::int)) ?rq (new_cache 5) =
      (cache', Call_Next (Some anonymous))"
    by (cases "dispatch ex_crypto True [] ?rq (new_cache 5)") simp
  from identity_is_authenticated [where hist = "\<lambda>_. []", OF eq] eq show ?thesis by auto
qed

section \<open>Bounded resources\<close>

text \<open>C14. Whatever arrives, times out, is cancelled or finishes: the requests in flight are at most
  the limit, the ones waiting at most the queue size, the counters say exactly how many there are,
  and no request is in two places.\<close>

theorem limiter_bounds:
  assumes "limiter_reachable lm"
  shows "lm_inflight lm = int (length (lm_active lm)) \<and> lm_inflight lm \<le> lm_max_inflight lm \<and>
    lm_queued lm = int (length (lm_waiting lm) + length (lm_woken lm)) \<and>
    lm_queued lm \<le> lm_max_queue_size lm \<and> distinct (lm_waiting lm @ lm_woken lm @ lm_active lm)"
  using limiter_reachable_inv [OF assms] by (simp add: limiter_inv_def requests_def)

theorem limiter_bounds_witness:
  "lm_inflight (fst (arrive 7 0 (new_limiter 1 1 1))) \<le> 1"
proof -
  have "limiter_step (new_limiter 1 1 1) (E_arrive 7 0 (snd (arrive 7 0 (new_limiter 1 1 1))))
      (fst (arrive 7 0 (new_limiter 1 1 1)))"
    by (rule L_arrive) (simp_all add: requests_def new_limiter_def)
  from limiter_bounds [OF LR_step [OF LR_init this]] show ?thesis
    by (simp add: arrive_def new_limiter_def take_slot_def Let_def)
qed

text \<open>C15. The archive queue never loses order or count: in every reachable run what was accepted is
  what the worker is done with, then its batch, then the queue; the queue is within its bound, the
  batch within its size, every offer is accepted or counted as dropped, the number
  \<open>Queue.join\<close> waits for is the number of items not done, and \<open>processed\<close> counts the items done except
  those of failed writes and the archives taken while captures are off.\<close>

theorem archive_queue_invariant:
  assumes "queue_reachable r"
  shows "rn_accepted r = rn_done r @ qu_batch (rn_queue r) @ ff_items (qu_queue (rn_queue r)) \<and>
    length (ff_items (qu_queue (rn_queue r))) \<le> ff_max (qu_queue (rn_queue r)) \<and>
    length (qu_batch (rn_queue r)) \<le> qu_batch_size (rn_queue r) \<and>
    rn_offered r = length (rn_accepted r) + qu_dropped (rn_queue r) \<and>
    qu_processed (rn_queue r) + length (rn_skipped r) = length (rn_done r) \<and>
    qu_unfinished (rn_queue r) = length (rn_accepted r) - length (rn_done r)"
  using queue_reachable_inv [OF assms] by (simp add: queue_inv_def Let_def)

theorem archive_queue_invariant_witness:
  "qu_processed (rn_queue ex_drained) + length (rn_skipped ex_drained) = 1 \<and>
   rn_accepted ex_drained = [Audit_Item ex_audit] \<and> qu_unfinished (rn_queue ex_drained) = 0"
  using archive_queue_invariant [OF worker_steps_reachable [OF ex_drained_steps ex_offered_reachable]]
  by (simp add: ex_drained_def) (simp add: ex_run_defs)

text \<open>C31. \<open>stop\<close> returns and loses nothing: from any reachable state with a live worker task, \<open>stop\<close>
  called or not, and with nothing more offered, the worker takes only so many steps (two for each
  queued item, one for its batch, one to begin); where it can take no further one, whether it waits
  for an item or has returned, every accepted item is done, \<open>Queue.join\<close> returns and the cancellation
  of \<open>stop\<close> ends the task.\<close>

theorem archive_queue_drains:
  assumes "queue_reachable r" "worker_alive (rn_queue r)"
  shows "(\<forall>n r'. (worker_step ^^ n) r r' \<longrightarrow> n \<le> 2 * length (ff_items (qu_queue (rn_queue r))) + 2) \<and>
    (\<forall>r'. worker_step\<^sup>*\<^sup>* r r' \<and> (\<nexists>r''. worker_step r' r'') \<longrightarrow>
       qu_unfinished (rn_queue r') = 0 \<and> rn_done r' = rn_accepted r \<and>
       (\<exists>q'. stop_finish (rn_queue r') = Some q' \<and> \<not> worker_alive q'))"
proof (intro conjI allI impI)
  fix n r' assume "(worker_step ^^ n) r r'"
  from worker_steps_bounded [OF this]
  show "n \<le> 2 * length (ff_items (qu_queue (rn_queue r))) + 2"
    by (simp add: worker_measure_def split: if_splits)
qed (use stuck_worker_is_done queue_reachable_inv [OF assms(1)] assms(2) in \<open>auto simp: drains_def\<close>)

theorem archive_queue_drains_witness:
  "rn_done ex_drained = [Audit_Item ex_audit] \<and> qu_unfinished (rn_queue ex_drained) = 0"
proof -
  have "worker_alive (rn_queue ex_offered)" by (simp add: ex_run_defs)
  from archive_queue_drains [OF ex_offered_reachable this] ex_drained_steps ex_drained_stuck
  have "rn_done ex_drained = rn_accepted ex_offered \<and> qu_unfinished (rn_queue ex_drained) = 0" by blast
  then show ?thesis by (simp add: ex_offered_def)
qed

section \<open>Training data\<close>

text \<open>C32. A training row comes only from a chat request that was passed or desensitised and not
  blocked, with a complete answer: the archived response is a JSON object that is not marked as
  truncated, and the row's answer, which is not empty, is the text read from the stream or the content
  of the first choice. For an archived stream this means that every byte the client received fits the
  archive's limit. The row stores the prompt that was relayed and the trajectory of both, and the
  original prompt has no influence on it whenever a relayed one was archived.\<close>

theorem training_row_from_relayed_chat:
  assumes "conversation_from_payload cd days now u p = Some c"
  shows "ar_capability p = lit ''chat'' \<and> ar_action_taken p \<in> {lit ''passed'', lit ''desensitized''} \<and>
    \<not> ar_is_blocked p \<and> tc_assistant_response c \<noteq> [] \<and>
    (\<exists>r. loads_json cd (ar_response p) = JDict r \<and> \<not> truthy (get_or r (lit ''truncated'') JNull) \<and>
       answer_in cd r (tc_assistant_response c)) \<and>
    (\<forall>decode loads n sent. ar_response p = collector_payload decode loads (collect_all n sent) \<longrightarrow>
       length (concat sent) \<le> nat (max 1 n) \<and>
       (extract_sse_message_content loads (decode (concat sent)) \<noteq> [] \<longrightarrow>
          tc_assistant_response c = normalize_text (extract_sse_message_content loads (decode (concat sent))))) \<and>
    (\<exists>messages. messages = normalize_messages cd
        (if ar_prompt_desensitized p \<noteq> JNull then ar_prompt_desensitized p else ar_prompt_original p) \<and>
      tc_messages c = cd_dumps cd (JList messages) \<and>
      tc_trajectory c = cd_dumps cd (JList (messages @
        [JDict [(lit ''role'', JStr (lit ''assistant'')), (lit ''content'', JStr (tc_assistant_response c))]]))) \<and>
    (ar_prompt_desensitized p \<noteq> JNull \<longrightarrow>
       (\<forall>original. conversation_from_payload cd days now u (p\<lparr>ar_prompt_original := original\<rparr>) = Some c))"
proof -
  from assms have a: "tc_assistant_response c = extract_assistant_response cd (ar_response p)"
    "extract_assistant_response cd (ar_response p) \<noteq> []"
    by (auto simp: conversation_from_payload_def Let_def split: if_splits)
  from assms have "ar_capability p = lit ''chat''" "ar_action_taken p \<in> {lit ''passed'', lit ''desensitized''}"
    "\<not> ar_is_blocked p" "\<exists>messages. messages = normalize_messages cd
        (if ar_prompt_desensitized p \<noteq> JNull then ar_prompt_desensitized p else ar_prompt_original p) \<and>
      tc_messages c = cd_dumps cd (JList messages) \<and>
      tc_trajectory c = cd_dumps cd (JList (messages @
        [JDict [(lit ''role'', JStr (lit ''assistant'')), (lit ''content'', JStr (tc_assistant_response c))]]))"
    "ar_prompt_desensitized p \<noteq> JNull \<Longrightarrow>
       conversation_from_payload cd days now u (p\<lparr>ar_prompt_original := original\<rparr>) = Some c" for original
    by (auto simp: conversation_from_payload_def is_training_candidate_def append_assistant_message_def
        Let_def split: if_splits)
  moreover from extract_assistant_answer [OF a(2)] a(1) have
    "\<exists>r. loads_json cd (ar_response p) = JDict r \<and> \<not> truthy (get_or r (lit ''truncated'') JNull) \<and>
       answer_in cd r (tc_assistant_response c)" by simp
  moreover have "\<forall>decode loads n sent. ar_response p = collector_payload decode loads (collect_all n sent) \<longrightarrow>
       length (concat sent) \<le> nat (max 1 n) \<and>
       (extract_sse_message_content loads (decode (concat sent)) \<noteq> [] \<longrightarrow>
          tc_assistant_response c = normalize_text (extract_sse_message_content loads (decode (concat sent))))"
    using a extract_stream_answer by metis
  moreover from a have "tc_assistant_response c \<noteq> []" by simp
  ultimately show ?thesis by blast
qed

theorem training_row_from_relayed_chat_witness:
  "\<exists>c. (\<forall>original. conversation_from_payload ex_codec 180 0 (lit ''c'') (ex_archive\<lparr>ar_prompt_original := original\<rparr>) = Some c) \<and>
    tc_assistant_response c \<noteq> [] \<and> (\<exists>r. ar_response ex_archive = JDict r \<and> answer_in ex_codec r (tc_assistant_response c))"
proof -
  have "conversation_from_payload ex_codec 180 0 (lit ''c'') ex_archive \<noteq> None"
    by code_simp
  then obtain c where "conversation_from_payload ex_codec 180 0 (lit ''c'') ex_archive = Some c" by blast
  from training_row_from_relayed_chat [OF this] show ?thesis
    by (intro exI [of _ c]) (auto simp: ex_archive_def loads_json_def)
qed

text \<open>C33. Coverage analysis: it looks at no more rows than its limit, changes nothing in the table
  but the coverage and analysis fields, and marks a row as covered only by a later conversation of
  the same user and key whose trajectory properly extends the row's; unless the last commit failed,
  the count it reports is the number of rows newly covered.\<close>

theorem coverage_marks_justified:
  assumes "execute_coverage_job env cfg t = (s, status)"
    and "distinct (map tc_id t)" "\<forall>r\<in>set t. tc_conversation_id r \<noteq> []"
  shows "cs_processed s \<le> max 0 (co_max_records cfg) \<and>
    list_all2 (\<lambda>r r'. row_frame r' = row_frame r \<and>
      (tc_covered_by r' = tc_covered_by r \<or>
       tc_covered_by r = [] \<and> (\<exists>d\<in>set t. tc_covered_by r' = tc_conversation_id d \<and>
         tc_user_id d = tc_user_id r \<and> tc_api_key_id d = tc_api_key_id r \<and> tc_id r < tc_id d \<and>
         is_prefix_trajectory (parse_trajectory (ce_loads env) (tc_trajectory r))
           (parse_trajectory (ce_loads env) (tc_trajectory d))))) t (cs_training s) \<and>
    (status \<noteq> lit ''failed'' \<longrightarrow> covered_count (cs_training s) = covered_count t + cs_marked s)"
proof -
  from execute_coverage_job_inv [OF assms] have "cov_rel (ce_loads env) t (cs_training s)" by blast
  then have "list_all2 (\<lambda>r r'. row_frame r' = row_frame r \<and>
      (tc_covered_by r' = tc_covered_by r \<or>
       tc_covered_by r = [] \<and> (\<exists>d\<in>set t. tc_covered_by r' = tc_conversation_id d \<and>
         tc_user_id d = tc_user_id r \<and> tc_api_key_id d = tc_api_key_id r \<and> tc_id r < tc_id d \<and>
         is_prefix_trajectory (parse_trajectory (ce_loads env) (tc_trajectory r))
           (parse_trajectory (ce_loads env) (tc_trajectory d))))) t (cs_training s)"
    by (rule list_all2_mono) (auto simp: cov_row_def covers_def)
  with execute_coverage_job_inv [OF assms] show ?thesis by blast
qed

theorem coverage_marks_justified_witness:
  "\<exists>s status. execute_coverage_job ex_coverage_env ex_coverage_config ex_table = (s, status) \<and>
    covered_count (cs_training s) = covered_count ex_table + 1 \<and> cs_processed s \<le> 5000"
proof -
  obtain s status where run: "execute_coverage_job ex_coverage_env ex_coverage_config ex_table = (s, status)"
    by fastforce
  have "cs_marked (fst (execute_coverage_job ex_coverage_env ex_coverage_config ex_table)) = 1"
    "snd (execute_coverage_job ex_coverage_env ex_coverage_config ex_table) = lit ''completed''"
    "distinct (map tc_id ex_table)" "list_all (\<lambda>r. tc_conversation_id r \<noteq> []) ex_table"
    "lit ''completed'' \<noteq> lit ''failed''"
    by code_simp+
  with coverage_marks_justified [OF run] run show ?thesis
    by (simp add: list_all_iff ex_coverage_config_def)
qed

text \<open>C34. A retention cleanup deletes only what it was asked for: covered rows when covered ones are
  included, expired rows when expired ones are, audit rows older than the audit retention; it adds
  and changes nothing, and the audit count it reports is what was deleted.\<close>

theorem cleanup_deletes_only_expired:
  assumes "governance_cleanup retention now ic ie ia limit t a = ((t', a'), counts, n)"
    and "distinct (map tc_id t)" "distinct (map al_id a)"
  shows "set t' \<subseteq> set t \<and> set a' \<subseteq> set a \<and>
    (\<forall>c\<in>set t - set t'. ic \<and> tc_covered_by c \<noteq> [] \<or> ie \<and> is_expired now c) \<and>
    (\<forall>r\<in>set a - set a'. ia \<and> al_created_at r \<le> audit_cutoff retention now) \<and>
    length a' + n = length a"
proof -
  from assms(1) obtain k m where tr: "training_cleanup now ic ie limit t = (t', k, m)"
    by (cases counts) (auto simp: governance_cleanup_def Let_def split: prod.splits)
  have a': "a' = (if ia then tbl_delete (\<lambda>r. al_id r \<in> set (expired_audit_ids retention now limit a)) a else a)"
    "n = (if ia then length (expired_audit_ids retention now limit a) else 0)"
    using assms(1) by (auto simp: governance_cleanup_def Let_def tbl_delete_def split: prod.splits if_splits)
  have "set a' \<subseteq> set a \<and> (\<forall>r\<in>set a - set a'. ia \<and> al_created_at r \<le> audit_cutoff retention now) \<and>
    length a' + n = length a"
    using audit_cleanup [OF assms(3) refl, of retention now limit] by (auto simp: a')
  with training_cleanup_deletes [OF tr assms(2)] show ?thesis by blast
qed

theorem cleanup_deletes_only_expired_witness:
  "\<exists>t' a' counts n. governance_cleanup 365 9 False True True 1000 ex_table [] = ((t', a'), counts, n) \<and> n = 0"
proof -
  obtain t' a' counts n where eq: "governance_cleanup 365 9 False True True 1000 ex_table [] = ((t', a'), counts, n)"
    by (metis prod_cases3 surj_pair)
  have "distinct (map tc_id ex_table)" by code_simp
  from cleanup_deletes_only_expired [OF eq this] eq show ?thesis by simp
qed

section \<open>Images\<close>

text \<open>C35. Downloading an image asks for at most five URLs, and each of them, redirects included, has
  an http scheme and a host that is a public address or resolves to public addresses only.\<close>

theorem redirects_stay_public:
  assumes "download_url net max_size url = (urls, r)"
  shows "length urls \<le> 5 \<and> (\<forall>i<length urls. \<exists>scheme h.
    nt_parse net (urls ! i) = (scheme, Some h) \<and> scheme \<in> {lit ''http'', lit ''https''} \<and>
    ((\<exists>a. nt_ip_address net h = Some a \<and> public_ip a) \<or>
     (\<exists>as. nt_resolve net (Suc i) h = Some as \<and> (\<forall>a\<in>set as. public_ip a))))"
proof -
  have "urls = fst (get_with_safe_redirects net 1 5 url) \<or> urls = []"
    using assms by (auto simp: download_url_def split: sum.splits prod.splits)
  then show ?thesis
    using get_with_safe_redirects_bound [of net 1 5 url] redirects_validated [of _ net 1 5 url]
      validate_public_image_url_ok [of net] by (auto simp del: One_nat_def) (metis Suc_eq_plus1_left)+
qed

theorem redirects_stay_public_witness:
  "\<exists>urls r. download_url ex_network 10 (lit ''a'') = (urls, r) \<and> length urls \<le> 5 \<and> length urls = 2"
proof -
  obtain urls r where eq: "download_url ex_network 10 (lit ''a'') = (urls, r)" by fastforce
  have "length (fst (download_url ex_network 10 (lit ''a''))) = 2" by code_simp
  with redirects_stay_public [OF eq] eq show ?thesis by auto
qed

text \<open>A stored image is inside the asset directory when the request id is one plain path
  component.\<close>

theorem asset_stays_inside:
  assumes "archive_source net an request_id source = ([(target, content)], r)"
    and "47 \<notin> set request_id" "request_id \<noteq> lit ''..''"
    and "47 \<notin> set (an_digits an (src_index source))" "an_digits an (src_index source) \<noteq> []"
    and "47 \<notin> set (an_sha an content)"
  shows "inside (an_dir an) target"
proof -
  from assms(1) obtain mime where
    "target = join_path (an_dir an) (asset_path an request_id source content mime)"
    by (auto simp: archive_source_def Let_def split: sum.splits prod.splits if_splits option.splits)
  with asset_path_inside [OF assms(2-4,6,5)] show ?thesis by simp
qed

theorem asset_stays_inside_witness:
  "inside (an_dir ex_archiver) (fst (hd (fst (archive_source ex_network ex_archiver (lit ''req_1'') ex_source))))"
proof -
  let ?r = "archive_source ex_network ex_archiver (lit ''req_1'') ex_source"
  have "map snd (fst ?r) = [[1]]" by code_simp
  then obtain target r where eq: "?r = ([(target, [1])], r)" by (cases ?r) auto
  have "47 \<notin> set (lit ''req_1'')" "lit ''req_1'' \<noteq> lit ''..''"
    "47 \<notin> set (an_digits ex_archiver (src_index ex_source))" "an_digits ex_archiver (src_index ex_source) \<noteq> []"
    "47 \<notin> set (an_sha ex_archiver [1])"
    by code_simp+
  from asset_stays_inside [OF eq this] eq show ?thesis by simp
qed

section \<open>Administration\<close>

text \<open>The session cookie that logging in sets is accepted until it is eight hours old, and then
  no more.\<close>

theorem admin_cookie_round_trip:
  assumes "58 \<notin> set (au_username st)" "au_username st \<noteq> []" "ascii_only (au_username st)"
    and "58 \<notin> set (li_str li issued)" "li_str li issued \<noteq> []" "li_int li (li_str li issued) = Some issued"
    and "\<And>k m. li_hmac li k m \<noteq> [] \<and> ascii_only (li_hmac li k m)"
    and "ad_session_cookie rq = create_admin_session_cookie li issued (au_username st) st"
  shows "admin_user_from_session_cookie li rq st =
    Inr (if ad_now rq \<le> issued + 8 * 60 * 60 then au_username st else [])"
  using session_cookie_accepted [OF assms] by (simp add: ADMIN_SESSION_MAX_AGE_def)

theorem admin_cookie_round_trip_witness:
  "admin_user_from_session_cookie ex_auth_libs
     (ex_admin_request (create_admin_session_cookie ex_auth_libs 42 (lit ''admin'') ex_auth)) ex_auth =
   Inr (lit ''admin'')"
proof -
  have "58 \<notin> set (au_username ex_auth)" "au_username ex_auth \<noteq> []" "ascii_only (au_username ex_auth)"
    "58 \<notin> set (li_str ex_auth_libs 42)" "li_str ex_auth_libs 42 \<noteq> []"
    "li_int ex_auth_libs (li_str ex_auth_libs 42) = Some 42" by code_simp+
  moreover have "li_hmac ex_auth_libs k m \<noteq> [] \<and> ascii_only (li_hmac ex_auth_libs k m)" for k m
    by (rule ex_hmac)
  ultimately show ?thesis
    by (subst admin_cookie_round_trip [where issued = 42]) (simp_all add: ex_admin_request_def ex_auth_def)
qed

text \<open>C13. Whoever the administration lets in comes from a whitelisted address, if there is a
  whitelist, and shows the configured name and password, or a cookie for the configured name that
  is signed with the secret and not older than its age.\<close>

theorem admin_access_controlled:
  assumes "require_admin_access li rq st cr = Inr (Some u)"
  shows "(au_ip_whitelist st \<noteq> [] \<longrightarrow> (\<exists>h. ad_client_host rq = Some h \<and>
      (\<exists>item\<in>set (au_ip_whitelist st). h = item \<or> li_is_ip li h \<and> li_in_network li h item = Some True))) \<and>
    u = au_username st \<and>
    ((\<exists>c. (cr = Some c \<or> credentials_from_authorization li (ad_authorization rq) = Some c) \<and>
        cr_username c = au_username st \<and> cr_password c = au_password st \<and> au_password st \<noteq> []) \<or>
     (\<exists>i s. split_session_cookie (ad_session_cookie rq) =
          (u, i, session_signature li (u @ lit '':'' @ i) st) \<and>
        li_int li i = Some s \<and> ad_now rq \<le> s + ADMIN_SESSION_MAX_AGE))"
proof -
  from assms have ip: "validate_admin_ip li rq (au_ip_whitelist st) = Inr ()"
    and user: "authenticated_admin_user li rq st cr = Inr u"
    by (auto simp: require_admin_access_def admin_check_def rbind_eq_Inr split: if_splits)
  from authenticated_cases [OF user] show ?thesis
  proof
    assume *: "u \<noteq> [] \<and> admin_user_from_session_cookie li rq st = Inr u"
    then obtain i s where "split_session_cookie (ad_session_cookie rq) = (u, i, session_signature li (u @ lit '':'' @ i) st)"
      "u = au_username st" "li_int li i = Some s" "ad_now rq \<le> s + ADMIN_SESSION_MAX_AGE"
      by (auto elim: session_user_signed)
    with validate_admin_ip_ok [OF ip] show ?thesis by blast
  qed (use validate_admin_ip_ok [OF ip] in blast)
qed

theorem admin_access_controlled_witness:
  "\<exists>u. require_admin_access ex_auth_libs
     (ex_admin_request (create_admin_session_cookie ex_auth_libs 42 (lit ''admin'') ex_auth)) ex_auth None = Inr (Some u) \<and>
   u = au_username ex_auth"
proof -
  let ?r = "require_admin_access ex_auth_libs
     (ex_admin_request (create_admin_session_cookie ex_auth_libs 42 (lit ''admin'') ex_auth)) ex_auth None"
  have "(case ?r of Inr (Some u) \<Rightarrow> True | _ \<Rightarrow> False)" by code_simp
  then obtain u where eq: "?r = Inr (Some u)" by (auto split: sum.splits option.splits)
  from admin_access_controlled [OF eq] eq show ?thesis by blast
qed

text \<open>C40. With no password configured logging in is impossible, but the cookies are then signed with
  the application's name: whoever knows that name and the administrator's forges an accepted one.\<close>

theorem empty_password_cookie_forged:
  assumes "au_password st = []" "au_ip_whitelist st = []"
    and "58 \<notin> set (au_username st)" "au_username st \<noteq> []" "ascii_only (au_username st)"
    and "58 \<notin> set (li_str li issued)" "li_str li issued \<noteq> []" "li_int li (li_str li issued) = Some issued"
    and "\<And>k m. li_hmac li k m \<noteq> [] \<and> ascii_only (li_hmac li k m)"
    and "payload = au_username st @ lit '':'' @ li_str li issued"
    and "ad_session_cookie rq = payload @ lit '':'' @ li_hmac li (au_app_name st) payload"
    and "ad_now rq \<le> issued + ADMIN_SESSION_MAX_AGE" "ad_path rq \<notin> set PUBLIC_ADMIN_API_PATHS"
  shows "(\<forall>user password. validate_admin_login user password st = Inr False) \<and>
    require_admin_access li rq st None = Inr (Some (au_username st))"
proof -
  have "ad_session_cookie rq = create_admin_session_cookie li issued (au_username st) st"
    using assms(1,10,11) by (simp add: create_admin_session_cookie_def session_signature_def)
  from session_cookie_accepted [OF assms(3-9) this] assms(12)
  have "admin_user_from_session_cookie li rq st = Inr (au_username st)" by simp
  then show ?thesis
    using assms(1,2,4,13)
    by (simp add: require_admin_access_def admin_check_def validate_admin_ip_def
        authenticated_admin_user_def validate_admin_login_def)
qed

theorem empty_password_cookie_forged_witness:
  "require_admin_access ex_auth_libs
     (ex_admin_request (lit ''admin:42:'' @ li_hmac ex_auth_libs (lit ''LLM-SafetyHub'') (lit ''admin:42'')))
     (ex_auth\<lparr>au_ip_whitelist := []\<rparr>) None = Inr (Some (lit ''admin''))"
proof -
  let ?st = "ex_auth\<lparr>au_ip_whitelist := []\<rparr>"
  let ?rq = "ex_admin_request (lit ''admin:42:'' @ li_hmac ex_auth_libs (lit ''LLM-SafetyHub'') (lit ''admin:42''))"
  have "58 \<notin> set (au_username ?st)" "au_username ?st \<noteq> []" "ascii_only (au_username ?st)"
    "58 \<notin> set (li_str ex_auth_libs 42)" "li_str ex_auth_libs 42 \<noteq> []"
    "li_int ex_auth_libs (li_str ex_auth_libs 42) = Some 42" "au_username ?st = lit ''admin''"
    "lit ''admin:42'' = au_username ?st @ lit '':'' @ li_str ex_auth_libs 42"
    "ad_session_cookie ?rq = lit ''admin:42'' @ lit '':'' @ li_hmac ex_auth_libs (au_app_name ?st) (lit ''admin:42'')"
    "ad_now ?rq \<le> 42 + ADMIN_SESSION_MAX_AGE" "ad_path ?rq \<notin> set PUBLIC_ADMIN_API_PATHS"
    "au_password ?st = []" "au_ip_whitelist ?st = []"
    by code_simp+
  with empty_password_cookie_forged [of ?st ex_auth_libs 42 "lit ''admin:42''" ?rq] ex_hmac show ?thesis by auto
qed

end
